(* ===== verification/Prelude.thy ===== *)
theory Prelude
  imports Main "HOL-Library.Word" "HOL-Library.Signed_Division" "HOL-Library.Char_ord"
    "HOL-Library.List_Lexorder" "HOL-Library.Multiset"
begin

text \<open>
  Shared ground of the development: the machine integers of the orchestrator as \<open>int\<close> and
  \<open>nat\<close> with the wrap-around of the release build written out, the result type of fallible
  code, the \<open>BTreeMap\<close> of the standard library as a strictly sorted association list, the
  decimal printer and parser of the standard library, and the generic list lemmas the
  components use.
\<close>

section \<open>Lemma collections\<close>

named_theorems wrap_simps "wrap-around removed where the value fits the width"
named_theorems book_simps "unfolding of the order book operations"
named_theorems keeps_intro "preservation of the component invariants"

section \<open>Machine integers\<close>

text \<open>
  The binary is built with \<^verbatim>\<open>cargo build --release\<close> and no \<^verbatim>\<open>overflow-checks\<close>, so
  \<open>+\<close>, \<open>-\<close>, \<open>*\<close> and unary minus wrap around at the width of their type, as do the \<open>as\<close> casts.
\<close>

definition i64_min :: int where "i64_min = - (2 ^ 63)"
definition i64_max :: int where "i64_max = 2 ^ 63 - 1"

definition is_i64 :: "int \<Rightarrow> bool" where
  "is_i64 x \<longleftrightarrow> - (2 ^ 63) \<le> x \<and> x < 2 ^ 63"

definition wrap_i64 :: "int \<Rightarrow> int" where
  "wrap_i64 x = (x + 2 ^ 63) mod 2 ^ 64 - 2 ^ 63"

definition u64_add :: "nat \<Rightarrow> nat \<Rightarrow> nat" where
  "u64_add a b = (a + b) mod 2 ^ 64"

definition u64_mul :: "nat \<Rightarrow> nat \<Rightarrow> nat" where
  "u64_mul a b = (a * b) mod 2 ^ 64"

definition u64_saturating_sub :: "nat \<Rightarrow> nat \<Rightarrow> nat" where
  "u64_saturating_sub a b = a - b"

lemma wrap_i64_id [wrap_simps]: "is_i64 x \<Longrightarrow> wrap_i64 x = x"
  by (simp add: wrap_i64_def is_i64_def)

lemma is_i64_wrap [simp]: "is_i64 (wrap_i64 x)"
proof -
  have "0 \<le> (x + 2 ^ 63) mod 2 ^ 64" "(x + 2 ^ 63) mod 2 ^ 64 < 2 ^ 64" by simp_all
  then show ?thesis unfolding wrap_i64_def is_i64_def by simp
qed

lemma wrap_i64_sint: "wrap_i64 x = sint (word_of_int x :: 64 word)"
  by (simp add: wrap_i64_def sint_sbintrunc' signed_take_bit_eq_take_bit_shift take_bit_eq_mod)

lemma wrap_i64_mod: "wrap_i64 x mod 2 ^ 64 = x mod 2 ^ 64"
  unfolding wrap_i64_def by (simp only: mod_diff_left_eq) simp

lemma wrap_i64_cong: "x mod 2 ^ 64 = y mod 2 ^ 64 \<Longrightarrow> wrap_i64 x = wrap_i64 y"
  unfolding wrap_i64_def by (metis mod_add_left_eq)

lemma wrap_i64_uminus_wrap: "wrap_i64 (- wrap_i64 x) = wrap_i64 (- x)"
  by (rule wrap_i64_cong) (metis mod_minus_eq wrap_i64_mod)

lemma u64_add_id [wrap_simps]: "a + b < 2 ^ 64 \<Longrightarrow> u64_add a b = a + b"
  by (simp add: u64_add_def)

lemma u64_mul_id [wrap_simps]: "a * b < 2 ^ 64 \<Longrightarrow> u64_mul a b = a * b"
  by (simp add: u64_mul_def)

lemma u64_add_bound [simp]: "u64_add a b < 2 ^ 64"
  by (simp add: u64_add_def)

text \<open>Rust's integer division truncates towards zero: \<open>sdiv\<close> of \<open>HOL-Library.Signed_Division\<close>.\<close>

lemma sdiv_nonneg: "0 \<le> a \<Longrightarrow> 0 < b \<Longrightarrow> (a :: int) sdiv b = a div b"
  by (cases "a = 0") (simp_all add: signed_divide_int_def)

lemma sdiv_abs_le: "b \<noteq> 0 \<Longrightarrow> \<bar>(a :: int) sdiv b\<bar> \<le> \<bar>a\<bar>"
proof -
  assume "b \<noteq> 0"
  have "nat \<bar>a\<bar> div nat \<bar>b\<bar> \<le> nat \<bar>a\<bar>" by (rule div_le_dividend)
  then have "\<bar>a\<bar> div \<bar>b\<bar> \<le> \<bar>a\<bar>" by (simp add: nat_div_distrib [symmetric])
  moreover have "0 \<le> \<bar>a\<bar> div \<bar>b\<bar>" using \<open>b \<noteq> 0\<close> by (simp add: pos_imp_zdiv_nonneg_iff)
  ultimately show ?thesis
    by (auto simp: signed_divide_int_def abs_mult abs_sgn_eq)
qed

section \<open>Results\<close>

type_synonym 'a result = "string + 'a"

abbreviation Ok :: "'a \<Rightarrow> 'e + 'a" where "Ok \<equiv> Inr"
abbreviation Err :: "'e \<Rightarrow> 'e + 'a" where "Err \<equiv> Inl"

fun result_bind :: "'e + 'a \<Rightarrow> ('a \<Rightarrow> 'e + 'b) \<Rightarrow> 'e + 'b" where
  "result_bind (Inl e) f = Inl e"
| "result_bind (Inr x) f = f x"

lemma result_bind_Ok_iff:
  "result_bind r f = Inr y \<longleftrightarrow> (\<exists>x. r = Inr x \<and> f x = Inr y)"
  by (cases r) auto

lemma result_bind_Err_iff:
  "result_bind r f = Inl e \<longleftrightarrow> r = Inl e \<or> (\<exists>x. r = Inr x \<and> f x = Inl e)"
  by (cases r) auto

lemma case_option_Ok_iff: "(case x of None \<Rightarrow> Err e | Some v \<Rightarrow> f v) = Ok y \<longleftrightarrow> (\<exists>v. x = Some v \<and> f v = Ok y)"
  by (cases x) auto

lemma case_result_Ok_iff: "(case x of Err e \<Rightarrow> Err (g e) | Ok v \<Rightarrow> f v) = Ok y \<longleftrightarrow> (\<exists>v. x = Ok v \<and> f v = Ok y)"
  by (cases x) auto

lemma if_Err_Ok_iff: "(if c then Err e else f) = Ok y \<longleftrightarrow> \<not> c \<and> f = Ok y"
  by auto

lemma map_sum_Ok_iff: "map_sum f g r = Ok y \<longleftrightarrow> (\<exists>x. r = Ok x \<and> y = g x)"
  by (cases r) auto

lemmas ok_iffs = result_bind_Ok_iff case_option_Ok_iff case_result_Ok_iff if_Err_Ok_iff

section \<open>Lists\<close>

text \<open>\<open>Vec::remove(i)\<close> on an index that is in range.\<close>

definition remove_at :: "nat \<Rightarrow> 'a list \<Rightarrow> 'a list" where
  "remove_at i xs = take i xs @ drop (Suc i) xs"

lemma length_remove_at: "i < length xs \<Longrightarrow> length (remove_at i xs) = length xs - 1"
  by (simp add: remove_at_def)

lemma remove_at_append [simp]: "remove_at (length xs) (xs @ y # ys) = xs @ ys"
  by (simp add: remove_at_def)

lemma list_update_append_length [simp]: "(xs @ y # ys)[length xs := z] = xs @ z # ys"
  by simp

lemma filter_eq_self_iff: "filter P xs = xs \<longleftrightarrow> (\<forall>x\<in>set xs. P x)"
  by (induction xs) (auto dest: filter_eq_ConsD simp: filter_id_conv)

text \<open>\<open>iter().position(p)\<close>: the index of the first element that satisfies \<open>p\<close>.\<close>

fun position :: "('a \<Rightarrow> bool) \<Rightarrow> 'a list \<Rightarrow> nat option" where
  "position P [] = None"
| "position P (x # xs) = (if P x then Some 0 else map_option Suc (position P xs))"

lemma position_None_iff: "position P xs = None \<longleftrightarrow> (\<forall>x\<in>set xs. \<not> P x)"
  by (induction xs) auto

lemma position_Some:
  "position P xs = Some i \<Longrightarrow>
    \<exists>ys x zs. xs = ys @ x # zs \<and> length ys = i \<and> P x \<and> (\<forall>y\<in>set ys. \<not> P y)"
proof (induction xs arbitrary: i)
  case Nil
  then show ?case by simp
next
  case (Cons a xs)
  show ?case
  proof (cases "P a")
    case True
    with Cons.prems show ?thesis by (intro exI [of _ "[]"]) auto
  next
    case False
    with Cons.prems obtain j where j: "position P xs = Some j" "i = Suc j" by auto
    from Cons.IH [OF j(1)] obtain ys x zs
      where "xs = ys @ x # zs" "length ys = j" "P x" "\<forall>y\<in>set ys. \<not> P y" by blast
    with False j(2) show ?thesis by (intro exI [of _ "a # ys"]) auto
  qed
qed

section \<open>\<open>BTreeMap\<close>\<close>

text \<open>
  An ordered map is the list of its entries in key order. \<open>bt_ok\<close> is the representation
  invariant; \<open>bt_upsert\<close> is \<open>entry(k).or_insert_with(..)\<close> followed by an update in place,
  \<open>bt_modify\<close> an update through \<open>get_mut\<close>, \<open>bt_retain\<close> is \<open>retain\<close>.
\<close>

type_synonym ('k, 'v) btree = "('k \<times> 'v) list"

definition bt_ok :: "('k::linorder, 'v) btree \<Rightarrow> bool" where
  "bt_ok m \<longleftrightarrow> sorted_wrt (<) (map fst m)"

definition bt_keys :: "('k, 'v) btree \<Rightarrow> 'k list" where
  "bt_keys m = map fst m"

definition bt_values :: "('k, 'v) btree \<Rightarrow> 'v list" where
  "bt_values m = map snd m"

definition bt_get :: "('k, 'v) btree \<Rightarrow> 'k \<Rightarrow> 'v option" where
  "bt_get m k = map_of m k"

fun bt_upsert :: "'k::linorder \<Rightarrow> 'v \<Rightarrow> ('v \<Rightarrow> 'v) \<Rightarrow> ('k, 'v) btree \<Rightarrow> ('k, 'v) btree" where
  "bt_upsert k d f [] = [(k, f d)]"
| "bt_upsert k d f ((a, v) # m) =
     (if k < a then (k, f d) # (a, v) # m
      else if k = a then (a, f v) # m
      else (a, v) # bt_upsert k d f m)"

definition bt_modify :: "'k \<Rightarrow> ('v \<Rightarrow> 'v) \<Rightarrow> ('k, 'v) btree \<Rightarrow> ('k, 'v) btree" where
  "bt_modify k f m = map (\<lambda>(a, v). (a, if a = k then f v else v)) m"

definition bt_retain :: "('v \<Rightarrow> bool) \<Rightarrow> ('k, 'v) btree \<Rightarrow> ('k, 'v) btree" where
  "bt_retain P m = filter (\<lambda>(a, v). P v) m"

definition bt_remove :: "'k \<Rightarrow> ('k, 'v) btree \<Rightarrow> ('k, 'v) btree" where
  "bt_remove k m = filter (\<lambda>(a, v). a \<noteq> k) m"

locale ordered_map =
  fixes ok :: "'m \<Rightarrow> bool"
    and get :: "'m \<Rightarrow> 'k::linorder \<Rightarrow> 'v option"
    and keys :: "'m \<Rightarrow> 'k list"
    and upsert :: "'k \<Rightarrow> 'v \<Rightarrow> ('v \<Rightarrow> 'v) \<Rightarrow> 'm \<Rightarrow> 'm"
    and modify :: "'k \<Rightarrow> ('v \<Rightarrow> 'v) \<Rightarrow> 'm \<Rightarrow> 'm"
    and retain :: "('v \<Rightarrow> bool) \<Rightarrow> 'm \<Rightarrow> 'm"
  assumes keys_sorted: "ok m \<Longrightarrow> sorted_wrt (<) (keys m)"
    and get_keys: "ok m \<Longrightarrow> (k \<in> set (keys m)) = (get m k \<noteq> None)"
    and upsert_ok: "ok m \<Longrightarrow> ok (upsert k d f m)"
    and get_upsert: "ok m \<Longrightarrow> get (upsert k d f m) =
          (get m)(k \<mapsto> f (case get m k of None \<Rightarrow> d | Some v \<Rightarrow> v))"
    and modify_ok: "ok m \<Longrightarrow> ok (modify k f m)"
    and get_modify: "ok m \<Longrightarrow> get (modify k f m) = (get m)(k := map_option f (get m k))"
    and retain_ok: "ok m \<Longrightarrow> ok (retain P m)"
    and get_retain: "ok m \<Longrightarrow> get (retain P m) k =
          (case get m k of None \<Rightarrow> None | Some v \<Rightarrow> if P v then Some v else None)"
begin

lemma keys_distinct: "ok m \<Longrightarrow> distinct (keys m)"
  using keys_sorted strict_sorted_iff by blast

lemma set_keys_upsert: "ok m \<Longrightarrow> set (keys (upsert k d f m)) = insert k (set (keys m))"
  by (auto simp: get_keys upsert_ok get_upsert split: if_splits)

lemma set_keys_modify: "ok m \<Longrightarrow> set (keys (modify k f m)) = set (keys m)"
  by (auto simp: get_keys modify_ok get_modify split: if_splits)

lemma retain_all:
  "ok m \<Longrightarrow> get (retain P m) k = Some v \<Longrightarrow> P v \<and> get m k = Some v"
  by (auto simp: get_retain split: option.splits if_splits)

end

lemma bt_ok_Nil [simp]: "bt_ok []"
  by (simp add: bt_ok_def)

lemma bt_ok_Cons: "bt_ok ((a, v) # m) \<longleftrightarrow> (\<forall>x\<in>set m. a < fst x) \<and> bt_ok m"
  by (auto simp: bt_ok_def)

lemma bt_ok_distinct: "bt_ok m \<Longrightarrow> distinct (map fst m)"
  by (simp add: bt_ok_def strict_sorted_iff)

lemma fst_set_bt_upsert: "fst ` set (bt_upsert k d f m) = insert k (fst ` set m)"
  by (induction k d f m rule: bt_upsert.induct) auto

lemma bt_upsert_ok: "bt_ok m \<Longrightarrow> bt_ok (bt_upsert k d f m)"
proof (induction k d f m rule: bt_upsert.induct)
  case (2 k d f a v m)
  have "x \<in> set (bt_upsert k d f m) \<Longrightarrow> fst x = k \<or> fst x \<in> fst ` set m" for x
    using fst_set_bt_upsert [of k d f m] by (metis image_eqI insertE)
  with 2 show ?case by (fastforce simp: bt_ok_Cons)
qed (simp add: bt_ok_def)

lemma bt_get_upsert:
  "bt_ok m \<Longrightarrow> bt_get (bt_upsert k d f m) =
     (bt_get m)(k \<mapsto> f (case bt_get m k of None \<Rightarrow> d | Some v \<Rightarrow> v))"
proof (induction k d f m rule: bt_upsert.induct)
  case (2 k d f a v m)
  have "k < a \<Longrightarrow> map_of m k = None"
    using "2.prems" by (force simp: bt_ok_Cons map_of_eq_None_iff)
  with 2 show ?case by (auto simp: bt_get_def bt_ok_Cons fun_eq_iff)
qed (simp add: bt_get_def fun_eq_iff)

lemma map_of_modify: "map_of (bt_modify k f m) = (map_of m)(k := map_option f (map_of m k))"
  by (induction m) (auto simp: bt_modify_def fun_eq_iff)

lemma map_fst_bt_modify [simp]: "map fst (bt_modify k f m) = map fst m"
  by (simp add: bt_modify_def case_prod_beta comp_def)

lemma bt_retain_ok: "bt_ok m \<Longrightarrow> bt_ok (bt_retain P m)"
  by (auto simp: bt_ok_def bt_retain_def sorted_wrt_map intro: sorted_wrt_filter)

lemma map_of_retain:
  "distinct (map fst m) \<Longrightarrow> map_of (bt_retain P m) k =
     (case map_of m k of None \<Rightarrow> None | Some v \<Rightarrow> if P v then Some v else None)"
proof (induction m)
  case (Cons e m)
  obtain a v where e: "e = (a, v)" by (cases e)
  have "k = a \<Longrightarrow> map_of m k = None"
    using Cons.prems by (force simp: e map_of_eq_None_iff)
  then show ?case using Cons by (auto simp: e bt_retain_def split: option.splits)
qed (simp add: bt_retain_def)

interpretation bt: ordered_map bt_ok bt_get bt_keys bt_upsert bt_modify bt_retain
proof unfold_locales
  fix m :: "('k::linorder, 'v) btree" and k d f P
  assume ok: "bt_ok m"
  show "sorted_wrt (<) (bt_keys m)" using ok by (simp add: bt_ok_def bt_keys_def)
  show "(k \<in> set (bt_keys m)) = (bt_get m k \<noteq> None)"
    by (force simp: bt_keys_def bt_get_def map_of_eq_None_iff)
  show "bt_ok (bt_upsert k d f m)" using ok by (rule bt_upsert_ok)
  show "bt_get (bt_upsert k d f m) =
      (bt_get m)(k \<mapsto> f (case bt_get m k of None \<Rightarrow> d | Some v \<Rightarrow> v))"
    using ok by (rule bt_get_upsert)
  show "bt_ok (bt_modify k f m)" using ok by (simp add: bt_ok_def)
  show "bt_get (bt_modify k f m) = (bt_get m)(k := map_option f (bt_get m k))"
    by (simp add: bt_get_def map_of_modify fun_eq_iff)
  show "bt_ok (bt_retain P m)" using ok by (rule bt_retain_ok)
  show "bt_get (bt_retain P m) k =
      (case bt_get m k of None \<Rightarrow> None | Some v \<Rightarrow> if P v then Some v else None)"
    using ok by (simp add: bt_get_def map_of_retain bt_ok_distinct)
qed

end
