(* ===== verification/Fp8.thy ===== *)
theory Fp8
  imports Prelude
begin

text \<open>
  \<^verbatim>\<open>orchestrator/src/types.rs\<close>: the fixed-point format \<open>FP8\<close> (an \<open>i64\<close> scaled by \<open>10^8\<close>), its
  arithmetic, its decimal printer and parser, and the small enums of the shared types. Strings
  are UTF-8 byte lists; the byte-index slice of the parser is modelled with its panic.
\<close>

section \<open>Decimal numerals of the standard library\<close>

definition digit_char :: "nat \<Rightarrow> char" where
  "digit_char d = char_of (48 + d)"

definition is_ascii_digit :: "char \<Rightarrow> bool" where
  "is_ascii_digit c \<longleftrightarrow> 48 \<le> (of_char c :: nat) \<and> (of_char c :: nat) \<le> 57"

definition digit_val :: "char \<Rightarrow> nat" where
  "digit_val c = of_char c - 48"

text \<open>Printing an unsigned integer (\<open>Display for u64\<close>) and reading a digit string back.\<close>

fun nat_to_dec :: "nat \<Rightarrow> string" where
  "nat_to_dec n =
     (if n < 10 then [digit_char n] else nat_to_dec (n div 10) @ [digit_char (n mod 10)])"

declare nat_to_dec.simps [simp del]

definition dec_val :: "string \<Rightarrow> nat" where
  "dec_val s = foldl (\<lambda>a c. 10 * a + digit_val c) 0 s"

text \<open>\<open>{n:08}\<close>: left padding with zeros to eight characters.\<close>

definition pad_left_zeros :: "nat \<Rightarrow> string \<Rightarrow> string" where
  "pad_left_zeros w s = replicate (w - length s) (CHR ''0'') @ s"

text \<open>\<open>str::parse::<i64>\<close>: an optional sign, then at least one ASCII digit, in range.\<close>

definition parse_i64 :: "string \<Rightarrow> int option" where
  "parse_i64 s =
     (let (neg, ds) = (case s of [] \<Rightarrow> (False, [])
                       | c # cs \<Rightarrow> if c = CHR ''-'' then (True, cs)
                                  else if c = CHR ''+'' then (False, cs) else (False, s));
          v = (if neg then - int (dec_val ds) else int (dec_val ds))
      in if ds \<noteq> [] \<and> list_all is_ascii_digit ds \<and> is_i64 v then Some v else None)"

text \<open>\<open>str::parse::<u64>\<close>: no minus sign.\<close>

definition parse_u64 :: "string \<Rightarrow> nat option" where
  "parse_u64 s =
     (let ds = (case s of [] \<Rightarrow> [] | c # cs \<Rightarrow> if c = CHR ''+'' then cs else s)
      in if ds \<noteq> [] \<and> list_all is_ascii_digit ds \<and> dec_val ds < 2 ^ 64
         then Some (dec_val ds) else None)"

text \<open>
  \<open>str::trim\<close> removes Unicode white space at both ends: the UTF-8 encodings of U+0009-U+000D,
  U+0020, U+0085, U+00A0, U+1680, U+2000-U+200A, U+2028, U+2029, U+202F, U+205F and U+3000.
\<close>

definition ws_tokens :: "string list" where
  "ws_tokens = map (map char_of)
     ([[9], [10], [11], [12], [13], [32], [194, 133], [194, 160], [225, 154, 128]]
      @ map (\<lambda>b. [226, 128, b]) [128, 129, 130, 131, 132, 133, 134, 135, 136, 137, 138]
      @ [[226, 128, 168], [226, 128, 169], [226, 128, 175], [226, 129, 159], [227, 128, 128 :: nat]])"

function strip_tokens :: "string list \<Rightarrow> string \<Rightarrow> string" where
  "strip_tokens ws s =
     (case find (\<lambda>w. w \<noteq> [] \<and> take (length w) s = w) ws of
        None \<Rightarrow> s
      | Some w \<Rightarrow> strip_tokens ws (drop (length w) s))"
  by pat_completeness auto
termination
proof (relation "measure (\<lambda>(ws, s). length s)")
  fix ws :: "string list" and s w
  assume "find (\<lambda>w. w \<noteq> [] \<and> take (length w) s = w) ws = Some w"
  then have "w \<noteq> []" "take (length w) s = w" by (auto simp: find_Some_iff)
  then have "s \<noteq> []" "length w \<noteq> 0" by auto
  then have "length (drop (length w) s) < length s" by (simp add: diff_less)
  then show "((ws, drop (length w) s), (ws, s)) \<in> measure (\<lambda>(ws, s). length s)" by simp
qed simp

declare strip_tokens.simps [simp del]

definition str_trim :: "string \<Rightarrow> string" where
  "str_trim s = rev (strip_tokens (map rev ws_tokens) (rev (strip_tokens ws_tokens s)))"

definition split_once :: "char \<Rightarrow> string \<Rightarrow> (string \<times> string) option" where
  "split_once c s =
     (if c \<in> set s then Some (takeWhile (\<lambda>x. x \<noteq> c) s, tl (dropWhile (\<lambda>x. x \<noteq> c) s)) else None)"

text \<open>\<open>starts_with\<close> and \<open>strip_prefix\<close>.\<close>

definition starts_with :: "string \<Rightarrow> string \<Rightarrow> bool" where
  "starts_with p s \<longleftrightarrow> take (length p) s = p"

definition strip_prefix :: "string \<Rightarrow> string \<Rightarrow> string option" where
  "strip_prefix p s = (if starts_with p s then Some (drop (length p) s) else None)"

lemma starts_with_append [simp]: "starts_with p (p @ s)"
  by (simp add: starts_with_def)

lemma starts_withE: "starts_with p s \<Longrightarrow> \<exists>r. s = p @ r"
  by (metis append_take_drop_id starts_with_def)

lemma strip_prefix_append [simp]: "strip_prefix p (p @ s) = Some s"
  by (simp add: strip_prefix_def)

text \<open>UTF-8: a byte that continues a character, and the number of characters.\<close>

definition is_cont_byte :: "char \<Rightarrow> bool" where
  "is_cont_byte c \<longleftrightarrow> 128 \<le> (of_char c :: nat) \<and> (of_char c :: nat) < 192"

definition char_count :: "string \<Rightarrow> nat" where
  "char_count s = length (filter (\<lambda>c. \<not> is_cont_byte c) s)"

definition is_char_boundary :: "string \<Rightarrow> nat \<Rightarrow> bool" where
  "is_char_boundary s i \<longleftrightarrow> i = length s \<or> (i < length s \<and> \<not> is_cont_byte (s ! i))"

section \<open>The fixed-point type\<close>

datatype fp8 = FP8 (raw: int)

definition FP8_SCALE :: int where "FP8_SCALE = 100000000"

definition fp8_ZERO :: fp8 where "fp8_ZERO = FP8 0"
definition fp8_ONE :: fp8 where "fp8_ONE = FP8 FP8_SCALE"

definition fp8_ok :: "fp8 \<Rightarrow> bool" where "fp8_ok x \<longleftrightarrow> is_i64 (raw x)"

text \<open>\<open>derive(PartialOrd, Ord)\<close>: the order of the raw values.\<close>

instantiation fp8 :: linorder
begin

definition less_eq_fp8 :: "fp8 \<Rightarrow> fp8 \<Rightarrow> bool" where
  "less_eq_fp8 a b \<longleftrightarrow> raw a \<le> raw b"

definition less_fp8 :: "fp8 \<Rightarrow> fp8 \<Rightarrow> bool" where
  "less_fp8 a b \<longleftrightarrow> raw a < raw b"

instance
  by standard (auto simp: less_eq_fp8_def less_fp8_def fp8.expand)

end

definition fp8_abs :: "fp8 \<Rightarrow> fp8" where
  "fp8_abs a = FP8 (wrap_i64 \<bar>raw a\<bar>)"

definition fp8_add :: "fp8 \<Rightarrow> fp8 \<Rightarrow> fp8" where
  "fp8_add a b = FP8 (wrap_i64 (raw a + raw b))"

definition fp8_sub :: "fp8 \<Rightarrow> fp8 \<Rightarrow> fp8" where
  "fp8_sub a b = FP8 (wrap_i64 (raw a - raw b))"

text \<open>The product is computed in \<open>i128\<close> (where it cannot overflow) and cast back.\<close>

definition fp8_mul :: "fp8 \<Rightarrow> fp8 \<Rightarrow> fp8" where
  "fp8_mul a b = FP8 (wrap_i64 ((raw a * raw b) sdiv FP8_SCALE))"

definition fp8_div :: "fp8 \<Rightarrow> fp8 \<Rightarrow> fp8" where
  "fp8_div a b =
     (if raw b = 0 then fp8_ZERO else FP8 (wrap_i64 ((raw a * FP8_SCALE) sdiv raw b)))"

definition fp8_neg :: "fp8 \<Rightarrow> fp8" where
  "fp8_neg a = FP8 (wrap_i64 (- raw a))"

definition fp8_to_string :: "fp8 \<Rightarrow> string" where
  "fp8_to_string a =
     (let sign = (if raw a < 0 then ''-'' else ''''); ab = nat \<bar>raw a\<bar>;
          whole = ab div 100000000; frac = ab mod 100000000
      in sign @ nat_to_dec whole @ ''.'' @ pad_left_zeros 8 (nat_to_dec frac))"

datatype fp8_error = WholeParse | FracParse | SlicePanic

definition fp8_from_str :: "string \<Rightarrow> fp8_error + fp8" where
  "fp8_from_str s0 =
     (let s1 = str_trim s0;
          negative = (s1 \<noteq> [] \<and> hd s1 = CHR ''-'');
          s = dropWhile (\<lambda>c. c = CHR ''-'') s1;
          (whole_str, frac_str) = (case split_once (CHR ''.'') s of
             Some (w, f) \<Rightarrow> (w, f) | None \<Rightarrow> (s, ''''))
      in case (if whole_str = '''' then Some 0 else parse_i64 whole_str) of
           None \<Rightarrow> Err WholeParse
         | Some whole \<Rightarrow>
             let frac_padded = frac_str @ replicate (8 - char_count frac_str) (CHR ''0'')
             in if \<not> is_char_boundary frac_padded 8 then Err SlicePanic
                else case parse_i64 (take 8 frac_padded) of
                       None \<Rightarrow> Err FracParse
                     | Some frac \<Rightarrow>
                         let val = wrap_i64 (wrap_i64 (whole * FP8_SCALE) + frac)
                         in Ok (FP8 (if negative then wrap_i64 (- val) else val)))"

section \<open>Enums and structs\<close>

datatype side = Long | Short

definition side_to_string :: "side \<Rightarrow> string" where
  "side_to_string sd = (case sd of Long \<Rightarrow> ''long'' | Short \<Rightarrow> ''short'')"

definition ascii_lower :: "char \<Rightarrow> char" where
  "ascii_lower c =
     (if 65 \<le> (of_char c :: nat) \<and> (of_char c :: nat) \<le> 90 then char_of (of_char c + 32 :: nat) else c)"

text \<open>
  \<open>to_lowercase\<close> is compared with \<open>long\<close> and \<open>short\<close> only, and no character outside ASCII
  lowercases to one of their letters, so the ASCII mapping decides the same comparisons.
\<close>

definition side_from_str :: "string \<Rightarrow> side result" where
  "side_from_str s =
     (let l = map ascii_lower s
      in if l = ''long'' then Ok Long
         else if l = ''short'' then Ok Short else Err (''invalid side: '' @ s))"

datatype position_status = PosOpen | PosClosed | PosLiquidated

definition position_status_to_string :: "position_status \<Rightarrow> string" where
  "position_status_to_string st =
     (case st of PosOpen \<Rightarrow> ''open'' | PosClosed \<Rightarrow> ''closed'' | PosLiquidated \<Rightarrow> ''liquidated'')"

section \<open>Decimal lemmas\<close>

lemma of_char_digit_char [simp]: "d < 10 \<Longrightarrow> (of_char (digit_char d) :: nat) = 48 + d"
  by (simp add: digit_char_def)

lemma is_ascii_digit_digit_char [simp]: "d < 10 \<Longrightarrow> is_ascii_digit (digit_char d)"
  by (simp add: is_ascii_digit_def)

lemma digit_val_digit_char [simp]: "d < 10 \<Longrightarrow> digit_val (digit_char d) = d"
  by (simp add: digit_val_def)

lemma nat_to_dec_digits [simp]: "list_all is_ascii_digit (nat_to_dec n)"
proof (induction n rule: nat_to_dec.induct)
  case (1 n)
  then show ?case by (subst nat_to_dec.simps) auto
qed

lemma nat_to_dec_nonempty [simp]: "nat_to_dec n \<noteq> []"
  by (subst nat_to_dec.simps) simp

lemma dec_val_append: "dec_val (s @ [c]) = 10 * dec_val s + digit_val c"
  by (simp add: dec_val_def)

lemma dec_val_nat_to_dec [simp]: "dec_val (nat_to_dec n) = n"
proof (induction n rule: nat_to_dec.induct)
  case (1 n)
  show ?case
  proof (cases "n < 10")
    case True
    then show ?thesis by (subst nat_to_dec.simps) (simp add: dec_val_def)
  next
    case False
    then show ?thesis
      by (subst nat_to_dec.simps) (use 1 in \<open>simp add: dec_val_append\<close>)
  qed
qed

lemma dec_val_zeros: "dec_val (replicate k (CHR ''0'') @ s) = dec_val s"
  by (induction k) (simp_all add: dec_val_def digit_val_def)

lemma zeros_are_digits [simp]: "list_all is_ascii_digit (replicate k (CHR ''0''))"
  by (simp add: list_all_iff is_ascii_digit_def)

lemma length_nat_to_dec: "n < 10 ^ Suc k \<Longrightarrow> length (nat_to_dec n) \<le> Suc k"
proof (induction k arbitrary: n)
  case 0
  then show ?case by (subst nat_to_dec.simps) simp
next
  case (Suc k)
  have "n div 10 < 10 ^ Suc k" using Suc.prems by (simp add: div_less_iff_less_mult)
  then have "length (nat_to_dec (n div 10)) \<le> Suc k" by (rule Suc.IH)
  then show ?case by (subst nat_to_dec.simps) simp
qed

lemma digit_not_special:
  "is_ascii_digit c \<Longrightarrow> c \<noteq> CHR ''-'' \<and> c \<noteq> CHR ''+'' \<and> c \<noteq> CHR ''.'' \<and> \<not> is_cont_byte c"
  by (auto simp: is_ascii_digit_def is_cont_byte_def)

lemma parse_i64_digits:
  assumes "ds \<noteq> []" "list_all is_ascii_digit ds"
  shows "parse_i64 ds = (if int (dec_val ds) < 2 ^ 63 then Some (int (dec_val ds)) else None)"
proof (cases ds)
  case (Cons c cs)
  with assms(2) have "c \<noteq> CHR ''-''" "c \<noteq> CHR ''+''" using digit_not_special by auto
  with Cons assms(2) show ?thesis by (simp add: parse_i64_def is_i64_def)
qed (use assms in simp)

lemma parse_i64_range: "parse_i64 s = Some v \<Longrightarrow> is_i64 v"
  by (auto simp: parse_i64_def Let_def split: prod.splits if_splits)

lemma pad_left_zeros_length: "length s \<le> w \<Longrightarrow> length (pad_left_zeros w s) = w"
  by (simp add: pad_left_zeros_def)

lemma pad_left_zeros_digits:
  "list_all is_ascii_digit s \<Longrightarrow> list_all is_ascii_digit (pad_left_zeros w s)"
  by (simp add: pad_left_zeros_def)

lemma dec_val_pad_left_zeros [simp]: "dec_val (pad_left_zeros w s) = dec_val s"
  by (simp add: pad_left_zeros_def dec_val_zeros)

lemma char_count_digits: "list_all is_ascii_digit s \<Longrightarrow> char_count s = length s"
  unfolding char_count_def
  by (subst filter_True) (auto simp: list_all_iff dest: digit_not_special)

lemma strip_tokens_id:
  assumes "s \<noteq> []" "\<forall>w\<in>set ws. w \<noteq> [] \<longrightarrow> hd w \<noteq> hd s"
  shows "strip_tokens ws s = s"
proof -
  have "take (length w) s \<noteq> w" if "w \<in> set ws" "w \<noteq> []" for w
    using assms that by (metis hd_take length_greater_0_conv)
  then have "find (\<lambda>w. w \<noteq> [] \<and> take (length w) s = w) ws = None"
    by (auto simp: find_None_iff)
  then show ?thesis by (subst strip_tokens.simps) simp
qed

lemma str_trim_id:
  assumes "s \<noteq> []" "hd s = CHR ''-'' \<or> is_ascii_digit (hd s)" "is_ascii_digit (last s)"
  shows "str_trim s = s"
proof -
  have h: "\<forall>w\<in>set ws_tokens. hd w \<noteq> CHR ''-'' \<and> \<not> is_ascii_digit (hd w)"
    by (simp add: ws_tokens_def is_ascii_digit_def char_of_eq_iff)
  have l: "\<forall>w\<in>set (map rev ws_tokens). \<not> is_ascii_digit (hd w)"
    by (simp add: ws_tokens_def is_ascii_digit_def)
  have "strip_tokens ws_tokens s = s"
    using assms h by (intro strip_tokens_id) auto
  moreover have "strip_tokens (map rev ws_tokens) (rev s) = rev s"
    using assms l by (intro strip_tokens_id) (auto simp: hd_rev)
  ultimately show ?thesis by (simp add: str_trim_def)
qed

section \<open>Parsing a canonical decimal\<close>

definition canonical_value :: "bool \<Rightarrow> string \<Rightarrow> string \<Rightarrow> int" where
  "canonical_value neg w f =
     (let val = wrap_i64 (int (dec_val w) * FP8_SCALE + int (dec_val f))
      in if neg then wrap_i64 (- val) else val)"

lemma wrap_i64_add_wrap: "wrap_i64 (wrap_i64 x + y) = wrap_i64 (x + y)"
  by (rule wrap_i64_cong) (metis mod_add_left_eq wrap_i64_mod)

lemma hd_dot_digits:
  "w \<noteq> [] \<Longrightarrow> list_all is_ascii_digit w \<Longrightarrow>
   dropWhile (\<lambda>c. c = CHR ''-'') (w @ r) = w @ r \<and> hd (w @ r) \<noteq> CHR ''-''"
  by (cases w) (auto dest: digit_not_special)

lemma split_once_digits:
  "list_all is_ascii_digit w \<Longrightarrow> split_once (CHR ''.'') (w @ CHR ''.'' # f) = Some (w, f)"
proof -
  assume "list_all is_ascii_digit w"
  then have "\<forall>x\<in>set w. x \<noteq> CHR ''.''" by (auto simp: list_all_iff dest: digit_not_special)
  then show ?thesis by (simp add: split_once_def takeWhile_append2 dropWhile_append2)
qed

lemma fp8_from_str_canonical:
  assumes w: "w \<noteq> []" "list_all is_ascii_digit w"
    and f: "length f = 8" "list_all is_ascii_digit f" "dec_val f < 10 ^ 8"
    and fits: "dec_val w < 2 ^ 63"
  shows "fp8_from_str ((if neg then ''-'' else []) @ w @ CHR ''.'' # f) =
           Ok (FP8 (canonical_value neg w f))"
proof -
  let ?s = "(if neg then ''-'' else []) @ w @ CHR ''.'' # f"
  have fne: "f \<noteq> []" using f(1) by auto
  then have lst: "is_ascii_digit (last ?s)" using f(2) by (simp add: list_all_iff)
  have hd: "hd ?s = CHR ''-'' \<or> is_ascii_digit (hd ?s)"
    using w by (cases w) auto
  have trim: "str_trim ?s = ?s" by (rule str_trim_id [OF _ hd lst]) simp
  have neg: "(?s \<noteq> [] \<and> hd ?s = CHR ''-'') = neg"
    using hd_dot_digits [OF w] by (cases neg) auto
  have body: "dropWhile (\<lambda>c. c = CHR ''-'') ?s = w @ CHR ''.'' # f"
    using hd_dot_digits [OF w] by (cases neg) auto
  have whole: "parse_i64 w = Some (int (dec_val w))"
    using fits by (subst parse_i64_digits [OF w]) simp
  have frac: "parse_i64 f = Some (int (dec_val f))"
    using f by (subst parse_i64_digits [OF fne]) simp_all
  have pad: "f @ replicate (8 - char_count f) (CHR ''0'') = f"
    using f by (simp add: char_count_digits)
  show ?thesis
    unfolding fp8_from_str_def Let_def trim neg body split_once_digits [OF w(2)]
    by (simp add: w whole pad [simplified] is_char_boundary_def f frac canonical_value_def
        wrap_i64_add_wrap char_count_digits)
qed

lemma fp8_to_string_shape:
  "fp8_to_string (FP8 x) = (if x < 0 then ''-'' else []) @ nat_to_dec (nat \<bar>x\<bar> div 100000000)
     @ CHR ''.'' # pad_left_zeros 8 (nat_to_dec (nat \<bar>x\<bar> mod 100000000))"
  by (simp add: fp8_to_string_def Let_def)

lemma fp8_from_str_multibyte:
  assumes "is_ascii_digit c"
    and "length f = 7" "list_all is_ascii_digit f"
  shows "fp8_from_str (c # CHR ''.'' # f @ [char_of (195 :: nat), char_of (188 :: nat)]) = Err SlicePanic"
proof -
  let ?t = "f @ [char_of (195 :: nat), char_of (188 :: nat)]"
  let ?s = "c # CHR ''.'' # ?t"
  have "strip_tokens ws_tokens ?s = ?s"
    using assms(1)
    by (intro strip_tokens_id) (auto simp: ws_tokens_def is_ascii_digit_def)
  moreover have "strip_tokens (map rev ws_tokens) (rev ?s) = rev ?s"
    by (intro strip_tokens_id) (simp_all add: ws_tokens_def char_of_eq_iff)
  ultimately have trim: "str_trim ?s = ?s" by (simp add: str_trim_def)
  have c: "c \<noteq> CHR ''-''" "c \<noteq> CHR ''.''" using digit_not_special [OF assms(1)] by auto
  have split: "split_once (CHR ''.'') ?s = Some ([c], ?t)"
    using split_once_digits [of "[c]" ?t] assms(1) by simp
  have whole: "parse_i64 [c] \<noteq> None"
    using assms(1) by (subst parse_i64_digits)
      (auto simp: dec_val_def digit_val_def is_ascii_digit_def)
  have "char_count ?t = Suc (char_count f)"
    by (simp add: char_count_def is_cont_byte_def [of "char_of _"])
  then have cnt: "char_count ?t = 8" using assms(2,3) by (simp add: char_count_digits)
  have "?t ! 8 = char_of (188 :: nat)" using assms(2) by (simp add: nth_append)
  then have "\<not> is_char_boundary ?t 8"
    using assms(2) by (simp add: is_char_boundary_def is_cont_byte_def)
  then show ?thesis
    unfolding fp8_from_str_def Let_def trim
    using c whole by (auto simp: split cnt split: option.splits)
qed

lemma fp8_result_range: "fp8_from_str s = Ok a \<Longrightarrow> fp8_ok a"
  unfolding fp8_from_str_def fp8_ok_def
  by (simp only: Let_def split: option.splits prod.splits if_splits) (auto simp only: sum.inject sum.distinct fp8.sel is_i64_wrap)

lemma fp8_arith_ok [simp]:
  "fp8_ok (fp8_add a b)" "fp8_ok (fp8_sub a b)" "fp8_ok (fp8_mul a b)"
  "fp8_ok (fp8_neg a)" "fp8_ok (fp8_abs a)"
  by (simp_all add: fp8_ok_def fp8_add_def fp8_sub_def fp8_mul_def fp8_neg_def fp8_abs_def)

lemma fp8_div_ok [simp]: "fp8_ok (fp8_div a b)"
  by (simp add: fp8_ok_def fp8_div_def fp8_ZERO_def) (simp add: is_i64_def)

lemma sdiv_scale_error: "\<bar>((x :: int) sdiv FP8_SCALE) * FP8_SCALE - x\<bar> < FP8_SCALE"
proof -
  let ?q = "\<bar>x\<bar> div FP8_SCALE"
  have "\<bar>x\<bar> = ?q * FP8_SCALE + \<bar>x\<bar> mod FP8_SCALE" by simp
  moreover have "0 \<le> \<bar>x\<bar> mod FP8_SCALE" "\<bar>x\<bar> mod FP8_SCALE < FP8_SCALE"
    by (simp_all add: FP8_SCALE_def)
  moreover have "(x sdiv FP8_SCALE) = sgn x * ?q"
    by (simp add: signed_divide_int_def FP8_SCALE_def)
  ultimately show ?thesis
    by (cases "x < 0"; cases "x = 0") (auto simp: FP8_SCALE_def)
qed

lemma fp8_print_parse:
  assumes "is_i64 x"
  shows "fp8_from_str (fp8_to_string (FP8 x)) = Ok (FP8 x)"
proof -
  let ?w = "nat_to_dec (nat \<bar>x\<bar> div 100000000)"
  let ?d = "nat_to_dec (nat \<bar>x\<bar> mod 100000000)"
  have "length ?d \<le> Suc 7" by (rule length_nat_to_dec) simp
  then have len: "length (pad_left_zeros 8 ?d) = 8" by (intro pad_left_zeros_length) simp
  have "\<bar>x\<bar> \<le> 2 ^ 63" using assms by (auto simp: is_i64_def)
  then have "nat \<bar>x\<bar> < 2 ^ 64" by simp
  then have fits: "nat \<bar>x\<bar> div 100000000 < 2 ^ 63" by (simp add: div_less_iff_less_mult)
  have "int (nat \<bar>x\<bar> div 100000000) * FP8_SCALE + int (nat \<bar>x\<bar> mod 100000000) = \<bar>x\<bar>"
  proof -
    have "nat \<bar>x\<bar> div 100000000 * 100000000 + nat \<bar>x\<bar> mod 100000000 = nat \<bar>x\<bar>" by simp
    then have "int (nat \<bar>x\<bar> div 100000000 * 100000000 + nat \<bar>x\<bar> mod 100000000) = \<bar>x\<bar>" by simp
    then show ?thesis unfolding FP8_SCALE_def by (simp only: of_nat_add of_nat_mult of_nat_numeral)
  qed
  then have "canonical_value (x < 0) ?w (pad_left_zeros 8 ?d) = wrap_i64 x"
    by (auto simp: canonical_value_def Let_def wrap_i64_uminus_wrap)
  with assms have val: "canonical_value (x < 0) ?w (pad_left_zeros 8 ?d) = x"
    by (simp add: wrap_i64_id)
  have "fp8_from_str (fp8_to_string (FP8 x)) =
      Ok (FP8 (canonical_value (x < 0) ?w (pad_left_zeros 8 ?d)))"
    unfolding fp8_to_string_shape
    by (rule fp8_from_str_canonical) (use fits in \<open>simp_all add: len pad_left_zeros_digits\<close>)
  with val show ?thesis by simp
qed

section \<open>Properties\<close>

text \<open>
  Printing and parsing are inverse on every \<open>i64\<close>, the minimum included (whose absolute
  value does not fit an \<open>i64\<close>): every amount sent to the enclave or to a client as a decimal
  string is read back as the same amount.
\<close>

theorem fp8_roundtrip:
  assumes "is_i64 x"
  shows "fp8_from_str (fp8_to_string (FP8 x)) = Ok (FP8 x)"
  by (rule fp8_print_parse [OF assms])

theorem fp8_roundtrip_witness:
  "fp8_from_str (fp8_to_string (FP8 (- 50000000))) = Ok (FP8 (- 50000000))"
  by (rule fp8_roundtrip) (simp add: is_i64_def)

text \<open>
  Multiplication rounds towards zero by less than one unit of the eighth decimal place
  whenever the quotient fits an \<open>i64\<close>, so the only error of a product is this rounding.
\<close>

theorem fp8_mul_rounding:
  assumes "is_i64 ((raw a * raw b) sdiv FP8_SCALE)"
  shows "\<bar>raw (fp8_mul a b) * FP8_SCALE - raw a * raw b\<bar> < FP8_SCALE"
  using sdiv_scale_error assms by (simp add: fp8_mul_def wrap_i64_id)

theorem fp8_mul_rounding_witness:
  "\<bar>raw (fp8_mul (FP8 150000000) (FP8 3)) * FP8_SCALE - 150000000 * 3\<bar> < FP8_SCALE"
proof -
  have "is_i64 ((raw (FP8 150000000) * raw (FP8 3)) sdiv FP8_SCALE)"
    by (simp add: FP8_SCALE_def is_i64_def signed_divide_int_def)
  from fp8_mul_rounding [OF this] show ?thesis by simp
qed

text \<open>
  The parser does not report a value that does not fit: the product of the whole part with
  the scale wraps. The decimal string of \<open>2^64 + 1\<close> units (more than 184 billion) is accepted and
  read as one unit, and a fraction whose ninth byte lies inside a multi-byte character
  panics instead of being rejected.
\<close>

theorem fp8_from_str_wraps_and_panics:
  "fp8_from_str ''184467440737.09551617'' = Ok (FP8 1)
   \<and> fp8_from_str (''1.1234567'' @ [char_of (195 :: nat), char_of (188 :: nat)]) = Err SlicePanic"
proof
  have "canonical_value False ''184467440737'' ''09551617'' = 1"
    by (simp add: canonical_value_def dec_val_def digit_val_def FP8_SCALE_def wrap_i64_def)
  then show "fp8_from_str ''184467440737.09551617'' = Ok (FP8 1)"
    using fp8_from_str_canonical [of "''184467440737''" "''09551617''" False]
    by (simp add: is_ascii_digit_def dec_val_def digit_val_def)
  show "fp8_from_str (''1.1234567'' @ [char_of (195 :: nat), char_of (188 :: nat)]) = Err SlicePanic"
    using fp8_from_str_multibyte [of "CHR ''1''" "''1234567''"] by (simp add: is_ascii_digit_def)
qed

end
