(* ===== verification/RateLimit.thy ===== *)
theory RateLimit
  imports Prelude
begin

text \<open>
  \<^verbatim>\<open>orchestrator/src/rate_limit.rs\<close>: the per-key sliding-window limiter. An \<open>Instant\<close> is a
  natural number on the monotonic clock and \<open>duration_since\<close> saturates at zero, so it is
  subtraction on \<open>nat\<close>. The mutex makes each operation atomic; every operation takes the time
  it runs at (\<open>Instant::now()\<close> of the public wrappers).
\<close>

record rate_limiter =
  rl_window :: nat
  rl_max_per_window :: nat
  rl_inner :: "string \<rightharpoonup> nat list"

definition rate_limiter_new :: "nat \<Rightarrow> nat \<Rightarrow> rate_limiter" where
  "rate_limiter_new window max_per_window =
     \<lparr>rl_window = window, rl_max_per_window = max_per_window, rl_inner = Map.empty\<rparr>"

text \<open>The \<open>while let Some(front)\<close> loop: pop while the front is \<open>window\<close> old or older.\<close>

definition prune :: "nat \<Rightarrow> nat \<Rightarrow> nat list \<Rightarrow> nat list" where
  "prune window now q = dropWhile (\<lambda>front. window \<le> now - front) q"

definition check_and_record_at :: "rate_limiter \<Rightarrow> string \<Rightarrow> nat \<Rightarrow> bool \<times> rate_limiter" where
  "check_and_record_at r key now =
     (let q = prune (rl_window r) now (case rl_inner r key of Some q \<Rightarrow> q | None \<Rightarrow> [])
      in if rl_max_per_window r \<le> length q
         then (False, r\<lparr>rl_inner := (rl_inner r)(key \<mapsto> q)\<rparr>)
         else (True, r\<lparr>rl_inner := (rl_inner r)(key \<mapsto> q @ [now])\<rparr>))"

definition peek_at :: "rate_limiter \<Rightarrow> string \<Rightarrow> nat \<Rightarrow> bool \<times> rate_limiter" where
  "peek_at r key now =
     (case rl_inner r key of
        None \<Rightarrow> (True, r)
      | Some q0 \<Rightarrow>
          let q = prune (rl_window r) now q0
          in (length q < rl_max_per_window r, r\<lparr>rl_inner := (rl_inner r)(key \<mapsto> q)\<rparr>))"

definition record_at :: "rate_limiter \<Rightarrow> string \<Rightarrow> nat \<Rightarrow> rate_limiter" where
  "record_at r key now =
     (let q = prune (rl_window r) now (case rl_inner r key of Some q \<Rightarrow> q | None \<Rightarrow> [])
      in r\<lparr>rl_inner := (rl_inner r)(key \<mapsto> q @ [now])\<rparr>)"

section \<open>The contract of the gate\<close>

text \<open>The hits of a key that are still inside the window at time \<open>now\<close>.\<close>

definition live_hits :: "rate_limiter \<Rightarrow> string \<Rightarrow> nat \<Rightarrow> nat" where
  "live_hits r key now =
     length (prune (rl_window r) now (case rl_inner r key of Some q \<Rightarrow> q | None \<Rightarrow> []))"

definition rl_live :: "rate_limiter \<Rightarrow> bool" where
  "rl_live r \<longleftrightarrow> 0 < rl_window r \<and> 0 < rl_max_per_window r"

text \<open>
  What a client that gates first and records only on an event (the order book's self-trade
  gate) relies on: the gate answers by the number of live hits, looking does not change that
  number for anybody, and recording adds one hit for its key and none for another.
\<close>

locale rate_gate =
  fixes live :: "'r \<Rightarrow> bool"
    and peek :: "'r \<Rightarrow> 'k \<Rightarrow> nat \<Rightarrow> bool \<times> 'r"
    and rec :: "'r \<Rightarrow> 'k \<Rightarrow> nat \<Rightarrow> 'r"
    and hits :: "'r \<Rightarrow> 'k \<Rightarrow> nat \<Rightarrow> nat"
    and cap :: "'r \<Rightarrow> nat"
  assumes peek_iff: "live r \<Longrightarrow> fst (peek r k now) \<longleftrightarrow> hits r k now < cap r"
    and peek_live: "live r \<Longrightarrow> live (snd (peek r k now))"
    and peek_cap: "cap (snd (peek r k now)) = cap r"
    and peek_hits: "now \<le> now' \<Longrightarrow> hits (snd (peek r k now)) k' now' = hits r k' now'"
    and rec_live: "live r \<Longrightarrow> live (rec r k now)"
    and rec_cap: "cap (rec r k now) = cap r"
    and rec_hits: "live r \<Longrightarrow> hits (rec r k now) k' now = hits r k' now + (if k' = k then 1 else 0)"
begin

fun rec_many :: "'r \<Rightarrow> 'k \<Rightarrow> nat \<Rightarrow> nat \<Rightarrow> 'r" where
  "rec_many r k now 0 = r"
| "rec_many r k now (Suc n) = rec (rec_many r k now n) k now"

lemma rec_many_live: "live r \<Longrightarrow> live (rec_many r k now n)"
  by (induction n) (simp_all add: rec_live)

lemma rec_many_cap: "cap (rec_many r k now n) = cap r"
  by (induction n) (simp_all add: rec_cap)

lemma rec_many_hits:
  "live r \<Longrightarrow> hits (rec_many r k now n) k' now = hits r k' now + (if k' = k then n else 0)"
  by (induction n) (simp_all add: rec_many_live rec_hits)

lemma gate_closes:
  "live r \<Longrightarrow> cap r \<le> hits r k now + n \<Longrightarrow> \<not> fst (peek (rec_many r k now n) k now)"
  by (simp add: peek_iff rec_many_live rec_many_cap rec_many_hits)

lemma gate_open_for_others:
  "live r \<Longrightarrow> k' \<noteq> k \<Longrightarrow>
   fst (peek (rec_many r k now n) k' now) = fst (peek r k' now)"
  by (simp add: peek_iff rec_many_live rec_many_cap rec_many_hits)

end

lemma dropWhile_dropWhile_mono:
  "(\<And>x. P x \<Longrightarrow> Q x) \<Longrightarrow> dropWhile Q (dropWhile P xs) = dropWhile Q xs"
  by (induction xs) auto

lemma prune_prune: "now \<le> now' \<Longrightarrow> prune w now' (prune w now q) = prune w now' q"
  unfolding prune_def by (rule dropWhile_dropWhile_mono) linarith

lemma prune_snoc: "0 < w \<Longrightarrow> prune w now (prune w now q @ [now]) = prune w now q @ [now]"
proof -
  assume "0 < w"
  moreover have "dropWhile P (dropWhile P q @ [x]) = dropWhile P q @ [x]" if "\<not> P x"
    for P and x :: nat
    using that by (induction q) auto
  ultimately show ?thesis by (simp add: prune_def)
qed

interpretation stp_gate: rate_gate rl_live peek_at record_at live_hits rl_max_per_window
proof unfold_locales
  fix r :: rate_limiter and k k' :: string and now now' :: nat
  show "rl_live r \<Longrightarrow> fst (peek_at r k now) \<longleftrightarrow> live_hits r k now < rl_max_per_window r"
    by (auto simp: peek_at_def live_hits_def Let_def rl_live_def prune_def split: option.splits)
  show "rl_live r \<Longrightarrow> rl_live (snd (peek_at r k now))"
    by (auto simp: peek_at_def rl_live_def Let_def split: option.splits)
  show "rl_max_per_window (snd (peek_at r k now)) = rl_max_per_window r"
    by (auto simp: peek_at_def Let_def split: option.splits)
  show "now \<le> now' \<Longrightarrow> live_hits (snd (peek_at r k now)) k' now' = live_hits r k' now'"
    by (auto simp: peek_at_def live_hits_def Let_def prune_prune split: option.splits)
  show "rl_live r \<Longrightarrow> rl_live (record_at r k now)"
    by (auto simp: record_at_def rl_live_def Let_def)
  show "rl_max_per_window (record_at r k now) = rl_max_per_window r"
    by (simp add: record_at_def Let_def)
  show "rl_live r \<Longrightarrow> live_hits (record_at r k now) k' now
      = live_hits r k' now + (if k' = k then 1 else 0)"
    by (auto simp: record_at_def live_hits_def Let_def prune_snoc rl_live_def)
qed

section \<open>The sliding window\<close>

text \<open>
  A history of \<open>check_and_record\<close> calls for one key at times that never go back, with the
  admission times it produces.
\<close>

fun admissions :: "rate_limiter \<Rightarrow> string \<Rightarrow> nat list \<Rightarrow> nat list \<times> rate_limiter" where
  "admissions r key [] = ([], r)"
| "admissions r key (t # ts) =
     (let (ok, r') = check_and_record_at r key t; (as, r'') = admissions r' key ts
      in ((if ok then t # as else as), r''))"

text \<open>
  The log \<open>as\<close> of past admissions explains the queue: what was popped is at least \<open>window\<close>
  older than \<open>now\<close>, and any two admissions \<open>max\<close> apart in the log are \<open>window\<close> apart in time.
\<close>

definition spaced :: "nat \<Rightarrow> nat \<Rightarrow> nat list \<Rightarrow> bool" where
  "spaced w n as \<longleftrightarrow> (\<forall>i. i + n < length as \<longrightarrow> as ! i + w \<le> as ! (i + n))"

definition explains :: "nat \<Rightarrow> nat list \<Rightarrow> nat list \<Rightarrow> nat \<Rightarrow> bool" where
  "explains w as q now \<longleftrightarrow>
     (\<exists>gone. as = gone @ q \<and> (\<forall>t\<in>set gone. w \<le> now - t)) \<and> (\<forall>t\<in>set as. t \<le> now)"

lemma explains_later: "explains w as q now \<Longrightarrow> now \<le> now' \<Longrightarrow> explains w as q now'"
  unfolding explains_def by (elim conjE exE, intro conjI exI) (auto intro: le_trans diff_le_mono)

lemma explains_prune: "explains w as q now \<Longrightarrow> explains w as (prune w now q) now"
proof -
  assume "explains w as q now"
  then obtain gone where g: "as = gone @ q" "\<forall>t\<in>set gone. w \<le> now - t" "\<forall>t\<in>set as. t \<le> now"
    by (auto simp: explains_def)
  let ?P = "\<lambda>front. w \<le> now - front"
  have "as = (gone @ takeWhile ?P q) @ prune w now q" by (simp add: g(1) prune_def)
  moreover have "\<forall>t\<in>set (gone @ takeWhile ?P q). w \<le> now - t"
    using g(2) by (auto dest: set_takeWhileD)
  ultimately show ?thesis using g(3) unfolding explains_def by blast
qed

lemma explains_snoc: "explains w as q now \<Longrightarrow> explains w (as @ [now]) (q @ [now]) now"
  by (auto simp: explains_def)

lemma spaced_snoc:
  assumes "spaced w n as" "explains w as q now" "length q < n"
  shows "spaced w n (as @ [now])"
  unfolding spaced_def
proof (intro allI impI)
  fix i assume i: "i + n < length (as @ [now])"
  show "(as @ [now]) ! i + w \<le> (as @ [now]) ! (i + n)"
  proof (cases "i + n < length as")
    case True
    with assms(1) show ?thesis by (simp add: spaced_def nth_append)
  next
    case False
    with i have eq: "i + n = length as" by simp
    from assms(2) obtain gone where g: "as = gone @ q" "\<forall>t\<in>set gone. w \<le> now - t"
      "\<forall>t\<in>set as. t \<le> now" by (auto simp: explains_def)
    with eq assms(3) have "i < length gone" by simp
    then have "gone ! i \<in> set gone" "as ! i = gone ! i" using g(1) by (simp_all add: nth_append)
    with g have "as ! i + w \<le> now" using eq assms(3)
      by (metis Nat.le_diff_conv2 Un_iff add.commute set_append)
    with eq assms(3) show ?thesis by (simp add: nth_append)
  qed
qed

lemma admissions_spaced:
  assumes "sorted (now # ts)"
    and "explains (rl_window r) as (case rl_inner r key of Some q \<Rightarrow> q | None \<Rightarrow> []) now"
    and "spaced (rl_window r) (rl_max_per_window r) as"
  shows "spaced (rl_window r) (rl_max_per_window r) (as @ fst (admissions r key ts))"
  using assms
proof (induction ts arbitrary: r as now)
  case (Cons t ts)
  let ?w = "rl_window r" and ?n = "rl_max_per_window r"
  let ?q = "prune ?w t (case rl_inner r key of Some q \<Rightarrow> q | None \<Rightarrow> [])"
  have ex: "explains ?w as ?q t"
    using Cons.prems(1,2) by (intro explains_prune) (auto intro: explains_later)
  have srt: "sorted (t # ts)" using Cons.prems(1) by simp
  show ?case
  proof (cases "?n \<le> length ?q")
    case True
    then show ?thesis
      using Cons.IH [OF srt, of "r\<lparr>rl_inner := (rl_inner r)(key \<mapsto> ?q)\<rparr>" as] ex Cons.prems(3)
      by (simp add: check_and_record_at_def Let_def case_prod_beta)
  next
    case False
    then have "spaced ?w ?n (as @ [t])" using spaced_snoc [OF Cons.prems(3) ex] by simp
    then show ?thesis
      using Cons.IH [OF srt, of "r\<lparr>rl_inner := (rl_inner r)(key \<mapsto> ?q @ [t])\<rparr>" "as @ [t]"]
        explains_snoc [OF ex] False
      by (simp add: check_and_record_at_def Let_def case_prod_beta)
  qed
qed (simp add: spaced_def)

section \<open>Properties\<close>

text \<open>
  C6. The limiter is a true sliding window: whatever requests arrive, an admitted request and
  the one admitted \<open>max_per_window\<close> places later are at least \<open>window\<close> apart, so no interval
  shorter than \<open>window\<close> ever sees more than \<open>max_per_window\<close> admissions of one key.
\<close>

theorem sliding_window:
  assumes "sorted ts"
    and "i + max_per_window < length (fst (admissions (rate_limiter_new window max_per_window) key ts))"
  shows "fst (admissions (rate_limiter_new window max_per_window) key ts) ! i + window
    \<le> fst (admissions (rate_limiter_new window max_per_window) key ts) ! (i + max_per_window)"
proof -
  let ?r = "rate_limiter_new window max_per_window"
  have "spaced (rl_window ?r) (rl_max_per_window ?r) ([] @ fst (admissions ?r key ts))"
    using assms(1) by (intro admissions_spaced [of 0])
      (auto simp: explains_def spaced_def rate_limiter_new_def)
  then show ?thesis using assms(2) by (simp add: spaced_def rate_limiter_new_def)
qed

theorem sliding_window_witness:
  "fst (admissions (rate_limiter_new 60 2) ''r'' [0, 10, 20, 60, 65]) ! 0 + 60
    \<le> fst (admissions (rate_limiter_new 60 2) ''r'' [0, 10, 20, 60, 65]) ! 2"
  using sliding_window [of "[0, 10, 20, 60, 65]" 0 2 60 "''r''"]
  by (simp add: admissions.simps check_and_record_at_def prune_def rate_limiter_new_def)

text \<open>
  Recorded events close the gate for their own key only: once the live hits reach the cap
  \<open>peek\<close> refuses that key, and another key is answered as if nothing had been recorded.
\<close>

theorem recorded_events_close_gate:
  assumes "rl_live r" "rl_max_per_window r \<le> Suc (live_hits r key now)"
  shows "\<not> fst (peek_at (record_at r key now) key now)
    \<and> (\<forall>other. other \<noteq> key \<longrightarrow>
         fst (peek_at (record_at r key now) other now) = fst (peek_at r other now))"
  using stp_gate.gate_closes [OF assms(1), of key now 1] assms
    stp_gate.gate_open_for_others [OF assms(1), of _ key now 1]
  by simp

theorem recorded_events_close_gate_witness:
  "\<not> fst (peek_at (record_at (rate_limiter_new 60 1) ''r'' 5) ''r'' 5)
   \<and> fst (peek_at (record_at (rate_limiter_new 60 1) ''r'' 5) ''s'' 5)
       = fst (peek_at (rate_limiter_new 60 1) ''s'' 5)"
  using recorded_events_close_gate [of "rate_limiter_new 60 1" "''r''" 5]
  by (simp add: rl_live_def rate_limiter_new_def)

end
