(* ===== verification/OrderBook.thy ===== *)
theory OrderBook
  imports Fp8 RateLimit
begin

text \<open>
  \<^verbatim>\<open>orchestrator/src/orderbook.rs\<close>: the central limit order book. This theory holds the data
  and every operation, in the order of the source. A \<open>PriceLevel\<close> is the list of its orders;
  \<open>BTreeMap\<close> is the sorted association list of the prelude; ids are \<open>u64\<close> as \<open>nat\<close>
  with wrap-around. The two clock reads of \<open>submit_order\<close> (inside the self-trade rate limiter)
  are its arguments \<open>t_peek\<close> and \<open>t_record\<close>. Log lines are left out.
\<close>

section \<open>Data\<close>

datatype order_type = Limit | Market
datatype time_in_force = Gtc | Ioc | Fok
datatype order_status = Open | PartiallyFilled | Filled | Cancelled

record order =
  o_id :: nat
  o_user_id :: string
  o_market :: string
  o_side :: side
  o_order_type :: order_type
  o_price :: fp8
  o_size :: fp8
  o_filled :: fp8
  o_leverage :: nat
  o_status :: order_status
  o_time_in_force :: time_in_force
  o_reduce_only :: bool
  o_timestamp_ms :: nat
  o_client_order_id :: "string option"
  o_close_position_id :: "nat option"

definition remaining :: "order \<Rightarrow> fp8" where
  "remaining ord = fp8_sub (o_size ord) (o_filled ord)"

record trade =
  t_trade_id :: nat
  t_market :: string
  t_maker_order_id :: nat
  t_taker_order_id :: nat
  t_maker_user_id :: string
  t_taker_user_id :: string
  t_price :: fp8
  t_size :: fp8
  t_taker_side :: side
  t_timestamp_ms :: nat

type_synonym price_level = "order list"
type_synonym book_side = "(int, price_level) btree"

definition total_size :: "price_level \<Rightarrow> fp8" where
  "total_size level = foldl fp8_add fp8_ZERO (map remaining level)"

record order_book =
  ob_market :: string
  bids :: book_side
  asks :: book_side
  next_order_id :: nat
  next_trade_id :: nat
  recent_trades :: "trade list"
  max_recent_trades :: nat
  stp_rate :: rate_limiter
  attested_ms :: nat

datatype book_error =
    SizeNotPositive
  | LimitPriceNotPositive
  | SelfTradeRateExceeded
  | AttestedClockNotSet
  | OrderNotFound nat

section \<open>Construction and queries\<close>

definition order_book_new :: "string \<Rightarrow> order_book" where
  "order_book_new mkt =
     \<lparr>ob_market = mkt, bids = [], asks = [], next_order_id = 1, next_trade_id = 1,
      recent_trades = [], max_recent_trades = 1000,
      stp_rate = rate_limiter_new (60 * 1000000000) 30, attested_ms = 0\<rparr>"

definition set_attested_ms :: "order_book \<Rightarrow> nat \<Rightarrow> order_book" where
  "set_attested_ms ob ms = ob\<lparr>attested_ms := ms\<rparr>"

definition best_bid :: "order_book \<Rightarrow> fp8 option" where
  "best_bid ob = (case rev (bt_keys (bids ob)) of [] \<Rightarrow> None | p # _ \<Rightarrow> Some (FP8 p))"

definition best_ask :: "order_book \<Rightarrow> fp8 option" where
  "best_ask ob = (case bt_keys (asks ob) of [] \<Rightarrow> None | p # _ \<Rightarrow> Some (FP8 p))"

definition order_margin :: "order \<Rightarrow> fp8" where
  "order_margin ord = FP8 (raw (fp8_mul (remaining ord) (o_price ord)) sdiv int (o_leverage ord))"

definition sum_level :: "string \<Rightarrow> fp8 \<Rightarrow> price_level \<Rightarrow> fp8" where
  "sum_level user_id acc level =
     foldl (\<lambda>a ord. fp8_add a (order_margin ord)) acc
       (filter (\<lambda>ord. o_user_id ord = user_id \<and> \<not> o_reduce_only ord \<and> 0 < o_leverage ord) level)"

definition user_reserved_margin :: "order_book \<Rightarrow> string \<Rightarrow> fp8" where
  "user_reserved_margin ob user_id =
     (let reserved = foldl (sum_level user_id) fp8_ZERO (bt_values (bids ob))
      in foldl (sum_level user_id) reserved (bt_values (asks ob)))"

definition mid_price :: "order_book \<Rightarrow> fp8 option" where
  "mid_price ob =
     (case (best_bid ob, best_ask ob) of
        (Some bid, Some ask) \<Rightarrow> Some (FP8 (wrap_i64 (raw bid + raw ask) sdiv 2))
      | _ \<Rightarrow> None)"

definition spread :: "order_book \<Rightarrow> fp8 option" where
  "spread ob =
     (case (best_bid ob, best_ask ob) of
        (Some bid, Some ask) \<Rightarrow> if raw bid < raw ask then Some (fp8_sub ask bid) else None
      | _ \<Rightarrow> None)"

section \<open>Liquidity and resting\<close>

text \<open>Whether a resting price is within the limit of the order: the test of both loops.\<close>

definition crosses :: "order \<Rightarrow> int \<Rightarrow> bool" where
  "crosses ord price_key =
     (case o_side ord of
        Long \<Rightarrow> o_order_type ord = Market \<or> price_key \<le> raw (o_price ord)
      | Short \<Rightarrow> o_order_type ord = Market \<or> raw (o_price ord) \<le> price_key)"

definition opposite_book :: "order_book \<Rightarrow> side \<Rightarrow> book_side" where
  "opposite_book ob sd = (case sd of Long \<Rightarrow> asks ob | Short \<Rightarrow> bids ob)"

definition set_opposite_book :: "order_book \<Rightarrow> side \<Rightarrow> book_side \<Rightarrow> order_book" where
  "set_opposite_book ob sd m = (case sd of Long \<Rightarrow> ob\<lparr>asks := m\<rparr> | Short \<Rightarrow> ob\<lparr>bids := m\<rparr>)"

text \<open>
  The loop walks the opposite side in ascending key order for buys and for sells alike, and
  stops at the first level outside the limit.
\<close>

definition available_liquidity :: "order_book \<Rightarrow> order \<Rightarrow> int" where
  "available_liquidity ob ord =
     foldl (\<lambda>total o'. if o_user_id o' \<noteq> o_user_id ord
                       then wrap_i64 (total + raw (remaining o')) else total) 0
       (concat (map snd (takeWhile (\<lambda>(p, l). crosses ord p) (opposite_book ob (o_side ord)))))"

definition add_to_book :: "order_book \<Rightarrow> order \<Rightarrow> order_book" where
  "add_to_book ob ord =
     (case o_side ord of
        Long \<Rightarrow> ob\<lparr>bids := bt_upsert (raw (o_price ord)) [] (\<lambda>l. l @ [ord]) (bids ob)\<rparr>
      | Short \<Rightarrow> ob\<lparr>asks := bt_upsert (raw (o_price ord)) [] (\<lambda>l. l @ [ord]) (asks ob)\<rparr>)"

section \<open>Matching\<close>

text \<open>What the loops of \<open>match_order\<close> accumulate besides the taker and the level.\<close>

record match_acc =
  ma_next_trade_id :: nat
  ma_recent_trades :: "trade list"
  ma_trades :: "trade list"
  ma_stp_cancelled :: "(order \<times> int) list"

text \<open>What a trade takes from the book: market, attested time and the length of the history.\<close>

record match_env =
  me_market :: string
  me_attested_ms :: nat
  me_max_recent_trades :: nat

definition push_recent :: "match_env \<Rightarrow> trade list \<Rightarrow> trade \<Rightarrow> trade list" where
  "push_recent env recent tr =
     (let r = recent @ [tr] in if me_max_recent_trades env < length r then tl r else r)"

text \<open>
  Self-trade prevention (decrement and cancel) of one taker and one maker of the same user:
  the new taker, the new accumulator, and the maker if it stays on the level.
\<close>

definition stp_cross :: "order \<Rightarrow> order \<Rightarrow> match_acc \<Rightarrow> order \<times> match_acc \<times> order option" where
  "stp_cross taker maker acc =
     (let cross = min (raw (remaining taker)) (raw (remaining maker))
      in if cross \<le> 0 then (taker, acc, Some maker)
         else
           let taker' = taker\<lparr>o_size := FP8 (wrap_i64 (raw (o_size taker) - cross))\<rparr>;
               maker' = maker\<lparr>o_filled := FP8 (wrap_i64 (raw (o_filled maker) + cross))\<rparr>
           in if raw (o_size maker') \<le> raw (o_filled maker')
              then (taker', acc\<lparr>ma_stp_cancelled := ma_stp_cancelled acc
                                  @ [(maker'\<lparr>o_status := Cancelled\<rparr>, cross)]\<rparr>, None)
              else (taker', acc\<lparr>ma_stp_cancelled := ma_stp_cancelled acc @ [(maker', cross)]\<rparr>,
                    Some maker'))"

definition fill_cross ::
  "match_env \<Rightarrow> int \<Rightarrow> order \<Rightarrow> order \<Rightarrow> match_acc \<Rightarrow> order \<times> match_acc \<times> order option" where
  "fill_cross env price_key taker maker acc =
     (let fill = FP8 (min (raw (remaining taker)) (raw (remaining maker)));
          taker' = taker\<lparr>o_filled := fp8_add (o_filled taker) fill\<rparr>;
          maker1 = maker\<lparr>o_filled := fp8_add (o_filled maker) fill\<rparr>;
          maker' = maker1\<lparr>o_status := if o_filled maker1 = o_size maker1 then Filled else PartiallyFilled\<rparr>;
          tr = \<lparr>t_trade_id = ma_next_trade_id acc, t_market = me_market env,
                t_maker_order_id = o_id maker', t_taker_order_id = o_id taker',
                t_maker_user_id = o_user_id maker', t_taker_user_id = o_user_id taker',
                t_price = FP8 price_key, t_size = fill, t_taker_side = o_side taker',
                t_timestamp_ms = me_attested_ms env\<rparr>;
          acc' = acc\<lparr>ma_next_trade_id := u64_add (ma_next_trade_id acc) 1,
                     ma_trades := ma_trades acc @ [tr],
                     ma_recent_trades := push_recent env (ma_recent_trades acc) tr\<rparr>
      in (taker', acc', if o_status maker' = Filled then None else Some maker'))"

definition cross_one ::
  "match_env \<Rightarrow> int \<Rightarrow> order \<Rightarrow> order \<Rightarrow> match_acc \<Rightarrow> order \<times> match_acc \<times> order option" where
  "cross_one env price_key taker maker acc =
     (if o_user_id maker = o_user_id taker then stp_cross taker maker acc
      else fill_cross env price_key taker maker acc)"

text \<open>The \<open>while\<close> loop over one level: \<open>i\<close> advances, or the order at \<open>i\<close> is removed.\<close>

function level_loop ::
  "match_env \<Rightarrow> int \<Rightarrow> nat \<Rightarrow> price_level \<Rightarrow> order \<Rightarrow> match_acc \<Rightarrow> price_level \<times> order \<times> match_acc" where
  "level_loop env price_key i level taker acc =
     (if i < length level \<and> 0 < raw (remaining taker)
      then case cross_one env price_key taker (level ! i) acc of
             (taker', acc', None) \<Rightarrow> level_loop env price_key i (remove_at i level) taker' acc'
           | (taker', acc', Some maker') \<Rightarrow>
               level_loop env price_key (Suc i) (level[i := maker']) taker' acc'
      else (level, taker, acc))"
  by pat_completeness auto
termination
  by (relation "measure (\<lambda>(env, p, i, level, taker, acc). length level - i)")
    (auto simp: length_remove_at)

declare level_loop.simps [simp del]

text \<open>The \<open>for\<close> loop over the matching prices, with its \<open>break\<close> when the taker is done.\<close>

fun price_loop ::
  "match_env \<Rightarrow> int list \<Rightarrow> book_side \<Rightarrow> order \<Rightarrow> match_acc \<Rightarrow> book_side \<times> order \<times> match_acc" where
  "price_loop env [] m taker acc = (m, taker, acc)"
| "price_loop env (p # ps) m taker acc =
     (if raw (remaining taker) \<le> 0 then (m, taker, acc)
      else case bt_get m p of
             None \<Rightarrow> price_loop env ps m taker acc
           | Some level \<Rightarrow>
               (case level_loop env p 0 level taker acc of
                  (level', taker', acc') \<Rightarrow>
                    price_loop env ps (bt_modify p (\<lambda>_. level') m) taker' acc'))"

definition matching_prices :: "order_book \<Rightarrow> order \<Rightarrow> int list" where
  "matching_prices ob taker =
     (case o_side taker of
        Long \<Rightarrow> takeWhile (crosses taker) (bt_keys (asks ob))
      | Short \<Rightarrow> takeWhile (crosses taker) (rev (bt_keys (bids ob))))"

definition env_of :: "order_book \<Rightarrow> match_env" where
  "env_of ob = \<lparr>me_market = ob_market ob, me_attested_ms = attested_ms ob,
                me_max_recent_trades = max_recent_trades ob\<rparr>"

definition acc_of :: "order_book \<Rightarrow> match_acc" where
  "acc_of ob = \<lparr>ma_next_trade_id = next_trade_id ob, ma_recent_trades = recent_trades ob,
                ma_trades = [], ma_stp_cancelled = []\<rparr>"

definition match_order ::
  "order_book \<Rightarrow> order \<Rightarrow> order_book \<times> order \<times> trade list \<times> (order \<times> int) list" where
  "match_order ob taker =
     (case price_loop (env_of ob) (matching_prices ob taker)
             (opposite_book ob (o_side taker)) taker (acc_of ob) of
        (m, taker', acc) \<Rightarrow>
          (set_opposite_book
             (ob\<lparr>next_trade_id := ma_next_trade_id acc, recent_trades := ma_recent_trades acc\<rparr>)
             (o_side taker) (bt_retain (\<lambda>l. l \<noteq> []) m),
           taker', ma_trades acc, ma_stp_cancelled acc))"

section \<open>Submitting an order\<close>

text \<open>The status (and the resting) of what the match left over.\<close>

definition settle_remainder :: "order_book \<Rightarrow> order \<Rightarrow> order_book \<times> order" where
  "settle_remainder ob ord =
     (if raw (o_size ord) = 0 then (ob, ord\<lparr>o_status := Cancelled\<rparr>)
      else
        let (ob', ord') =
              (case o_order_type ord of
                 Market \<Rightarrow>
                   (ob, if 0 < raw (remaining ord)
                        then ord\<lparr>o_status := if 0 < raw (o_filled ord) then PartiallyFilled else Cancelled\<rparr>
                        else ord)
               | Limit \<Rightarrow>
                   (case o_time_in_force ord of
                      Ioc \<Rightarrow>
                        (ob, if 0 < raw (remaining ord) \<and> 0 < raw (o_filled ord)
                             then ord\<lparr>o_status := PartiallyFilled\<rparr>
                             else if raw (o_filled ord) = 0 then ord\<lparr>o_status := Cancelled\<rparr>
                             else ord)
                    | Fok \<Rightarrow> (ob, ord)
                    | Gtc \<Rightarrow>
                        (if 0 < raw (remaining ord) \<and> o_status ord = Open then add_to_book ob ord else ob,
                         ord)))
        in (ob', if o_filled ord' = o_size ord' then ord'\<lparr>o_status := Filled\<rparr> else ord'))"

definition new_order ::
  "order_book \<Rightarrow> string \<Rightarrow> side \<Rightarrow> order_type \<Rightarrow> fp8 \<Rightarrow> fp8 \<Rightarrow> nat \<Rightarrow> time_in_force \<Rightarrow> bool
     \<Rightarrow> string option \<Rightarrow> order" where
  "new_order ob user_id sd ty price sz leverage tif reduce_only client_order_id =
     \<lparr>o_id = next_order_id ob, o_user_id = user_id, o_market = ob_market ob, o_side = sd,
      o_order_type = ty, o_price = price, o_size = sz, o_filled = fp8_ZERO,
      o_leverage = leverage, o_status = Open, o_time_in_force = tif,
      o_reduce_only = reduce_only, o_timestamp_ms = attested_ms ob,
      o_client_order_id = client_order_id, o_close_position_id = None\<rparr>"

type_synonym submit_result = "book_error + order \<times> trade list \<times> (order \<times> int) list"

text \<open>From the match on: the part of \<open>submit_order\<close> after the guards and the FOK pre-check.\<close>

definition execute_order :: "nat \<Rightarrow> order_book \<Rightarrow> order \<Rightarrow> submit_result \<times> order_book" where
  "execute_order t_record ob ord =
     (case match_order ob ord of
        (ob1, ord1, trades, stp) \<Rightarrow>
          let ob2 = (if stp \<noteq> []
                     then ob1\<lparr>stp_rate := record_at (stp_rate ob1) (o_user_id ord1) t_record\<rparr>
                     else ob1);
              (ob3, ord2) = settle_remainder ob2 ord1
          in (Ok (ord2, trades, stp), ob3))"

definition submit_order ::
  "nat \<Rightarrow> nat \<Rightarrow> order_book \<Rightarrow> string \<Rightarrow> side \<Rightarrow> order_type \<Rightarrow> fp8 \<Rightarrow> fp8 \<Rightarrow> nat \<Rightarrow> time_in_force
     \<Rightarrow> bool \<Rightarrow> string option \<Rightarrow> submit_result \<times> order_book" where
  "submit_order t_peek t_record ob user_id sd ty price sz leverage tif reduce_only client_order_id =
     (if raw sz \<le> 0 then (Err SizeNotPositive, ob)
      else if ty = Limit \<and> raw price \<le> 0 then (Err LimitPriceNotPositive, ob)
      else
        let (open_gate, rl) = peek_at (stp_rate ob) user_id t_peek;
            ob1 = ob\<lparr>stp_rate := rl\<rparr>
        in if \<not> open_gate then (Err SelfTradeRateExceeded, ob1)
           else if attested_ms ob1 = 0 then (Err AttestedClockNotSet, ob1)
           else
             let ord = new_order ob1 user_id sd ty price sz leverage tif reduce_only client_order_id;
                 ob2 = ob1\<lparr>next_order_id := u64_add (next_order_id ob1) 1\<rparr>
             in if tif = Fok \<and> available_liquidity ob2 ord < raw sz
                then (Ok (ord\<lparr>o_status := Cancelled\<rparr>, [], []), ob2)
                else execute_order t_record ob2 ord)"

section \<open>Cancelling, listing, loading\<close>

fun cancel_in :: "nat \<Rightarrow> book_side \<Rightarrow> (order \<times> book_side) option" where
  "cancel_in order_id [] = None"
| "cancel_in order_id ((p, level) # m) =
     (case position (\<lambda>ord. o_id ord = order_id) level of
        Some pos \<Rightarrow> Some ((level ! pos)\<lparr>o_status := Cancelled\<rparr>, (p, remove_at pos level) # m)
      | None \<Rightarrow> map_option (\<lambda>(ord, m'). (ord, (p, level) # m')) (cancel_in order_id m))"

definition cancel_order :: "order_book \<Rightarrow> nat \<Rightarrow> (book_error + order) \<times> order_book" where
  "cancel_order ob order_id =
     (case cancel_in order_id (bids ob) of
        Some (ord, m) \<Rightarrow> (Ok ord, ob\<lparr>bids := bt_retain (\<lambda>l. l \<noteq> []) m\<rparr>)
      | None \<Rightarrow>
          (case cancel_in order_id (asks ob) of
             Some (ord, m) \<Rightarrow> (Ok ord, ob\<lparr>asks := bt_retain (\<lambda>l. l \<noteq> []) m\<rparr>)
           | None \<Rightarrow> (Err (OrderNotFound order_id), ob)))"

definition side_orders :: "book_side \<Rightarrow> order list" where
  "side_orders m = concat (bt_values m)"

definition cancelled_of :: "string \<Rightarrow> book_side \<Rightarrow> order list" where
  "cancelled_of user_id m =
     map (\<lambda>ord. ord\<lparr>o_status := Cancelled\<rparr>) (filter (\<lambda>ord. o_user_id ord = user_id) (side_orders m))"

definition without_user :: "string \<Rightarrow> book_side \<Rightarrow> book_side" where
  "without_user user_id m =
     bt_retain (\<lambda>l. l \<noteq> []) (map (\<lambda>(p, l). (p, filter (\<lambda>ord. o_user_id ord \<noteq> user_id) l)) m)"

definition cancel_all :: "order_book \<Rightarrow> string \<Rightarrow> order list \<times> order_book" where
  "cancel_all ob user_id =
     (cancelled_of user_id (bids ob) @ cancelled_of user_id (asks ob),
      ob\<lparr>bids := without_user user_id (bids ob), asks := without_user user_id (asks ob)\<rparr>)"

definition user_orders :: "order_book \<Rightarrow> string \<Rightarrow> order list" where
  "user_orders ob user_id =
     filter (\<lambda>ord. o_user_id ord = user_id) (side_orders (bids ob))
     @ filter (\<lambda>ord. o_user_id ord = user_id) (side_orders (asks ob))"

definition get_order :: "order_book \<Rightarrow> nat \<Rightarrow> order option" where
  "get_order ob order_id =
     (case find (\<lambda>ord. o_id ord = order_id) (side_orders (bids ob)) of
        Some ord \<Rightarrow> Some ord
      | None \<Rightarrow> find (\<lambda>ord. o_id ord = order_id) (side_orders (asks ob)))"

fun load_orders :: "order_book \<Rightarrow> order list \<Rightarrow> order_book" where
  "load_orders ob [] = ob"
| "load_orders ob (ord # ords) =
     (let ob1 = (if next_order_id ob \<le> o_id ord
                 then ob\<lparr>next_order_id := u64_add (o_id ord) 1\<rparr> else ob)
      in load_orders (add_to_book ob1 ord) ords)"

definition depth :: "order_book \<Rightarrow> nat \<Rightarrow> (fp8 \<times> fp8) list \<times> (fp8 \<times> fp8) list" where
  "depth ob levels =
     (map (\<lambda>(p, l). (FP8 p, total_size l)) (take levels (rev (bids ob))),
      map (\<lambda>(p, l). (FP8 p, total_size l)) (take levels (asks ob)))"

end
