(* ===== verification/OrderBook_Match.thy ===== *)
theory OrderBook_Match
  imports OrderBook "HOL-Library.Sublist"
begin

text \<open>
  The abstract matcher and the refinement of \<open>match_order\<close> to it. The two nested loops of the
  source, over prices and over the index of a level, compute what one sweep over the opposite
  side as a single queue in price-time priority computes. The lemmas about a sweep (what it
  consumes, in which order, what it leaves) carry the properties of the book.
\<close>

section \<open>The abstract matcher\<close>

fun sweep ::
  "match_env \<Rightarrow> (int \<times> order) list \<Rightarrow> order \<Rightarrow> match_acc \<Rightarrow> (int \<times> order) list \<times> order \<times> match_acc" where
  "sweep env [] t acc = ([], t, acc)"
| "sweep env ((p, m) # q) t acc =
     (if raw (remaining t) \<le> 0 then ((p, m) # q, t, acc)
      else case cross_one env p t m acc of
             (t', acc', None) \<Rightarrow> sweep env q t' acc'
           | (t', acc', Some m') \<Rightarrow>
               (case sweep env q t' acc' of (q', t'', acc'') \<Rightarrow> ((p, m') # q', t'', acc'')))"

definition flat :: "book_side \<Rightarrow> (int \<times> order) list" where
  "flat ls = concat (map (\<lambda>(p, l). map (Pair p) l) ls)"

text \<open>The levels of a side in the order a taker of side \<open>sd\<close> meets them.\<close>

definition priority :: "side \<Rightarrow> book_side \<Rightarrow> book_side" where
  "priority sd m = (case sd of Long \<Rightarrow> m | Short \<Rightarrow> rev m)"

definition queue :: "order_book \<Rightarrow> side \<Rightarrow> (int \<times> order) list" where
  "queue ob sd = flat (priority sd (opposite_book ob sd))"

lemma flat_simps [simp]:
  "flat [] = []" "flat ((p, l) # ls) = map (Pair p) l @ flat ls" "flat (ls @ ls') = flat ls @ flat ls'"
  by (simp_all add: flat_def)

lemma flat_retain [simp]: "flat (bt_retain (\<lambda>l. l \<noteq> []) ls) = flat ls"
  by (induction ls) (auto simp: bt_retain_def)

lemma set_flat: "set (flat ls) = {(p, x). \<exists>l. (p, l) \<in> set ls \<and> x \<in> set l}"
  by (auto simp: flat_def)

lemma sweep_done: "raw (remaining t) \<le> 0 \<Longrightarrow> sweep env q t acc = (q, t, acc)"
  by (cases q) auto

lemma sweep_append:
  "sweep env (q1 @ q2) t acc =
     (case sweep env q1 t acc of (q1', t1, a1) \<Rightarrow>
        case sweep env q2 t1 a1 of (q2', t2, a2) \<Rightarrow> (q1' @ q2', t2, a2))"
proof (induction env q1 t acc rule: sweep.induct)
  case (2 env p m q t acc)
  show ?case
  proof (cases "raw (remaining t) \<le> 0")
    case True
    then show ?thesis by (simp add: sweep_done)
  next
    case False
    then show ?thesis using 2 by (auto split: prod.splits option.splits)
  qed
qed (simp split: prod.splits)

section \<open>The loops compute the sweep\<close>

lemma level_loop_sweep:
  "level_loop env p (length done) (done @ rest) t acc =
     (case sweep env (map (Pair p) rest) t acc of (q', t', acc') \<Rightarrow> (done @ map snd q', t', acc'))"
proof (induction rest arbitrary: "done" t acc)
  case Nil
  then show ?case by (subst level_loop.simps) simp
next
  case (Cons m rest)
  show ?case
  proof (cases "0 < raw (remaining t)")
    case False
    then show ?thesis by (subst level_loop.simps) (simp add: comp_def)
  next
    case True
    obtain t' acc' r where c: "cross_one env p t m acc = (t', acc', r)" by (metis prod_cases3)
    show ?thesis
    proof (cases r)
      case None
      then show ?thesis using True c Cons.IH [of "done" t' acc']
        by (subst level_loop.simps) simp
    next
      case (Some m')
      then show ?thesis using True c Cons.IH [of "done @ [m']" t' acc']
        by (subst level_loop.simps) (auto split: prod.splits)
    qed
  qed
qed

fun sweep_levels ::
  "match_env \<Rightarrow> book_side \<Rightarrow> order \<Rightarrow> match_acc \<Rightarrow> book_side \<times> order \<times> match_acc" where
  "sweep_levels env [] t acc = ([], t, acc)"
| "sweep_levels env ((p, l) # ls) t acc =
     (if raw (remaining t) \<le> 0 then ((p, l) # ls, t, acc)
      else case level_loop env p 0 l t acc of (l', t', acc') \<Rightarrow>
             (case sweep_levels env ls t' acc' of (ls', t'', acc'') \<Rightarrow> ((p, l') # ls', t'', acc'')))"

lemma sweep_keys: "sweep env (map (Pair p) l) t acc = (q', t', acc') \<Longrightarrow> map (Pair p) (map snd q') = q'"
proof (induction l arbitrary: t acc q')
  case (Cons m l)
  then show ?case
    by (fastforce simp: comp_def split: if_splits prod.splits option.splits)
qed simp

lemma sweep_levels_flat:
  "sweep_levels env ls t acc = (ls', t', acc') \<Longrightarrow>
     sweep env (flat ls) t acc = (flat ls', t', acc') \<and> map fst ls' = map fst ls"
proof (induction env ls t acc arbitrary: ls' t' acc' rule: sweep_levels.induct)
  case (2 env p l ls t acc)
  show ?case
  proof (cases "raw (remaining t) \<le> 0")
    case True
    then show ?thesis using "2.prems" by (simp add: sweep_done)
  next
    case False
    obtain q1 t1 a1 where s: "sweep env (map (Pair p) l) t acc = (q1, t1, a1)" by (metis prod_cases3)
    then have l: "level_loop env p 0 l t acc = (map snd q1, t1, a1)"
      using level_loop_sweep [of env p "[]" l t acc] by simp
    obtain ls2 t2 a2 where r: "sweep_levels env ls t1 a1 = (ls2, t2, a2)" by (metis prod_cases3)
    have "sweep env (flat ls) t1 a1 = (flat ls2, t2, a2) \<and> map fst ls2 = map fst ls"
      using "2.IH" [OF False l [symmetric] _ r] by simp
    then show ?thesis
      using "2.prems" False l r s sweep_keys [OF s] by (auto simp: sweep_append)
  qed
qed simp

definition override :: "book_side \<Rightarrow> book_side \<Rightarrow> book_side" where
  "override ls' m = map (\<lambda>(k, l). (k, case map_of ls' k of None \<Rightarrow> l | Some l' \<Rightarrow> l')) m"

lemma override_Cons:
  "p \<notin> fst ` set ls' \<Longrightarrow> override ((p, l') # ls') m = override ls' (bt_modify p (\<lambda>_. l') m)"
  by (force simp: override_def bt_modify_def dest: map_of_SomeD split: option.splits)

lemma override_own:
  "distinct (map fst ls) \<Longrightarrow> map fst ls' = map fst ls \<Longrightarrow> override ls' ls = ls'"
proof (induction ls arbitrary: ls')
  case (Cons e ls)
  obtain k l where e: "e = (k, l)" by (cases e)
  with Cons.prems obtain l' ls'' where ls': "ls' = (k, l') # ls''" "map fst ls'' = map fst ls"
    by (cases ls') auto
  have k: "k \<notin> fst ` set ls" using Cons.prems e by simp
  have "override ls' ls = override ls'' ls"
    using k unfolding ls'(1) override_def by (intro map_cong) (force simp: image_iff)+
  with Cons ls' e show ?case by (simp add: override_def)
qed (simp add: override_def)

lemma override_other:
  "fst ` set ls' \<inter> fst ` set m = {} \<Longrightarrow> override ls' m = m"
proof -
  assume disj: "fst ` set ls' \<inter> fst ` set m = {}"
  have "(case e of (k, l) \<Rightarrow> (k, case map_of ls' k of None \<Rightarrow> l | Some l' \<Rightarrow> l')) = e"
    if "e \<in> set m" for e
  proof -
    obtain k l where e: "e = (k, l)" by (cases e)
    with that disj have "k \<notin> fst ` set ls'" by force
    then have "map_of ls' k = None" by (simp add: map_of_eq_None_iff)
    with e show ?thesis by simp
  qed
  then show ?thesis unfolding override_def by (simp add: map_idI)
qed

lemma priority_override: "priority sd (override ls' m) = override ls' (priority sd m)"
  by (cases sd) (simp_all add: priority_def override_def rev_map)

lemma price_loop_levels:
  assumes "distinct (map fst m)" "distinct ps" "set ps \<subseteq> fst ` set m"
    and "sweep_levels env (map (\<lambda>p. (p, the (map_of m p))) ps) t acc = (ls', t', acc')"
  shows "price_loop env ps m t acc = (override ls' m, t', acc')"
  using assms
proof (induction ps arbitrary: m t acc ls')
  case Nil
  then show ?case by (simp add: override_def)
next
  case (Cons p ps)
  let ?ls = "map (\<lambda>p. (p, the (map_of m p))) (p # ps)"
  have dls: "distinct (map fst ?ls)" using Cons.prems(2) by (simp add: comp_def)
  show ?case
  proof (cases "raw (remaining t) \<le> 0")
    case True
    then have eq: "ls' = ?ls" "t' = t" "acc' = acc" using Cons.prems(4) by auto
    have "map_of ?ls k = (if k \<in> set (p # ps) then map_of m k else None)" for k
    proof (cases "k \<in> set (p # ps)")
      case True
      then have "map_of ?ls k = Some (the (map_of m k))"
        using dls by (intro map_of_is_SomeI) auto
      moreover have "map_of m k \<noteq> None" using True Cons.prems(3)
        by (auto simp: map_of_eq_None_iff)
      ultimately show ?thesis using True by auto
    next
      case False
      then show ?thesis by (auto simp: map_of_eq_None_iff)
    qed
    then have "override ?ls m = m"
      unfolding override_def using Cons.prems(1) by (intro map_idI) auto
    then show ?thesis using True eq by simp
  next
    case False
    obtain l where l: "map_of m p = Some l"
      using Cons.prems(3) by (cases "map_of m p") (auto simp: map_of_eq_None_iff)
    obtain l1 t1 a1 where lv: "level_loop env p 0 l t acc = (l1, t1, a1)" by (metis prod_cases3)
    let ?m = "bt_modify p (\<lambda>_. l1) m"
    have same: "map (\<lambda>p. (p, the (map_of ?m p))) ps = map (\<lambda>p. (p, the (map_of m p))) ps"
      using Cons.prems(2) by (auto simp: map_of_modify)
    obtain ls2 where ls2: "sweep_levels env (map (\<lambda>p. (p, the (map_of m p))) ps) t1 a1 = (ls2, t', acc')"
      "ls' = (p, l1) # ls2"
      using Cons.prems(4) False l lv by (auto split: prod.splits)
    have dm: "distinct (map fst ?m)" using Cons.prems(1) by simp
    have "fst ` set ?m = fst ` set m" by (metis list.set_map map_fst_bt_modify)
    with Cons.prems(3) have sub: "set ps \<subseteq> fst ` set ?m" by simp
    have dps: "distinct ps" using Cons.prems(2) by simp
    have "price_loop env ps ?m t1 a1 = (override ls2 ?m, t', acc')"
      by (rule Cons.IH [OF dm dps sub]) (simp add: same ls2(1))
    moreover have "p \<notin> fst ` set ls2"
    proof -
      have "map fst ls2 = ps" using sweep_levels_flat [OF ls2(1)] by (simp add: comp_def)
      then show ?thesis using Cons.prems(2) by (metis distinct.simps(2) list.set_map)
    qed
    ultimately show ?thesis using False l lv ls2(2)
      by (simp add: bt_get_def override_Cons)
  qed
qed

section \<open>The two directions of a book\<close>

text \<open>
  A buyer walks the asks upwards, a seller the bids downwards. What both rely on: prices come
  best first, and a price better than one within the limit is within the limit. Then the
  levels the source collects with \<open>take_while\<close> are exactly those within the limit.
\<close>

locale price_direction =
  fixes dir :: "book_side \<Rightarrow> book_side"
    and within :: "int \<Rightarrow> int \<Rightarrow> bool"
    and better :: "int \<Rightarrow> int \<Rightarrow> bool"
  assumes dir_sorted: "bt_ok m \<Longrightarrow> sorted_wrt better (map fst (dir m))"
    and within_better: "better p p' \<Longrightarrow> within lim p' \<Longrightarrow> within lim p"
begin

lemma prefix_is_filter:
  assumes "sorted_wrt better (map fst ls)"
  shows "takeWhile (\<lambda>e. within lim (fst e)) ls = filter (\<lambda>e. within lim (fst e)) ls
    \<and> dropWhile (\<lambda>e. within lim (fst e)) ls = filter (\<lambda>e. \<not> within lim (fst e)) ls"
  using assms
proof (induction ls)
  case (Cons e ls)
  have "\<not> within lim (fst e) \<Longrightarrow> x \<in> set ls \<Longrightarrow> \<not> within lim (fst x)" for x
    using Cons.prems within_better by auto
  with Cons show ?case by (auto simp: filter_empty_conv filter_eq_self_iff)
qed simp

lemma within_split:
  assumes "bt_ok m"
  shows "takeWhile (\<lambda>e. within lim (fst e)) (dir m) = filter (\<lambda>e. within lim (fst e)) (dir m)"
    and "dropWhile (\<lambda>e. within lim (fst e)) (dir m) = filter (\<lambda>e. \<not> within lim (fst e)) (dir m)"
  using prefix_is_filter [OF dir_sorted [OF assms]] by auto

end

interpretation ask_dir: price_direction "\<lambda>m. m" "\<lambda>lim p. p \<le> lim" "(<)"
  by unfold_locales (auto simp: bt_ok_def)

interpretation bid_dir: price_direction rev "\<lambda>lim p. lim \<le> p" "(>)"
  by unfold_locales (auto simp: bt_ok_def sorted_wrt_rev simp flip: rev_map)

lemma crosses_split:
  assumes "bt_ok m"
  shows "takeWhile (\<lambda>e. crosses t (fst e)) (priority (o_side t) m)
      = filter (\<lambda>e. crosses t (fst e)) (priority (o_side t) m)"
    and "dropWhile (\<lambda>e. crosses t (fst e)) (priority (o_side t) m)
      = filter (\<lambda>e. \<not> crosses t (fst e)) (priority (o_side t) m)"
  using ask_dir.within_split [OF assms, of "raw (o_price t)"]
    bid_dir.within_split [OF assms, of "raw (o_price t)"]
  by (cases "o_side t"; cases "o_order_type t"; simp add: crosses_def priority_def)+

lemma matching_prices_eq:
  "matching_prices ob t = map fst (takeWhile (\<lambda>e. crosses t (fst e))
     (priority (o_side t) (opposite_book ob (o_side t))))"
  by (cases "o_side t")
    (simp_all add: matching_prices_def priority_def opposite_book_def bt_keys_def takeWhile_map
      comp_def rev_map)

lemma flat_filter: "flat (filter (\<lambda>e. P (fst e)) ls) = filter (\<lambda>e. P (fst e)) (flat ls)"
  by (induction ls) (auto simp: filter_map comp_def)

lemma set_priority [simp]: "set (priority sd m) = set m"
  by (cases sd) (simp_all add: priority_def)

lemma distinct_priority: "distinct (map fst (priority sd m)) = distinct (map fst m)"
  by (cases sd) (simp_all add: priority_def rev_map [symmetric])

lemma priority_retain: "priority sd (bt_retain P m) = bt_retain P (priority sd m)"
  by (cases sd) (simp_all add: priority_def bt_retain_def rev_filter)

lemma opposite_set [simp]: "opposite_book (set_opposite_book ob sd m) sd = m"
  by (cases sd) (simp_all add: opposite_book_def set_opposite_book_def)

text \<open>
  The refinement: \<open>match_order\<close> sweeps the crossing part of the priority queue and leaves
  the rest of the queue alone.
\<close>

lemma match_order_levels:
  assumes ok: "bt_ok (opposite_book ob (o_side t))"
    and m: "match_order ob t = (ob', t', trades, stp)"
  obtains ls' acc where
    "sweep_levels (env_of ob) (filter (\<lambda>e. crosses t (fst e)) (priority (o_side t) (opposite_book ob (o_side t))))
       t (acc_of ob) = (ls', t', acc)"
    "priority (o_side t) (opposite_book ob' (o_side t)) =
       bt_retain (\<lambda>l. l \<noteq> []) (ls' @ filter (\<lambda>e. \<not> crosses t (fst e)) (priority (o_side t) (opposite_book ob (o_side t))))"
    "trades = ma_trades acc" "stp = ma_stp_cancelled acc"
    "ob' = set_opposite_book (ob\<lparr>next_trade_id := ma_next_trade_id acc, recent_trades := ma_recent_trades acc\<rparr>)
             (o_side t) (opposite_book ob' (o_side t))"
proof -
  let ?sd = "o_side t" and ?m = "opposite_book ob (o_side t)"
  let ?in = "filter (\<lambda>e. crosses t (fst e)) (priority ?sd ?m)"
  let ?out = "filter (\<lambda>e. \<not> crosses t (fst e)) (priority ?sd ?m)"
  have dm: "distinct (map fst ?m)" using ok by (rule bt_ok_distinct)
  then have dp: "distinct (map fst (priority ?sd ?m))" by (simp add: distinct_priority)
  have ps: "matching_prices ob t = map fst ?in"
    by (simp add: matching_prices_eq crosses_split [OF ok])
  have "(p, the (map_of ?m p)) = (p, l)" if "(p, l) \<in> set ?in" for p l
    using that dm by (auto simp: map_of_is_SomeI)
  then have lev: "map (\<lambda>p. (p, the (map_of ?m p))) (map fst ?in) = ?in"
    unfolding map_map comp_def by (intro map_idI) auto
  obtain ls' t1 acc where sw: "sweep_levels (env_of ob) ?in t (acc_of ob) = (ls', t1, acc)"
    by (metis prod_cases3)
  have din: "distinct (map fst ?in)" using dp by (simp add: distinct_map_filter)
  have pl: "price_loop (env_of ob) (map fst ?in) ?m t (acc_of ob) = (override ls' ?m, t1, acc)"
    by (rule price_loop_levels [OF dm din]) (auto simp: sw lev simp del: map_map)
  have eqs: "ob' = set_opposite_book (ob\<lparr>next_trade_id := ma_next_trade_id acc, recent_trades := ma_recent_trades acc\<rparr>)
      ?sd (bt_retain (\<lambda>l. l \<noteq> []) (override ls' ?m))" "t' = t1" "trades = ma_trades acc" "stp = ma_stp_cancelled acc"
    using m unfolding match_order_def ps pl by auto
  have keys: "map fst ls' = map fst ?in" using sweep_levels_flat [OF sw] by simp
  have split: "priority ?sd ?m = ?in @ ?out"
    using crosses_split [OF ok] by (metis takeWhile_dropWhile_id)
  have "fst ` set ls' = fst ` set ?in" by (metis keys list.set_map)
  moreover have "fst ` set ?in \<inter> fst ` set ?out = {}" by auto
  ultimately have "override ls' ?out = ?out" by (intro override_other) blast
  moreover have "override ls' ?in = ls'" using din keys by (rule override_own)
  moreover have "override ls' (?in @ ?out) = override ls' ?in @ override ls' ?out"
    by (simp add: override_def)
  ultimately have "priority ?sd (override ls' ?m) = ls' @ ?out"
    using split by (metis priority_override)
  with eqs sw show thesis by (intro that [of ls' acc]) (simp_all add: priority_retain)
qed

lemma match_order_sweep:
  assumes ok: "bt_ok (opposite_book ob (o_side t))"
    and m: "match_order ob t = (ob', t', trades, stp)"
  obtains q' acc where
    "sweep (env_of ob) (filter (\<lambda>e. crosses t (fst e)) (queue ob (o_side t))) t (acc_of ob) = (q', t', acc)"
    "queue ob' (o_side t) = q' @ filter (\<lambda>e. \<not> crosses t (fst e)) (queue ob (o_side t))"
    "trades = ma_trades acc" "stp = ma_stp_cancelled acc"
    "ob' = set_opposite_book (ob\<lparr>next_trade_id := ma_next_trade_id acc, recent_trades := ma_recent_trades acc\<rparr>)
             (o_side t) (opposite_book ob' (o_side t))"
proof -
  obtain ls' acc where l:
    "sweep_levels (env_of ob) (filter (\<lambda>e. crosses t (fst e)) (priority (o_side t) (opposite_book ob (o_side t))))
       t (acc_of ob) = (ls', t', acc)"
    "priority (o_side t) (opposite_book ob' (o_side t)) =
       bt_retain (\<lambda>l. l \<noteq> []) (ls' @ filter (\<lambda>e. \<not> crosses t (fst e)) (priority (o_side t) (opposite_book ob (o_side t))))"
    and rest: "trades = ma_trades acc" "stp = ma_stp_cancelled acc"
    "ob' = set_opposite_book (ob\<lparr>next_trade_id := ma_next_trade_id acc, recent_trades := ma_recent_trades acc\<rparr>)
             (o_side t) (opposite_book ob' (o_side t))"
    using match_order_levels [OF assms] by metis
  from sweep_levels_flat [OF l(1)] l(2) rest show thesis
    by (intro that [of "flat ls'" acc])
      (simp_all add: queue_def flat_filter flat_filter [of "\<lambda>p. \<not> crosses t p"])
qed

end
