(* ===== verification/OrderBook_Sweep.thy ===== *)
theory OrderBook_Sweep
  imports OrderBook_Match
begin

text \<open>
  What one sweep does to the taker, to the queue and to the accumulator, for orders whose sizes
  are proper (\<open>0 \<le> filled \<le> size\<close>, no wrap-around). One induction rule for a sweep, then one
  lemma per aspect.
\<close>

section \<open>Proper orders\<close>

definition taker_ok :: "order \<Rightarrow> bool" where
  "taker_ok t \<longleftrightarrow> 0 \<le> raw (o_filled t) \<and> raw (o_filled t) \<le> raw (o_size t) \<and> raw (o_size t) < 2 ^ 63"

definition live_order :: "order \<Rightarrow> bool" where
  "live_order m \<longleftrightarrow> 0 \<le> raw (o_filled m) \<and> raw (o_filled m) < raw (o_size m) \<and> raw (o_size m) < 2 ^ 63"

lemma live_taker_ok: "live_order m \<Longrightarrow> taker_ok m"
  by (simp add: live_order_def taker_ok_def)

lemma raw_remaining: "taker_ok t \<Longrightarrow> raw (remaining t) = raw (o_size t) - raw (o_filled t)"
  by (simp add: remaining_def fp8_sub_def taker_ok_def wrap_i64_id is_i64_def)

lemma remaining_nonneg: "taker_ok t \<Longrightarrow> 0 \<le> raw (remaining t)"
  by (simp add: raw_remaining) (simp add: taker_ok_def)

lemma live_iff: "live_order m \<longleftrightarrow> taker_ok m \<and> 0 < raw (remaining m)"
  by (auto simp: live_taker_ok raw_remaining) (auto simp: live_order_def taker_ok_def)

text \<open>The fields a match may change: the sizes of the taker, the fill and status of a maker.\<close>

definition same_taker :: "order \<Rightarrow> order \<Rightarrow> bool" where
  "same_taker t t' \<longleftrightarrow> t' = t\<lparr>o_size := o_size t', o_filled := o_filled t'\<rparr>"

definition same_maker :: "order \<Rightarrow> order \<Rightarrow> bool" where
  "same_maker m m' \<longleftrightarrow> m' = m\<lparr>o_filled := o_filled m', o_status := o_status m'\<rparr>"

lemma same_taker_refl [simp]: "same_taker t t" by (simp add: same_taker_def)
lemma same_maker_refl [simp]: "same_maker m m" by (simp add: same_maker_def)

lemma same_taker_trans: "same_taker a b \<Longrightarrow> same_taker b c \<Longrightarrow> same_taker a c"
  unfolding same_taker_def by (cases a, cases b, cases c) simp

lemma same_taker_fields:
  assumes "same_taker t t'"
  shows "o_id t' = o_id t" "o_user_id t' = o_user_id t" "o_side t' = o_side t"
    "o_order_type t' = o_order_type t" "o_price t' = o_price t" "o_leverage t' = o_leverage t"
    "o_status t' = o_status t" "o_time_in_force t' = o_time_in_force t"
    "o_reduce_only t' = o_reduce_only t" "o_market t' = o_market t" "o_timestamp_ms t' = o_timestamp_ms t"
  using assms unfolding same_taker_def by (cases t, cases t', simp)+

lemma same_maker_fields:
  assumes "same_maker m m'"
  shows "o_id m' = o_id m" "o_user_id m' = o_user_id m" "o_side m' = o_side m"
    "o_order_type m' = o_order_type m" "o_price m' = o_price m" "o_size m' = o_size m"
    "o_leverage m' = o_leverage m" "o_reduce_only m' = o_reduce_only m"
    "o_time_in_force m' = o_time_in_force m"
  using assms unfolding same_maker_def by (cases m, cases m', simp)+

section \<open>One crossing\<close>

definition crossed :: "order \<Rightarrow> order \<Rightarrow> int" where
  "crossed t m = min (raw (remaining t)) (raw (remaining m))"

lemma stp_cross_eq:
  assumes "taker_ok t" "0 < raw (remaining t)" "live_order m"
  shows "stp_cross t m acc =
    (let t' = t\<lparr>o_size := FP8 (raw (o_size t) - crossed t m)\<rparr>;
         m' = m\<lparr>o_filled := FP8 (raw (o_filled m) + crossed t m)\<rparr>
     in if raw (remaining m) \<le> raw (remaining t)
        then (t', acc\<lparr>ma_stp_cancelled := ma_stp_cancelled acc @ [(m'\<lparr>o_status := Cancelled\<rparr>, crossed t m)]\<rparr>, None)
        else (t', acc\<lparr>ma_stp_cancelled := ma_stp_cancelled acc @ [(m', crossed t m)]\<rparr>, Some m'))"
proof -
  have m: "taker_ok m" "0 < raw (remaining m)" using assms(3) by (simp_all add: live_iff)
  have w: "wrap_i64 (raw (o_size t) - crossed t m) = raw (o_size t) - crossed t m"
    "wrap_i64 (raw (o_filled m) + crossed t m) = raw (o_filled m) + crossed t m"
    using assms m by (auto simp: crossed_def raw_remaining taker_ok_def is_i64_def intro!: wrap_i64_id)
  have full: "raw (o_size m) \<le> raw (o_filled m) + crossed t m \<longleftrightarrow> raw (remaining m) \<le> raw (remaining t)"
    using m by (auto simp: crossed_def raw_remaining)
  have "0 < crossed t m" using assms(2) m by (simp add: crossed_def)
  then show ?thesis
    unfolding stp_cross_def Let_def crossed_def [symmetric] by (simp add: w full)
qed

definition fill_trade :: "match_env \<Rightarrow> int \<Rightarrow> order \<Rightarrow> order \<Rightarrow> match_acc \<Rightarrow> trade" where
  "fill_trade env p t m acc =
     \<lparr>t_trade_id = ma_next_trade_id acc, t_market = me_market env,
      t_maker_order_id = o_id m, t_taker_order_id = o_id t,
      t_maker_user_id = o_user_id m, t_taker_user_id = o_user_id t,
      t_price = FP8 p, t_size = FP8 (crossed t m), t_taker_side = o_side t,
      t_timestamp_ms = me_attested_ms env\<rparr>"

lemma fill_cross_eq:
  assumes "taker_ok t" "0 < raw (remaining t)" "live_order m"
  shows "fill_cross env p t m acc =
    (let t' = t\<lparr>o_filled := FP8 (raw (o_filled t) + crossed t m)\<rparr>;
         m' = m\<lparr>o_filled := FP8 (raw (o_filled m) + crossed t m), o_status := PartiallyFilled\<rparr>;
         acc' = acc\<lparr>ma_next_trade_id := u64_add (ma_next_trade_id acc) 1,
                    ma_trades := ma_trades acc @ [fill_trade env p t m acc],
                    ma_recent_trades := push_recent env (ma_recent_trades acc) (fill_trade env p t m acc)\<rparr>
     in (t', acc', if raw (remaining m) \<le> raw (remaining t) then None else Some m'))"
proof -
  have m: "taker_ok m" "0 < raw (remaining m)" using assms(3) by (simp_all add: live_iff)
  have w: "wrap_i64 (raw (o_filled t) + crossed t m) = raw (o_filled t) + crossed t m"
    "wrap_i64 (raw (o_filled m) + crossed t m) = raw (o_filled m) + crossed t m"
    using assms m by (auto simp: crossed_def raw_remaining taker_ok_def is_i64_def intro!: wrap_i64_id)
  have full: "FP8 (raw (o_filled m) + crossed t m) = o_size m \<longleftrightarrow> raw (remaining m) \<le> raw (remaining t)"
    using m by (cases "o_size m") (auto simp: crossed_def raw_remaining)
  show ?thesis
    unfolding fill_cross_def Let_def fp8_add_def crossed_def [symmetric] fp8.sel w
    by (simp add: full fill_trade_def)
qed

lemma cross_one_ok:
  assumes "taker_ok t" "0 < raw (remaining t)" "live_order m"
    and "cross_one env p t m acc = (t', acc', r)"
  shows "taker_ok t'" "raw (remaining t') = raw (remaining t) - crossed t m" "same_taker t t'"
    "r = None \<longleftrightarrow> raw (remaining m) \<le> raw (remaining t)"
    "r = Some m' \<Longrightarrow> live_order m' \<and> same_maker m m' \<and> raw (remaining m') = raw (remaining m) - crossed t m
       \<and> raw (remaining t') = 0"
proof -
  note eqs = cross_one_def stp_cross_eq [OF assms(1-3)] fill_cross_eq [OF assms(1-3)] Let_def
  have m: "taker_ok m" "0 < raw (remaining m)" using assms(3) by (simp_all add: live_iff)
  note arith = crossed_def raw_remaining taker_ok_def
  show ok: "taker_ok t'"
    using assms(1,2,4) m by (auto simp: eqs arith split: if_splits)
  show rem: "raw (remaining t') = raw (remaining t) - crossed t m"
    unfolding raw_remaining [OF ok] raw_remaining [OF assms(1)]
    using assms(4) by (auto simp: eqs split: if_splits)
  show "same_taker t t'" using assms(4) by (auto simp: eqs same_taker_def split: if_splits)
  show "r = None \<longleftrightarrow> raw (remaining m) \<le> raw (remaining t)"
    using assms(4) by (auto simp: eqs split: if_splits)
  assume r: "r = Some m'"
  then have lt: "raw (remaining t) < raw (remaining m)" using assms(4) by (auto simp: eqs split: if_splits)
  have sm: "same_maker m m'" "o_size m' = o_size m" "raw (o_filled m') = raw (o_filled m) + crossed t m"
    using r assms(4) by (auto simp: eqs same_maker_def split: if_splits)
  have lv: "live_order m'"
    using sm lt m assms(1,2) by (simp add: live_order_def crossed_def raw_remaining) (auto simp: taker_ok_def)
  then show "live_order m' \<and> same_maker m m' \<and> raw (remaining m') = raw (remaining m) - crossed t m
       \<and> raw (remaining t') = 0"
    using sm lt m by (simp add: raw_remaining live_taker_ok) (simp add: crossed_def raw_remaining rem)
qed

section \<open>Induction over a sweep\<close>

abbreviation all_live :: "(int \<times> order) list \<Rightarrow> bool" where
  "all_live q \<equiv> \<forall>e\<in>set q. live_order (snd e)"

lemma sweep_rule [consumes 3, case_names stop gone stay]:
  assumes run: "sweep env q t acc = (q', t', acc')" and ok: "taker_ok t" and live: "all_live q"
    and stop: "\<And>q t acc. taker_ok t \<Longrightarrow> all_live q \<Longrightarrow> q = [] \<or> raw (remaining t) = 0 \<Longrightarrow> P q t acc q t acc"
    and gone: "\<And>p m q t acc t1 acc1 q' t' acc'. taker_ok t \<Longrightarrow> 0 < raw (remaining t) \<Longrightarrow> live_order m \<Longrightarrow>
       all_live q \<Longrightarrow> cross_one env p t m acc = (t1, acc1, None) \<Longrightarrow> raw (remaining m) \<le> raw (remaining t) \<Longrightarrow>
       P q t1 acc1 q' t' acc' \<Longrightarrow> P ((p, m) # q) t acc q' t' acc'"
    and stay: "\<And>p m q t acc t1 acc1 m'. taker_ok t \<Longrightarrow> 0 < raw (remaining t) \<Longrightarrow> live_order m \<Longrightarrow>
       all_live q \<Longrightarrow> cross_one env p t m acc = (t1, acc1, Some m') \<Longrightarrow> raw (remaining t) < raw (remaining m) \<Longrightarrow>
       P ((p, m) # q) t acc ((p, m') # q) t1 acc1"
  shows "P q t acc q' t' acc'"
  using run ok live
proof (induction q arbitrary: t acc q')
  case Nil
  then show ?case using stop by auto
next
  case (Cons e q)
  obtain p m where e: "e = (p, m)" by (cases e)
  show ?case
  proof (cases "raw (remaining t) \<le> 0")
    case True
    then have "raw (remaining t) = 0" using remaining_nonneg [OF Cons.prems(2)] by simp
    then show ?thesis using Cons.prems stop by (auto simp: sweep_done)
  next
    case False
    obtain t1 acc1 r where c: "cross_one env p t m acc = (t1, acc1, r)" by (metis prod_cases3)
    have pre: "0 < raw (remaining t)" "live_order m" "all_live q" using False Cons.prems(3) e by auto
    note x = cross_one_ok [OF Cons.prems(2) pre(1,2) c]
    show ?thesis
    proof (cases r)
      case None
      then have "P q t1 acc1 q' t' acc'"
        using Cons.prems(1) False e c x(1) pre(3) by (intro Cons.IH) auto
      then show ?thesis using gone pre Cons.prems(2) c None x(4) e by auto
    next
      case (Some m')
      then have "raw (remaining t1) = 0" using x(5) by simp
      then have "q' = (p, m') # q" "t' = t1" "acc' = acc1"
        using Cons.prems(1) False e c Some by (auto simp: sweep_done)
      then show ?thesis using stay pre Cons.prems(2) c Some x(4) e by auto
    qed
  qed
qed

lemma sweep_taker:
  "sweep env q t acc = (q', t', acc') \<Longrightarrow> taker_ok t \<Longrightarrow> all_live q \<Longrightarrow> taker_ok t' \<and> same_taker t t'"
  by (induction rule: sweep_rule) (auto dest: cross_one_ok intro: same_taker_trans)

lemma sweep_exhausts:
  "sweep env q t acc = (q', t', acc') \<Longrightarrow> taker_ok t \<Longrightarrow> all_live q \<Longrightarrow> 0 < raw (remaining t') \<Longrightarrow> q' = []"
  by (induction rule: sweep_rule) (auto dest: cross_one_ok(5))

text \<open>What is left of the queue: a suffix, with at most its first order partly consumed.\<close>

definition fifo_rest :: "(int \<times> order) list \<Rightarrow> (int \<times> order) list \<Rightarrow> bool" where
  "fifo_rest q q' \<longleftrightarrow> (\<exists>gone. q = gone @ q')
     \<or> (\<exists>gone p m m' rest. q = gone @ (p, m) # rest \<and> q' = (p, m') # rest
          \<and> same_maker m m' \<and> 0 < raw (remaining m') \<and> raw (remaining m') < raw (remaining m))"

lemma fifo_rest_Cons: "fifo_rest q q' \<Longrightarrow> fifo_rest (e # q) q'"
  unfolding fifo_rest_def by (metis append_Cons)

lemma sweep_fifo:
  "sweep env q t acc = (q', t', acc') \<Longrightarrow> taker_ok t \<Longrightarrow> all_live q \<Longrightarrow> fifo_rest q q' \<and> all_live q'"
proof (induction rule: sweep_rule)
  case (stop q t acc)
  then show ?case by (auto simp: fifo_rest_def)
next
  case (gone p m q t acc t1 acc1 q' t' acc')
  then show ?case by (auto intro: fifo_rest_Cons)
next
  case (stay p m q t acc t1 acc1 m')
  have "live_order m' \<and> same_maker m m' \<and> raw (remaining m') = raw (remaining m) - crossed t m
       \<and> raw (remaining t1) = 0"
    using cross_one_ok(5) stay by metis
  moreover have "0 < crossed t m" using stay by (simp add: crossed_def)
  ultimately have "same_maker m m' \<and> 0 < raw (remaining m') \<and> raw (remaining m') < raw (remaining m)"
    by (simp add: live_iff)
  then have "fifo_rest ((p, m) # q) ((p, m') # q)"
    unfolding fifo_rest_def by (metis append_Nil)
  then show ?case using stay \<open>live_order m' \<and> _\<close> by auto
qed

definition volume :: "(int \<times> order) list \<Rightarrow> int" where
  "volume q = sum_list (map (\<lambda>e. raw (remaining (snd e))) q)"

lemma volume_simps [simp]: "volume [] = 0" "volume (e # q) = raw (remaining (snd e)) + volume q"
  "volume (q @ q') = volume q + volume q'"
  by (simp_all add: volume_def)

lemma volume_nonneg: "all_live q \<Longrightarrow> 0 \<le> volume q"
  unfolding volume_def by (rule sum_list_nonneg) (auto simp: live_iff)

lemma sweep_volume:
  "sweep env q t acc = (q', t', acc') \<Longrightarrow> taker_ok t \<Longrightarrow> all_live q \<Longrightarrow>
     raw (remaining t) - raw (remaining t') = volume q - volume q'"
proof (induction rule: sweep_rule)
  case (gone p m q t acc t1 acc1 q' t' acc')
  have "raw (remaining t1) = raw (remaining t) - crossed t m"
    using gone by (blast dest: cross_one_ok)
  then show ?case using gone by (simp add: crossed_def)
next
  case (stay p m q t acc t1 acc1 m')
  have "raw (remaining t1) = raw (remaining t) - crossed t m" using stay by (blast dest: cross_one_ok)
  moreover have "raw (remaining m') = raw (remaining m) - crossed t m"
    using cross_one_ok(5) stay by metis
  ultimately show ?case by simp
qed simp

section \<open>Trades and self-trade prevention\<close>

definition trade_of :: "match_env \<Rightarrow> order \<Rightarrow> int \<times> order \<Rightarrow> trade \<Rightarrow> bool" where
  "trade_of env t e tr \<longleftrightarrow> t_maker_order_id tr = o_id (snd e) \<and> t_maker_user_id tr = o_user_id (snd e)
     \<and> t_taker_order_id tr = o_id t \<and> t_taker_user_id tr = o_user_id t \<and> t_taker_side tr = o_side t
     \<and> t_price tr = FP8 (fst e) \<and> o_user_id (snd e) \<noteq> o_user_id t
     \<and> 0 < raw (t_size tr) \<and> raw (t_size tr) \<le> raw (remaining (snd e))
     \<and> t_timestamp_ms tr = me_attested_ms env \<and> t_market tr = me_market env"

definition traded :: "trade list \<Rightarrow> int" where
  "traded trs = sum_list (map (\<lambda>tr. raw (t_size tr)) trs)"

definition prevented :: "(order \<times> int) list \<Rightarrow> int" where
  "prevented xs = sum_list (map snd xs)"

lemma traded_simps [simp]: "traded [] = 0" "traded (tr # trs) = raw (t_size tr) + traded trs"
  by (simp_all add: traded_def)

lemma prevented_simps [simp]: "prevented [] = 0" "prevented (x # xs) = snd x + prevented xs"
  by (simp_all add: prevented_def)

text \<open>The accumulated trades and cancellations of a sweep that starts with queue \<open>q\<close>.\<close>

definition effects ::
  "match_env \<Rightarrow> (int \<times> order) list \<Rightarrow> order \<Rightarrow> match_acc \<Rightarrow> order \<Rightarrow> match_acc \<Rightarrow> trade list \<Rightarrow> (order \<times> int) list \<Rightarrow> bool" where
  "effects env q t acc t' acc' trs stp \<longleftrightarrow>
     ma_trades acc' = ma_trades acc @ trs \<and> ma_stp_cancelled acc' = ma_stp_cancelled acc @ stp
     \<and> raw (o_filled t') = raw (o_filled t) + traded trs
     \<and> raw (o_size t') = raw (o_size t) - prevented stp
     \<and> (\<exists>es. subseq es q \<and> list_all2 (trade_of env t) es trs)
     \<and> (\<forall>x\<in>set stp. 0 < snd x \<and> o_user_id (fst x) = o_user_id t)"

lemma trade_of_same: "same_taker t t' \<Longrightarrow> trade_of env t' = trade_of env t"
  by (auto simp: fun_eq_iff trade_of_def same_taker_fields)

lemma cross_one_effects:
  assumes "taker_ok t" "0 < raw (remaining t)" "live_order m"
    and "cross_one env p t m acc = (t', acc', r)"
  shows "\<exists>trs stp. effects env [(p, m)] t acc t' acc' trs stp"
proof (cases "o_user_id m = o_user_id t")
  case True
  have "0 < crossed t m" using assms by (simp add: crossed_def live_iff)
  with True assms(4) have "\<exists>x. effects env [(p, m)] t acc t' acc' [] [x]"
    by (auto simp: cross_one_def stp_cross_eq [OF assms(1-3)] Let_def effects_def split: if_splits)
  then show ?thesis by blast
next
  case False
  have "0 < crossed t m" "crossed t m \<le> raw (remaining m)"
    using assms by (simp_all add: crossed_def live_iff)
  then have tr: "trade_of env t (p, m) (fill_trade env p t m acc)"
    using False by (simp add: trade_of_def fill_trade_def)
  have "effects env [(p, m)] t acc t' acc' [fill_trade env p t m acc] []"
    using False assms(4) tr
    by (auto simp: cross_one_def fill_cross_eq [OF assms(1-3)] Let_def effects_def fill_trade_def
        intro!: exI [of _ "[(p, m)]"])
  then show ?thesis by blast
qed

lemma effects_trans:
  assumes "effects env [e] t acc t1 acc1 trs1 stp1" "same_taker t t1"
    and "effects env q t1 acc1 t' acc' trs2 stp2"
  shows "effects env (e # q) t acc t' acc' (trs1 @ trs2) (stp1 @ stp2)"
proof -
  obtain es1 es2 where es: "subseq es1 [e]" "list_all2 (trade_of env t) es1 trs1"
    "subseq es2 q" "list_all2 (trade_of env t) es2 trs2"
    using assms by (auto simp: effects_def trade_of_same)
  have "subseq (es1 @ es2) ([e] @ q)" using es(1,3) by (rule list_emb_append_mono)
  then have "\<exists>es. subseq es (e # q) \<and> list_all2 (trade_of env t) es (trs1 @ trs2)"
    using es by (auto intro: list_all2_appendI)
  then show ?thesis using assms
    by (auto simp: effects_def traded_def prevented_def same_taker_fields)
qed

lemma effects_weaken: "effects env [e] t acc t1 acc1 trs stp \<Longrightarrow> effects env (e # q) t acc t1 acc1 trs stp"
proof -
  assume *: "effects env [e] t acc t1 acc1 trs stp"
  then obtain es where "subseq es [e]" "list_all2 (trade_of env t) es trs" by (auto simp: effects_def)
  then have "subseq es (e # q)" "list_all2 (trade_of env t) es trs"
    using list_emb_append2 [of "(=)" es "[e]" q] by (auto intro: subseq_order.trans)
  with * show ?thesis by (auto simp: effects_def)
qed

lemma sweep_effects:
  "sweep env q t acc = (q', t', acc') \<Longrightarrow> taker_ok t \<Longrightarrow> all_live q \<Longrightarrow>
     \<exists>trs stp. effects env q t acc t' acc' trs stp"
proof (induction rule: sweep_rule)
  case (stop q t acc)
  have "effects env q t acc t acc [] []" by (auto simp: effects_def)
  then show ?case by blast
next
  case (gone p m q t acc t1 acc1 q' t' acc')
  then show ?case using cross_one_effects cross_one_ok(3) effects_trans by metis
next
  case (stay p m q t acc t1 acc1 m')
  then show ?case using cross_one_effects effects_weaken by metis
qed

end
