(* ===== verification/OrderBook_Inv.thy ===== *)
theory OrderBook_Inv
  imports OrderBook_Sweep
begin

text \<open>
  The invariant of the order book and its preservation by every operation: sides sorted by
  price without empty levels, every resting order live and on the level of its price, the book
  uncrossed, order ids distinct and below the next id.
\<close>

section \<open>The invariant\<close>

definition resting_ok :: "side \<Rightarrow> int \<Rightarrow> order \<Rightarrow> bool" where
  "resting_ok sd p ord \<longleftrightarrow> o_side ord = sd \<and> raw (o_price ord) = p \<and> live_order ord \<and> 0 < p"

definition wf_side :: "side \<Rightarrow> book_side \<Rightarrow> bool" where
  "wf_side sd m \<longleftrightarrow> bt_ok m \<and> [] \<notin> snd ` set m \<and> (\<forall>e\<in>set (flat m). resting_ok sd (fst e) (snd e))"

definition ids :: "book_side \<Rightarrow> nat list" where
  "ids m = map (\<lambda>e. o_id (snd e)) (flat m)"

definition uncrossed :: "order_book \<Rightarrow> bool" where
  "uncrossed ob \<longleftrightarrow> (\<forall>b\<in>set (bt_keys (bids ob)). \<forall>a\<in>set (bt_keys (asks ob)). b < a)"

definition ids_ok :: "order_book \<Rightarrow> bool" where
  "ids_ok ob \<longleftrightarrow> distinct (ids (bids ob) @ ids (asks ob))
     \<and> (\<forall>i\<in>set (ids (bids ob) @ ids (asks ob)). i < next_order_id ob)"

definition wf_book :: "order_book \<Rightarrow> bool" where
  "wf_book ob \<longleftrightarrow> wf_side Long (bids ob) \<and> wf_side Short (asks ob) \<and> uncrossed ob \<and> ids_ok ob"

definition other :: "side \<Rightarrow> side" where
  "other sd = (case sd of Long \<Rightarrow> Short | Short \<Rightarrow> Long)"

lemma other_simps [simp]: "other Long = Short" "other Short = Long" "other (other sd) = sd"
  by (simp_all add: other_def split: side.splits)

section \<open>Flattened sides\<close>

lemma keys_flat: "[] \<notin> snd ` set m \<Longrightarrow> fst ` set m = fst ` set (flat m)"
proof -
  assume ne: "[] \<notin> snd ` set m"
  have "p \<in> fst ` set (flat m)" if "(p, l) \<in> set m" for p l
  proof -
    from ne that have "l \<noteq> []" by force
    then obtain x where "x \<in> set l" by (cases l) auto
    with that have "(p, x) \<in> set (flat m)" by (auto simp: set_flat)
    then show ?thesis by force
  qed
  then show ?thesis by (force simp: set_flat)
qed

lemma mset_flat_priority [simp]: "mset (flat (priority sd m)) = mset (flat m)"
  by (cases sd) (simp_all add: priority_def flat_def mset_concat rev_map [symmetric] mset_rev
      flip: sum_mset_sum_list)

lemma set_flat_priority [simp]: "set (flat (priority sd m)) = set (flat m)"
  by (metis mset_flat_priority set_mset_mset)

lemma set_queue: "set (queue ob sd) = set (flat (opposite_book ob sd))"
  by (simp add: queue_def)

lemma distinct_ids_mset:
  "mset (flat m) = mset q \<Longrightarrow> distinct (ids m) = distinct (map (\<lambda>e. o_id (snd e)) q)"
  unfolding ids_def by (metis mset_eq_imp_distinct_iff mset_map)

lemma fifo_rest_subset:
  "fifo_rest q q' \<Longrightarrow> (p, m') \<in> set q' \<Longrightarrow> \<exists>m. (p, m) \<in> set q \<and> same_maker m m'"
  by (fastforce simp: fifo_rest_def)

lemma fifo_rest_ids:
  assumes "fifo_rest q q'"
  shows "subseq (map (\<lambda>e. o_id (snd e)) q') (map (\<lambda>e. o_id (snd e)) q)"
proof -
  consider g where "q = g @ q'"
    | g p m m' r where "q = g @ (p, m) # r" "q' = (p, m') # r" "same_maker m m'"
    using assms by (auto simp: fifo_rest_def)
  then show ?thesis
    by cases (auto simp: same_maker_fields intro: list_emb_append2)
qed

lemma subseq_distinct: "subseq xs ys \<Longrightarrow> distinct ys \<Longrightarrow> distinct xs"
  by (induction rule: list_emb.induct) (auto dest: list_emb_set)

lemma mset_flat_upsert:
  "mset (flat (bt_upsert k [] (\<lambda>l. l @ [x]) m)) = add_mset (k, x) (mset (flat m))"
  by (induction k "[] :: order list" "\<lambda>l. l @ [x]" m rule: bt_upsert.induct) auto

lemma upsert_nonempty:
  "[] \<notin> snd ` set m \<Longrightarrow> [] \<notin> snd ` set (bt_upsert k [] (\<lambda>l. l @ [x :: order]) m)"
  by (induction k "[] :: order list" "\<lambda>l. l @ [x]" m rule: bt_upsert.induct) auto

lemma set_flat_upsert:
  "set (flat (bt_upsert k [] (\<lambda>l. l @ [x]) m)) = insert (k, x) (set (flat m))"
  by (metis mset_flat_upsert set_mset_add_mset_insert set_mset_mset)

lemma wf_side_upsert:
  "wf_side sd m \<Longrightarrow> resting_ok sd k x \<Longrightarrow> wf_side sd (bt_upsert k [] (\<lambda>l. l @ [x]) m)"
  by (auto simp: wf_side_def bt_upsert_ok set_flat_upsert dest: upsert_nonempty)

lemma set_ids_upsert: "set (ids (bt_upsert k [] (\<lambda>l. l @ [x]) m)) = insert (o_id x) (set (ids m))"
  by (simp add: ids_def set_flat_upsert)

lemma distinct_ids_upsert:
  "distinct (ids (bt_upsert k [] (\<lambda>l. l @ [x]) m)) \<longleftrightarrow> o_id x \<notin> set (ids m) \<and> distinct (ids m)"
proof -
  have "mset (flat (bt_upsert k [] (\<lambda>l. l @ [x]) m)) = mset ((k, x) # flat m)"
    by (simp add: mset_flat_upsert)
  from distinct_ids_mset [OF this] show ?thesis by (simp add: ids_def)
qed

section \<open>Matching keeps the invariant\<close>

definition own_book :: "order_book \<Rightarrow> side \<Rightarrow> book_side" where
  "own_book ob sd = opposite_book ob (other sd)"

lemma wf_book_sides:
  "wf_book ob \<Longrightarrow> wf_side (other sd) (opposite_book ob sd) \<and> wf_side sd (own_book ob sd)"
  by (cases sd) (simp_all add: wf_book_def opposite_book_def own_book_def)

lemma wf_side_all_live: "wf_side sd m \<Longrightarrow> all_live (flat m)"
  by (auto simp: wf_side_def resting_ok_def)

lemma retain_nonempty: "[] \<notin> snd ` set (bt_retain (\<lambda>l. l \<noteq> []) m)"
  by (auto simp: bt_retain_def)

lemma bt_ok_priority:
  "map fst (priority sd m') = map fst (filter P (priority sd m)) \<Longrightarrow> bt_ok m \<Longrightarrow> bt_ok m'"
proof -
  assume eq: "map fst (priority sd m') = map fst (filter P (priority sd m))" and ok: "bt_ok m"
  have "map fst m' = map fst (filter P m)"
    using eq by (cases sd) (simp_all add: priority_def rev_filter [symmetric] rev_map [symmetric])
  moreover have "sorted_wrt (<) (map fst (filter P m))"
    using ok by (auto simp: bt_ok_def sorted_wrt_map intro: sorted_wrt_filter)
  ultimately show ?thesis by (simp add: bt_ok_def)
qed

lemma map_fst_retain:
  "distinct (map fst ls) \<Longrightarrow>
     map fst (bt_retain Q ls) = filter (\<lambda>k. k \<in> fst ` set (bt_retain Q ls)) (map fst ls)"
proof (induction ls)
  case (Cons e ls)
  obtain k l where e: "e = (k, l)" by (cases e)
  let ?R = "fst ` set (bt_retain Q ls)"
  have k: "k \<notin> fst ` set ls" using Cons.prems e by simp
  have "?R \<subseteq> fst ` set ls" by (auto simp: bt_retain_def)
  with k have kR: "k \<notin> ?R" by blast
  have "filter (\<lambda>k'. k' = k \<or> k' \<in> ?R) (map fst ls) = filter (\<lambda>k'. k' \<in> ?R) (map fst ls)"
    using k by (intro filter_cong) auto
  then show ?case using Cons e kR by (simp add: bt_retain_def)
qed (simp add: bt_retain_def)

lemma retain_keys_filter:
  assumes "map fst ls = map fst ls0" "distinct (map fst ls0)"
  shows "\<exists>P. map fst (bt_retain Q ls) = map fst (filter P ls0)"
proof -
  let ?K = "fst ` set (bt_retain Q ls)"
  have "map fst (bt_retain Q ls) = filter (\<lambda>k. k \<in> ?K) (map fst ls0)"
    using map_fst_retain [of ls Q] assms by simp
  then have "map fst (bt_retain Q ls) = map fst (filter (\<lambda>e. fst e \<in> ?K) ls0)"
    by (simp add: filter_map comp_def)
  then show ?thesis by blast
qed

lemma match_order_ok:
  assumes wf: "wf_side (other (o_side t)) (opposite_book ob (o_side t))"
    and t: "taker_ok t" and m: "match_order ob t = (ob', t', trades, stp)"
  shows "wf_side (other (o_side t)) (opposite_book ob' (o_side t))"
proof -
  let ?sd = "o_side t" and ?m = "opposite_book ob (o_side t)" and ?m' = "opposite_book ob' (o_side t)"
  have ok: "bt_ok ?m" using wf by (simp add: wf_side_def)
  from match_order_levels [OF ok m] obtain ls' acc where l:
    "sweep_levels (env_of ob) (filter (\<lambda>e. crosses t (fst e)) (priority ?sd ?m)) t (acc_of ob) = (ls', t', acc)"
    "priority ?sd ?m' = bt_retain (\<lambda>l. l \<noteq> []) (ls' @ filter (\<lambda>e. \<not> crosses t (fst e)) (priority ?sd ?m))"
    by metis
  have "map fst (ls' @ filter (\<lambda>e. \<not> crosses t (fst e)) (priority ?sd ?m)) = map fst (priority ?sd ?m)"
    using sweep_levels_flat [OF l(1)] crosses_split [OF ok]
    by (metis map_append takeWhile_dropWhile_id)
  then obtain P where "map fst (priority ?sd ?m') = map fst (filter P (priority ?sd ?m))"
    using retain_keys_filter [of _ "priority ?sd ?m"] bt_ok_distinct [OF ok] l(2)
    by (metis distinct_priority)
  then have "bt_ok ?m'" using ok by (rule bt_ok_priority)
  moreover have "[] \<notin> snd ` set ?m'"
    using l(2) retain_nonempty by (metis set_priority)
  moreover have "resting_ok (other ?sd) (fst e) (snd e)" if e: "e \<in> set (flat ?m')" for e
  proof -
    from match_order_sweep [OF ok m] obtain q' acc where s:
      "sweep (env_of ob) (filter (\<lambda>e. crosses t (fst e)) (queue ob ?sd)) t (acc_of ob) = (q', t', acc)"
      "queue ob' ?sd = q' @ filter (\<lambda>e. \<not> crosses t (fst e)) (queue ob ?sd)" by metis
    have live: "all_live (filter (\<lambda>e. crosses t (fst e)) (queue ob ?sd))"
      using wf_side_all_live [OF wf] by (auto simp: set_queue)
    note q = sweep_fifo [OF s(1) t live]
    have "e \<in> set (queue ob' ?sd)" using e by (simp add: set_queue)
    then consider "e \<in> set q'" | "e \<in> set (flat ?m)" using s(2) by (auto simp: set_queue)
    then show ?thesis
    proof cases
      case 1
      then obtain m where m: "(fst e, m) \<in> set (flat ?m)" "same_maker m (snd e)"
        using fifo_rest_subset [OF conjunct1 [OF q], of "fst e" "snd e"] by (auto simp: set_queue)
      then have "resting_ok (other ?sd) (fst e) m" using wf by (auto simp: wf_side_def)
      moreover have "live_order (snd e)" using 1 q by auto
      ultimately show ?thesis using m(2) by (auto simp: resting_ok_def same_maker_fields)
    next
      case 2
      then show ?thesis using wf by (auto simp: wf_side_def)
    qed
  qed
  ultimately show ?thesis by (auto simp: wf_side_def)
qed

lemma set_opposite_frame [simp]:
  "own_book (set_opposite_book ob sd m) sd = own_book ob sd"
  "next_order_id (set_opposite_book ob sd m) = next_order_id ob"
  "next_trade_id (set_opposite_book ob sd m) = next_trade_id ob"
  "recent_trades (set_opposite_book ob sd m) = recent_trades ob"
  "stp_rate (set_opposite_book ob sd m) = stp_rate ob"
  "attested_ms (set_opposite_book ob sd m) = attested_ms ob"
  "ob_market (set_opposite_book ob sd m) = ob_market ob"
  by (simp_all add: own_book_def opposite_book_def set_opposite_book_def split: side.split)

lemma own_book_update [simp]:
  "own_book (ob\<lparr>next_trade_id := n, recent_trades := r\<rparr>) sd = own_book ob sd"
  "own_book (ob\<lparr>next_order_id := i\<rparr>) sd = own_book ob sd"
  "own_book (ob\<lparr>stp_rate := rl\<rparr>) sd = own_book ob sd"
  "opposite_book (ob\<lparr>stp_rate := rl\<rparr>) sd = opposite_book ob sd"
  "opposite_book (ob\<lparr>next_order_id := i\<rparr>) sd = opposite_book ob sd"
  by (simp_all add: own_book_def opposite_book_def split: side.split)

lemma match_order_state:
  "match_order ob t = (ob', t', trades, stp) \<Longrightarrow> \<exists>n r m. ob' = set_opposite_book
      (ob\<lparr>next_trade_id := n, recent_trades := r\<rparr>) (o_side t) m"
  unfolding match_order_def by (auto split: prod.splits)

lemma match_order_frame:
  assumes "match_order ob t = (ob', t', trades, stp)"
  shows "own_book ob' (o_side t) = own_book ob (o_side t)" "next_order_id ob' = next_order_id ob"
    "stp_rate ob' = stp_rate ob" "attested_ms ob' = attested_ms ob" "ob_market ob' = ob_market ob"
proof -
  obtain n r m where "ob' = set_opposite_book (ob\<lparr>next_trade_id := n, recent_trades := r\<rparr>) (o_side t) m"
    using match_order_state [OF assms] by blast
  then show "own_book ob' (o_side t) = own_book ob (o_side t)" "next_order_id ob' = next_order_id ob"
    "stp_rate ob' = stp_rate ob" "attested_ms ob' = attested_ms ob" "ob_market ob' = ob_market ob"
    by simp_all
qed

lemma match_order_ids:
  assumes wf: "wf_side (other (o_side t)) (opposite_book ob (o_side t))"
    and t: "taker_ok t" and m: "match_order ob t = (ob', t', trades, stp)"
    and d: "distinct (ids (opposite_book ob (o_side t)))"
  shows "distinct (ids (opposite_book ob' (o_side t)))
    \<and> set (ids (opposite_book ob' (o_side t))) \<subseteq> set (ids (opposite_book ob (o_side t)))"
proof -
  let ?sd = "o_side t" and ?f = "\<lambda>e :: int \<times> order. o_id (snd e)"
  have ok: "bt_ok (opposite_book ob ?sd)" using wf by (simp add: wf_side_def)
  from match_order_sweep [OF ok m] obtain q' acc where s:
    "sweep (env_of ob) (filter (\<lambda>e. crosses t (fst e)) (queue ob ?sd)) t (acc_of ob) = (q', t', acc)"
    "queue ob' ?sd = q' @ filter (\<lambda>e. \<not> crosses t (fst e)) (queue ob ?sd)" by metis
  have live: "all_live (filter (\<lambda>e. crosses t (fst e)) (queue ob ?sd))"
    using wf_side_all_live [OF wf] by (auto simp: set_queue)
  have "subseq (map ?f q') (map ?f (filter (\<lambda>e. crosses t (fst e)) (queue ob ?sd)))"
    using sweep_fifo [OF s(1) t live] by (intro fifo_rest_ids) simp
  then have sub: "subseq (map ?f (queue ob' ?sd)) (map ?f (filter (\<lambda>e. crosses t (fst e)) (queue ob ?sd)
      @ filter (\<lambda>e. \<not> crosses t (fst e)) (queue ob ?sd)))"
    unfolding s(2) map_append by (intro list_emb_append_mono) auto
  have "mset (filter (\<lambda>e. crosses t (fst e)) (queue ob ?sd)
      @ filter (\<lambda>e. \<not> crosses t (fst e)) (queue ob ?sd)) = mset (flat (opposite_book ob ?sd))"
    by (simp add: queue_def)
  note eq = distinct_ids_mset [OF this [symmetric]]
  have "distinct (map ?f (queue ob' ?sd))" using sub eq d subseq_distinct by blast
  moreover have "mset (flat (opposite_book ob' ?sd)) = mset (queue ob' ?sd)" by (simp add: queue_def)
  ultimately have "distinct (ids (opposite_book ob' ?sd))" using distinct_ids_mset by blast
  moreover have "set (map ?f (queue ob' ?sd)) \<subseteq> set (map ?f (filter (\<lambda>e. crosses t (fst e)) (queue ob ?sd)
      @ filter (\<lambda>e. \<not> crosses t (fst e)) (queue ob ?sd)))"
    using list_emb_set [OF sub] by blast
  then have "set (map ?f (queue ob' ?sd)) \<subseteq> ?f ` set (queue ob ?sd)" by auto
  ultimately show ?thesis by (auto simp: ids_def set_queue)
qed

section \<open>The invariant, seen from a taker\<close>

definition apart :: "side \<Rightarrow> int \<Rightarrow> int \<Rightarrow> bool" where
  "apart sd p q = (case sd of Long \<Rightarrow> p < q | Short \<Rightarrow> q < p)"

lemma wf_book_dir:
  "wf_book ob \<longleftrightarrow> wf_side sd (own_book ob sd) \<and> wf_side (other sd) (opposite_book ob sd)
     \<and> (\<forall>p\<in>fst ` set (own_book ob sd). \<forall>q\<in>fst ` set (opposite_book ob sd). apart sd p q)
     \<and> distinct (ids (own_book ob sd)) \<and> distinct (ids (opposite_book ob sd))
     \<and> set (ids (own_book ob sd)) \<inter> set (ids (opposite_book ob sd)) = {}
     \<and> (\<forall>i\<in>set (ids (own_book ob sd)) \<union> set (ids (opposite_book ob sd)). i < next_order_id ob)"
  by (cases sd) (auto simp: wf_book_def uncrossed_def ids_ok_def own_book_def opposite_book_def
      apart_def bt_keys_def)

lemma match_order_exhausts:
  assumes wf: "wf_side (other (o_side t)) (opposite_book ob (o_side t))"
    and t: "taker_ok t" and m: "match_order ob t = (ob', t', trades, stp)"
  shows "taker_ok t' \<and> same_taker t t'
    \<and> (0 < raw (remaining t') \<longrightarrow> (\<forall>e\<in>set (queue ob' (o_side t)). \<not> crosses t (fst e)))
    \<and> fst ` set (queue ob' (o_side t)) \<subseteq> fst ` set (queue ob (o_side t))"
proof -
  let ?sd = "o_side t" and ?q = "queue ob (o_side t)"
  have ok: "bt_ok (opposite_book ob ?sd)" using wf by (simp add: wf_side_def)
  from match_order_sweep [OF ok m] obtain q' acc where s:
    "sweep (env_of ob) (filter (\<lambda>e. crosses t (fst e)) ?q) t (acc_of ob) = (q', t', acc)"
    "queue ob' ?sd = q' @ filter (\<lambda>e. \<not> crosses t (fst e)) ?q" by metis
  have live: "all_live (filter (\<lambda>e. crosses t (fst e)) ?q)"
    using wf_side_all_live [OF wf] by (auto simp: set_queue)
  have fr: "fifo_rest (filter (\<lambda>e. crosses t (fst e)) ?q) q'" using sweep_fifo [OF s(1) t live] by simp
  have "p \<in> fst ` set ?q" if "(p, x) \<in> set q'" for p x
    using fifo_rest_subset [OF fr that] by force
  then have "fst ` set (queue ob' ?sd) \<subseteq> fst ` set ?q" using s(2) by auto
  then show ?thesis using sweep_taker [OF s(1) t live] sweep_exhausts [OF s(1) t live] s(2) by auto
qed

lemma match_order_wf:
  assumes wf: "wf_book ob" and t: "taker_ok t" and m: "match_order ob t = (ob', t', trades, stp)"
  shows "wf_book ob'"
proof -
  let ?sd = "o_side t"
  have d: "wf_side ?sd (own_book ob ?sd)" "wf_side (other ?sd) (opposite_book ob ?sd)"
    "\<forall>p\<in>fst ` set (own_book ob ?sd). \<forall>q\<in>fst ` set (opposite_book ob ?sd). apart ?sd p q"
    "distinct (ids (own_book ob ?sd))" "distinct (ids (opposite_book ob ?sd))"
    "set (ids (own_book ob ?sd)) \<inter> set (ids (opposite_book ob ?sd)) = {}"
    "\<forall>i\<in>set (ids (own_book ob ?sd)) \<union> set (ids (opposite_book ob ?sd)). i < next_order_id ob"
    using wf unfolding wf_book_dir [of ob ?sd] by blast+
  have w: "wf_side (other ?sd) (opposite_book ob' ?sd)" by (rule match_order_ok [OF d(2) t m])
  have i: "distinct (ids (opposite_book ob' ?sd))"
    "set (ids (opposite_book ob' ?sd)) \<subseteq> set (ids (opposite_book ob ?sd))"
    using match_order_ids [OF d(2) t m d(5)] by auto
  have "fst ` set (flat (opposite_book ob' ?sd)) \<subseteq> fst ` set (flat (opposite_book ob ?sd))"
    using match_order_exhausts [OF d(2) t m] by (simp add: set_queue)
  then have k: "fst ` set (opposite_book ob' ?sd) \<subseteq> fst ` set (opposite_book ob ?sd)"
    using d(2) w keys_flat unfolding wf_side_def by metis
  have "\<forall>p\<in>fst ` set (own_book ob ?sd). \<forall>q\<in>fst ` set (opposite_book ob' ?sd). apart ?sd p q"
    using d(3) k by (meson subsetD)
  moreover have "set (ids (own_book ob ?sd)) \<inter> set (ids (opposite_book ob' ?sd)) = {}"
    using d(6) i(2) by blast
  moreover have "\<forall>j\<in>set (ids (own_book ob ?sd)) \<union> set (ids (opposite_book ob' ?sd)). j < next_order_id ob"
    using d(7) i(2) by blast
  ultimately show ?thesis
    unfolding wf_book_dir [of ob' ?sd] match_order_frame [OF m] using d(1,4) w i(1) by simp
qed

lemma add_to_book_frame:
  "own_book (add_to_book ob ord) (o_side ord) =
     bt_upsert (raw (o_price ord)) [] (\<lambda>l. l @ [ord]) (own_book ob (o_side ord))"
  "opposite_book (add_to_book ob ord) (o_side ord) = opposite_book ob (o_side ord)"
  "next_order_id (add_to_book ob ord) = next_order_id ob"
  "next_trade_id (add_to_book ob ord) = next_trade_id ob"
  "stp_rate (add_to_book ob ord) = stp_rate ob"
  by (simp_all add: add_to_book_def own_book_def opposite_book_def split: side.split)

lemma add_to_book_wf:
  assumes wf: "wf_book ob" and r: "resting_ok (o_side ord) (raw (o_price ord)) ord"
    and ap: "\<forall>q\<in>fst ` set (opposite_book ob (o_side ord)). apart (o_side ord) (raw (o_price ord)) q"
    and fresh: "o_id ord \<notin> set (ids (own_book ob (o_side ord))) \<union> set (ids (opposite_book ob (o_side ord)))"
    and lt: "o_id ord < next_order_id ob"
  shows "wf_book (add_to_book ob ord)"
proof -
  let ?sd = "o_side ord"
  have "wf_side ?sd (own_book (add_to_book ob ord) ?sd)"
    using wf r unfolding wf_book_dir [of ob ?sd] add_to_book_frame by (intro wf_side_upsert) auto
  then show ?thesis
    using wf ap fresh lt
    unfolding wf_book_dir [of _ ?sd] add_to_book_frame distinct_ids_upsert set_ids_upsert fst_set_bt_upsert
    by (intro conjI ballI) (blast | force)+
qed

lemma wf_book_update [simp]:
  "wf_book (ob\<lparr>stp_rate := rl\<rparr>) = wf_book ob"
  by (simp add: wf_book_def uncrossed_def ids_ok_def)

lemma wf_book_next_id: "wf_book ob \<Longrightarrow> next_order_id ob \<le> n \<Longrightarrow> wf_book (ob\<lparr>next_order_id := n\<rparr>)"
  by (auto simp: wf_book_def uncrossed_def ids_ok_def intro: less_le_trans)

section \<open>Every operation keeps the invariant\<close>

lemma settle_remainder_book:
  assumes "settle_remainder ob ord = (ob', ord')"
  shows "ob' = ob \<or> ob' = add_to_book ob ord \<and> o_order_type ord = Limit \<and> 0 < raw (remaining ord)"
  using assms
  by (auto simp: settle_remainder_def Let_def split: if_splits order_type.splits time_in_force.splits)

lemma execute_order_wf:
  assumes wf: "wf_book ob" and t: "taker_ok ord" and pos: "o_order_type ord = Limit \<Longrightarrow> 0 < raw (o_price ord)"
    and fresh: "o_id ord \<notin> set (ids (bids ob)) \<union> set (ids (asks ob))" and lt: "o_id ord < next_order_id ob"
    and run: "execute_order tr ob ord = (r, ob')"
  shows "wf_book ob'"
proof -
  let ?sd = "o_side ord"
  obtain ob1 ord1 trades stp where m: "match_order ob ord = (ob1, ord1, trades, stp)" by (metis prod_cases4)
  define ob2 where "ob2 = (if stp \<noteq> [] then ob1\<lparr>stp_rate := record_at (stp_rate ob1) (o_user_id ord1) tr\<rparr> else ob1)"
  have wf1: "wf_book ob1" using match_order_wf [OF wf t m] .
  then have wf2: "wf_book ob2" by (simp add: ob2_def)
  obtain ord2 where st: "settle_remainder ob2 ord1 = (ob', ord2)"
    using run by (auto simp: execute_order_def m ob2_def Let_def split: prod.splits)
  note side = wf_book_sides [OF wf, of ?sd]
  have ex: "taker_ok ord1" "same_taker ord ord1"
    "0 < raw (remaining ord1) \<Longrightarrow> \<forall>e\<in>set (queue ob1 ?sd). \<not> crosses ord (fst e)"
    using match_order_exhausts [OF conjunct1 [OF side] t m] by auto
  note f = same_taker_fields [OF ex(2)]
  have b: "own_book ob2 ?sd = own_book ob1 ?sd" "opposite_book ob2 ?sd = opposite_book ob1 ?sd"
    "next_order_id ob2 = next_order_id ob" using match_order_frame [OF m] by (simp_all add: ob2_def)
  show ?thesis
  proof (cases "ob' = ob2")
    case True
    then show ?thesis using wf2 by simp
  next
    case False
    then have a: "ob' = add_to_book ob2 ord1" "o_order_type ord = Limit" "0 < raw (remaining ord1)"
      using settle_remainder_book [OF st] f by auto
    have "resting_ok (o_side ord1) (raw (o_price ord1)) ord1"
      using a pos ex(1) f by (simp add: resting_ok_def live_iff)
    moreover have "\<forall>q\<in>fst ` set (opposite_book ob2 ?sd). apart ?sd (raw (o_price ord1)) q"
    proof -
      have "[] \<notin> snd ` set (opposite_book ob1 ?sd)"
        using wf_book_sides [OF wf1, of ?sd] by (simp add: wf_side_def)
      then have "fst ` set (opposite_book ob2 ?sd) = fst ` set (queue ob1 ?sd)"
        by (simp add: b(2) keys_flat set_queue)
      then show ?thesis using ex(3) [OF a(3)] a(2) f
        by (auto simp: apart_def crosses_def split: side.splits)
    qed
    moreover have "o_id ord1 \<notin> set (ids (own_book ob2 ?sd)) \<union> set (ids (opposite_book ob2 ?sd))"
    proof -
      have "distinct (ids (opposite_book ob ?sd))"
        using wf unfolding wf_book_dir [of ob ?sd] by blast
      then have "set (ids (opposite_book ob1 ?sd)) \<subseteq> set (ids (opposite_book ob ?sd))"
        using match_order_ids [OF conjunct1 [OF side] t m] by simp
      then show ?thesis using fresh b f match_order_frame [OF m]
        by (cases ?sd) (auto simp: own_book_def opposite_book_def)
    qed
    ultimately show ?thesis
      unfolding a(1) using wf2 lt b f by (intro add_to_book_wf) simp_all
  qed
qed

text \<open>The book after the gate was asked, and after the order got its id.\<close>

definition asked :: "nat \<Rightarrow> order_book \<Rightarrow> string \<Rightarrow> order_book" where
  "asked tp ob user = ob\<lparr>stp_rate := snd (peek_at (stp_rate ob) user tp)\<rparr>"

definition admitted :: "nat \<Rightarrow> order_book \<Rightarrow> string \<Rightarrow> order_book" where
  "admitted tp ob user = (asked tp ob user)\<lparr>next_order_id := u64_add (next_order_id ob) 1\<rparr>"

lemma admitted_fields [simp]:
  "bids (admitted tp ob user) = bids ob" "asks (admitted tp ob user) = asks ob"
  "next_trade_id (admitted tp ob user) = next_trade_id ob"
  "recent_trades (admitted tp ob user) = recent_trades ob"
  "attested_ms (admitted tp ob user) = attested_ms ob" "ob_market (admitted tp ob user) = ob_market ob"
  "next_order_id (admitted tp ob user) = u64_add (next_order_id ob) 1"
  "opposite_book (admitted tp ob user) sd = opposite_book ob sd"
  "own_book (admitted tp ob user) sd = own_book ob sd"
  "queue (admitted tp ob user) sd = queue ob sd"
  by (simp_all add: admitted_def asked_def queue_def)

lemma submit_order_cases [consumes 1, case_names size price gate clock killed executed]:
  assumes "submit_order tp tr ob user sd ty price sz lev tif ro cid = (r, ob')"
  obtains "raw sz \<le> 0" "r = Err SizeNotPositive" "ob' = ob"
  | "0 < raw sz" "ty = Limit" "raw price \<le> 0" "r = Err LimitPriceNotPositive" "ob' = ob"
  | "0 < raw sz" "ty = Limit \<longrightarrow> 0 < raw price" "\<not> fst (peek_at (stp_rate ob) user tp)"
    "r = Err SelfTradeRateExceeded" "ob' = asked tp ob user"
  | "0 < raw sz" "ty = Limit \<longrightarrow> 0 < raw price" "fst (peek_at (stp_rate ob) user tp)" "attested_ms ob = 0"
    "r = Err AttestedClockNotSet" "ob' = asked tp ob user"
  | "0 < raw sz" "ty = Limit \<longrightarrow> 0 < raw price" "fst (peek_at (stp_rate ob) user tp)" "attested_ms ob \<noteq> 0"
    "tif = Fok" "available_liquidity (admitted tp ob user) (new_order ob user sd ty price sz lev tif ro cid) < raw sz"
    "r = Ok ((new_order ob user sd ty price sz lev tif ro cid)\<lparr>o_status := Cancelled\<rparr>, [], [])"
    "ob' = admitted tp ob user"
  | "0 < raw sz" "ty = Limit \<longrightarrow> 0 < raw price" "fst (peek_at (stp_rate ob) user tp)" "attested_ms ob \<noteq> 0"
    "tif = Fok \<longrightarrow> raw sz \<le> available_liquidity (admitted tp ob user) (new_order ob user sd ty price sz lev tif ro cid)"
    "execute_order tr (admitted tp ob user) (new_order ob user sd ty price sz lev tif ro cid) = (r, ob')"
proof -
  have n: "new_order (ob\<lparr>stp_rate := rl\<rparr>) user sd ty price sz lev tif ro cid
      = new_order ob user sd ty price sz lev tif ro cid" for rl
    by (simp add: new_order_def)
  have f: "next_order_id (ob\<lparr>stp_rate := rl\<rparr>) = next_order_id ob"
    "attested_ms (ob\<lparr>stp_rate := rl\<rparr>) = attested_ms ob" for rl by simp_all
  let ?ord = "new_order ob user sd ty price sz lev tif ro cid"
  let ?g = "fst (peek_at (stp_rate ob) user tp)"
  have E: "(if raw sz \<le> 0 then (Err SizeNotPositive, ob)
      else if ty = Limit \<and> raw price \<le> 0 then (Err LimitPriceNotPositive, ob)
      else if \<not> ?g then (Err SelfTradeRateExceeded, asked tp ob user)
      else if attested_ms ob = 0 then (Err AttestedClockNotSet, asked tp ob user)
      else if tif = Fok \<and> available_liquidity (admitted tp ob user) ?ord < raw sz
      then (Ok (?ord\<lparr>o_status := Cancelled\<rparr>, [], []), admitted tp ob user)
      else execute_order tr (admitted tp ob user) ?ord) = (r, ob')"
    using assms unfolding submit_order_def Let_def case_prod_beta admitted_def asked_def
    by (simp only: n f)
  show thesis
  proof (cases "raw sz \<le> 0")
    case True
    with E show thesis by (intro that(1)) auto
  next
    case sz: False
    show thesis
    proof (cases "ty = Limit \<and> raw price \<le> 0")
      case True
      with E sz show thesis by (intro that(2)) auto
    next
      case pr: False
      show thesis
      proof (cases "?g \<and> attested_ms ob \<noteq> 0")
        case False
        then consider "\<not> ?g" | "?g" "attested_ms ob = 0" by blast
        then show thesis
        proof cases
          case 1
          with E sz pr show thesis by (intro that(3)) auto
        next
          case 2
          with E sz pr show thesis by (intro that(4)) auto
        qed
      next
        case gt: True
        show thesis
        proof (cases "tif = Fok \<and> available_liquidity (admitted tp ob user) ?ord < raw sz")
          case True
          with E sz pr gt show thesis by (intro that(5)) auto
        next
          case False
          with E sz pr gt show thesis by (intro that(6)) auto
        qed
      qed
    qed
  qed
qed

lemma new_order_taker_ok:
  "0 < raw sz \<Longrightarrow> raw sz < 2 ^ 63 \<Longrightarrow> taker_ok (new_order ob user sd ty price sz lev tif ro cid)"
  by (simp add: taker_ok_def new_order_def fp8_ZERO_def)

lemma submit_order_wf:
  assumes wf: "wf_book ob" and sz: "raw sz < 2 ^ 63" and id: "next_order_id ob + 1 < 2 ^ 64"
    and run: "submit_order tp tr ob user sd ty price sz lev tif ro cid = (r, ob')"
  shows "wf_book ob'"
proof -
  have inc: "u64_add (next_order_id ob) 1 = next_order_id ob + 1" using id by (simp add: u64_add_def)
  have wf2: "wf_book (admitted tp ob user)"
    using wf unfolding admitted_def asked_def by (intro wf_book_next_id) (simp_all add: inc [simplified])
  from run show ?thesis
  proof (cases rule: submit_order_cases)
    case executed
    let ?ord = "new_order ob user sd ty price sz lev tif ro cid"
    have "\<forall>i\<in>set (ids (bids ob)) \<union> set (ids (asks ob)). i < next_order_id ob"
      using wf by (auto simp: wf_book_def ids_ok_def)
    then have "o_id ?ord \<notin> set (ids (bids (admitted tp ob user))) \<union> set (ids (asks (admitted tp ob user)))"
      by (auto simp: new_order_def)
    then show ?thesis
      using executed sz
      by (intro execute_order_wf [OF wf2 new_order_taker_ok _ _ _ executed(6)])
        (auto simp: new_order_def inc [simplified])
  qed (use wf wf2 in \<open>simp_all add: asked_def\<close>)
qed

end
