(* ===== verification/OrderBook_Sample.thy ===== *)
theory OrderBook_Sample
  imports OrderBook_Inv
begin

text \<open>
  A small concrete book, two bids of different users and one ask, built by the operations of
  the model from an empty book, and the equations that run the model on it.
\<close>

definition place :: "string \<Rightarrow> side \<Rightarrow> int \<Rightarrow> int \<Rightarrow> order_book \<Rightarrow> order_book" where
  "place user sd price sz ob =
     snd (submit_order 5 6 ob user sd Limit (FP8 price) (FP8 sz) 2 Gtc False None)"

definition sample_order :: "nat \<Rightarrow> string \<Rightarrow> side \<Rightarrow> int \<Rightarrow> int \<Rightarrow> order" where
  "sample_order i user sd price sz =
     \<lparr>o_id = i, o_user_id = user, o_market = ''XRP'', o_side = sd, o_order_type = Limit,
      o_price = FP8 price, o_size = FP8 sz, o_filled = FP8 0, o_leverage = 2, o_status = Open,
      o_time_in_force = Gtc, o_reduce_only = False, o_timestamp_ms = 7,
      o_client_order_id = None, o_close_position_id = None\<rparr>"

definition sample_book :: order_book where
  "sample_book =
     \<lparr>ob_market = ''XRP'',
      bids = [(90, [sample_order 1 ''alice'' Long 90 3]), (100, [sample_order 2 ''bob'' Long 100 5])],
      asks = [(110, [sample_order 3 ''carol'' Short 110 4])],
      next_order_id = 4, next_trade_id = 1, recent_trades = [], max_recent_trades = 1000,
      stp_rate = rate_limiter_new (60 * 1000000000) 30, attested_ms = 7\<rparr>"

lemmas run_simps = place_def submit_order_def execute_order_def match_order_def settle_remainder_def
  order_book_new_def set_attested_ms_def new_order_def matching_prices_def crosses_def opposite_book_def
  set_opposite_book_def env_of_def acc_of_def peek_at_def prune_def rate_limiter_new_def bt_keys_def
  bt_get_def bt_modify_def bt_retain_def add_to_book_def remaining_def fp8_sub_def fp8_add_def fp8_ZERO_def
  wrap_i64_def u64_add_def Let_def level_loop.simps cross_one_def fill_cross_def stp_cross_def
  push_recent_def remove_at_def available_liquidity_def

lemmas sample_simps = sample_book_def sample_order_def

lemma sample_book_run:
  "sample_book = place ''carol'' Short 110 4 (place ''bob'' Long 100 5 (place ''alice'' Long 90 3
     (set_attested_ms (order_book_new ''XRP'') 7)))"
  by (simp add: sample_simps run_simps)

lemma sample_book_wf: "wf_book sample_book"
  by (simp add: sample_simps wf_book_def wf_side_def bt_ok_def flat_def resting_ok_def live_order_def
      uncrossed_def ids_ok_def ids_def bt_keys_def)

end
