(* ===== verification/OrderBook_Props.thy ===== *)
theory OrderBook_Props
  imports OrderBook_Sample
begin

text \<open>
  The properties of the order book: price-time priority, conservation, self-trade prevention,
  fill-or-kill, cancellation, recovery. The lemmas come from the refinement to a sweep
  (\<open>OrderBook_Match\<close>, \<open>OrderBook_Sweep\<close>) and from the invariant (\<open>OrderBook_Inv\<close>).
\<close>

section \<open>What a match reports\<close>

definition no_worse :: "side \<Rightarrow> int \<Rightarrow> int \<Rightarrow> bool" where
  "no_worse sd p q = (case sd of Long \<Rightarrow> p \<le> q | Short \<Rightarrow> q \<le> p)"

lemma sorted_flat:
  assumes "bt_ok m"
  shows "sorted_wrt (no_worse sd) (map fst (flat (priority sd m)))"
proof -
  have s: "sorted_wrt R (map fst (flat ls))"
    if "sorted_wrt S (map fst ls)" "\<And>p q. S p q \<Longrightarrow> R p q" "\<And>p. R p p" for R S and ls :: book_side
    using that(1)
  proof (induction ls)
    case (Cons e ls)
    obtain p l where e: "e = (p, l)" by (cases e)
    have "sorted_wrt R (replicate (length l) p)" by (induction l) (auto simp: that(3))
    then have "sorted_wrt R (map fst (map (Pair p) l))" by (simp add: comp_def map_replicate_const)
    moreover have "R p q" if "q \<in> set (map fst (flat ls))" for q
      using that Cons.prems e by (auto simp: set_flat intro!: \<open>\<And>p q. S p q \<Longrightarrow> R p q\<close>)
    ultimately show ?case using Cons e by (auto simp: sorted_wrt_append)
  qed simp
  show ?thesis
  proof (cases sd)
    case Long
    have "sorted_wrt (no_worse Long) (map fst (flat m))"
      by (rule s [OF ask_dir.dir_sorted [OF assms]]) (simp_all add: no_worse_def)
    with Long show ?thesis by (simp add: priority_def)
  next
    case Short
    have "sorted_wrt (no_worse Short) (map fst (flat (rev m)))"
      by (rule s [OF bid_dir.dir_sorted [OF assms]]) (simp_all add: no_worse_def)
    with Short show ?thesis by (simp add: priority_def)
  qed
qed

lemma match_order_effects:
  assumes wf: "wf_side (other (o_side t)) (opposite_book ob (o_side t))"
    and t: "taker_ok t" and m: "match_order ob t = (ob', t', trades, stp)"
  obtains acc where "effects (env_of ob) (filter (\<lambda>e. crosses t (fst e)) (queue ob (o_side t)))
     t (acc_of ob) t' acc trades stp"
proof -
  let ?sd = "o_side t"
  have ok: "bt_ok (opposite_book ob ?sd)" using wf by (simp add: wf_side_def)
  from match_order_sweep [OF ok m] obtain q' acc where s:
    "sweep (env_of ob) (filter (\<lambda>e. crosses t (fst e)) (queue ob ?sd)) t (acc_of ob) = (q', t', acc)"
    "trades = ma_trades acc" "stp = ma_stp_cancelled acc" by metis
  have live: "all_live (filter (\<lambda>e. crosses t (fst e)) (queue ob ?sd))"
    using wf_side_all_live [OF wf] by (auto simp: set_queue)
  obtain trs st where e: "effects (env_of ob) (filter (\<lambda>e. crosses t (fst e)) (queue ob ?sd)) t (acc_of ob) t' acc trs st"
    using sweep_effects [OF s(1) t live] by blast
  then have "trs = trades" "st = stp" using s by (auto simp: effects_def acc_of_def)
  with e show thesis by (auto intro: that)
qed

lemma effects_trades:
  assumes "effects env q t acc t' acc' trades stp"
  shows "\<forall>tr\<in>set trades. \<exists>e\<in>set q. trade_of env t e tr"
    and "sorted_wrt R (map fst q) \<Longrightarrow> sorted_wrt R (map (\<lambda>tr. raw (t_price tr)) trades)"
proof -
  obtain es where es: "subseq es q" "list_all2 (trade_of env t) es trades"
    using assms by (auto simp: effects_def)
  show "\<forall>tr\<in>set trades. \<exists>e\<in>set q. trade_of env t e tr"
  proof
    fix tr assume "tr \<in> set trades"
    then obtain i where "i < length trades" "tr = trades ! i" by (metis in_set_conv_nth)
    then have "es ! i \<in> set es" "trade_of env t (es ! i) tr"
      using es(2) by (auto simp: list_all2_conv_all_nth)
    then show "\<exists>e\<in>set q. trade_of env t e tr" using list_emb_set [OF es(1)] by metis
  qed
  assume srt: "sorted_wrt R (map fst q)"
  have "map (\<lambda>tr. raw (t_price tr)) trades = map fst es"
    using es(2) by (induction rule: list_all2_induct) (auto simp: trade_of_def)
  moreover have "sorted_wrt R (map fst es)"
    using es(1) srt
  proof (induction rule: list_emb.induct)
    case (list_emb_Cons2 x y xs ys)
    then show ?case by (auto dest: list_emb_set)
  qed auto
  ultimately show "sorted_wrt R (map (\<lambda>tr. raw (t_price tr)) trades)" by simp
qed

lemma settle_remainder_order:
  "settle_remainder ob ord = (ob', ord') \<Longrightarrow> \<exists>s. ord' = ord\<lparr>o_status := s\<rparr>"
  by (auto simp: settle_remainder_def Let_def split: if_splits order_type.splits time_in_force.splits
      intro: exI [of _ "o_status ord"])

text \<open>An executed submission, with its match and the settled order.\<close>

lemma execute_order_match:
  assumes "execute_order tr ob ord0 = (Ok (ord, trades, stp), ob')"
  obtains ob1 ob2 ord1 s where "match_order ob ord0 = (ob1, ord1, trades, stp)"
    "ord = ord1\<lparr>o_status := s\<rparr>" "settle_remainder ob2 ord1 = (ob', ord)"
    "ob2 = (if stp \<noteq> [] then ob1\<lparr>stp_rate := record_at (stp_rate ob1) (o_user_id ord1) tr\<rparr> else ob1)"
proof -
  obtain ob1 ord1 trades' stp' where m: "match_order ob ord0 = (ob1, ord1, trades', stp')" by (metis prod_cases4)
  define ob2 where "ob2 = (if stp' \<noteq> [] then ob1\<lparr>stp_rate := record_at (stp_rate ob1) (o_user_id ord1) tr\<rparr> else ob1)"
  obtain ob3 ord2 where st: "settle_remainder ob2 ord1 = (ob3, ord2)" by (cases "settle_remainder ob2 ord1")
  then obtain s where s: "ord2 = ord1\<lparr>o_status := s\<rparr>" using settle_remainder_order by blast
  have eq: "ord = ord2" "trades = trades'" "stp = stp'" "ob' = ob3"
    using assms st by (simp_all add: execute_order_def m Let_def flip: ob2_def)
  show thesis
    by (rule that [of ob1 ord1 s ob2]) (use m st s eq ob2_def in blast)+
qed

lemma new_order_fields [simp]:
  "o_side (new_order ob user sd ty price sz lev tif ro cid) = sd"
  "o_user_id (new_order ob user sd ty price sz lev tif ro cid) = user"
  "o_order_type (new_order ob user sd ty price sz lev tif ro cid) = ty"
  "o_price (new_order ob user sd ty price sz lev tif ro cid) = price"
  "o_size (new_order ob user sd ty price sz lev tif ro cid) = sz"
  "o_filled (new_order ob user sd ty price sz lev tif ro cid) = FP8 0"
  "o_time_in_force (new_order ob user sd ty price sz lev tif ro cid) = tif"
  "o_id (new_order ob user sd ty price sz lev tif ro cid) = next_order_id ob"
  "o_status (new_order ob user sd ty price sz lev tif ro cid) = Open"
  "o_leverage (new_order ob user sd ty price sz lev tif ro cid) = lev"
  "o_reduce_only (new_order ob user sd ty price sz lev tif ro cid) = ro"
  by (simp_all add: new_order_def fp8_ZERO_def)

lemma wf_admitted_side:
  "wf_book ob \<Longrightarrow> wf_side (other sd) (opposite_book (admitted tp ob user) sd)"
  using wf_book_sides [of ob sd] by simp

lemma env_of_admitted: "env_of (admitted tp ob user) = env_of ob"
  by (simp add: env_of_def admitted_def asked_def)

section \<open>Liquidity of the fill-or-kill check\<close>

lemma wrapped_sum_exact:
  assumes "\<forall>x\<in>set xs. 0 \<le> (f x :: int)" "0 \<le> a" "a + sum_list (map f (filter P xs)) < 2 ^ 63"
  shows "foldl (\<lambda>tot x. if P x then wrap_i64 (tot + f x) else tot) a xs = a + sum_list (map f (filter P xs))"
  using assms
proof (induction xs arbitrary: a)
  case (Cons x xs)
  have nn: "0 \<le> sum_list (map f (filter P xs))" using Cons.prems(1) by (intro sum_list_nonneg) auto
  show ?case
  proof (cases "P x")
    case True
    have "is_i64 (a + f x)" using Cons.prems nn True by (simp add: is_i64_def)
    then show ?thesis using Cons True by (simp add: wrap_i64_id add.assoc)
  next
    case False
    then show ?thesis using Cons by simp
  qed
qed simp

lemma concat_snd_flat: "concat (map snd m) = map snd (flat m)"
  by (induction m) (auto simp: comp_def)

definition foreign :: "string \<Rightarrow> (int \<times> order) list \<Rightarrow> (int \<times> order) list" where
  "foreign user q = filter (\<lambda>e. o_user_id (snd e) \<noteq> user) q"

lemma volume_filter_le: "all_live q \<Longrightarrow> volume (filter P q) \<le> volume q"
  by (induction q) (auto simp: live_iff)

lemma available_liquidity_eq:
  assumes live: "all_live (flat (opposite_book ob (o_side ord)))"
    and fits: "volume (flat (takeWhile (\<lambda>e. crosses ord (fst e)) (opposite_book ob (o_side ord)))) < 2 ^ 63"
  shows "available_liquidity ob ord =
    volume (foreign (o_user_id ord) (flat (takeWhile (\<lambda>e. crosses ord (fst e)) (opposite_book ob (o_side ord)))))"
proof -
  let ?ls = "takeWhile (\<lambda>e. crosses ord (fst e)) (opposite_book ob (o_side ord))"
  have lv: "all_live (flat ?ls)" using live by (auto simp: set_flat dest: set_takeWhileD)
  let ?P = "\<lambda>x. o_user_id x \<noteq> o_user_id ord"
  have vol: "volume (foreign (o_user_id ord) (flat ?ls))
      = sum_list (map (\<lambda>x. raw (remaining x)) (filter ?P (map snd (flat ?ls))))"
    by (simp add: volume_def foreign_def filter_map comp_def)
  have "volume (foreign (o_user_id ord) (flat ?ls)) < 2 ^ 63"
    using volume_filter_le [OF lv, of "\<lambda>e. ?P (snd e)"] fits by (simp add: foreign_def)
  then show ?thesis
    unfolding available_liquidity_def concat_snd_flat vol case_prod_beta
    using lv by (subst wrapped_sum_exact) (auto simp: live_iff)
qed

lemma volume_sum_mset: "volume q = (\<Sum>e\<in>#mset q. raw (remaining (snd e)))"
  by (induction q) auto

lemma volume_mset: "mset q = mset q' \<Longrightarrow> volume q = volume q'"
  by (simp add: volume_sum_mset)

lemma flat_mono: "set ls \<subseteq> set ls' \<Longrightarrow> set (flat ls) \<subseteq> set (flat ls')"
  by (auto simp: set_flat)

lemma volume_takeWhile_le:
  "all_live (flat ls) \<Longrightarrow>
     volume (flat (takeWhile P ls)) \<le> volume (flat (filter P ls))"
proof (induction ls)
  case (Cons e ls)
  obtain p l where e: "e = (p, l)" by (cases e)
  have "0 \<le> volume (flat (filter P ls))"
    using Cons.prems e flat_mono [of "filter P ls" "e # ls"] by (intro volume_nonneg) auto
  then show ?case using Cons e by auto
qed simp

lemma volume_crossing:
  "volume (filter (\<lambda>e. crosses t (fst e)) (queue ob sd))
     = volume (flat (filter (\<lambda>e. crosses t (fst e)) (opposite_book ob sd)))"
  by (rule volume_mset) (simp add: queue_def flat_filter)

lemma available_le_crossing:
  assumes live: "all_live (flat (opposite_book ob (o_side ord)))"
    and fits: "volume (filter (\<lambda>e. crosses ord (fst e)) (queue ob (o_side ord))) < 2 ^ 63"
  shows "available_liquidity ob ord \<le> volume (filter (\<lambda>e. crosses ord (fst e)) (queue ob (o_side ord)))"
proof -
  let ?m = "opposite_book ob (o_side ord)"
  let ?ls = "takeWhile (\<lambda>e. crosses ord (fst e)) ?m"
  have le: "volume (flat ?ls) \<le> volume (filter (\<lambda>e. crosses ord (fst e)) (queue ob (o_side ord)))"
    unfolding volume_crossing using live by (rule volume_takeWhile_le)
  have lv: "all_live (flat ?ls)" using live by (auto simp: set_flat dest: set_takeWhileD)
  have "available_liquidity ob ord = volume (foreign (o_user_id ord) (flat ?ls))"
    using le fits by (intro available_liquidity_eq [OF live]) simp
  also have "\<dots> \<le> volume (flat ?ls)" unfolding foreign_def using lv by (rule volume_filter_le)
  finally show ?thesis using le by simp
qed

lemma match_order_volume:
  assumes wf: "wf_side (other (o_side t)) (opposite_book ob (o_side t))"
    and t: "taker_ok t" and m: "match_order ob t = (ob', t', trades, stp)"
    and enough: "raw (remaining t) \<le> volume (filter (\<lambda>e. crosses t (fst e)) (queue ob (o_side t)))"
  shows "raw (remaining t') = 0"
proof -
  let ?q = "filter (\<lambda>e. crosses t (fst e)) (queue ob (o_side t))"
  have ok: "bt_ok (opposite_book ob (o_side t))" using wf by (simp add: wf_side_def)
  from match_order_sweep [OF ok m] obtain q' acc where s: "sweep (env_of ob) ?q t (acc_of ob) = (q', t', acc)"
    by metis
  have live: "all_live ?q" using wf_side_all_live [OF wf] by (auto simp: set_queue)
  have "raw (remaining t) - raw (remaining t') = volume ?q - volume q'" by (rule sweep_volume [OF s t live])
  moreover have "0 < raw (remaining t') \<Longrightarrow> q' = []" by (rule sweep_exhausts [OF s t live])
  moreover have "0 \<le> raw (remaining t')" using sweep_taker [OF s t live] by (simp add: remaining_nonneg)
  ultimately show ?thesis using enough by fastforce
qed

lemma settle_fok:
  "o_time_in_force ord = Fok \<Longrightarrow> o_filled ord = o_size ord \<Longrightarrow> settle_remainder ob ord = (ob', ord') \<Longrightarrow>
     ob' = ob \<and> o_filled ord' = o_size ord' \<and> o_status ord' = (if raw (o_size ord) = 0 then Cancelled else Filled)"
  by (auto simp: settle_remainder_def Let_def split: if_splits order_type.splits)

lemma submit_order_conserved:
  assumes wf: "wf_book ob" and sz: "raw sz < 2 ^ 63"
    and run: "submit_order tp tr ob user sd ty price sz lev tif ro cid = (Ok (ord, trades, stp), ob')"
  shows "raw (o_filled ord) = traded trades \<and> raw (o_size ord) = raw sz - prevented stp
    \<and> 0 \<le> raw (o_filled ord) \<and> raw (o_filled ord) \<le> raw (o_size ord)
    \<and> (\<forall>x\<in>set trades. t_maker_user_id x \<noteq> user \<and> t_taker_user_id x = user \<and> 0 < raw (t_size x)
         \<and> (ty = Limit \<longrightarrow> no_worse sd (raw (t_price x)) (raw price)) \<and> t_timestamp_ms x = attested_ms ob)
    \<and> (\<forall>x\<in>set stp. 0 < snd x \<and> o_user_id (fst x) = user)
    \<and> sorted_wrt (no_worse sd) (map (\<lambda>x. raw (t_price x)) trades)"
  using run
proof (cases rule: submit_order_cases)
  case killed
  then show ?thesis by auto
next
  case executed
  let ?ob = "admitted tp ob user" and ?new = "new_order ob user sd ty price sz lev tif ro cid"
  let ?q = "filter (\<lambda>e. crosses ?new (fst e)) (queue ?ob sd)"
  obtain ob1 ord1 s where m: "match_order ?ob ?new = (ob1, ord1, trades, stp)" "ord = ord1\<lparr>o_status := s\<rparr>"
    by (rule execute_order_match [OF executed(6)])
  have t: "taker_ok ?new" using executed(1) sz by (rule new_order_taker_ok)
  have side: "wf_side (other (o_side ?new)) (opposite_book ?ob (o_side ?new))"
    using wf_admitted_side [OF wf] by simp
  obtain acc where e: "effects (env_of ?ob) ?q ?new (acc_of ?ob) ord1 acc trades stp"
    using match_order_effects [OF side t m(1)] by auto
  have ok1: "taker_ok ord1" using match_order_exhausts [OF side t m(1)] by simp
  have "sorted_wrt (no_worse sd) (map fst (queue ?ob sd))"
    unfolding queue_def by (rule sorted_flat) (use side in \<open>simp add: wf_side_def\<close>)
  then have "sorted_wrt (no_worse sd) (map fst ?q)" by (simp add: sorted_wrt_map sorted_wrt_filter)
  then have srt: "sorted_wrt (no_worse sd) (map (\<lambda>x. raw (t_price x)) trades)"
    by (rule effects_trades(2) [OF e])
  have "t_maker_user_id x \<noteq> user \<and> t_taker_user_id x = user \<and> 0 < raw (t_size x)
       \<and> (ty = Limit \<longrightarrow> no_worse sd (raw (t_price x)) (raw price)) \<and> t_timestamp_ms x = attested_ms ob"
    if x: "x \<in> set trades" for x
  proof -
    obtain y where "y \<in> set ?q" "trade_of (env_of ob) ?new y x"
      using effects_trades(1) [OF e] x by (auto simp: env_of_admitted)
    then show ?thesis
      by (auto simp: trade_of_def crosses_def no_worse_def env_of_def split: side.splits)
  qed
  with e ok1 srt m(2) show ?thesis by (auto simp: effects_def taker_ok_def)
qed simp_all

lemma submit_order_fields:
  assumes wf: "wf_book ob" and sz: "raw sz < 2 ^ 63"
    and run: "submit_order tp tr ob user sd ty price sz lev tif ro cid = (Ok (ord, trades, stp), ob')"
  shows "o_user_id ord = user \<and> o_leverage ord = lev \<and> o_side ord = sd \<and> o_price ord = price \<and> o_order_type ord = ty"
  using run
proof (cases rule: submit_order_cases)
  case executed
  let ?ob = "admitted tp ob user" and ?new = "new_order ob user sd ty price sz lev tif ro cid"
  obtain ob1 ord1 s where m: "match_order ?ob ?new = (ob1, ord1, trades, stp)" "ord = ord1\<lparr>o_status := s\<rparr>"
    by (rule execute_order_match [OF executed(6)])
  have side: "wf_side (other (o_side ?new)) (opposite_book ?ob (o_side ?new))"
    using wf_admitted_side [OF wf] by simp
  have "same_taker ?new ord1"
    using match_order_exhausts [OF side new_order_taker_ok [OF executed(1) sz] m(1)] by simp
  from same_taker_fields [OF this] m(2) show ?thesis by simp
qed simp_all

section \<open>Properties\<close>

text \<open>
  C1. The matcher implements price-time priority: on a sorted book, \<open>match_order\<close> consumes the
  opposite side exactly as one sweep over the queue of crossing orders in price-time order
  does, and the orders outside the limit stay where they are.
\<close>

theorem match_order_price_time:
  assumes "bt_ok (opposite_book ob (o_side t))" "match_order ob t = (ob', t', trades, stp)"
  shows "\<exists>q' acc.
    sweep (env_of ob) (filter (\<lambda>e. crosses t (fst e)) (queue ob (o_side t))) t (acc_of ob) = (q', t', acc)
    \<and> queue ob' (o_side t) = q' @ filter (\<lambda>e. \<not> crosses t (fst e)) (queue ob (o_side t))
    \<and> trades = ma_trades acc \<and> stp = ma_stp_cancelled acc"
  by (rule match_order_sweep [OF assms]) blast

theorem match_order_price_time_witness:
  "\<exists>ob' t' trades stp. match_order sample_book (sample_order 4 ''dave'' Short 95 7) = (ob', t', trades, stp)
     \<and> (\<exists>q' acc. sweep (env_of sample_book) [(100, sample_order 2 ''bob'' Long 100 5)]
            (sample_order 4 ''dave'' Short 95 7) (acc_of sample_book) = (q', t', acc)
          \<and> queue ob' Short = q' @ [(90, sample_order 1 ''alice'' Long 90 3)])"
proof -
  let ?t = "sample_order 4 ''dave'' Short 95 7"
  obtain ob' t' trades stp where run: "match_order sample_book ?t = (ob', t', trades, stp)" by (metis prod_cases4)
  have ok: "bt_ok (opposite_book sample_book (o_side ?t))" by (simp add: sample_simps opposite_book_def bt_ok_def)
  have "filter (\<lambda>e. crosses ?t (fst e)) (queue sample_book (o_side ?t)) = [(100, sample_order 2 ''bob'' Long 100 5)]"
    "filter (\<lambda>e. \<not> crosses ?t (fst e)) (queue sample_book (o_side ?t)) = [(90, sample_order 1 ''alice'' Long 90 3)]"
    by (simp_all add: sample_simps queue_def priority_def opposite_book_def crosses_def)
  moreover have "o_side ?t = Short" by (simp add: sample_order_def)
  ultimately show ?thesis using match_order_price_time [OF ok run] run by auto
qed

text \<open>
  C2. Every submission keeps the book well formed, whatever its outcome: sides sorted with no
  empty level, every resting order live on the level of its price, no bid at or above an ask,
  and order ids distinct.
\<close>

theorem submit_order_keeps_book:
  assumes "wf_book ob" "raw sz < 2 ^ 63" "next_order_id ob + 1 < 2 ^ 64"
  shows "wf_book (snd (submit_order tp tr ob user sd ty price sz lev tif ro cid))"
  using submit_order_wf [OF assms] by (metis prod.collapse)

theorem submit_order_keeps_book_witness:
  "wf_book (snd (submit_order 8 9 sample_book ''dave'' Short Limit (FP8 95) (FP8 7) 2 Gtc False None))"
  using submit_order_keeps_book [OF sample_book_wf, of "FP8 7"] by (simp add: sample_book_def)

text \<open>
  C3. The result of a submission is conservative: the filled size is the sum of the trades, what
  is missing from the size was taken by self-trade prevention, no trade is against the user's
  own order, every trade is within the limit, prices come best first, and every trade carries
  the attested time.
\<close>

theorem submit_order_conserves:
  assumes wf: "wf_book ob" and sz: "raw sz < 2 ^ 63"
    and run: "submit_order tp tr ob user sd ty price sz lev tif ro cid = (Ok (ord, trades, stp), ob')"
  shows "raw (o_filled ord) = traded trades \<and> raw (o_size ord) = raw sz - prevented stp
    \<and> 0 \<le> raw (o_filled ord) \<and> raw (o_filled ord) \<le> raw (o_size ord)
    \<and> (\<forall>x\<in>set trades. t_maker_user_id x \<noteq> user \<and> t_taker_user_id x = user \<and> 0 < raw (t_size x)
         \<and> (ty = Limit \<longrightarrow> no_worse sd (raw (t_price x)) (raw price)) \<and> t_timestamp_ms x = attested_ms ob)
    \<and> (\<forall>x\<in>set stp. 0 < snd x \<and> o_user_id (fst x) = user)
    \<and> sorted_wrt (no_worse sd) (map (\<lambda>x. raw (t_price x)) trades)"
  by (rule submit_order_conserved [OF assms])

theorem submit_order_conserves_witness:
  "\<exists>ord trades ob'. submit_order 8 9 sample_book ''dave'' Short Limit (FP8 85) (FP8 7) 2 Gtc False None
      = (Ok (ord, trades, []), ob') \<and> length trades = 2 \<and> traded trades = 7 \<and> raw (o_filled ord) = 7
    \<and> sorted_wrt (no_worse Short) (map (\<lambda>x. raw (t_price x)) trades)"
proof -
  obtain ord trades ob' where run: "submit_order 8 9 sample_book ''dave'' Short Limit (FP8 85) (FP8 7) 2 Gtc False None
      = (Ok (ord, trades, []), ob')" "length trades = 2" "raw (o_filled ord) = 7"
    by (simp add: run_simps sample_simps)
  then show ?thesis using submit_order_conserves [OF sample_book_wf _ run(1)] by auto
qed

text \<open>
  C5. Fill-or-kill is all or nothing: such an order comes back either untouched and cancelled,
  with no trade, or completely consumed (its filled size is its size, after self-trade
  prevention), and it never rests. The hypothesis keeps the liquidity sum inside an \<open>i64\<close>.
\<close>

theorem fok_all_or_nothing:
  assumes wf: "wf_book ob" and sz: "raw sz < 2 ^ 63"
    and fits: "volume (queue ob sd) < 2 ^ 63"
    and run: "submit_order tp tr ob user sd ty price sz lev Fok ro cid = (Ok (ord, trades, stp), ob')"
  shows "(trades = [] \<and> stp = [] \<and> o_status ord = Cancelled \<or> o_filled ord = o_size ord)
    \<and> own_book ob' sd = own_book ob sd"
  using run
proof (cases rule: submit_order_cases)
  case killed
  then show ?thesis by auto
next
  case executed
  let ?ob = "admitted tp ob user" and ?new = "new_order ob user sd ty price sz lev Fok ro cid"
  let ?q = "filter (\<lambda>e. crosses ?new (fst e)) (queue ?ob sd)"
  obtain ob1 ob2 ord1 s where m: "match_order ?ob ?new = (ob1, ord1, trades, stp)" "ord = ord1\<lparr>o_status := s\<rparr>"
    "settle_remainder ob2 ord1 = (ob', ord)"
    "ob2 = (if stp \<noteq> [] then ob1\<lparr>stp_rate := record_at (stp_rate ob1) (o_user_id ord1) tr\<rparr> else ob1)"
    by (rule execute_order_match [OF executed(6)])
  have t: "taker_ok ?new" using executed(1) sz by (rule new_order_taker_ok)
  have side: "wf_side (other (o_side ?new)) (opposite_book ?ob (o_side ?new))"
    using wf_admitted_side [OF wf] by simp
  have live: "all_live (flat (opposite_book ?ob (o_side ?new)))" using wf_side_all_live [OF side] .
  then have "volume ?q \<le> volume (queue ob sd)"
    by (simp add: set_queue volume_filter_le)
  then have "raw sz \<le> volume ?q"
    using available_le_crossing [OF live] fits executed(5) by simp
  then have "raw (remaining ord1) = 0"
    using match_order_volume [OF side t m(1)] raw_remaining [OF t] by simp
  moreover have ex: "taker_ok ord1" "same_taker ?new ord1" using match_order_exhausts [OF side t m(1)] by auto
  ultimately have full: "o_filled ord1 = o_size ord1" by (simp add: raw_remaining fp8.expand)
  have tif: "o_time_in_force ord1 = Fok" using same_taker_fields [OF ex(2)] by simp
  have "own_book ob' sd = own_book ob2 sd" using settle_fok [OF tif full m(3)] by simp
  also have "\<dots> = own_book ob1 sd" by (simp add: m(4))
  also have "\<dots> = own_book ob sd" using match_order_frame(1) [OF m(1)] by simp
  finally have "own_book ob' sd = own_book ob sd" .
  then show ?thesis using m(2) full by simp
qed simp_all

theorem fok_all_or_nothing_witness:
  "\<exists>ord trades stp ob'. submit_order 8 9 sample_book ''dave'' Long Limit (FP8 120) (FP8 3) 2 Fok False None
      = (Ok (ord, trades, stp), ob') \<and> o_filled ord = o_size ord \<and> bids ob' = bids sample_book"
proof -
  obtain ord trades stp ob' where run: "submit_order 8 9 sample_book ''dave'' Long Limit (FP8 120) (FP8 3) 2 Fok False None
      = (Ok (ord, trades, stp), ob')" "trades \<noteq> []"
    by (simp add: run_simps sample_simps)
  moreover have "volume (queue sample_book Long) < 2 ^ 63"
    by (simp add: sample_simps queue_def priority_def opposite_book_def remaining_def fp8_sub_def wrap_i64_def)
  ultimately show ?thesis using fok_all_or_nothing [OF sample_book_wf _ _ run(1)]
    by (auto simp: own_book_def opposite_book_def)
qed

text \<open>
  The fill-or-kill check of a limit sell looks at the bids from the worst price up and
  stops at the first one below the limit, so whenever any bid rests below its limit the order
  is killed, no matter how much the better bids hold.
\<close>

theorem fok_sell_killed_by_low_bid:
  assumes ok: "bt_ok (bids ob)" and low: "p \<in> set (bt_keys (bids ob))" "p < raw price"
    and guards: "0 < raw sz" "0 < raw price" "fst (peek_at (stp_rate ob) user tp)" "attested_ms ob \<noteq> 0"
  shows "fst (submit_order tp tr ob user Short Limit price sz lev Fok ro cid) =
    Ok ((new_order ob user Short Limit price sz lev Fok ro cid)\<lparr>o_status := Cancelled\<rparr>, [], [])"
proof -
  let ?ob = "admitted tp ob user" and ?new = "new_order ob user Short Limit price sz lev Fok ro cid"
  obtain p0 l0 m where b: "bids ob = (p0, l0) # m"
    using low(1) by (cases "bids ob") (auto simp: bt_keys_def)
  then have "p0 \<le> p" using ok low(1) by (auto simp: bt_ok_Cons bt_keys_def)
  then have "available_liquidity ?ob ?new = 0"
    using low(2) by (simp add: available_liquidity_def opposite_book_def b crosses_def)
  obtain r ob' where run: "submit_order tp tr ob user Short Limit price sz lev Fok ro cid = (r, ob')" by fastforce
  from run have "r = Ok (?new\<lparr>o_status := Cancelled\<rparr>, [], [])"
    by (cases rule: submit_order_cases) (use guards \<open>available_liquidity ?ob ?new = 0\<close> in simp_all)
  then show ?thesis by (simp add: run)
qed

theorem fok_sell_killed_by_low_bid_witness:
  "90 \<in> set (bt_keys (bids sample_book))
   \<and> (\<exists>ord. fst (submit_order 8 9 sample_book ''dave'' Short Limit (FP8 100) (FP8 1) 2 Fok False None)
        = Ok (ord, [], []) \<and> o_status ord = Cancelled)"
  using fok_sell_killed_by_low_bid [of sample_book 90 "FP8 100" "FP8 1" "''dave''" 8]
  by (simp add: sample_simps bt_keys_def bt_ok_def peek_at_def rate_limiter_new_def)

end
