(* ===== verification/OrderBook_Cancel.thy ===== *)
theory OrderBook_Cancel
  imports OrderBook_Sample
begin

text \<open>
  Cancelling, listing and reloading: what \<open>cancel_order\<close>, \<open>cancel_all\<close>, \<open>get_order\<close> and
  \<open>load_orders\<close> do to a well-formed book.
\<close>

section \<open>Shrinking a side\<close>

lemma wf_side_shrink:
  assumes "wf_side sd m" "map fst m' = map fst m" "subseq (flat m') (flat m)"
  shows "wf_side sd (bt_retain (\<lambda>l. l \<noteq> []) m')"
proof -
  have "bt_ok m'" using assms(1,2) by (simp add: wf_side_def bt_ok_def)
  then have "bt_ok (bt_retain (\<lambda>l. l \<noteq> []) m')" by (rule bt_retain_ok)
  moreover have "set (flat m') \<subseteq> set (flat m)" using list_emb_set [OF assms(3)] by blast
  ultimately show ?thesis using assms(1) retain_nonempty [of m'] by (auto simp: wf_side_def)
qed

lemma wf_book_shrink:
  assumes "wf_book ob" "wf_side Long b" "wf_side Short a"
    and sub: "subseq (flat b) (flat (bids ob))" "subseq (flat a) (flat (asks ob))"
  shows "wf_book (ob\<lparr>bids := b, asks := a\<rparr>)"
proof -
  have s: "set (flat b) \<subseteq> set (flat (bids ob))" "set (flat a) \<subseteq> set (flat (asks ob))"
    using list_emb_set [OF sub(1)] list_emb_set [OF sub(2)] by blast+
  have k: "fst ` set b \<subseteq> fst ` set (bids ob)" "fst ` set a \<subseteq> fst ` set (asks ob)"
    using s assms(1-3) keys_flat unfolding wf_book_def wf_side_def by (metis image_mono)+
  have "subseq (ids b) (ids (bids ob))" "subseq (ids a) (ids (asks ob))"
    using sub by (auto simp: ids_def intro: subseq_map)
  then have "subseq (ids b @ ids a) (ids (bids ob) @ ids (asks ob))" by (rule list_emb_append_mono)
  then have sb: "subseq (ids b @ ids a) (ids (bids ob) @ ids (asks ob))" .
  have d: "distinct (ids (bids ob) @ ids (asks ob))" using assms(1) by (simp add: wf_book_def ids_ok_def)
  have "distinct (ids b @ ids a)" using subseq_distinct [OF sb d] .
  moreover have "set (ids b @ ids a) \<subseteq> set (ids (bids ob) @ ids (asks ob))"
    using list_emb_set [OF sb] by blast
  ultimately have i: "ids_ok (ob\<lparr>bids := b, asks := a\<rparr>)"
    using assms(1) unfolding wf_book_def ids_ok_def by (auto simp: subset_iff)
  have "uncrossed (ob\<lparr>bids := b, asks := a\<rparr>)"
  proof -
    have "set (bt_keys b) \<subseteq> set (bt_keys (bids ob))" "set (bt_keys a) \<subseteq> set (bt_keys (asks ob))"
      using k by (simp_all add: bt_keys_def)
    moreover have "uncrossed ob" using assms(1) by (simp add: wf_book_def)
    ultimately show ?thesis unfolding uncrossed_def by (simp add: subset_iff del: set_map)
  qed
  with i assms(2,3) show ?thesis by (simp add: wf_book_def)
qed

section \<open>Finding and removing one order\<close>

lemma side_orders_flat: "side_orders m = map snd (flat m)"
  by (induction m) (auto simp: side_orders_def bt_values_def comp_def)

lemma cancel_in_None: "cancel_in i m = None \<longleftrightarrow> i \<notin> set (ids m)"
proof (induction i m rule: cancel_in.induct)
  case (2 i p l m)
  show ?case
  proof (cases "position (\<lambda>ord. o_id ord = i) l")
    case None
    then have "\<forall>x\<in>set l. o_id x \<noteq> i" by (simp add: position_None_iff)
    moreover have "cancel_in i ((p, l) # m) = None \<longleftrightarrow> cancel_in i m = None" using None by simp
    ultimately show ?thesis using "2.IH" [OF None] by (auto simp: ids_def)
  next
    case (Some pos)
    from position_Some [OF Some] have "i \<in> set (ids ((p, l) # m))" by (auto simp: ids_def)
    with Some show ?thesis by simp
  qed
qed (simp add: ids_def)

lemma cancel_in_Some:
  "cancel_in i m = Some (ord, m') \<Longrightarrow>
     \<exists>q1 p x q2. flat m = q1 @ (p, x) # q2 \<and> flat m' = q1 @ q2 \<and> o_id x = i
       \<and> ord = x\<lparr>o_status := Cancelled\<rparr> \<and> map fst m' = map fst m"
proof (induction i m arbitrary: m' rule: cancel_in.induct)
  case (2 i p l m)
  show ?case
  proof (cases "position (\<lambda>ord. o_id ord = i) l")
    case None
    with "2.prems" obtain m1 where m1: "cancel_in i m = Some (ord, m1)" "m' = (p, l) # m1" by auto
    from "2.IH" [OF None m1(1)] obtain q1 p' x q2 where
      "flat m = q1 @ (p', x) # q2" "flat m1 = q1 @ q2" "o_id x = i" "ord = x\<lparr>o_status := Cancelled\<rparr>"
      "map fst m1 = map fst m" by blast
    with m1(2) show ?thesis
      by (intro exI [of _ "map (Pair p) l @ q1"] exI [of _ p'] exI [of _ x] exI [of _ q2]) simp
  next
    case (Some pos)
    from position_Some [OF Some] obtain l1 x l2 where
      l: "l = l1 @ x # l2" "length l1 = pos" "o_id x = i" by blast
    with Some "2.prems" have "ord = x\<lparr>o_status := Cancelled\<rparr>" "m' = (p, l1 @ l2) # m" by auto
    with l show ?thesis
      by (intro exI [of _ "map (Pair p) l1"] exI [of _ p] exI [of _ x] exI [of _ "map (Pair p) l2 @ flat m"]) simp
  qed
qed simp

lemma find_ids:
  assumes "distinct (ids m)"
  shows "find (\<lambda>ord. o_id ord = i) (side_orders m) = Some x \<longleftrightarrow> x \<in> snd ` set (flat m) \<and> o_id x = i"
    and "find (\<lambda>ord. o_id ord = i) (side_orders m) = None \<longleftrightarrow> i \<notin> set (ids m)"
proof -
  have d: "distinct (map o_id (side_orders m))" using assms by (simp add: side_orders_flat ids_def comp_def)
  have "find (\<lambda>ord. o_id ord = i) xs = Some x \<longleftrightarrow> x \<in> set xs \<and> o_id x = i" if "distinct (map o_id xs)" for xs
    using that by (induction xs) auto
  from this [OF d] show "find (\<lambda>ord. o_id ord = i) (side_orders m) = Some x \<longleftrightarrow> x \<in> snd ` set (flat m) \<and> o_id x = i"
    by (simp add: side_orders_flat)
  show "find (\<lambda>ord. o_id ord = i) (side_orders m) = None \<longleftrightarrow> i \<notin> set (ids m)"
    by (auto simp: find_None_iff side_orders_flat ids_def)
qed

lemma get_order_iff:
  assumes "wf_book ob"
  shows "get_order ob i = Some x \<longleftrightarrow>
    x \<in> snd ` (set (flat (bids ob)) \<union> set (flat (asks ob))) \<and> o_id x = i"
proof -
  have d: "distinct (ids (bids ob))" "distinct (ids (asks ob))"
    "set (ids (bids ob)) \<inter> set (ids (asks ob)) = {}"
    using assms by (auto simp: wf_book_def ids_ok_def)
  have mem: "i \<in> set (ids m) \<longleftrightarrow> (\<exists>x \<in> snd ` set (flat m). o_id x = i)" for m by (auto simp: ids_def)
  show ?thesis
  proof (cases "find (\<lambda>ord. o_id ord = i) (side_orders (bids ob))")
    case None
    then have "get_order ob i = find (\<lambda>ord. o_id ord = i) (side_orders (asks ob))" by (simp add: get_order_def)
    with None show ?thesis
      using find_ids(2) [OF d(1), of i] find_ids(1) [OF d(2), of i x] mem [of "bids ob"] by (simp add: image_Un) blast
  next
    case (Some y)
    then have g: "get_order ob i = Some y" by (simp add: get_order_def)
    from Some have "i \<in> set (ids (bids ob))" using find_ids(2) [OF d(1), of i] by simp
    then have "i \<notin> set (ids (asks ob))" using d(3) by blast
    with g Some show ?thesis
      using find_ids(1) [OF d(1), of i x] mem [of "asks ob"] by (simp add: image_Un) blast
  qed
qed

lemma get_order_None:
  assumes "wf_book ob"
  shows "get_order ob i = None \<longleftrightarrow> i \<notin> set (ids (bids ob)) \<union> set (ids (asks ob))"
proof -
  have d: "distinct (ids (bids ob))" "distinct (ids (asks ob))"
    using assms by (auto simp: wf_book_def ids_ok_def)
  show ?thesis
    using find_ids(2) [OF d(1), of i] find_ids(2) [OF d(2), of i]
    by (cases "find (\<lambda>ord. o_id ord = i) (side_orders (bids ob))") (simp_all add: get_order_def)
qed

text \<open>The book without the order \<open>i\<close>: what a successful cancellation leaves.\<close>

lemma cancel_order_shape:
  assumes "wf_book ob" "cancel_order ob i = (Ok ord, ob')"
  obtains sd m' q1 p x q2 where "flat (own_book ob sd) = q1 @ (p, x) # q2" "flat m' = q1 @ q2" "o_id x = i"
    "ord = x\<lparr>o_status := Cancelled\<rparr>" "map fst m' = map fst (own_book ob sd)"
    "ob' = set_opposite_book ob (other sd) (bt_retain (\<lambda>l. l \<noteq> []) m')"
proof (cases "cancel_in i (bids ob)")
  case None
  with assms(2) obtain m' where m': "cancel_in i (asks ob) = Some (ord, m')"
    "ob' = ob\<lparr>asks := bt_retain (\<lambda>l. l \<noteq> []) m'\<rparr>"
    by (auto simp: cancel_order_def split: option.splits)
  with cancel_in_Some [OF m'(1)] that [of Short] show thesis
    by (auto simp: own_book_def opposite_book_def set_opposite_book_def)
next
  case (Some a)
  with assms(2) obtain m' where m': "cancel_in i (bids ob) = Some (ord, m')"
    "ob' = ob\<lparr>bids := bt_retain (\<lambda>l. l \<noteq> []) m'\<rparr>"
    by (auto simp: cancel_order_def split: option.splits prod.splits)
  with cancel_in_Some [OF m'(1)] that [of Long] show thesis
    by (auto simp: own_book_def opposite_book_def set_opposite_book_def)
qed

lemma set_own_wf:
  assumes wf: "wf_book ob" and w: "wf_side sd m" and sub: "subseq (flat m) (flat (own_book ob sd))"
  shows "wf_book (set_opposite_book ob (other sd) m)"
proof (cases sd)
  case Long
  have "wf_book (ob\<lparr>bids := m, asks := asks ob\<rparr>)"
    using assms Long by (intro wf_book_shrink) (auto simp: own_book_def opposite_book_def wf_book_def)
  then show ?thesis using Long by (simp add: set_opposite_book_def)
next
  case Short
  have "wf_book (ob\<lparr>bids := bids ob, asks := m\<rparr>)"
    using assms Short by (intro wf_book_shrink) (auto simp: own_book_def opposite_book_def wf_book_def)
  then show ?thesis using Short by (simp add: set_opposite_book_def)
qed

lemma cancel_order_wf:
  assumes "wf_book ob"
  shows "wf_book (snd (cancel_order ob i))"
proof (cases "cancel_order ob i")
  case (Pair r ob')
  show ?thesis
  proof (cases r)
    case (Inl e)
    with Pair have "ob' = ob" by (auto simp: cancel_order_def split: option.splits prod.splits)
    with Pair assms show ?thesis by simp
  next
    case (Inr ord)
    with Pair have run: "cancel_order ob i = (Ok ord, ob')" by simp
    obtain sd m' q1 p x q2 where c: "flat (own_book ob sd) = q1 @ (p, x) # q2" "flat m' = q1 @ q2"
      "map fst m' = map fst (own_book ob sd)"
      "ob' = set_opposite_book ob (other sd) (bt_retain (\<lambda>l. l \<noteq> []) m')"
      by (rule cancel_order_shape [OF assms run])
    have sub: "subseq (flat m') (flat (own_book ob sd))" unfolding c(1,2) by (intro list_emb_append_mono) auto
    have "wf_side sd (bt_retain (\<lambda>l. l \<noteq> []) m')"
      using wf_book_sides [OF assms, of sd] c(3) sub by (intro wf_side_shrink) auto
    then have "wf_book ob'" unfolding c(4) using sub by (intro set_own_wf [OF assms]) simp_all
    with Pair show ?thesis by simp
  qed
qed

lemma book_elems: "set (flat (bids ob)) \<union> set (flat (asks ob)) = set (flat (own_book ob sd)) \<union> set (flat (opposite_book ob sd))"
  by (cases sd) (auto simp: own_book_def opposite_book_def)

lemma opposite_set_other [simp]:
  "own_book (set_opposite_book ob (other sd) m) sd = m"
  "opposite_book (set_opposite_book ob (other sd) m) sd = opposite_book ob sd"
  by (cases sd; simp add: own_book_def opposite_book_def set_opposite_book_def)+

section \<open>Properties\<close>

text \<open>
  Cancelling is exact: on a well-formed book an order that rests is returned with status
  \<open>Cancelled\<close>, is gone from the book, every other order is found as before, and the book
  stays well formed; an id that does not rest is refused and nothing changes.
\<close>

theorem cancel_order_exact:
  assumes wf: "wf_book ob"
  shows "case get_order ob i of
      None \<Rightarrow> cancel_order ob i = (Err (OrderNotFound i), ob)
    | Some x \<Rightarrow> \<exists>ob'. cancel_order ob i = (Ok (x\<lparr>o_status := Cancelled\<rparr>), ob') \<and> wf_book ob'
        \<and> get_order ob' i = None \<and> (\<forall>j. j \<noteq> i \<longrightarrow> get_order ob' j = get_order ob j)"
proof (cases "get_order ob i")
  case None
  then have "cancel_in i (bids ob) = None" "cancel_in i (asks ob) = None"
    using get_order_None [OF wf] by (auto simp: cancel_in_None)
  then show ?thesis using None by (simp add: cancel_order_def)
next
  case (Some x)
  then have "i \<in> set (ids (bids ob)) \<union> set (ids (asks ob))" using get_order_None [OF wf] by force
  then obtain ord ob' where run: "cancel_order ob i = (Ok ord, ob')"
    using cancel_in_None [of i] by (fastforce simp: cancel_order_def split: option.splits)
  obtain sd m' q1 p y q2 where c: "flat (own_book ob sd) = q1 @ (p, y) # q2" "flat m' = q1 @ q2" "o_id y = i"
    "ord = y\<lparr>o_status := Cancelled\<rparr>" "map fst m' = map fst (own_book ob sd)"
    "ob' = set_opposite_book ob (other sd) (bt_retain (\<lambda>l. l \<noteq> []) m')"
    by (rule cancel_order_shape [OF wf run])
  have wf': "wf_book ob'" using cancel_order_wf [OF wf, of i] run by simp
  have "y \<in> snd ` (set (flat (bids ob)) \<union> set (flat (asks ob)))" unfolding book_elems [of ob sd] c(1) by force
  then have "get_order ob i = Some y" using get_order_iff [OF wf] c(3) by simp
  with Some have y: "y = x" by simp
  have d: "distinct (map (\<lambda>e. o_id (snd e)) (q1 @ (p, y) # q2))"
    "set (map (\<lambda>e. o_id (snd e)) (q1 @ (p, y) # q2)) \<inter> set (ids (opposite_book ob sd)) = {}"
    using wf unfolding wf_book_dir [of ob sd] by (simp_all add: ids_def c(1))
  have el: "set (flat (bids ob')) \<union> set (flat (asks ob')) = set q1 \<union> set q2 \<union> set (flat (opposite_book ob sd))"
    unfolding book_elems [of ob' sd] by (simp add: c(6) c(2))
  have el0: "set (flat (bids ob)) \<union> set (flat (asks ob)) = insert (p, y) (set q1 \<union> set q2 \<union> set (flat (opposite_book ob sd)))"
    unfolding book_elems [of ob sd] by (simp add: c(1))
  have out: "o_id (snd e) \<noteq> i" if "e \<in> set q1 \<union> set q2 \<union> set (flat (opposite_book ob sd))" for e
    using that d unfolding c(3) [symmetric] by (simp add: ids_def image_iff) metis
  have "get_order ob' i = None"
  proof (cases "get_order ob' i")
    case (Some z)
    then show ?thesis using get_order_iff [OF wf', of i z] el out by auto
  qed
  moreover have "get_order ob' j = get_order ob j" if "j \<noteq> i" for j
  proof -
    have "get_order ob' j = Some z \<longleftrightarrow> get_order ob j = Some z" for z
      unfolding get_order_iff [OF wf'] get_order_iff [OF wf] el el0 using that c(3) by auto
    then show ?thesis by (metis option.exhaust)
  qed
  ultimately show ?thesis using Some run wf' c(4) y by simp
qed

theorem cancel_order_exact_witness:
  "\<exists>ob'. cancel_order sample_book 2 = (Ok ((sample_order 2 ''bob'' Long 100 5)\<lparr>o_status := Cancelled\<rparr>), ob')
     \<and> wf_book ob' \<and> get_order ob' 2 = None \<and> get_order ob' 1 = get_order sample_book 1"
proof -
  have "get_order sample_book 2 = Some (sample_order 2 ''bob'' Long 100 5)"
    by (simp add: sample_simps get_order_def side_orders_def bt_values_def)
  then show ?thesis using cancel_order_exact [OF sample_book_wf, of 2] by force
qed

end
