(* ===== verification/OrderBook_Life.thy ===== *)
theory OrderBook_Life
  imports OrderBook_Cancel
begin

text \<open>
  The life of a book: the steps an order book takes between its creation and a failover, the
  invariants of every book it can become, \<open>cancel_all\<close>, and the rebuild of a book from its
  persisted resting orders, which the database returns ordered by id.
\<close>

section \<open>Time priority of a side\<close>

text \<open>The ids resting at price \<open>p\<close>, in the order the matcher meets them.\<close>

definition ids_at :: "(int \<times> order) list \<Rightarrow> int \<Rightarrow> nat list" where
  "ids_at q p = map (\<lambda>e. o_id (snd e)) (filter (\<lambda>e. fst e = p) q)"

definition time_ordered :: "book_side \<Rightarrow> bool" where
  "time_ordered m \<longleftrightarrow> (\<forall>(p, l)\<in>set m. sorted_wrt (<) (map o_id l))"

lemma ids_at_append [simp]: "ids_at (q @ q') p = ids_at q p @ ids_at q' p" "ids_at [] p = []"
  by (simp_all add: ids_at_def)

lemma ids_at_level [simp]: "ids_at (map (Pair a) l) p = (if a = p then map o_id l else [])"
  by (simp add: ids_at_def comp_def filter_map)

lemma ids_at_none: "p \<notin> fst ` set m \<Longrightarrow> ids_at (flat m) p = []"
  by (induction m) auto

lemma ids_at_flat:
  "bt_ok m \<Longrightarrow> ids_at (flat m) p = (case bt_get m p of None \<Rightarrow> [] | Some l \<Rightarrow> map o_id l)"
proof (induction m)
  case (Cons e m)
  obtain a l where e: "e = (a, l)" by (cases e)
  have "a \<notin> fst ` set m" using Cons.prems by (auto simp: e bt_ok_Cons)
  with Cons show ?case by (auto simp: e bt_ok_Cons bt_get_def ids_at_none)
qed (simp add: bt_get_def)

lemma ids_at_rev: "distinct (map fst m) \<Longrightarrow> ids_at (flat (rev m)) p = ids_at (flat m) p"
proof (induction m)
  case (Cons e m)
  obtain a l where e: "e = (a, l)" by (cases e)
  show ?case using Cons ids_at_none [of p m] by (auto simp: e)
qed simp

lemma ids_at_queue: "bt_ok (opposite_book ob sd) \<Longrightarrow> ids_at (queue ob sd) p = ids_at (flat (opposite_book ob sd)) p"
  by (cases sd) (simp_all add: queue_def priority_def ids_at_rev bt_ok_distinct)

lemma time_ordered_iff:
  assumes "bt_ok m"
  shows "time_ordered m \<longleftrightarrow> (\<forall>p. sorted_wrt (<) (ids_at (flat m) p))"
proof -
  have "(p, l) \<in> set m \<longleftrightarrow> bt_get m p = Some l" for p l
    using bt_ok_distinct [OF assms] by (simp add: bt_get_def)
  then have "time_ordered m \<longleftrightarrow> (\<forall>p l. bt_get m p = Some l \<longrightarrow> sorted_wrt (<) (map o_id l))"
    unfolding time_ordered_def by fastforce
  then show ?thesis by (auto simp: ids_at_flat [OF assms] split: option.splits)
qed

lemma subseq_sorted_wrt: "subseq xs ys \<Longrightarrow> sorted_wrt P ys \<Longrightarrow> sorted_wrt P xs"
  by (induction rule: list_emb.induct) (auto dest: list_emb_set)

lemma time_ordered_shrink:
  assumes "time_ordered m" "bt_ok m" "bt_ok m'" "\<And>p. subseq (ids_at (flat m') p) (ids_at (flat m) p)"
  shows "time_ordered m'"
  unfolding time_ordered_iff [OF assms(3)]
  using assms(1) subseq_sorted_wrt [OF assms(4)] by (simp add: time_ordered_iff [OF assms(2)])

lemma subseq_ids_at: "subseq q q' \<Longrightarrow> subseq (ids_at q p) (ids_at q' p)"
  unfolding ids_at_def by (intro subseq_map subseq_filter)

lemma fifo_rest_ids_at:
  assumes "fifo_rest q q'"
  shows "subseq (ids_at q' p) (ids_at q p)"
proof -
  consider g where "q = g @ q'"
    | g a m m' r where "q = g @ (a, m) # r" "q' = (a, m') # r" "same_maker m m'"
    using assms by (auto simp: fifo_rest_def)
  then show ?thesis
    by cases (auto simp: ids_at_def same_maker_fields intro: list_emb_append2)
qed

lemma match_order_time:
  assumes wf: "wf_book ob" and t: "taker_ok t" and m: "match_order ob t = (ob', t', trades, stp)"
    and time: "time_ordered (opposite_book ob (o_side t))"
  shows "time_ordered (opposite_book ob' (o_side t))"
proof -
  let ?sd = "o_side t" and ?q = "queue ob (o_side t)"
  have ok: "bt_ok (opposite_book ob ?sd)" "bt_ok (opposite_book ob' ?sd)"
    using wf match_order_wf [OF wf t m] unfolding wf_book_dir [of _ ?sd] wf_side_def by blast+
  have live: "all_live (filter (\<lambda>e. crosses t (fst e)) ?q)"
    using wf_side_all_live [OF conjunct1 [OF wf_book_sides [OF wf, of ?sd]]] by (auto simp: set_queue)
  from match_order_sweep [OF ok(1) m] obtain q' acc where s:
    "sweep (env_of ob) (filter (\<lambda>e. crosses t (fst e)) ?q) t (acc_of ob) = (q', t', acc)"
    "queue ob' ?sd = q' @ filter (\<lambda>e. \<not> crosses t (fst e)) ?q" by metis
  note f = fifo_rest_ids_at [OF conjunct1 [OF sweep_fifo [OF s(1) t live]]]
  have "subseq (ids_at (queue ob' ?sd) p) (ids_at ?q p)" for p
  proof (cases "crosses t p")
    case True
    then have "filter (\<lambda>e. fst e = p) (filter (\<lambda>e. \<not> crosses t (fst e)) ?q) = []"
      by (auto simp: filter_empty_conv)
    moreover have "filter (\<lambda>e. fst e = p) (filter (\<lambda>e. crosses t (fst e)) ?q) = filter (\<lambda>e. fst e = p) ?q"
      using True by (auto intro: filter_cong)
    ultimately show ?thesis using f [of p] by (simp add: s(2) ids_at_def)
  next
    case False
    have "filter (\<lambda>e. fst e = p) (filter (\<lambda>e. \<not> crosses t (fst e)) ?q) = filter (\<lambda>e. fst e = p) ?q"
      using False by (auto intro: filter_cong)
    moreover have "filter (\<lambda>e. fst e = p) (filter (\<lambda>e. crosses t (fst e)) ?q) = []"
      using False by (auto simp: filter_empty_conv)
    then have "ids_at q' p = []" using f [of p] list_emb_Nil2 unfolding ids_at_def by fastforce
    ultimately show ?thesis by (simp add: s(2)) (simp add: ids_at_def)
  qed
  then show ?thesis
    using ids_at_queue [OF ok(1)] ids_at_queue [OF ok(2)]
    by (intro time_ordered_shrink [OF time ok]) simp
qed

lemma time_ordered_upsert:
  assumes "time_ordered m" "\<forall>i\<in>set (ids m). i < o_id x"
  shows "time_ordered (bt_upsert p [] (\<lambda>l. l @ [x]) m)"
  using assms
proof (induction p "[] :: order list" "\<lambda>l. l @ [x]" m rule: bt_upsert.induct)
  case (2 k a v m)
  then show ?case by (auto simp: time_ordered_def ids_def sorted_wrt_append)
qed (simp add: time_ordered_def)

section \<open>The invariant of a book's life\<close>

definition book_inv :: "order_book \<Rightarrow> bool" where
  "book_inv ob \<longleftrightarrow> wf_book ob \<and> time_ordered (bids ob) \<and> time_ordered (asks ob)"

lemma book_inv_dir: "book_inv ob \<longleftrightarrow> wf_book ob \<and> time_ordered (own_book ob sd) \<and> time_ordered (opposite_book ob sd)"
  by (cases sd) (auto simp: book_inv_def own_book_def opposite_book_def)

lemma book_inv_new: "book_inv (order_book_new mkt)"
  by (simp add: book_inv_def order_book_new_def wf_book_def wf_side_def uncrossed_def ids_ok_def ids_def
      bt_keys_def time_ordered_def)

lemma book_inv_attested [simp]: "book_inv (set_attested_ms ob ms) = book_inv ob"
  by (simp add: book_inv_def set_attested_ms_def wf_book_def uncrossed_def ids_ok_def)

lemma execute_order_time:
  assumes inv: "book_inv ob" and t: "taker_ok ord"
    and fresh: "\<forall>i\<in>set (ids (bids ob)) \<union> set (ids (asks ob)). i < o_id ord"
    and run: "execute_order tr ob ord = (r, ob')"
  shows "time_ordered (bids ob') \<and> time_ordered (asks ob')"
proof -
  let ?sd = "o_side ord"
  have wf: "wf_book ob" using inv by (simp add: book_inv_def)
  obtain ob1 ord1 trades stp where m: "match_order ob ord = (ob1, ord1, trades, stp)" by (metis prod_cases4)
  define ob2 where "ob2 = (if stp \<noteq> [] then ob1\<lparr>stp_rate := record_at (stp_rate ob1) (o_user_id ord1) tr\<rparr> else ob1)"
  obtain ord2 where st: "settle_remainder ob2 ord1 = (ob', ord2)"
    using run by (auto simp: execute_order_def m ob2_def Let_def split: prod.splits)
  have b: "own_book ob2 ?sd = own_book ob ?sd" "opposite_book ob2 ?sd = opposite_book ob1 ?sd"
    using match_order_frame [OF m] by (simp_all add: ob2_def)
  have time: "time_ordered (own_book ob2 ?sd)" "time_ordered (opposite_book ob2 ?sd)"
    using inv match_order_time [OF wf t m] unfolding b book_inv_dir [of ob ?sd] by simp_all
  have "same_taker ord ord1"
    using match_order_exhausts [OF conjunct1 [OF wf_book_sides [OF wf]] t m] by simp
  note f = same_taker_fields [OF this]
  have "\<forall>i\<in>set (ids (own_book ob2 ?sd)). i < o_id ord1"
    using fresh f unfolding b by (cases ?sd) (auto simp: own_book_def opposite_book_def)
  then have "time_ordered (own_book ob' ?sd) \<and> time_ordered (opposite_book ob' ?sd)"
    using settle_remainder_book [OF st] time time_ordered_upsert f add_to_book_frame(1,2) [of ob2 ord1] by auto
  then show ?thesis by (cases ?sd) (auto simp: own_book_def opposite_book_def)
qed

lemma submit_order_inv:
  assumes inv: "book_inv ob" and sz: "raw sz < 2 ^ 63" and id: "next_order_id ob + 1 < 2 ^ 64"
    and run: "submit_order tp tr ob user sd ty price sz lev tif ro cid = (r, ob')"
  shows "book_inv ob'"
proof -
  have wf: "wf_book ob" using inv by (simp add: book_inv_def)
  have inc: "u64_add (next_order_id ob) 1 = next_order_id ob + 1" using id by (simp add: u64_add_def)
  have inv2: "book_inv (admitted tp ob user)"
    using inv wf_book_next_id [of "asked tp ob user" "u64_add (next_order_id ob) 1"]
    by (simp add: book_inv_def admitted_def asked_def inc [simplified])
  have "time_ordered (bids ob') \<and> time_ordered (asks ob')" using run
  proof (cases rule: submit_order_cases)
    case executed
    have "\<forall>i\<in>set (ids (bids ob)) \<union> set (ids (asks ob)). i < next_order_id ob"
      using wf by (auto simp: wf_book_def ids_ok_def)
    then show ?thesis
      using executed sz by (intro execute_order_time [OF inv2 new_order_taker_ok _ executed(6)])
        (auto simp: new_order_def)
  qed (use inv in \<open>simp_all add: asked_def book_inv_def\<close>)
  then show ?thesis using submit_order_wf [OF wf sz id run] by (simp add: book_inv_def)
qed

lemma time_ordered_subseq:
  assumes "time_ordered m" "bt_ok m" "bt_ok m'" "subseq (flat m') (flat m)"
  shows "time_ordered m'"
  using subseq_ids_at [OF assms(4)] by (rule time_ordered_shrink [OF assms(1-3)])

lemma cancel_order_inv:
  assumes inv: "book_inv ob"
  shows "book_inv (snd (cancel_order ob i))"
proof (cases "cancel_order ob i")
  case (Pair r ob')
  have wf: "wf_book ob" using inv by (simp add: book_inv_def)
  have wf': "wf_book ob'" using cancel_order_wf [OF wf, of i] Pair by simp
  show ?thesis
  proof (cases r)
    case (Inl e)
    with Pair have "ob' = ob" by (auto simp: cancel_order_def split: option.splits prod.splits)
    with Pair inv show ?thesis by simp
  next
    case (Inr ord)
    with Pair have run: "cancel_order ob i = (Ok ord, ob')" by simp
    obtain sd m' q1 p x q2 where c: "flat (own_book ob sd) = q1 @ (p, x) # q2" "flat m' = q1 @ q2"
      "ob' = set_opposite_book ob (other sd) (bt_retain (\<lambda>l. l \<noteq> []) m')"
      by (rule cancel_order_shape [OF wf run])
    have sub: "subseq (flat (own_book ob' sd)) (flat (own_book ob sd))"
      by (simp add: c) (auto intro: list_emb_append_mono)
    have "bt_ok (own_book ob sd)" "bt_ok (own_book ob' sd)"
      using wf wf' unfolding wf_book_dir [of _ sd] wf_side_def by blast+
    then have "time_ordered (own_book ob' sd)"
      using inv sub unfolding book_inv_dir [of _ sd] by (metis time_ordered_subseq)
    then show ?thesis using inv wf' c(3) Pair unfolding book_inv_dir [of _ sd] by simp
  qed
qed

section \<open>Cancelling every order of a user\<close>

lemma flat_filter_levels:
  "flat (map (\<lambda>(p, l). (p, filter P l)) m) = filter (\<lambda>e. P (snd e)) (flat m)"
  by (induction m) (auto simp: filter_map comp_def)

lemma flat_without_user: "flat (without_user u m) = filter (\<lambda>e. o_user_id (snd e) \<noteq> u) (flat m)"
  by (simp add: without_user_def flat_filter_levels)

lemma without_user_side:
  assumes "wf_side sd m"
  shows "wf_side sd (without_user u m)"
  unfolding without_user_def
  by (rule wf_side_shrink [OF assms]) (auto simp: flat_filter_levels comp_def case_prod_beta)

lemma cancel_all_inv:
  assumes inv: "book_inv ob"
  shows "book_inv (snd (cancel_all ob u))"
proof -
  have wf: "wf_book ob" using inv by (simp add: book_inv_def)
  then have w: "wf_side Long (bids ob)" "wf_side Short (asks ob)" by (simp_all add: wf_book_def)
  note w' = without_user_side [OF w(1), of u] without_user_side [OF w(2), of u]
  have "wf_book (snd (cancel_all ob u))"
    unfolding cancel_all_def snd_conv
    by (rule wf_book_shrink [OF wf w']) (simp_all add: flat_without_user)
  moreover have "time_ordered (without_user u (bids ob))" "time_ordered (without_user u (asks ob))"
    using inv w w' by (auto simp: book_inv_def wf_side_def flat_without_user
        intro: time_ordered_subseq [of "bids ob"] time_ordered_subseq [of "asks ob"])
  ultimately show ?thesis by (simp add: book_inv_def cancel_all_def)
qed

lemma user_orders_cancel_all:
  "user_orders (snd (cancel_all ob u)) v = (if v = u then [] else user_orders ob v)"
proof -
  have "filter (\<lambda>x. o_user_id x = v) (side_orders (without_user u m)) =
      (if v = u then [] else filter (\<lambda>x. o_user_id x = v) (side_orders m))" for m
    by (auto simp: side_orders_flat flat_without_user filter_map comp_def filter_empty_conv
        intro!: arg_cong [where f = "map snd"] filter_cong)
  then show ?thesis by (simp add: user_orders_def cancel_all_def)
qed

lemma reserved_by_user:
  "user_reserved_margin ob u =
     foldl (\<lambda>a x. fp8_add a (order_margin x)) fp8_ZERO
       (filter (\<lambda>x. \<not> o_reduce_only x \<and> 0 < o_leverage x) (user_orders ob u))"
proof -
  have "foldl (sum_level u) a ls =
      foldl (\<lambda>a x. fp8_add a (order_margin x)) a
        (filter (\<lambda>x. \<not> o_reduce_only x \<and> 0 < o_leverage x) (filter (\<lambda>x. o_user_id x = u) (concat ls)))" for a ls
    by (induction ls arbitrary: a) (simp_all add: sum_level_def filter_filter conj_commute conj_left_commute)
  then show ?thesis by (simp add: user_reserved_margin_def user_orders_def side_orders_def)
qed

section \<open>Rebuilding a book\<close>

text \<open>The orders of one side at one price, in a list of orders.\<close>

definition orders_at :: "side \<Rightarrow> int \<Rightarrow> order list \<Rightarrow> order list" where
  "orders_at sd p = filter (\<lambda>x. o_side x = sd \<and> raw (o_price x) = p)"

lemma key_sorted_unique:
  fixes f :: "'a \<Rightarrow> 'b::linorder"
  assumes "sorted_wrt (<) (map f xs)" "sorted_wrt (<) (map f ys)" "set xs = set ys"
  shows "xs = ys"
proof (rule map_sorted_distinct_set_unique [where f = f])
  show "inj_on f (set xs \<union> set ys)"
    using assms by (simp add: strict_sorted_iff distinct_map)
qed (use assms in \<open>simp_all add: strict_sorted_iff\<close>)

lemma btree_eqI:
  assumes "bt_ok m" "bt_ok m'" "\<And>k. bt_get m k = bt_get m' k"
  shows "m = m'"
proof (rule key_sorted_unique [where f = fst])
  show "set m = set m'"
    using assms(3) by (intro map_of_inject_set [THEN iffD1])
      (auto simp: bt_ok_distinct assms(1,2) bt_get_def fun_eq_iff)
qed (use assms(1,2) in \<open>simp_all add: bt_ok_def\<close>)

lemma load_orders_levels:
  assumes "bt_ok (own_book ob sd)"
  shows "bt_ok (own_book (load_orders ob xs) sd)
    \<and> bt_get (own_book (load_orders ob xs) sd) p =
      (case bt_get (own_book ob sd) p of
         None \<Rightarrow> if orders_at sd p xs = [] then None else Some (orders_at sd p xs)
       | Some l \<Rightarrow> Some (l @ orders_at sd p xs))"
  using assms
proof (induction ob xs rule: load_orders.induct)
  case (1 ob)
  then show ?case by (simp add: orders_at_def split: option.split)
next
  case (2 ob x xs)
  define ob1 where "ob1 = (if next_order_id ob \<le> o_id x then ob\<lparr>next_order_id := u64_add (o_id x) 1\<rparr> else ob)"
  have own: "bids ob1 = bids ob" "asks ob1 = asks ob" by (simp_all add: ob1_def)
  have run: "load_orders ob (x # xs) = load_orders (add_to_book ob1 x) xs" by (simp add: ob1_def Let_def)
  have add: "own_book (add_to_book ob1 x) sd =
      (if o_side x = sd then bt_upsert (raw (o_price x)) [] (\<lambda>l. l @ [x]) (own_book ob sd) else own_book ob sd)"
    using own by (cases sd; cases "o_side x") (simp_all add: add_to_book_def own_book_def opposite_book_def)
  have ok: "bt_ok (own_book (add_to_book ob1 x) sd)" using "2.prems" by (simp add: add bt_upsert_ok)
  show ?case
    using "2.IH" [OF ob1_def ok] unfolding run add
    by (auto simp: orders_at_def bt_get_upsert [OF "2.prems"] split: option.splits if_splits)
qed

lemma load_orders_next_id:
  assumes "\<forall>x\<in>set xs. o_id x + 1 < 2 ^ 64"
  shows "next_order_id ob \<le> next_order_id (load_orders ob xs)"
    and "x \<in> set xs \<Longrightarrow> o_id x < next_order_id (load_orders ob xs)"
    and "next_trade_id (load_orders ob xs) = next_trade_id ob"
proof -
  have "next_order_id ob \<le> next_order_id (load_orders ob xs)
    \<and> (\<forall>x\<in>set xs. o_id x < next_order_id (load_orders ob xs))
    \<and> next_trade_id (load_orders ob xs) = next_trade_id ob" using assms
  proof (induction ob xs rule: load_orders.induct)
    case (2 ob x xs)
    define ob1 where "ob1 = (if next_order_id ob \<le> o_id x then ob\<lparr>next_order_id := u64_add (o_id x) 1\<rparr> else ob)"
    have "u64_add (o_id x) 1 = o_id x + 1" using "2.prems" by (simp add: u64_add_def)
    then have "next_order_id ob \<le> next_order_id ob1" "o_id x < next_order_id ob1" "next_trade_id ob1 = next_trade_id ob"
      by (auto simp: ob1_def)
    moreover have "load_orders ob (x # xs) = load_orders (add_to_book ob1 x) xs" by (simp add: ob1_def Let_def)
    ultimately show ?case using "2.IH" [OF ob1_def] "2.prems" by (auto simp: add_to_book_frame)
  qed simp
  then show "next_order_id ob \<le> next_order_id (load_orders ob xs)"
    and "x \<in> set xs \<Longrightarrow> o_id x < next_order_id (load_orders ob xs)"
    and "next_trade_id (load_orders ob xs) = next_trade_id ob" by blast+
qed

lemma level_orders_at:
  assumes wf: "wf_side sd m" and time: "time_ordered m" and l: "bt_get m p = Some l"
    and xs: "sorted_wrt (<) (map o_id xs)" and set: "orders_at sd p xs = filter (\<lambda>x. x \<in> set l) xs" "set l \<subseteq> set xs"
  shows "orders_at sd p xs = l"
proof (rule key_sorted_unique [where f = o_id])
  show "sorted_wrt (<) (map o_id (orders_at sd p xs))"
    using xs by (simp add: orders_at_def sorted_wrt_map sorted_wrt_filter)
  show "sorted_wrt (<) (map o_id l)"
    using time l by (auto simp: time_ordered_def bt_get_def dest: map_of_SomeD)
qed (use set in auto)

lemma load_orders_side:
  assumes inv: "book_inv ob" and xs: "sorted_wrt (<) (map o_id xs)"
    and set: "set xs = set (side_orders (bids ob)) \<union> set (side_orders (asks ob))"
  shows "own_book (load_orders (order_book_new mkt) xs) sd = own_book ob sd"
proof (rule btree_eqI)
  let ?m = "own_book ob sd"
  have w: "wf_side sd ?m" "wf_side (other sd) (opposite_book ob sd)" and time: "time_ordered ?m"
    using inv unfolding book_inv_dir [of ob sd] wf_book_dir [of ob sd] by blast+
  show ok: "bt_ok ?m" using w by (simp add: wf_side_def)
  have new: "own_book (order_book_new mkt) sd = []"
    by (cases sd) (simp_all add: own_book_def opposite_book_def order_book_new_def)
  note L = load_orders_levels [of "order_book_new mkt" sd xs, unfolded new, simplified]
  show "bt_ok (own_book (load_orders (order_book_new mkt) xs) sd)" using L by blast
  have mem: "x \<in> set xs \<and> o_side x = sd \<and> raw (o_price x) = p \<longleftrightarrow> (p, x) \<in> set (flat ?m)" for x p
  proof -
    have "set xs = snd ` (set (flat ?m) \<union> set (flat (opposite_book ob sd)))"
      unfolding set side_orders_flat using book_elems [of ob sd] by (metis image_Un set_map)
    moreover have "o_side x = sd \<and> raw (o_price x) = q" if "(q, x) \<in> set (flat ?m)" for q
      using w(1) that by (auto simp: wf_side_def resting_ok_def)
    moreover have "o_side x \<noteq> sd" if "(q, x) \<in> set (flat (opposite_book ob sd))" for q
      using w(2) that by (cases sd) (auto simp: wf_side_def resting_ok_def)
    ultimately show ?thesis by force
  qed
  show "bt_get (own_book (load_orders (order_book_new mkt) xs) sd) p = bt_get ?m p" for p
  proof (cases "bt_get ?m p")
    case None
    then have "orders_at sd p xs = []"
      using mem [of _ p] by (auto simp: orders_at_def filter_empty_conv set_flat bt_get_def map_of_eq_None_iff) force
    then show ?thesis using L None by (simp add: bt_get_def)
  next
    case (Some l)
    then have "(p, l') \<in> set ?m \<longleftrightarrow> l' = l" for l'
      using bt_ok_distinct [OF ok] unfolding bt_get_def by (metis map_of_eq_Some_iff option.inject)
    then have pl: "(p, x) \<in> set (flat ?m) \<longleftrightarrow> x \<in> set l" for x by (simp add: set_flat)
    have "orders_at sd p xs = l"
      using mem [of _ p] unfolding pl
      by (intro level_orders_at [OF w(1) time Some xs]) (auto simp: orders_at_def intro!: filter_cong)
    moreover have "l \<noteq> []" using w(1) Some by (force simp: wf_side_def bt_get_def dest: map_of_SomeD)
    ultimately show ?thesis using L Some by (simp add: bt_get_def)
  qed
qed

section \<open>Steps of a book\<close>

inductive book_step :: "order_book \<Rightarrow> order_book \<Rightarrow> bool" where
  attest: "book_step ob (set_attested_ms ob ms)"
| submit: "raw sz < 2 ^ 63 \<Longrightarrow> next_order_id ob + 1 < 2 ^ 64 \<Longrightarrow>
    book_step ob (snd (submit_order tp tr ob user sd ty price sz lev tif ro cid))"
| cancel: "book_step ob (snd (cancel_order ob i))"
| cancel_every: "book_step ob (snd (cancel_all ob user))"

lemma book_step_inv: "book_step ob ob' \<Longrightarrow> book_inv ob \<Longrightarrow> book_inv ob'"
  by (induction rule: book_step.induct)
    (auto intro: submit_order_inv [OF _ _ _ prod.collapse [symmetric]] cancel_order_inv cancel_all_inv)

lemma book_run_inv: "book_step\<^sup>*\<^sup>* (order_book_new mkt) ob \<Longrightarrow> book_inv ob"
  by (induction rule: rtranclp_induct) (auto intro: book_inv_new book_step_inv)

lemma place_step: "sz < 2 ^ 63 \<Longrightarrow> next_order_id ob + 1 < 2 ^ 64 \<Longrightarrow> book_step ob (place user sd price sz ob)"
  unfolding place_def by (rule book_step.submit) simp_all

lemma sample_book_reached: "book_step\<^sup>*\<^sup>* (order_book_new ''XRP'') sample_book"
proof -
  let ?b0 = "set_attested_ms (order_book_new ''XRP'') 7"
  let ?b1 = "place ''alice'' Long 90 3 ?b0"
  let ?b2 = "place ''bob'' Long 100 5 ?b1"
  have n: "next_order_id ?b0 = 1" "next_order_id ?b1 = 2" "next_order_id ?b2 = 3" by (simp_all add: run_simps)
  have "book_step (order_book_new ''XRP'') ?b0" by (rule book_step.attest)
  moreover have "book_step ?b0 ?b1" "book_step ?b1 ?b2" "book_step ?b2 (place ''carol'' Short 110 4 ?b2)"
    by (rule place_step; simp add: n)+
  ultimately show ?thesis unfolding sample_book_run
    by (meson converse_rtranclp_into_rtranclp rtranclp.rtrancl_refl)
qed

section \<open>Properties\<close>

text \<open>
  In every book that submissions, cancellations and clock updates can produce, a cancel-all
  returns exactly the user's resting orders, each marked \<open>Cancelled\<close>, releases the user's whole
  reserved margin, leaves every other user's orders in place and in order, and the book it
  leaves is well formed again.
\<close>

theorem cancel_all_releases:
  assumes "book_step\<^sup>*\<^sup>* (order_book_new mkt) ob" "cancel_all ob user = (cancelled, ob')"
  shows "cancelled = map (\<lambda>x. x\<lparr>o_status := Cancelled\<rparr>) (user_orders ob user)
    \<and> user_orders ob' user = [] \<and> user_reserved_margin ob' user = fp8_ZERO
    \<and> (\<forall>v. v \<noteq> user \<longrightarrow> user_orders ob' v = user_orders ob v \<and> user_reserved_margin ob' v = user_reserved_margin ob v)
    \<and> wf_book ob'"
proof -
  have "cancelled = map (\<lambda>x. x\<lparr>o_status := Cancelled\<rparr>) (user_orders ob user)"
    using assms(2) by (auto simp: cancel_all_def cancelled_of_def user_orders_def)
  moreover have "user_orders ob' v = (if v = user then [] else user_orders ob v)" for v
    using user_orders_cancel_all [of ob user v] assms(2) by simp
  moreover have "wf_book ob'"
    using cancel_all_inv [OF book_run_inv [OF assms(1)], of user] assms(2) by (simp add: book_inv_def)
  ultimately show ?thesis by (simp add: reserved_by_user)
qed

theorem cancel_all_releases_witness:
  "fst (cancel_all sample_book ''bob'') = [(sample_order 2 ''bob'' Long 100 5)\<lparr>o_status := Cancelled\<rparr>]
   \<and> user_reserved_margin (snd (cancel_all sample_book ''bob'')) ''bob'' = fp8_ZERO
   \<and> wf_book (snd (cancel_all sample_book ''bob''))"
proof -
  have "user_orders sample_book ''bob'' = [sample_order 2 ''bob'' Long 100 5]"
    by (simp add: sample_simps user_orders_def side_orders_def bt_values_def)
  then show ?thesis using cancel_all_releases [OF sample_book_reached prod.collapse [symmetric], of "''bob''"] by simp
qed

text \<open>
  C4. Failover: a standby that loads the resting orders of a live book in id order, as the
  database returns them, rebuilds both sides exactly, so with the same price and time priority,
  and gives every later order a fresh id.
\<close>

theorem failover_rebuild:
  assumes live: "book_step\<^sup>*\<^sup>* (order_book_new mkt) ob"
    and rows: "sorted_wrt (<) (map o_id rows)" "set rows = set (side_orders (bids ob)) \<union> set (side_orders (asks ob))"
    and ids: "\<forall>x\<in>set rows. o_id x + 1 < 2 ^ 64"
  shows "bids (load_orders (order_book_new mkt) rows) = bids ob
    \<and> asks (load_orders (order_book_new mkt) rows) = asks ob
    \<and> wf_book (load_orders (order_book_new mkt) rows)"
proof -
  let ?ob = "load_orders (order_book_new mkt) rows"
  note inv = book_run_inv [OF live]
  have sides: "bids ?ob = bids ob" "asks ?ob = asks ob"
    using load_orders_side [OF inv rows, of mkt Long] load_orders_side [OF inv rows, of mkt Short]
    by (simp_all add: own_book_def opposite_book_def)
  have "i < next_order_id ?ob" if "i \<in> set (ids (bids ob)) \<union> set (ids (asks ob))" for i
  proof -
    from that obtain x where "x \<in> set rows" "o_id x = i" unfolding rows(2) side_orders_flat ids_def by auto
    then show ?thesis using load_orders_next_id(2) [OF ids, of x] by simp
  qed
  then have "wf_book ?ob"
    using inv by (simp add: book_inv_def wf_book_def uncrossed_def ids_ok_def sides)
  with sides show ?thesis by simp
qed

theorem failover_rebuild_witness:
  "asks (load_orders (order_book_new ''XRP'') [sample_order 1 ''alice'' Long 90 3, sample_order 2 ''bob'' Long 100 5,
     sample_order 3 ''carol'' Short 110 4]) = asks sample_book"
  using failover_rebuild [OF sample_book_reached, of "[sample_order 1 ''alice'' Long 90 3,
    sample_order 2 ''bob'' Long 100 5, sample_order 3 ''carol'' Short 110 4]"]
  by (simp add: sample_simps side_orders_def bt_values_def insert_commute)

text \<open>
  The rebuild does not restore the trade counter: whatever was loaded, the next trade id of
  the rebuilt book is that of a new book, so ids of earlier trades are issued again.
\<close>

theorem reload_resets_trade_ids:
  "next_trade_id (load_orders (order_book_new mkt) rows) = 1"
proof -
  have "next_trade_id (load_orders ob rows) = next_trade_id ob" for ob
    by (induction ob rows rule: load_orders.induct) (auto simp: Let_def add_to_book_frame)
  then show ?thesis by (simp add: order_book_new_def)
qed

end
