(* ===== verification/Election.thy ===== *)
theory Election
  imports Prelude "HOL-Library.List_Lexorder" "HOL-Library.Char_ord" "HOL-Library.Product_Lexorder"
begin

text \<open>
  \<^verbatim>\<open>orchestrator/src/election.rs\<close> and \<^verbatim>\<open>orchestrator/src/leader_gate.rs\<close>: the sequencer election by
  heartbeats and static priorities, and the gate a validator puts before the replay of a
  batch. Instants are naturals on the node's monotonic clock and are arguments of the handlers
  that read the clock; \<open>elapsed\<close> saturates at zero. A channel is the list of what was sent on
  it, a watch channel the value it shows (its receivers live as long as the node). The second
  half composes nodes into a cluster over a gossip network that may delay, repeat, reorder and
  lose messages.
\<close>

section \<open>Data\<close>

datatype role = Sequencer | Validator

datatype election_message =
    Heartbeat (msg_peer_id: string) (msg_priority: nat) (msg_seq_num: nat)
  | LeaderAnnounce (msg_peer_id: string) (msg_priority: nat)

record election_config =
  our_peer_id :: string
  our_priority :: nat
  heartbeat_interval :: nat
  heartbeat_timeout :: nat

record election_state =
  es_config :: election_config
  es_role :: role
  es_leader :: "(string \<times> nat) option"
  es_last_heartbeat :: nat
  es_heartbeat_seq :: nat
  es_startup_grace :: bool
  es_startup_time :: nat
  es_outbound :: "election_message list"
  es_role_watch :: role
  es_leader_watch :: "string option"

section \<open>Operations\<close>

definition initial_role :: "election_config \<Rightarrow> role" where
  "initial_role cfg = (if our_priority cfg = 0 then Sequencer else Validator)"

text \<open>The role watch is created by \<open>main\<close> with the initial role, before \<open>new\<close> runs.\<close>

definition election_new :: "election_config \<Rightarrow> nat \<Rightarrow> election_state" where
  "election_new cfg now =
     (let leader = (if initial_role cfg = Sequencer then Some (our_peer_id cfg, our_priority cfg) else None)
      in \<lparr>es_config = cfg, es_role = initial_role cfg, es_leader = leader, es_last_heartbeat = now,
          es_heartbeat_seq = 0, es_startup_grace = True, es_startup_time = now, es_outbound = [],
          es_role_watch = initial_role cfg, es_leader_watch = map_option fst leader\<rparr>)"

definition set_leader :: "(string \<times> nat) option \<Rightarrow> election_state \<Rightarrow> election_state" where
  "set_leader leader s = s\<lparr>es_leader := leader, es_leader_watch := map_option fst leader\<rparr>"

definition switch_role :: "role \<Rightarrow> election_state \<Rightarrow> election_state" where
  "switch_role new_role s =
     (if es_role s \<noteq> new_role then s\<lparr>es_role := new_role, es_role_watch := new_role\<rparr> else s)"

definition send_heartbeat :: "election_state \<Rightarrow> election_state" where
  "send_heartbeat s =
     (let sq = u64_add (es_heartbeat_seq s) 1
      in s\<lparr>es_heartbeat_seq := sq,
           es_outbound := es_outbound s
             @ [Heartbeat (our_peer_id (es_config s)) (our_priority (es_config s)) sq]\<rparr>)"

definition accept_leader :: "nat \<Rightarrow> string \<Rightarrow> nat \<Rightarrow> election_state \<Rightarrow> election_state" where
  "accept_leader now peer_id priority s =
     (set_leader (Some (peer_id, priority)) s)\<lparr>es_last_heartbeat := now\<rparr>"

definition yield_to :: "nat \<Rightarrow> election_state \<Rightarrow> election_state" where
  "yield_to priority s =
     (if es_role s = Sequencer \<and> priority < our_priority (es_config s) then switch_role Validator s else s)"

fun handle_message :: "nat \<Rightarrow> election_message \<Rightarrow> election_state \<Rightarrow> election_state" where
  "handle_message now (Heartbeat peer_id priority seq_num) s =
     (if peer_id = our_peer_id (es_config s) then s
      else if es_startup_grace s then
        yield_to priority (accept_leader now peer_id priority (s\<lparr>es_startup_grace := False\<rparr>))
      else case es_leader s of
          Some (leader_id, leader_prio) \<Rightarrow>
            (let s1 = (if peer_id = leader_id then s\<lparr>es_last_heartbeat := now\<rparr> else s)
             in if priority < leader_prio then yield_to priority (accept_leader now peer_id priority s1)
                else s1)
        | None \<Rightarrow> accept_leader now peer_id priority s)"
| "handle_message now (LeaderAnnounce peer_id priority) s =
     (if peer_id = our_peer_id (es_config s) then s
      else if priority < our_priority (es_config s)
        \<or> priority = our_priority (es_config s) \<and> peer_id < our_peer_id (es_config s)
      then let s1 = accept_leader now peer_id priority s
           in if es_role s1 = Sequencer then switch_role Validator s1 else s1
      else s)"

definition promote :: "election_state \<Rightarrow> election_state" where
  "promote s =
     (let s1 = switch_role Sequencer (set_leader (Some (our_peer_id (es_config s), our_priority (es_config s))) s)
      in s1\<lparr>es_outbound := es_outbound s1
           @ [LeaderAnnounce (our_peer_id (es_config s)) (our_priority (es_config s))]\<rparr>)"

definition check_timeout :: "nat \<Rightarrow> election_state \<Rightarrow> election_state" where
  "check_timeout now s =
     (if es_startup_grace s then
        if heartbeat_timeout (es_config s) < now - es_startup_time s
        then let s1 = s\<lparr>es_startup_grace := False\<rparr> in if es_leader s1 = None then promote s1 else s1
        else s
      else if es_role s = Validator \<and> heartbeat_timeout (es_config s) < now - es_last_heartbeat s
      then promote s else s)"

text \<open>One turn of the \<open>select!\<close> loop of \<open>run\<close>.\<close>

datatype election_event = HeartbeatTick | CheckTick nat | Inbound nat election_message

fun run_turn :: "election_event \<Rightarrow> election_state \<Rightarrow> election_state" where
  "run_turn HeartbeatTick s = (if es_role s = Sequencer then send_heartbeat s else s)"
| "run_turn (CheckTick now) s = check_timeout now s"
| "run_turn (Inbound now msg) s = handle_message now msg s"

section \<open>The validator's gate\<close>

datatype leader_gate = GateAccept | NoLeader | NotLeader | Unsigned | FieldMismatch

definition leader_gate_decision :: "string option \<Rightarrow> string option \<Rightarrow> string \<Rightarrow> leader_gate" where
  "leader_gate_decision src_peer elected claimed_sequencer_id =
     (case elected of
        None \<Rightarrow> NoLeader
      | Some elected_id \<Rightarrow>
          (case src_peer of
             None \<Rightarrow> Unsigned
           | Some src \<Rightarrow>
               if src \<noteq> elected_id then NotLeader
               else if claimed_sequencer_id \<noteq> elected_id then FieldMismatch
               else GateAccept))"

lemma leader_gate_accept:
  "leader_gate_decision src elected claimed = GateAccept \<longleftrightarrow> src = Some claimed \<and> elected = Some claimed"
  by (auto simp: leader_gate_decision_def split: option.splits)

section \<open>One node\<close>

definition self :: "election_state \<Rightarrow> string \<times> nat" where
  "self s = (our_peer_id (es_config s), our_priority (es_config s))"

lemma role_not_sequencer [simp]: "r \<noteq> Sequencer \<longleftrightarrow> r = Validator"
  by (cases r) auto

lemmas node_defs = set_leader_def switch_role_def accept_leader_def yield_to_def promote_def
  check_timeout_def send_heartbeat_def self_def

lemma handle_message_config [simp]: "es_config (handle_message now msg s) = es_config s"
  by (cases msg) (auto simp: node_defs Let_def split: option.splits)

lemma run_turn_config [simp]: "es_config (run_turn e s) = es_config s"
  by (cases e) (auto simp: node_defs Let_def)

lemma handle_message_outbound [simp]: "es_outbound (handle_message now msg s) = es_outbound s"
  by (cases msg) (auto simp: node_defs Let_def split: option.splits)

text \<open>
  The node is coherent: its watches show its state, and it is the sequencer exactly when it
  believes in itself.
\<close>

definition watches_ok :: "election_state \<Rightarrow> bool" where
  "watches_ok s \<longleftrightarrow> es_role_watch s = es_role s \<and> es_leader_watch s = map_option fst (es_leader s)"

definition coherent :: "election_state \<Rightarrow> bool" where
  "coherent s \<longleftrightarrow> (es_role s = Sequencer \<longleftrightarrow> es_leader s = Some (self s))"

lemma watches_ok_new: "watches_ok (election_new cfg now)"
  by (simp add: watches_ok_def election_new_def Let_def)

lemma watches_ok_turn: "watches_ok s \<Longrightarrow> watches_ok (run_turn e s)"
proof (cases e)
  case (Inbound now msg)
  assume "watches_ok s"
  with Inbound show ?thesis
    by (cases msg) (auto simp: watches_ok_def node_defs Let_def split: option.splits)
qed (auto simp: watches_ok_def node_defs Let_def)

text \<open>A node that does not start as sequencer is a validator as long as its grace lasts.\<close>

definition node_inv :: "election_state \<Rightarrow> bool" where
  "node_inv s \<longleftrightarrow> coherent s \<and> (es_startup_grace s \<longrightarrow> es_role s = Validator)"

lemma node_inv_new: "our_priority cfg \<noteq> 0 \<Longrightarrow> node_inv (election_new cfg now)"
  by (simp add: node_inv_def coherent_def election_new_def initial_role_def Let_def)

lemma node_inv_turn: "node_inv s \<Longrightarrow> node_inv (run_turn e s)"
proof (cases e)
  case (Inbound now msg)
  assume "node_inv s"
  with Inbound show ?thesis
    by (cases msg) (auto simp: node_inv_def coherent_def node_defs Let_def split: option.splits)
qed (auto simp: node_inv_def coherent_def node_defs Let_def)

text \<open>What a node believes comes from itself or from a message.\<close>

lemma run_turn_leader:
  "es_leader (run_turn e s) = es_leader s \<or> es_leader (run_turn e s) = Some (self s)
   \<or> (\<exists>now msg. e = Inbound now msg \<and> es_leader (run_turn e s) = Some (msg_peer_id msg, msg_priority msg))"
proof (cases e)
  case (Inbound now msg)
  then show ?thesis by (cases msg) (auto simp: node_defs Let_def split: option.splits)
qed (auto simp: node_defs Let_def)

lemma run_turn_outbound:
  "\<exists>msgs. es_outbound (run_turn e s) = es_outbound s @ msgs
     \<and> (\<forall>m\<in>set msgs. (msg_peer_id m, msg_priority m) = self s)"
  by (cases e) (auto simp: node_defs Let_def)

section \<open>The cluster\<close>

record cluster =
  cl_nodes :: "string \<Rightarrow> election_state option"
  cl_gossip :: "election_message set"

definition cluster_init :: "(string \<Rightarrow> election_config option) \<Rightarrow> (string \<Rightarrow> nat) \<Rightarrow> cluster" where
  "cluster_init cfgs start =
     \<lparr>cl_nodes = (\<lambda>p. map_option (\<lambda>cfg. election_new cfg (start p)) (cfgs p)), cl_gossip = {}\<rparr>"

text \<open>
  A step is one turn of one node, with an inbound message that was published at some time, or
  the restart of a node with the configuration it had.
\<close>

inductive cluster_step :: "cluster \<Rightarrow> cluster \<Rightarrow> bool" where
  turn: "cl_nodes c p = Some s \<Longrightarrow> (\<And>now msg. e = Inbound now msg \<Longrightarrow> msg \<in> cl_gossip c) \<Longrightarrow>
    cluster_step c (c\<lparr>cl_nodes := (cl_nodes c)(p \<mapsto> run_turn e s),
                     cl_gossip := cl_gossip c \<union> set (es_outbound (run_turn e s))\<rparr>)"
| restart: "cl_nodes c p = Some s \<Longrightarrow>
    cluster_step c (c\<lparr>cl_nodes := (cl_nodes c)(p \<mapsto> election_new (es_config s) now)\<rparr>)"

definition member :: "(string \<Rightarrow> election_config option) \<Rightarrow> string \<times> nat \<Rightarrow> bool" where
  "member cfgs who \<longleftrightarrow> map_option our_priority (cfgs (fst who)) = Some (snd who)"

definition named :: "(string \<Rightarrow> election_config option) \<Rightarrow> bool" where
  "named cfgs \<longleftrightarrow> (\<forall>p cfg. cfgs p = Some cfg \<longrightarrow> our_peer_id cfg = p)"

text \<open>A node in good order: its watches, what it sent, whom it believes in.\<close>

definition node_ok :: "(string \<Rightarrow> election_config option) \<Rightarrow> election_message set \<Rightarrow> election_state \<Rightarrow> bool" where
  "node_ok cfgs gossip s \<longleftrightarrow> watches_ok s \<and> set (es_outbound s) \<subseteq> gossip
     \<and> pred_option (member cfgs) (es_leader s) \<and> (our_priority (es_config s) \<noteq> 0 \<longrightarrow> node_inv s)"

definition cluster_inv :: "(string \<Rightarrow> election_config option) \<Rightarrow> cluster \<Rightarrow> bool" where
  "cluster_inv cfgs c \<longleftrightarrow>
     (\<forall>p. map_option es_config (cl_nodes c p) = cfgs p)
   \<and> (\<forall>p s. cl_nodes c p = Some s \<longrightarrow> node_ok cfgs (cl_gossip c) s)
   \<and> (\<forall>m\<in>cl_gossip c. member cfgs (msg_peer_id m, msg_priority m))"

lemma election_new_fields [simp]: "es_config (election_new cfg now) = cfg" "es_outbound (election_new cfg now) = []"
  by (simp_all add: election_new_def Let_def)

lemma node_ok_new:
  assumes "member cfgs (our_peer_id cfg, our_priority cfg)"
  shows "node_ok cfgs G (election_new cfg now)"
proof -
  have "pred_option (member cfgs) (es_leader (election_new cfg now))"
    using assms by (simp add: election_new_def Let_def)
  then show ?thesis by (simp add: node_ok_def watches_ok_new node_inv_new)
qed

lemma node_ok_mono: "node_ok cfgs G s \<Longrightarrow> G \<subseteq> G' \<Longrightarrow> node_ok cfgs G' s"
  by (auto simp: node_ok_def)

lemma named_member: "named cfgs \<Longrightarrow> cfgs p = Some cfg \<Longrightarrow> member cfgs (our_peer_id cfg, our_priority cfg)"
  by (simp add: named_def member_def)

lemma cluster_inv_init:
  assumes "named cfgs"
  shows "cluster_inv cfgs (cluster_init cfgs start)"
proof -
  have "map_option es_config (cl_nodes (cluster_init cfgs start) p) = cfgs p" for p
    by (cases "cfgs p") (simp_all add: cluster_init_def)
  moreover have "node_ok cfgs (cl_gossip (cluster_init cfgs start)) s"
    if "cl_nodes (cluster_init cfgs start) p = Some s" for p s
    using that named_member [OF assms] by (auto simp: cluster_init_def intro: node_ok_new)
  ultimately show ?thesis by (simp add: cluster_inv_def cluster_init_def)
qed

lemma cluster_inv_self:
  assumes "named cfgs" "cluster_inv cfgs c" "cl_nodes c p = Some s"
  shows "member cfgs (self s)" "fst (self s) = p"
proof -
  have "cfgs p = Some (es_config s)" using assms(2,3) unfolding cluster_inv_def by (metis option.map(2))
  then show "member cfgs (self s)" "fst (self s) = p" using assms(1) by (auto simp: named_def member_def self_def)
qed

lemma node_ok_turn:
  assumes ok: "node_ok cfgs (cl_gossip c) s" and me: "member cfgs (self s)"
    and msgs: "\<forall>m\<in>cl_gossip c. member cfgs (msg_peer_id m, msg_priority m)"
    and inb: "\<And>now msg. e = Inbound now msg \<Longrightarrow> msg \<in> cl_gossip c"
  shows "node_ok cfgs (cl_gossip c \<union> set (es_outbound (run_turn e s))) (run_turn e s)"
proof -
  have "pred_option (member cfgs) (es_leader (run_turn e s))"
    using run_turn_leader [of e s] ok me msgs inb by (auto simp: node_ok_def)
  then show ?thesis using ok by (auto simp: node_ok_def watches_ok_turn node_inv_turn)
qed

lemma cluster_inv_update:
  assumes inv: "cluster_inv cfgs c" and s: "cl_nodes c p = Some s" "es_config s' = es_config s"
    and ok: "node_ok cfgs (cl_gossip c \<union> G) s'" and G: "\<forall>m\<in>G. member cfgs (msg_peer_id m, msg_priority m)"
  shows "cluster_inv cfgs (c\<lparr>cl_nodes := (cl_nodes c)(p \<mapsto> s'), cl_gossip := cl_gossip c \<union> G\<rparr>)"
proof -
  have "map_option es_config (((cl_nodes c)(p \<mapsto> s')) q) = cfgs q" for q
    using inv s unfolding cluster_inv_def by (cases "q = p") (auto dest: spec [of _ p])
  moreover have "node_ok cfgs (cl_gossip c \<union> G) t" if "((cl_nodes c)(p \<mapsto> s')) q = Some t" for q t
    using inv ok that unfolding cluster_inv_def by (auto split: if_splits intro: node_ok_mono)
  ultimately show ?thesis using inv G unfolding cluster_inv_def by simp blast
qed

lemma cluster_inv_step:
  assumes n: "named cfgs" and step: "cluster_step c c'" and inv: "cluster_inv cfgs c"
  shows "cluster_inv cfgs c'"
  using step
proof cases
  case (turn p s e)
  note me = cluster_inv_self(1) [OF n inv turn(2)]
  have ok: "node_ok cfgs (cl_gossip c) s" and msgs: "\<forall>m\<in>cl_gossip c. member cfgs (msg_peer_id m, msg_priority m)"
    using inv turn(2) by (auto simp: cluster_inv_def)
  obtain new where out: "es_outbound (run_turn e s) = es_outbound s @ new"
    "\<forall>m\<in>set new. (msg_peer_id m, msg_priority m) = self s" using run_turn_outbound by blast
  have "\<forall>m\<in>set (es_outbound (run_turn e s)). member cfgs (msg_peer_id m, msg_priority m)"
    using out me ok msgs by (auto simp: node_ok_def)
  then show ?thesis unfolding turn(1)
    using node_ok_turn [OF ok me msgs turn(3)] by (intro cluster_inv_update [OF inv turn(2)]) simp_all
next
  case (restart p s now)
  have "node_ok cfgs (cl_gossip c \<union> {}) (election_new (es_config s) now)"
    using cluster_inv_self(1) [OF n inv restart(2)] by (simp add: self_def node_ok_new)
  then show ?thesis unfolding restart(1)
    using cluster_inv_update [OF inv restart(2), of "election_new (es_config s) now" "{}"] by simp
qed

lemma cluster_run_inv:
  "cluster_step\<^sup>*\<^sup>* (cluster_init cfgs start) c \<Longrightarrow> named cfgs \<Longrightarrow> cluster_inv cfgs c"
  by (induction rule: rtranclp_induct) (auto intro: cluster_inv_init cluster_inv_step)

section \<open>Announcements\<close>

text \<open>The rank of a node: priority first, then the peer id; the smaller rank wins.\<close>

definition rank :: "election_state \<Rightarrow> nat \<times> string" where
  "rank s = (our_priority (es_config s), our_peer_id (es_config s))"

definition announcement :: "election_state \<Rightarrow> election_message" where
  "announcement s = LeaderAnnounce (our_peer_id (es_config s)) (our_priority (es_config s))"

lemma rank_cong: "es_config s = es_config t \<Longrightarrow> rank s = rank t"
  by (simp add: rank_def)

lemma handle_announcement:
  "es_role (handle_message now (announcement a) s) =
     (if our_peer_id (es_config a) \<noteq> our_peer_id (es_config s) \<and> rank a < rank s then Validator else es_role s)"
  by (auto simp: announcement_def rank_def node_defs Let_def)

lemma handle_announcements:
  "es_role (fold (handle_message now) (map announcement as) s) =
     (if \<exists>a\<in>set as. our_peer_id (es_config a) \<noteq> our_peer_id (es_config s) \<and> rank a < rank s
      then Validator else es_role s)"
proof (induction as arbitrary: s)
  case (Cons a as)
  have "rank (handle_message now (announcement a) s) = rank s" by (intro rank_cong) simp
  then show ?case unfolding list.map fold_simps Cons.IH by (auto simp: handle_announcement)
qed simp

lemma priority_zero_stays:
  assumes msg: "\<And>now m. e = Inbound now m \<Longrightarrow> msg_priority m = 0 \<longrightarrow> msg_peer_id m = our_peer_id (es_config s)"
    and s: "our_priority (es_config s) = 0" "es_role s = Sequencer"
  shows "es_role (run_turn e s) = Sequencer"
proof (cases e)
  case (Inbound now m)
  with msg s show ?thesis by (cases m) (auto simp: node_defs Let_def split: option.splits)
qed (use s in \<open>auto simp: node_defs Let_def\<close>)

text \<open>A cluster of two nodes, as a concrete instance.\<close>

definition pair_cfgs :: "string \<Rightarrow> election_config option" where
  "pair_cfgs = [''A'' \<mapsto> \<lparr>our_peer_id = ''A'', our_priority = 0, heartbeat_interval = 5, heartbeat_timeout = 15\<rparr>,
                ''B'' \<mapsto> \<lparr>our_peer_id = ''B'', our_priority = 1, heartbeat_interval = 5, heartbeat_timeout = 15\<rparr>]"

definition pair_node :: "string \<Rightarrow> election_state" where
  "pair_node p = election_new (the (pair_cfgs p)) 0"

lemma pair_named: "named pair_cfgs"
  by (simp add: named_def pair_cfgs_def)

lemma pair_nodes: "cl_nodes (cluster_init pair_cfgs (\<lambda>_. 0)) p =
    (if p = ''A'' \<or> p = ''B'' then Some (pair_node p) else None)"
  by (simp add: cluster_init_def pair_node_def pair_cfgs_def)

lemmas pair_simps = pair_node_def pair_cfgs_def election_new_def initial_role_def Let_def

section \<open>Properties\<close>

text \<open>
  Beliefs are sound: in every state a cluster can reach, with any delay, loss and repetition
  of messages and any restarts, what a node publishes is what it decided, the leader it
  believes in is a member with that member's configured priority, and a batch that passes the
  validator's gate was published by exactly that member under its own name.
\<close>

theorem gate_accepts_members_only:
  assumes run: "cluster_step\<^sup>*\<^sup>* (cluster_init cfgs start) c" and "named cfgs" and s: "cl_nodes c p = Some s"
  shows "es_role_watch s = es_role s \<and> es_leader_watch s = map_option fst (es_leader s)
    \<and> (leader_gate_decision src (es_leader_watch s) claimed = GateAccept \<longrightarrow>
         src = Some claimed \<and> es_leader s = map_option (\<lambda>cfg. (claimed, our_priority cfg)) (cfgs claimed)
         \<and> cfgs claimed \<noteq> None)"
proof -
  have "node_ok cfgs (cl_gossip c) s" using cluster_run_inv [OF run \<open>named cfgs\<close>] s by (simp add: cluster_inv_def)
  then show ?thesis
    by (cases "es_leader s") (auto simp: node_ok_def watches_ok_def leader_gate_accept member_def)
qed

theorem gate_accepts_members_only_witness:
  "leader_gate_decision (Some ''A'') (es_leader_watch (pair_node ''A'')) ''A'' = GateAccept
   \<and> es_leader (pair_node ''A'') = Some (''A'', 0)"
proof -
  have g: "leader_gate_decision (Some ''A'') (es_leader_watch (pair_node ''A'')) ''A'' = GateAccept"
    by (simp add: pair_simps leader_gate_accept)
  then show ?thesis
    using gate_accepts_members_only [OF rtranclp.rtrancl_refl pair_named, of "\<lambda>_. 0" "''A''" "pair_node ''A''"
      "Some ''A''" "''A''"] by (auto simp: pair_nodes) (auto simp: pair_cfgs_def)
qed

text \<open>
  A member that does not have the top priority is the sequencer exactly when it believes in
  itself, in every reachable state of the cluster.
\<close>

theorem sequencer_believes_itself:
  assumes run: "cluster_step\<^sup>*\<^sup>* (cluster_init cfgs start) c" and "named cfgs"
    and s: "cl_nodes c p = Some s" "our_priority (es_config s) \<noteq> 0"
  shows "es_role s = Sequencer \<longleftrightarrow> es_leader s = Some (p, our_priority (es_config s))"
proof -
  note inv = cluster_run_inv [OF run \<open>named cfgs\<close>]
  have "coherent s" using inv s by (simp add: cluster_inv_def node_ok_def node_inv_def)
  moreover have "self s = (p, our_priority (es_config s))"
    using cluster_inv_self(2) [OF \<open>named cfgs\<close> inv s(1)] by (simp add: self_def)
  ultimately show ?thesis by (simp add: coherent_def)
qed

theorem sequencer_believes_itself_witness:
  "es_role (pair_node ''B'') = Validator \<and> es_leader (pair_node ''B'') \<noteq> Some (''B'', 1)"
  using sequencer_believes_itself [OF rtranclp.rtrancl_refl pair_named, of "\<lambda>_. 0" "''B''" "pair_node ''B''"]
  by (simp add: pair_nodes) (simp add: pair_simps)

text \<open>
  C7. Announcements settle a contest: when every node has handled the announcements of all
  nodes that are sequencers, in any order, exactly one sequencer is left, and it is the one
  of the smallest priority, ties going to the smaller peer id.
\<close>

theorem announcements_leave_one_sequencer:
  assumes run: "cluster_step\<^sup>*\<^sup>* (cluster_init cfgs start) c" and n: "named cfgs" and fin: "finite (dom cfgs)"
    and as: "set as = {s. \<exists>p. cl_nodes c p = Some s \<and> es_role s = Sequencer}" and ne: "as \<noteq> []"
  shows "\<exists>!p. \<exists>s. cl_nodes c p = Some s
    \<and> es_role (fold (handle_message now) (map announcement as) s) = Sequencer"
proof -
  note self = cluster_inv_self(2) [OF n cluster_run_inv [OF run n]]
  define r where "r = Min (rank ` set as)"
  have "r \<in> rank ` set as" using ne by (simp add: r_def)
  then obtain t p where t: "t \<in> set as" "rank t = r" "cl_nodes c p = Some t" "es_role t = Sequencer"
    using as by auto
  have least: "r \<le> rank a" if "a \<in> set as" for a using that by (simp add: r_def)
  have "es_role (fold (handle_message now) (map announcement as) t) = Sequencer"
    using least t by (auto simp: handle_announcements not_less)
  moreover have "q = p" if q: "cl_nodes c q = Some s"
    "es_role (fold (handle_message now) (map announcement as) s) = Sequencer" for q s
  proof -
    have s: "s \<in> set as" using q as by (auto simp: handle_announcements split: if_splits)
    have "\<not> (our_peer_id (es_config t) \<noteq> our_peer_id (es_config s) \<and> rank t < rank s)"
      using q(2) t(1) by (auto simp: handle_announcements split: if_splits)
    moreover have "rank t \<le> rank s" using least [OF s] t(2) by simp
    ultimately have "our_peer_id (es_config t) = our_peer_id (es_config s)" by (auto simp: rank_def)
    then show ?thesis using self [OF q(1)] self [OF t(3)] by (simp add: self_def)
  qed
  ultimately show ?thesis using t(3) by blast
qed

theorem announcements_leave_one_sequencer_witness:
  "\<exists>!p. \<exists>s. cl_nodes (cluster_init pair_cfgs (\<lambda>_. 0)) p = Some s
     \<and> es_role (fold (handle_message 3) (map announcement [pair_node ''A'']) s) = Sequencer"
proof (rule announcements_leave_one_sequencer [OF rtranclp.rtrancl_refl pair_named])
  show "finite (dom pair_cfgs)" by (simp add: pair_cfgs_def)
  have r: "es_role (pair_node ''A'') = Sequencer" "es_role (pair_node ''B'') = Validator" by (simp_all add: pair_simps)
  have "cl_nodes (cluster_init pair_cfgs (\<lambda>_. 0)) p = Some s \<and> es_role s = Sequencer
      \<longleftrightarrow> p = ''A'' \<and> s = pair_node ''A''" for p s
    using r by (cases "p = ''A''"; cases "p = ''B''") (auto simp: pair_nodes)
  then show "set [pair_node ''A''] = {s. \<exists>p. cl_nodes (cluster_init pair_cfgs (\<lambda>_. 0)) p = Some s \<and> es_role s = Sequencer}"
    by simp
qed simp



text \<open>
  A returning top-priority node takes leadership back at once: a node that is alone in
  having priority 0 is sequencer in every reachable state, right after a restart too, whoever
  took over meanwhile.
\<close>

theorem priority_zero_always_sequencer:
  assumes run: "cluster_step\<^sup>*\<^sup>* (cluster_init cfgs start) c" and n: "named cfgs"
    and top: "map_option our_priority (cfgs p) = Some 0"
    and alone: "\<And>q. map_option our_priority (cfgs q) = Some 0 \<Longrightarrow> q = p"
  shows "map_option es_role (cl_nodes c p) = Some Sequencer"
  using run
proof (induction rule: rtranclp_induct)
  case base
  then show ?case using top
    by (cases "cfgs p") (simp_all add: cluster_init_def election_new_def initial_role_def Let_def)
next
  case (step c c')
  note inv = cluster_run_inv [OF step(1) n]
  from step(3) obtain s0 where s0: "cl_nodes c p = Some s0" "es_role s0 = Sequencer" by auto
  have c0: "cfgs p = Some (es_config s0)" using inv s0 unfolding cluster_inv_def by (metis option.map(2))
  then have zero: "our_priority (es_config s0) = 0" "our_peer_id (es_config s0) = p"
    using top n by (auto simp: named_def)
  from step(2) show ?case
  proof cases
    case (turn q s e)
    show ?thesis
    proof (cases "q = p")
      case True
      with turn s0 have [simp]: "s = s0" by simp
      have "msg_priority m = 0 \<longrightarrow> msg_peer_id m = p" if "e = Inbound now m" for now m
        using inv turn(3) [OF that] alone [of "msg_peer_id m"] by (auto simp: cluster_inv_def member_def)
      then have "es_role (run_turn e s0) = Sequencer"
        using zero s0 by (intro priority_zero_stays) auto
      then show ?thesis using True turn(1) by simp
    next
      case False
      then show ?thesis using turn(1) s0 by simp
    qed
  next
    case (restart q s now)
    then show ?thesis using s0 zero
      by (cases "q = p") (auto simp: election_new_def initial_role_def Let_def)
  qed
qed

theorem priority_zero_always_sequencer_witness:
  "map_option es_role (cl_nodes (cluster_init pair_cfgs (\<lambda>_. 0)) ''A'') = Some Sequencer"
proof (rule priority_zero_always_sequencer [OF rtranclp.rtrancl_refl pair_named])
  show "map_option our_priority (pair_cfgs ''A'') = Some 0" by (simp add: pair_cfgs_def)
  show "q = ''A''" if "map_option our_priority (pair_cfgs q) = Some 0" for q
    using that by (auto simp: pair_cfgs_def split: if_splits)
qed

text \<open>
  While it returns, the roles split: a restarted priority-0 node that hears the heartbeat of
  the acting leader within its grace stays sequencer but publishes the other node as the
  leader, and the acting leader steps down at the first heartbeat it gets back.
\<close>

theorem returning_leader_splits:
  fixes cfg t now b prio sq
  defines "a \<equiv> handle_message now (Heartbeat b prio sq) (election_new cfg t)"
  assumes "our_priority cfg = 0" "b \<noteq> our_peer_id cfg"
    and r: "es_leader r = Some (self r)" "es_role r = Sequencer" "\<not> es_startup_grace r"
      "0 < our_priority (es_config r)" "our_peer_id (es_config r) = b"
  shows "es_role a = Sequencer \<and> es_leader_watch a = Some b
    \<and> es_role (handle_message now' (Heartbeat (our_peer_id cfg) 0 1) r) = Validator
    \<and> es_leader_watch (handle_message now' (Heartbeat (our_peer_id cfg) 0 1) r) = Some (our_peer_id cfg)"
  using assms by (auto simp: election_new_def initial_role_def node_defs Let_def)

theorem returning_leader_splits_witness:
  "es_leader_watch (handle_message 2 (Heartbeat ''B'' 1 9) (pair_node ''A'')) = Some ''B''
   \<and> es_role (handle_message 2 (Heartbeat ''B'' 1 9) (pair_node ''A'')) = Sequencer"
  using returning_leader_splits [of "the (pair_cfgs ''A'')" "''B''" "promote ((pair_node ''B'')\<lparr>es_startup_grace := False\<rparr>)" 2 1 9 0 3]
  by (simp add: pair_simps node_defs)

end
