(* ===== verification/TxShamap.thy ===== *)
theory TxShamap
  imports Bytes
begin

text \<open>
  \<^verbatim>\<open>orchestrator/src/tx_shamap.rs\<close>: the rebuild of a ledger's transaction SHAMap, the inclusion
  path read off it, and the replay of the enclave's walk. The hash function comes from a
  library: it is the argument \<open>sha512\<close> of every definition that hashes, and the only thing
  ever assumed about it is that its digest has 64 bytes.
\<close>

type_synonym hash_fun = "bytes \<Rightarrow> bytes"

datatype shamap_error =
    VlByteRange nat
  | VlTooLong nat
  | FullKeyCollision
  | DuplicateTxId
  | DifferentKey
  | EmptySlot nat
  | BranchMismatch nat nat
  | RootMismatch
  | IndexPanic

section \<open>Hashes and prefixes\<close>

definition HP_TXN_ID :: bytes where "HP_TXN_ID = [0x54, 0x58, 0x4E, 0x00]"
definition HP_TX_NODE :: bytes where "HP_TX_NODE = [0x53, 0x4E, 0x44, 0x00]"
definition HP_INNER :: bytes where "HP_INNER = [0x4D, 0x49, 0x4E, 0x00]"

definition MAX_DEPTH :: nat where "MAX_DEPTH = 64"

definition sha512half :: "hash_fun \<Rightarrow> bytes list \<Rightarrow> bytes" where
  "sha512half sha512 parts = take 32 (sha512 (concat parts))"

definition vl_byte :: "nat \<Rightarrow> shamap_error + byte" where
  "vl_byte x = (if x < 256 then Ok (of_nat x) else Err (VlByteRange x))"

definition vl_prefix :: "nat \<Rightarrow> shamap_error + bytes" where
  "vl_prefix n =
     (if n \<le> 192 then result_bind (vl_byte n) (\<lambda>b. Ok [b])
      else if n \<le> 12480 then
        let v = n - 193 in result_bind (vl_byte (193 + v div 2 ^ 8)) (\<lambda>b. Ok [b, of_nat v])
      else if n \<le> 918744 then
        let v = n - 12481
        in result_bind (vl_byte (241 + v div 2 ^ 16)) (\<lambda>b. Ok [b, of_nat (v div 2 ^ 8), of_nat v])
      else Err (VlTooLong n))"

definition tx_id :: "hash_fun \<Rightarrow> bytes \<Rightarrow> bytes" where
  "tx_id sha512 tx_blob = sha512half sha512 [HP_TXN_ID, tx_blob]"

definition tx_leaf_hash :: "hash_fun \<Rightarrow> bytes \<Rightarrow> bytes \<Rightarrow> shamap_error + bytes" where
  "tx_leaf_hash sha512 tx_blob meta =
     (let key = tx_id sha512 tx_blob
      in result_bind (vl_prefix (length tx_blob)) (\<lambda>lv.
         result_bind (vl_prefix (length meta)) (\<lambda>mv.
         Ok (sha512half sha512 [HP_TX_NODE, lv, tx_blob, mv, meta, key]))))"

definition nibble :: "bytes \<Rightarrow> nat \<Rightarrow> nat" where
  "nibble key depth =
     (if depth mod 2 = 0 then unat (key ! (depth div 2)) div 16 else unat (key ! (depth div 2)) mod 16)"

lemma nibble_less [simp]: "nibble key depth < 16"
proof -
  have "unat (key ! (depth div 2)) < 256" using unsigned_less [of "key ! (depth div 2)"] by simp
  then show ?thesis by (simp add: nibble_def) linarith
qed

section \<open>The tree\<close>

datatype node = Empty | Leaf bytes bytes | Inner "node list"

definition empty_inner :: node where "empty_inner = Inner (replicate 16 Empty)"

definition zero_hash :: bytes where "zero_hash = replicate 32 0"

fun node_hash :: "hash_fun \<Rightarrow> node \<Rightarrow> bytes" where
  "node_hash sha512 Empty = zero_hash"
| "node_hash sha512 (Leaf key hash) = hash"
| "node_hash sha512 (Inner children) =
     sha512half sha512 [HP_INNER, concat (map (node_hash sha512) children)]"

fun flat_children :: "hash_fun \<Rightarrow> node \<Rightarrow> bytes option" where
  "flat_children sha512 (Inner children) = Some (concat (map (node_hash sha512) children))"
| "flat_children sha512 _ = None"

text \<open>
  The leaf case inserts the existing leaf and then the new one into a fresh inner node at the
  same depth; an array index out of range would panic.
\<close>

function node_insert :: "node \<Rightarrow> bytes \<Rightarrow> bytes \<Rightarrow> nat \<Rightarrow> shamap_error + node" where
  "node_insert node key hash depth =
     (if MAX_DEPTH \<le> depth then Err FullKeyCollision
      else case node of
          Empty \<Rightarrow> Ok (Leaf key hash)
        | Leaf existing_key existing_hash \<Rightarrow>
            if existing_key = key then Err DuplicateTxId
            else (case node_insert empty_inner existing_key existing_hash depth of
                    Inl e \<Rightarrow> Err e
                  | Inr node' \<Rightarrow> node_insert node' key hash depth)
        | Inner children \<Rightarrow>
            let nib = nibble key depth
            in if nib < length children
               then (case node_insert (children ! nib) key hash (depth + 1) of
                       Inl e \<Rightarrow> Err e
                     | Inr child \<Rightarrow> Ok (Inner (children[nib := child])))
               else Err IndexPanic)"
  by pat_completeness auto

termination
proof (relation "measures [\<lambda>(node, key, hash, depth). MAX_DEPTH - depth,
    \<lambda>(node, key, hash, depth). case node of Leaf _ _ \<Rightarrow> 1 | _ \<Rightarrow> 0]", goal_cases)
  case (3 node key hash depth ek eh n)
  have "node_insert (Inner cs) k h d = Ok m \<Longrightarrow> \<exists>cs'. m = Inner cs'"
    if "node_insert_dom (Inner cs, k, h, d)" for cs k h d m
    unfolding node_insert.psimps [OF that] by (auto simp: Let_def split: if_splits sum.splits)
  then show ?case using 3 by (fastforce simp: empty_inner_def)
qed (auto simp: empty_inner_def)

declare node_insert.simps [simp del]

record tx_shamap = root :: node

record tx_inclusion_proof =
  proof_tx_id :: bytes
  inner_root_to_leaf :: "bytes list"

fun insert_all :: "hash_fun \<Rightarrow> (bytes \<times> bytes) list \<Rightarrow> node \<Rightarrow> shamap_error + node" where
  "insert_all sha512 [] node = Ok node"
| "insert_all sha512 ((tx, meta) # items) node =
     (let key = tx_id sha512 tx
      in result_bind (tx_leaf_hash sha512 tx meta) (\<lambda>leaf.
         result_bind (node_insert node key leaf 0) (insert_all sha512 items)))"

definition build :: "hash_fun \<Rightarrow> (bytes \<times> bytes) list \<Rightarrow> shamap_error + tx_shamap" where
  "build sha512 items =
     result_bind (insert_all sha512 items (if items = [] then Empty else empty_inner))
       (\<lambda>node. Ok \<lparr>root = node\<rparr>)"

definition root_hash :: "hash_fun \<Rightarrow> tx_shamap \<Rightarrow> bytes" where
  "root_hash sha512 m = node_hash sha512 (root m)"

function path_loop :: "hash_fun \<Rightarrow> bytes \<Rightarrow> node \<Rightarrow> nat \<Rightarrow> bytes list \<Rightarrow> shamap_error + tx_inclusion_proof" where
  "path_loop sha512 target (Inner children) depth path =
     (let nib = nibble target depth
      in if nib < length children
         then path_loop sha512 target (children ! nib) (depth + 1)
                (path @ [concat (map (node_hash sha512) children)])
         else Err IndexPanic)"
| "path_loop sha512 target (Leaf key hash) depth path =
     (if key \<noteq> target then Err DifferentKey
      else Ok \<lparr>proof_tx_id = target, inner_root_to_leaf = path\<rparr>)"
| "path_loop sha512 target Empty depth path = Err (EmptySlot depth)"
  by pat_completeness auto
termination
  by (relation "measure (\<lambda>(_, _, node, _, _). size node)") (auto simp: less_Suc_eq_le intro: size_list_estimation' [OF nth_mem])

definition inclusion_proof :: "hash_fun \<Rightarrow> tx_shamap \<Rightarrow> bytes \<Rightarrow> shamap_error + tx_inclusion_proof" where
  "inclusion_proof sha512 m target = path_loop sha512 target (root m) 0 []"

text \<open>The loop of the replay, from the deepest inner node up to the root.\<close>

fun verify_walk :: "hash_fun \<Rightarrow> bytes \<Rightarrow> bytes list \<Rightarrow> nat \<Rightarrow> bytes \<Rightarrow> shamap_error + bytes" where
  "verify_walk sha512 key path 0 running = Ok running"
| "verify_walk sha512 key path (Suc d) running =
     (let node = path ! d; nib = nibble key d
      in if take 32 (drop (nib * 32) node) \<noteq> running then Err (BranchMismatch d nib)
         else verify_walk sha512 key path d (sha512half sha512 [HP_INNER, node]))"

definition verify_tx_inclusion ::
  "hash_fun \<Rightarrow> bytes \<Rightarrow> bytes \<Rightarrow> bytes \<Rightarrow> bytes list \<Rightarrow> shamap_error + bytes" where
  "verify_tx_inclusion sha512 transaction_hash tx_blob meta path =
     (let key = tx_id sha512 tx_blob
      in result_bind (tx_leaf_hash sha512 tx_blob meta) (\<lambda>leaf.
         result_bind (verify_walk sha512 key path (length path) leaf) (\<lambda>running.
         if running \<noteq> transaction_hash then Err RootMismatch else Ok key)))"

section \<open>The leaves of a tree\<close>

fun leaves :: "node \<Rightarrow> (bytes \<times> bytes) set" where
  "leaves Empty = {}"
| "leaves (Leaf k h) = {(k, h)}"
| "leaves (Inner cs) = (\<Union>c\<in>set cs. leaves c)"

text \<open>
  A well-shaped subtree at a depth: inner nodes have sixteen children, every leaf hangs under
  the child its key's nibble names, and hashes have 32 bytes.
\<close>

fun shaped :: "nat \<Rightarrow> node \<Rightarrow> bool" where
  "shaped d Empty = True"
| "shaped d (Leaf k h) = (length h = 32)"
| "shaped d (Inner cs) = (d + 1 < MAX_DEPTH \<and> length cs = 16 \<and> (\<forall>c\<in>set cs. shaped (d + 1) c)
     \<and> (\<forall>i<16. \<forall>l\<in>leaves (cs ! i). nibble (fst l) d = i))"

lemma leaves_empty_inner [simp]: "leaves empty_inner = {}"
  by (simp add: empty_inner_def)

lemma shaped_empty_inner [simp]: "shaped d empty_inner \<longleftrightarrow> d + 1 < MAX_DEPTH"
  by (auto simp: empty_inner_def)

lemma node_insert_depth: "node_insert n key h d = Ok n' \<Longrightarrow> d < MAX_DEPTH"
  by (simp add: node_insert.simps [of n] split: if_splits)

lemma node_insert_inner_depth: "node_insert (Inner cs) key h d = Ok n' \<Longrightarrow> d + 1 < MAX_DEPTH"
  using node_insert_depth
  by (fastforce simp: node_insert.simps [of "Inner cs"] Let_def split: if_splits sum.splits)

lemma leaves_nth: "leaves (Inner cs) = (\<Union>j<length cs. leaves (cs ! j))"
  unfolding leaves.simps set_conv_nth by blast

lemma leaves_at:
  assumes "shaped d (Inner cs)" "l \<in> leaves (Inner cs)"
  shows "l \<in> leaves (cs ! nibble (fst l) d)"
  using assms by (auto simp: in_set_conv_nth)

text \<open>Inserting adds exactly one leaf and keeps the shape.\<close>

lemma node_insert_ok:
  assumes "node_insert n key h d = Ok n'" "shaped d n" "length h = 32"
  shows "shaped d n' \<and> leaves n' = insert (key, h) (leaves n) \<and> key \<notin> fst ` leaves n"
  using assms
proof (induction n key h d arbitrary: n' rule: node_insert.induct)
  case (1 n key h d)
  have d: "d < MAX_DEPTH" by (rule node_insert_depth [OF "1.prems"(1)])
  show ?case
  proof (cases n)
    case Empty
    with "1.prems" d show ?thesis by (auto simp: node_insert.simps [of Empty])
  next
    case (Leaf ek eh)
    with "1.prems" d obtain m where m: "ek \<noteq> key" "node_insert empty_inner ek eh d = Ok m"
      "node_insert m key h d = Ok n'"
      by (auto simp: node_insert.simps [of "Leaf ek eh"] split: if_splits sum.splits)
    have "d + 1 < MAX_DEPTH" by (rule node_insert_inner_depth [OF m(2) [unfolded empty_inner_def]])
    with "1.IH"(1) [OF _ Leaf m(1,2)] d "1.prems" Leaf have m1: "shaped d m" "leaves m = {(ek, eh)}" by auto
    from "1.IH"(2) [OF _ Leaf m(1,2) m(3)] d "1.prems" m1 m(1) show ?thesis by (simp add: Leaf)
  next
    case (Inner cs)
    let ?i = "nibble key d"
    have sh: "length cs = 16" "\<forall>c\<in>set cs. shaped (d + 1) c" "\<forall>i<16. \<forall>l\<in>leaves (cs ! i). nibble (fst l) d = i"
      using "1.prems"(2) Inner by auto
    with "1.prems"(1) d obtain c where c: "node_insert (cs ! ?i) key h (d + 1) = Ok c" "n' = Inner (cs[?i := c])"
      by (auto simp: node_insert.simps [of "Inner cs"] Inner Let_def split: if_splits sum.splits)
    have "shaped (d + 1) (cs ! ?i)" using sh by simp
    with "1.IH"(3) [OF _ Inner refl _ c(1)] d sh "1.prems"(3)
    have ih: "shaped (d + 1) c" "leaves c = insert (key, h) (leaves (cs ! ?i))" "key \<notin> fst ` leaves (cs ! ?i)" by auto
    have "leaves n' = insert (key, h) (leaves n)"
    proof -
      have "leaves n' = (\<Union>j<16. if j = ?i then insert (key, h) (leaves (cs ! j)) else leaves (cs ! j))"
        unfolding c(2) leaves_nth using sh(1) ih(2) by (intro SUP_cong) (auto simp: nth_list_update)
      then show ?thesis unfolding Inner leaves_nth sh(1) using nibble_less [of key d] by (auto split: if_splits)
    qed
    moreover have "key \<notin> fst ` leaves n"
      using ih(3) leaves_at [OF "1.prems"(2) [unfolded Inner]] unfolding Inner by force
    moreover have "shaped d n'"
      using sh node_insert_depth [OF c(1)] ih(1,2) unfolding c(2)
      by (auto simp: nth_list_update dest: subsetD [OF set_update_subset_insert])
    ultimately show ?thesis by blast
  qed
qed

text \<open>Two keys that part within their first 63 nibbles can share a tree.\<close>

definition parted :: "bytes \<Rightarrow> bytes \<Rightarrow> bool" where
  "parted k k' \<longleftrightarrow> (\<exists>d<MAX_DEPTH - 1. nibble k d \<noteq> nibble k' d)"

definition agree :: "nat \<Rightarrow> bytes \<Rightarrow> bytes \<Rightarrow> bool" where
  "agree d k k' \<longleftrightarrow> (\<forall>e<d. nibble k e = nibble k' e)"

lemma parted_deeper: "parted k k' \<Longrightarrow> agree d k k' \<Longrightarrow> d + 1 < MAX_DEPTH"
  unfolding parted_def agree_def by (meson less_diff_conv less_le_trans not_le order_less_trans leI)

lemma agree_Suc: "agree (Suc d) k k' \<longleftrightarrow> agree d k k' \<and> nibble k d = nibble k' d"
  by (auto simp: agree_def less_Suc_eq)

lemma node_insert_total:
  assumes "shaped d n" "d < MAX_DEPTH" "length h = 32"
    and "\<And>l. l \<in> leaves n \<Longrightarrow> parted key (fst l) \<and> agree d key (fst l)"
  shows "\<exists>n'. node_insert n key h d = Ok n'"
  using assms
proof (induction n key h d rule: node_insert.induct)
  case (1 n key h d)
  show ?case
  proof (cases n)
    case Empty
    then show ?thesis using "1.prems"(2) by (simp add: node_insert.simps [of Empty])
  next
    case (Leaf ek eh)
    have p: "parted key ek" "agree d key ek" using "1.prems"(4) Leaf by auto
    have ne: "ek \<noteq> key" using p by (auto simp: parted_def)
    have d: "d + 1 < MAX_DEPTH" using parted_deeper [OF p] .
    obtain m where m: "node_insert empty_inner ek eh d = Ok m"
      using "1.IH"(1) [OF _ Leaf ne] "1.prems" Leaf d by auto
    have m1: "shaped d m" "leaves m = {(ek, eh)}"
      using node_insert_ok [OF m] "1.prems" Leaf d by auto
    have "\<exists>n'. node_insert m key h d = Ok n'"
      using "1.IH"(2) [OF _ Leaf ne m] "1.prems"(2,3) m1 p d by auto
    then show ?thesis using m ne "1.prems"(2) by (auto simp: Leaf node_insert.simps [of "Leaf ek eh"])
  next
    case (Inner cs)
    let ?i = "nibble key d"
    have sh: "d + 1 < MAX_DEPTH" "length cs = 16" "\<forall>c\<in>set cs. shaped (d + 1) c" "\<forall>i<16. \<forall>l\<in>leaves (cs ! i). nibble (fst l) d = i"
      using "1.prems"(1) Inner by auto
    have mem: "cs ! ?i \<in> set cs" using sh(2) by simp
    have l: "parted key (fst l) \<and> agree (d + 1) key (fst l)" if "l \<in> leaves (cs ! ?i)" for l
    proof -
      have "l \<in> leaves n" using that mem Inner by auto
      moreover have "nibble (fst l) d = ?i" using sh(4) that by simp
      ultimately show ?thesis using "1.prems"(4) by (simp add: agree_Suc)
    qed
    have "\<exists>c. node_insert (cs ! ?i) key h (d + 1) = Ok c"
      using "1.IH"(3) [OF _ Inner refl] "1.prems"(2,3) sh mem l by auto
    then show ?thesis using sh(2) "1.prems"(2) by (auto simp: Inner node_insert.simps [of "Inner cs"])
  qed
qed

section \<open>Building\<close>

definition digest_ok :: "hash_fun \<Rightarrow> bool" where
  "digest_ok sha512 \<longleftrightarrow> (\<forall>x. length (sha512 x) = 64)"

lemma length_sha512half [simp]: "digest_ok sha512 \<Longrightarrow> length (sha512half sha512 parts) = 32"
  by (simp add: digest_ok_def sha512half_def)

lemma tx_leaf_hash_length: "digest_ok sha512 \<Longrightarrow> tx_leaf_hash sha512 tx meta = Ok h \<Longrightarrow> length h = 32"
  by (auto simp: tx_leaf_hash_def Let_def result_bind_Ok_iff)

lemma insert_all_ok:
  assumes "insert_all sha512 items n = Ok n'" "shaped 0 n" "digest_ok sha512"
  shows "shaped 0 n' \<and> leaves n' = leaves n \<union> {(tx_id sha512 tx, h) | tx meta h.
      (tx, meta) \<in> set items \<and> tx_leaf_hash sha512 tx meta = Ok h}
    \<and> (\<forall>(tx, meta)\<in>set items. \<exists>h. tx_leaf_hash sha512 tx meta = Ok h)
    \<and> distinct (map (tx_id sha512 \<circ> fst) items)
    \<and> (tx_id sha512 \<circ> fst) ` set items \<inter> fst ` leaves n = {}"
  using assms
proof (induction sha512 items n rule: insert_all.induct)
  case (2 sha512 tx meta items n)
  from "2.prems"(1) obtain h m where h: "tx_leaf_hash sha512 tx meta = Ok h"
    "node_insert n (tx_id sha512 tx) h 0 = Ok m" "insert_all sha512 items m = Ok n'"
    by (auto simp: Let_def result_bind_Ok_iff)
  have m: "shaped 0 m" "leaves m = insert (tx_id sha512 tx, h) (leaves n)" "tx_id sha512 tx \<notin> fst ` leaves n"
    using node_insert_ok [OF h(2) "2.prems"(2) tx_leaf_hash_length [OF "2.prems"(3) h(1)]] by auto
  from "2.IH" [OF refl h(3) m(1) "2.prems"(3)] m h(1) show ?case
    by (auto simp: image_iff)
qed auto

lemma build_ok:
  assumes "build sha512 items = Ok m" "digest_ok sha512"
  shows "shaped 0 (root m)"
    and "leaves (root m) = {(tx_id sha512 tx, h) | tx meta h.
      (tx, meta) \<in> set items \<and> tx_leaf_hash sha512 tx meta = Ok h}"
    and "\<forall>(tx, meta)\<in>set items. \<exists>h. tx_leaf_hash sha512 tx meta = Ok h"
    and "distinct (map (tx_id sha512 \<circ> fst) items)"
proof -
  obtain n where n: "insert_all sha512 items (if items = [] then Empty else empty_inner) = Ok n" "root m = n"
    using assms(1) by (auto simp: build_def result_bind_Ok_iff)
  have "shaped 0 (if items = [] then Empty else empty_inner)" by (simp add: MAX_DEPTH_def)
  from insert_all_ok [OF n(1) this assms(2)]
  show "shaped 0 (root m)"
    and "leaves (root m) = {(tx_id sha512 tx, h) | tx meta h.
      (tx, meta) \<in> set items \<and> tx_leaf_hash sha512 tx meta = Ok h}"
    and "\<forall>(tx, meta)\<in>set items. \<exists>h. tx_leaf_hash sha512 tx meta = Ok h"
    and "distinct (map (tx_id sha512 \<circ> fst) items)"
    by (simp_all add: n(2) split: if_splits)
qed

section \<open>Paths verify\<close>

lemma concat_chunk:
  assumes "\<forall>x\<in>set xs. length x = w" "i < length xs"
  shows "take w (drop (i * w) (concat xs)) = xs ! i"
  using assms
proof (induction xs arbitrary: i)
  case (Cons x xs)
  then show ?case by (cases i) simp_all
qed simp

lemma node_hash_length: "digest_ok sha512 \<Longrightarrow> shaped d n \<Longrightarrow> length (node_hash sha512 n) = 32"
  by (cases n) (simp_all add: zero_hash_def)

lemma branch_hash:
  assumes "digest_ok sha512" "shaped d (Inner cs)" "i < 16"
  shows "take 32 (drop (i * 32) (concat (map (node_hash sha512) cs))) = node_hash sha512 (cs ! i)"
  using assms node_hash_length [OF assms(1)] concat_chunk [of "map (node_hash sha512) cs" 32 i] by auto

lemma path_loop_verifies:
  assumes "digest_ok sha512" "shaped (length pre) n" "(key, h) \<in> leaves n" "length pre < MAX_DEPTH"
  shows "\<exists>p. path_loop sha512 key n (length pre) pre = Ok \<lparr>proof_tx_id = key, inner_root_to_leaf = pre @ p\<rparr>
    \<and> length pre + length p < MAX_DEPTH
    \<and> verify_walk sha512 key (pre @ p) (length pre + length p) h
      = verify_walk sha512 key (pre @ p) (length pre) (node_hash sha512 n)"
  using assms
proof (induction n arbitrary: pre)
  case (Leaf k g)
  then show ?case by (intro exI [of _ "[]"]) simp
next
  case (Inner cs)
  let ?i = "nibble key (length pre)" and ?flat = "concat (map (node_hash sha512) cs)"
  have sh: "length pre + 1 < MAX_DEPTH" "length cs = 16" "\<forall>c\<in>set cs. shaped (length pre + 1) c"
    using Inner.prems(2) by auto
  have mem: "cs ! ?i \<in> set cs" "(key, h) \<in> leaves (cs ! ?i)"
    using sh(2) leaves_at [OF Inner.prems(2,3)] by simp_all
  obtain p where p: "path_loop sha512 key (cs ! ?i) (length pre + 1) (pre @ [?flat])
      = Ok \<lparr>proof_tx_id = key, inner_root_to_leaf = pre @ ?flat # p\<rparr>"
    "length pre + 1 + length p < MAX_DEPTH"
    "verify_walk sha512 key (pre @ ?flat # p) (length pre + 1 + length p) h
      = verify_walk sha512 key (pre @ ?flat # p) (length pre + 1) (node_hash sha512 (cs ! ?i))"
    using Inner.IH [OF mem(1) Inner.prems(1), of "pre @ [?flat]"] mem sh by auto
  have "take 32 (drop (?i * 32) ?flat) = node_hash sha512 (cs ! ?i)"
    by (rule branch_hash [OF Inner.prems(1,2)]) simp
  then show ?case using p sh(2) by (intro exI [of _ "?flat # p"]) (simp add: nth_append Let_def)
qed simp

lemma inclusion_complete:
  assumes "digest_ok sha512" "build sha512 items = Ok m" "(tx, meta) \<in> set items"
  shows "\<exists>pf. inclusion_proof sha512 m (tx_id sha512 tx) = Ok pf \<and> length (inner_root_to_leaf pf) < MAX_DEPTH
    \<and> verify_tx_inclusion sha512 (root_hash sha512 m) tx meta (inner_root_to_leaf pf) = Ok (tx_id sha512 tx)"
proof -
  obtain h where h: "tx_leaf_hash sha512 tx meta = Ok h" using build_ok(3) [OF assms(2,1)] assms(3) by auto
  then have "(tx_id sha512 tx, h) \<in> leaves (root m)" using build_ok(2) [OF assms(2,1)] assms(3) by auto
  from path_loop_verifies [of sha512 "[]", OF assms(1) _ this] build_ok(1) [OF assms(2,1)]
  show ?thesis
    by (auto simp: inclusion_proof_def verify_tx_inclusion_def root_hash_def h Let_def MAX_DEPTH_def)
qed

section \<open>Variable-length prefixes\<close>

text \<open>The decoder that reads a prefix back: the first byte tells the form.\<close>

fun vl_decode :: "bytes \<Rightarrow> (nat \<times> bytes) option" where
  "vl_decode (b # r) =
     (if unat b \<le> 192 then Some (unat b, r)
      else if unat b \<le> 240 then
        (case r of c # r' \<Rightarrow> Some (193 + (unat b - 193) * 2 ^ 8 + unat c, r') | _ \<Rightarrow> None)
      else (case r of c # d # r' \<Rightarrow>
              Some (12481 + (unat b - 241) * 2 ^ 16 + unat c * 2 ^ 8 + unat d, r') | _ \<Rightarrow> None))"
| "vl_decode [] = None"

lemma vl_prefix_ok: "(\<exists>b. vl_prefix n = Ok b) \<longleftrightarrow> n \<le> 918744"
  by (auto simp: vl_prefix_def vl_byte_def Let_def)

lemma vl_prefix_Ok_iff: "vl_prefix n = Ok b \<longleftrightarrow> n \<le> 918744 \<and> b =
    (if n \<le> 192 then [of_nat n]
     else if n \<le> 12480 then [of_nat (193 + (n - 193) div 2 ^ 8), of_nat (n - 193)]
     else [of_nat (241 + (n - 12481) div 2 ^ 16), of_nat ((n - 12481) div 2 ^ 8), of_nat (n - 12481)])"
  by (auto simp: vl_prefix_def vl_byte_def Let_def)

lemma vl_decode_prefix:
  assumes "vl_prefix n = Ok b"
  shows "vl_decode (b @ r) = Some (n, r)"
proof -
  have n: "n \<le> 918744" using assms by (simp add: vl_prefix_Ok_iff)
  consider "n \<le> 192" | "192 < n" "n \<le> 12480" | "12480 < n" by linarith
  then show ?thesis
  proof cases
    case 1
    then show ?thesis using assms by (auto simp: vl_prefix_Ok_iff)
  next
    case 2
    have "(193 + (n - 193) div 256) mod 256 = 193 + (n - 193) div 256" using 2 by simp
    then show ?thesis using assms 2 by (auto simp: vl_prefix_Ok_iff simp del: of_nat_add of_nat_diff)
  next
    case 3
    have "(241 + (n - 12481) div 65536) mod 256 = 241 + (n - 12481) div 65536" using 3 n by simp
    moreover have "(n - 12481) div 65536 * 65536 + (n - 12481) div 256 mod 256 * 256 + (n - 12481) mod 256 = n - 12481"
    proof -
      have "(n - 12481) div 65536 = (n - 12481) div 256 div 256" by (simp add: div_mult2_eq [symmetric])
      then show ?thesis
        using div_mult_mod_eq [of "n - 12481" 256] div_mult_mod_eq [of "(n - 12481) div 256" 256] by linarith
    qed
    then have "12481 + (n - 12481) div 65536 * 65536 + (n - 12481) div 256 mod 256 * 256 + (n - 12481) mod 256 = n"
      using 3 by linarith
    ultimately show ?thesis using assms 3 n by (auto simp: vl_prefix_Ok_iff simp del: of_nat_add of_nat_diff)
  qed
qed

section \<open>What a verified path means\<close>

definition leaf_pre :: "hash_fun \<Rightarrow> bytes \<Rightarrow> bytes \<Rightarrow> bytes" where
  "leaf_pre sha512 tx meta = HP_TX_NODE @ projr (vl_prefix (length tx)) @ tx
     @ projr (vl_prefix (length meta)) @ meta @ tx_id sha512 tx"

fun inner_pres :: "hash_fun \<Rightarrow> node \<Rightarrow> bytes set" where
  "inner_pres sha512 (Inner cs) =
     insert (HP_INNER @ concat (map (node_hash sha512) cs)) (\<Union>c\<in>set cs. inner_pres sha512 c)"
| "inner_pres sha512 _ = {}"

text \<open>
  The hash is broken between two sets of inputs: an input of the first set has the hash of an
  empty branch, or the hash of a different input of the second set.
\<close>

definition hash_broken :: "hash_fun \<Rightarrow> bytes set \<Rightarrow> bytes set \<Rightarrow> bool" where
  "hash_broken sha512 A B \<longleftrightarrow> (\<exists>x\<in>A. sha512half sha512 [x] = zero_hash
     \<or> (\<exists>y\<in>B. x \<noteq> y \<and> sha512half sha512 [x] = sha512half sha512 [y]))"

definition path_pres :: "bytes list \<Rightarrow> bytes set" where
  "path_pres path = (\<lambda>p. HP_INNER @ p) ` set path"

definition ledger_pres :: "hash_fun \<Rightarrow> (bytes \<times> bytes) list \<Rightarrow> node \<Rightarrow> bytes set" where
  "ledger_pres sha512 items n = (\<lambda>(tx, meta). leaf_pre sha512 tx meta) ` set items \<union> inner_pres sha512 n"

lemma sha512half_join: "sha512half H (x # y # ps) = sha512half H ((x @ y) # ps)"
  by (simp add: sha512half_def)

lemma tx_leaf_hash_pre:
  assumes "tx_leaf_hash sha512 tx meta = Ok h"
  shows "h = sha512half sha512 [leaf_pre sha512 tx meta]"
    and "vl_prefix (length tx) = Ok (projr (vl_prefix (length tx)))"
    and "vl_prefix (length meta) = Ok (projr (vl_prefix (length meta)))"
  using assms by (auto simp: tx_leaf_hash_def leaf_pre_def Let_def result_bind_Ok_iff sha512half_def)

lemma leaf_pre_inj:
  assumes eq: "leaf_pre sha512 tx meta = leaf_pre sha512 tx' meta'"
    and ok: "tx_leaf_hash sha512 tx meta = Ok h" "tx_leaf_hash sha512 tx' meta' = Ok h'"
  shows "tx = tx' \<and> meta = meta'"
proof -
  let ?p = "\<lambda>x. projr (vl_prefix (length x))" and ?k = "tx_id sha512"
  have e: "?p tx @ tx @ ?p meta @ meta @ ?k tx = ?p tx' @ tx' @ ?p meta' @ meta' @ ?k tx'"
    using eq by (simp add: leaf_pre_def)
  from arg_cong [where f = vl_decode, OF e]
  have "length tx = length tx' \<and> tx @ ?p meta @ meta @ ?k tx = tx' @ ?p meta' @ meta' @ ?k tx'"
    by (simp add: vl_decode_prefix [OF tx_leaf_hash_pre(2) [OF ok(1)]] vl_decode_prefix [OF tx_leaf_hash_pre(2) [OF ok(2)]])
  then have "tx = tx'" and e: "?p meta @ meta @ ?k tx = ?p meta' @ meta' @ ?k tx'" by auto
  from arg_cong [where f = vl_decode, OF e]
  have "length meta = length meta' \<and> meta @ ?k tx = meta' @ ?k tx'"
    by (simp add: vl_decode_prefix [OF tx_leaf_hash_pre(3) [OF ok(1)]] vl_decode_prefix [OF tx_leaf_hash_pre(3) [OF ok(2)]])
  with \<open>tx = tx'\<close> show ?thesis by auto
qed

lemma leaf_pre_not_inner: "leaf_pre sha512 tx meta \<noteq> HP_INNER @ x"
  by (simp add: leaf_pre_def HP_TX_NODE_def HP_INNER_def)

text \<open>The running hashes of a successful walk, one per depth.\<close>

lemma verify_walk_levels:
  assumes "verify_walk sha512 key path n leaf = Ok r"
  shows "\<exists>rs. rs 0 = r \<and> rs n = leaf \<and> (\<forall>d<n. rs d = sha512half sha512 [HP_INNER @ path ! d]
    \<and> take 32 (drop (nibble key d * 32) (path ! d)) = rs (Suc d))"
  using assms
proof (induction n arbitrary: leaf)
  case 0
  then show ?case by (intro exI [of _ "\<lambda>_. r"]) simp
next
  case (Suc n)
  then have ok: "take 32 (drop (nibble key n * 32) (path ! n)) = leaf"
    "verify_walk sha512 key path n (sha512half sha512 [HP_INNER @ path ! n]) = Ok r"
    by (auto simp: Let_def sha512half_join split: if_splits)
  from Suc.IH [OF ok(2)] obtain rs where "rs 0 = r" "rs n = sha512half sha512 [HP_INNER @ path ! n]"
    "\<forall>d<n. rs d = sha512half sha512 [HP_INNER @ path ! d] \<and> take 32 (drop (nibble key d * 32) (path ! d)) = rs (Suc d)"
    by blast
  with ok(1) show ?case by (intro exI [of _ "rs(Suc n := leaf)"]) (auto simp: less_Suc_eq)
qed

text \<open>From the root down: where the hash is not broken the walk stays on the tree.\<close>

lemma walk_descends:
  assumes H: "digest_ok sha512"
    and lv: "\<forall>d<length path. rs d = sha512half sha512 [HP_INNER @ path ! d]
      \<and> take 32 (drop (nibble key d * 32) (path ! d)) = rs (Suc d)"
    and leaf: "rs (length path) = sha512half sha512 [x]" "\<And>p. x \<noteq> HP_INNER @ p"
    and tree: "shaped d n" "rs d = node_hash sha512 n" "d \<le> length path" "inner_pres sha512 n \<subseteq> B"
    and hashes: "\<forall>(k, h)\<in>leaves n. \<exists>y\<in>B. h = sha512half sha512 [y] \<and> (\<forall>p. y \<noteq> HP_INNER @ p)"
    and whole: "\<not> hash_broken sha512 (insert x (path_pres path)) B"
  shows "\<exists>k. (k, rs (length path)) \<in> leaves n"
  using tree hashes
proof (induction n arbitrary: d)
  case Empty
  let ?y = "if d = length path then x else HP_INNER @ path ! d"
  have "sha512half sha512 [?y] = zero_hash" "?y \<in> insert x (path_pres path)"
    using Empty lv leaf by (auto simp: path_pres_def)
  with whole show ?case unfolding hash_broken_def by blast
next
  case (Leaf k h)
  show ?case
  proof (cases "d = length path")
    case True
    then show ?thesis using Leaf by simp
  next
    case False
    with Leaf lv have d: "d < length path" "h = sha512half sha512 [HP_INNER @ path ! d]" by auto
    from Leaf obtain y where "y \<in> B" "h = sha512half sha512 [y]" "y \<noteq> HP_INNER @ path ! d" by auto
    moreover have "HP_INNER @ path ! d \<in> insert x (path_pres path)" using d by (auto simp: path_pres_def)
    ultimately show ?thesis using whole d(2) unfolding hash_broken_def by metis
  qed
next
  case (Inner cs)
  let ?flat = "concat (map (node_hash sha512) cs)"
  have B: "HP_INNER @ ?flat \<in> B" using Inner.prems by auto
  have r: "rs d = sha512half sha512 [HP_INNER @ ?flat]" using Inner.prems by (simp add: sha512half_join)
  show ?case
  proof (cases "d = length path")
    case True
    then have "sha512half sha512 [x] = sha512half sha512 [HP_INNER @ ?flat]" using leaf(1) r by simp
    with B leaf(2) whole show ?thesis unfolding hash_broken_def by blast
  next
    case False
    with Inner.prems have d: "d < length path" by simp
    then have "HP_INNER @ path ! d \<in> insert x (path_pres path)" by (auto simp: path_pres_def)
    with whole B r lv d have eq: "path ! d = ?flat" unfolding hash_broken_def by (metis same_append_eq)
    let ?i = "nibble key d"
    have c: "cs ! ?i \<in> set cs" using Inner.prems(1) by simp
    have "rs (Suc d) = node_hash sha512 (cs ! ?i)"
      using branch_hash [OF H Inner.prems(1), of ?i] lv d eq by auto
    moreover have "inner_pres sha512 (cs ! ?i) \<subseteq> B" using Inner.prems(4) c by auto
    moreover have "\<forall>(k, h)\<in>leaves (cs ! ?i). \<exists>y\<in>B. h = sha512half sha512 [y] \<and> (\<forall>p. y \<noteq> HP_INNER @ p)"
      using Inner.prems(5) c by auto
    ultimately have "\<exists>k. (k, rs (length path)) \<in> leaves (cs ! ?i)"
      using Inner.IH [OF c, of "Suc d"] Inner.prems(1) c d by auto
    then show ?thesis using c by auto
  qed
qed

section \<open>Building succeeds\<close>

lemma insert_all_total:
  assumes "shaped 0 n" "digest_ok sha512"
    and "\<forall>(tx, meta)\<in>set items. length tx \<le> 918744 \<and> length meta \<le> 918744"
    and "sorted_wrt (\<lambda>x y. parted (tx_id sha512 (fst y)) (tx_id sha512 (fst x))) items"
    and "\<forall>x\<in>set items. \<forall>l\<in>leaves n. parted (tx_id sha512 (fst x)) (fst l)"
  shows "\<exists>n'. insert_all sha512 items n = Ok n'"
  using assms
proof (induction sha512 items n rule: insert_all.induct)
  case (2 sha512 tx meta items n)
  obtain h where h: "tx_leaf_hash sha512 tx meta = Ok h"
    using "2.prems"(3) vl_prefix_ok [of "length tx"] vl_prefix_ok [of "length meta"]
    by (auto simp: tx_leaf_hash_def Let_def)
  note len = tx_leaf_hash_length [OF "2.prems"(2) h]
  obtain m where m: "node_insert n (tx_id sha512 tx) h 0 = Ok m"
    using node_insert_total [OF "2.prems"(1) _ len, of "tx_id sha512 tx"] "2.prems"(5)
    by (auto simp: MAX_DEPTH_def agree_def)
  have m1: "shaped 0 m" "leaves m = insert (tx_id sha512 tx, h) (leaves n)"
    using node_insert_ok [OF m "2.prems"(1) len] by auto
  have "\<exists>n'. insert_all sha512 items m = Ok n'"
    using "2.prems" m1 by (intro "2.IH" [OF refl]) auto
  then show ?case by (simp add: h m)
qed simp

text \<open>A concrete digest for examples: sixty-four copies of the byte sum.\<close>

definition sum_digest :: hash_fun where
  "sum_digest x = replicate 64 (sum_list x)"

lemma sum_digest_ok: "digest_ok sum_digest"
  by (simp add: digest_ok_def sum_digest_def)

lemmas shamap_run = build_def root_hash_def tx_leaf_hash_def tx_id_def sha512half_def sum_digest_def
  vl_prefix_def vl_byte_def HP_TXN_ID_def HP_TX_NODE_def HP_INNER_def empty_inner_def Let_def
  nibble_def MAX_DEPTH_def node_insert.simps

section \<open>Properties\<close>

text \<open>
  C9. Every transaction of a rebuilt ledger has an inclusion path of fewer than 64 inner nodes,
  and the enclave's walk, replayed over that path, reaches the root hash of the map.
\<close>

theorem inclusion_proof_verifies:
  assumes "digest_ok sha512" "build sha512 items = Ok m" "(tx, meta) \<in> set items"
  shows "\<exists>pf. inclusion_proof sha512 m (tx_id sha512 tx) = Ok pf \<and> length (inner_root_to_leaf pf) < MAX_DEPTH
    \<and> verify_tx_inclusion sha512 (root_hash sha512 m) tx meta (inner_root_to_leaf pf) = Ok (tx_id sha512 tx)"
  by (rule inclusion_complete [OF assms])

theorem inclusion_proof_verifies_witness:
  "\<exists>m pf. build sum_digest [([1], [2])] = Ok m \<and> inclusion_proof sum_digest m (tx_id sum_digest [1]) = Ok pf
     \<and> verify_tx_inclusion sum_digest (root_hash sum_digest m) [1] [2] (inner_root_to_leaf pf)
       = Ok (tx_id sum_digest [1])"
proof -
  obtain m where m: "build sum_digest [([1], [2])] = Ok m" by (simp add: shamap_run)
  show ?thesis using inclusion_proof_verifies [OF sum_digest_ok m, of "[1]" "[2]"] m by auto
qed

text \<open>
  C10. A path that verifies against the root of a rebuilt ledger, whoever made it, proves that
  exactly this transaction with exactly this metadata is in the ledger, unless the path and
  the ledger exhibit a hash collision or a preimage of the empty-branch hash.
\<close>

theorem verified_inclusion_is_in_ledger:
  assumes H: "digest_ok sha512" and b: "build sha512 items = Ok m"
    and v: "verify_tx_inclusion sha512 (root_hash sha512 m) tx meta path = Ok k"
  shows "k = tx_id sha512 tx \<and> ((tx, meta) \<in> set items
    \<or> hash_broken sha512 (insert (leaf_pre sha512 tx meta) (path_pres path)) (ledger_pres sha512 items (root m)))"
proof -
  let ?B = "ledger_pres sha512 items (root m)" and ?x = "leaf_pre sha512 tx meta"
  obtain h where h: "tx_leaf_hash sha512 tx meta = Ok h" "k = tx_id sha512 tx"
    "verify_walk sha512 (tx_id sha512 tx) path (length path) h = Ok (node_hash sha512 (root m))"
    using v by (auto simp: verify_tx_inclusion_def Let_def result_bind_Ok_iff root_hash_def split: if_splits)
  obtain rs where rs: "rs 0 = node_hash sha512 (root m)" "rs (length path) = h"
    "\<forall>d<length path. rs d = sha512half sha512 [HP_INNER @ path ! d]
      \<and> take 32 (drop (nibble (tx_id sha512 tx) d * 32) (path ! d)) = rs (Suc d)"
    using verify_walk_levels [OF h(3)] by blast
  have hashes: "\<exists>y\<in>?B. h = sha512half sha512 [y] \<and> (\<forall>p. y \<noteq> HP_INNER @ p)" if "(k, h) \<in> leaves (root m)" for k h
  proof -
    from that obtain tx' meta' where i: "(tx', meta') \<in> set items" "tx_leaf_hash sha512 tx' meta' = Ok h"
      using build_ok(2) [OF b H] by auto
    have "leaf_pre sha512 tx' meta' \<in> ?B" using i(1) by (auto simp: ledger_pres_def)
    then show ?thesis using tx_leaf_hash_pre(1) [OF i(2)] leaf_pre_not_inner by metis
  qed
  have "(tx, meta) \<in> set items" if w: "\<not> hash_broken sha512 (insert ?x (path_pres path)) ?B"
  proof -
    have r: "rs (length path) = sha512half sha512 [?x]" using rs(2) tx_leaf_hash_pre(1) [OF h(1)] by simp
    have inner: "inner_pres sha512 (root m) \<subseteq> ?B" by (simp add: ledger_pres_def)
    have "\<forall>(k, h)\<in>leaves (root m). \<exists>y\<in>?B. h = sha512half sha512 [y] \<and> (\<forall>p. y \<noteq> HP_INNER @ p)"
      using hashes by blast
    then have "\<exists>k. (k, rs (length path)) \<in> leaves (root m)"
      by (rule walk_descends [OF H rs(3) r leaf_pre_not_inner build_ok(1) [OF b H] rs(1) le0 inner _ w])
    then obtain tx' meta' where i: "(tx', meta') \<in> set items" "tx_leaf_hash sha512 tx' meta' = Ok h"
      using build_ok(2) [OF b H] rs(2) by auto
    then have "leaf_pre sha512 tx' meta' \<in> ?B" by (auto simp: ledger_pres_def)
    moreover have "sha512half sha512 [?x] = sha512half sha512 [leaf_pre sha512 tx' meta']"
      using tx_leaf_hash_pre(1) [OF h(1)] tx_leaf_hash_pre(1) [OF i(2)] by simp
    ultimately have "?x = leaf_pre sha512 tx' meta'" using w unfolding hash_broken_def by blast
    with leaf_pre_inj [OF _ h(1) i(2)] i(1) show ?thesis by simp
  qed
  with h(2) show ?thesis by blast
qed

theorem verified_inclusion_is_in_ledger_witness:
  "\<exists>m path. build sum_digest [([1], [2])] = Ok m
     \<and> verify_tx_inclusion sum_digest (root_hash sum_digest m) [1] [2] path = Ok (tx_id sum_digest [1])
     \<and> (([1 :: byte], [2 :: byte]) \<in> set [([1], [2])] \<or> hash_broken sum_digest (insert (leaf_pre sum_digest [1] [2]) (path_pres path))
          (ledger_pres sum_digest [([1], [2])] (root m)))"
proof -
  obtain m where m: "build sum_digest [([1], [2])] = Ok m" by (simp add: shamap_run)
  obtain pf :: tx_inclusion_proof where "verify_tx_inclusion sum_digest (root_hash sum_digest m) [1] [2] (inner_root_to_leaf pf)
      = Ok (tx_id sum_digest [1])"
    using inclusion_complete [OF sum_digest_ok m, of "[1]" "[2]"] by auto
  with m verified_inclusion_is_in_ledger [OF sum_digest_ok m this] show ?thesis by blast
qed

text \<open>
  The rebuild succeeds on every ledger whose blobs have an encodable length and whose
  transaction ids part from each other within 63 of their 64 nibbles, and it refuses every
  ledger that names a transaction twice.
\<close>

theorem build_accepts_and_refuses:
  assumes H: "digest_ok sha512"
  shows "((\<forall>(tx, meta)\<in>set items. length tx \<le> 918744 \<and> length meta \<le> 918744)
      \<and> sorted_wrt (\<lambda>x y. parted (tx_id sha512 (fst y)) (tx_id sha512 (fst x))) items
      \<longrightarrow> (\<exists>m. build sha512 items = Ok m))
    \<and> (\<not> distinct (map (tx_id sha512 \<circ> fst) items) \<longrightarrow> (\<exists>e. build sha512 items = Err e))"
proof (intro conjI impI)
  assume ok: "(\<forall>(tx, meta)\<in>set items. length tx \<le> 918744 \<and> length meta \<le> 918744)
      \<and> sorted_wrt (\<lambda>x y. parted (tx_id sha512 (fst y)) (tx_id sha512 (fst x))) items"
  have "\<exists>n'. insert_all sha512 items (if items = [] then Empty else empty_inner) = Ok n'"
    by (rule insert_all_total) (use ok H in \<open>auto simp: MAX_DEPTH_def\<close>)
  then show "\<exists>m. build sha512 items = Ok m" by (auto simp: build_def)
next
  assume "\<not> distinct (map (tx_id sha512 \<circ> fst) items)"
  then show "\<exists>e. build sha512 items = Err e"
    using build_ok(4) [OF _ H, of items] by (cases "build sha512 items") auto
qed

theorem build_accepts_and_refuses_witness:
  "(\<exists>m. build sum_digest [([1], [2])] = Ok m) \<and> (\<exists>e. build sum_digest [([1], [2]), ([1], [3])] = Err e)"
  using build_accepts_and_refuses [OF sum_digest_ok, of "[([1], [2])]"]
    build_accepts_and_refuses [OF sum_digest_ok, of "[([1], [2]), ([1], [3])]"] by simp

end
