(* ===== verification/Trading.thy ===== *)
theory Trading
  imports OrderBook Json Bytes
begin

text \<open>
  \<^verbatim>\<open>orchestrator/src/trading.rs\<close>: the trading engine, which admits an order, matches it, settles
  every fill in the enclave and publishes the batch to the validators; with the message types
  of \<^verbatim>\<open>p2p.rs\<close> and the signature binding of \<^verbatim>\<open>auth.rs\<close> it uses.

  The enclave is a service behind HTTP: it is a parameter, one state-passing function per call
  of the client (\<^verbatim>\<open>perp_client.rs\<close> only posts the arguments and returns the parsed reply or the
  transport error). The hex digest of SHA-256 is the argument \<open>digest\<close>. The two times the
  self-trade limiter reads are arguments. The book mutex is held from the margin check to the
  end of the match, so this part is one atomic step.
\<close>

section \<open>Messages\<close>

record order_signature_binding =
  signed_body_hex :: string
  signature_hex :: string
  osb_timestamp :: string
  signer_address :: string
  signer_pubkey_hex :: string

datatype order_authorization = ClientSigned order_signature_binding | ProtocolVault

record fill_message =
  fm_trade_id :: nat
  fm_maker_order_id :: nat
  fm_taker_order_id :: nat
  fm_maker_user_id :: string
  fm_price :: string
  fm_size :: string
  fm_taker_side :: string

record order_message =
  om_order_id :: nat
  om_user_id :: string
  om_side :: string
  om_order_type :: string
  om_price :: string
  om_size :: string
  om_leverage :: nat
  om_status :: string
  om_fills :: "fill_message list"
  om_authorization :: "order_authorization option"

record order_batch =
  ba_seq_num :: nat
  ba_orders :: "order_message list"
  ba_state_hash :: string
  ba_timestamp :: nat
  ba_sequencer_id :: string

definition order_type_debug :: "order_type \<Rightarrow> string" where
  "order_type_debug ty = (case ty of Limit \<Rightarrow> ''Limit'' | Market \<Rightarrow> ''Market'')"

definition order_status_debug :: "order_status \<Rightarrow> string" where
  "order_status_debug st =
     (case st of Open \<Rightarrow> ''Open'' | PartiallyFilled \<Rightarrow> ''PartiallyFilled'' | Filled \<Rightarrow> ''Filled''
      | Cancelled \<Rightarrow> ''Cancelled'')"

section \<open>The enclave and the engine\<close>

type_synonym reply = "string + json"

record 'e enclave =
  enc_get_balance :: "string \<Rightarrow> 'e \<Rightarrow> reply \<times> 'e"
  enc_attested_clock_status :: "'e \<Rightarrow> reply \<times> 'e"
  enc_open_position :: "string \<Rightarrow> string \<Rightarrow> string \<Rightarrow> string \<Rightarrow> nat \<Rightarrow> 'e \<Rightarrow> reply \<times> 'e"
  enc_close_position :: "string \<Rightarrow> nat \<Rightarrow> string \<Rightarrow> 'e \<Rightarrow> reply \<times> 'e"

text \<open>\<open>batch_tx\<close> is the publishing channel of a sequencer: what was sent on it, if there is one.\<close>

record 'e trading_engine =
  te_book :: order_book
  te_enclave :: 'e
  te_batch_tx :: "order_batch list option"
  te_seq_num :: nat
  te_peer_id :: string

datatype settle_error = Transport string | EnclaveReturned json

record failed_fill =
  ff_trade :: trade
  ff_maker_error :: "settle_error option"
  ff_taker_error :: "settle_error option"

record order_result =
  or_order :: order
  or_trades :: "trade list"
  or_failed_fills :: "failed_fill list"
  or_stp_cancelled :: "(order \<times> int) list"

datatype trade_error =
    SignerMismatch string string
  | BalanceUnavailable string
  | MarginUnreadable
  | ClockUnavailable string
  | ClockNotAdvanced
  | InsufficientMargin fp8 fp8 fp8 fp8
  | Book book_error
  | SlicePanicked
  | DivideByZeroPanicked

definition trading_engine_new :: "string \<Rightarrow> 'e \<Rightarrow> string \<Rightarrow> 'e trading_engine" where
  "trading_engine_new market enc peer_id =
     \<lparr>te_book = order_book_new market, te_enclave = enc, te_batch_tx = None, te_seq_num = 1,
      te_peer_id = peer_id\<rparr>"

definition with_batch_publisher :: "'e trading_engine \<Rightarrow> 'e trading_engine" where
  "with_batch_publisher te = te\<lparr>te_batch_tx := Some []\<rparr>"

section \<open>Admission\<close>

definition authorised :: "order_authorization \<Rightarrow> string \<Rightarrow> trade_error + unit" where
  "authorised authorization user_id =
     (case authorization of
        ClientSigned binding \<Rightarrow>
          if signer_address binding \<noteq> user_id then Err (SignerMismatch user_id (signer_address binding)) else Ok ()
      | ProtocolVault \<Rightarrow> Ok ())"

text \<open>Step 0a: the available margin, fail-closed; skipped for close orders.\<close>

definition fetch_available :: "'e enclave \<Rightarrow> string \<Rightarrow> 'e \<Rightarrow> (trade_error + fp8) \<times> 'e" where
  "fetch_available enc user_id e =
     (case enc_get_balance enc user_id e of
        (Inl err, e') \<Rightarrow> (Err (BalanceUnavailable err), e')
      | (Inr balance, e') \<Rightarrow>
          (case json_as_str (json_index (json_index balance ''data'') ''available_margin'') of
             None \<Rightarrow> (Err MarginUnreadable, e')
           | Some s \<Rightarrow>
               (case fp8_from_str s of
                  Inr v \<Rightarrow> (Ok v, e')
                | Inl SlicePanic \<Rightarrow> (Err SlicePanicked, e')
                | Inl _ \<Rightarrow> (Err MarginUnreadable, e'))))"

definition available_for ::
  "'e enclave \<Rightarrow> string \<Rightarrow> nat option \<Rightarrow> 'e \<Rightarrow> (trade_error + fp8 option) \<times> 'e" where
  "available_for enc user_id close_position_id e =
     (case close_position_id of
        Some _ \<Rightarrow> (Ok None, e)
      | None \<Rightarrow> (case fetch_available enc user_id e of
                  (Inl err, e') \<Rightarrow> (Err err, e')
                | (Inr v, e') \<Rightarrow> (Ok (Some v), e')))"

definition RIPPLE_EPOCH :: nat where "RIPPLE_EPOCH = 946684800"

definition read_attested_ms :: "'e enclave \<Rightarrow> 'e \<Rightarrow> (trade_error + nat) \<times> 'e" where
  "read_attested_ms enc e =
     (case enc_attested_clock_status enc e of
        (Inl err, e') \<Rightarrow> (Err (ClockUnavailable err), e')
      | (Inr st, e') \<Rightarrow>
          let ripple = (case json_as_u64 (json_index st ''attested_close_time_ripple_epoch'') of
                          Some n \<Rightarrow> n | None \<Rightarrow> 0)
          in if ripple = 0 then (Err ClockNotAdvanced, e')
             else (Ok (u64_mul (u64_add ripple RIPPLE_EPOCH) 1000), e'))"

definition required_margin :: "fp8 \<Rightarrow> fp8 \<Rightarrow> nat \<Rightarrow> fp8" where
  "required_margin price sz leverage =
     (let est_price = (if 0 < raw price then price else fp8_ONE)
      in FP8 (raw (fp8_mul sz est_price) sdiv int leverage))"

definition margin_check ::
  "order_book \<Rightarrow> string \<Rightarrow> fp8 \<Rightarrow> fp8 \<Rightarrow> nat \<Rightarrow> fp8 option \<Rightarrow> trade_error + unit" where
  "margin_check book user_id price sz leverage avail =
     (case avail of
        None \<Rightarrow> Ok ()
      | Some av \<Rightarrow>
          if leverage = 0 then Err DivideByZeroPanicked
          else
            let required = required_margin price sz leverage;
                reserved = user_reserved_margin book user_id;
                free = FP8 (wrap_i64 (raw av - raw reserved))
            in if raw free < raw required then Err (InsufficientMargin av reserved free required) else Ok ())"

section \<open>Settlement\<close>

definition status_error :: "reply \<Rightarrow> settle_error option" where
  "status_error r =
     (case r of
        Inl e \<Rightarrow> Some (Transport e)
      | Inr v \<Rightarrow>
          (if (case json_get v ''status'' of
                 Some st \<Rightarrow> (case json_as_str st of Some x \<Rightarrow> x | None \<Rightarrow> [])
               | None \<Rightarrow> []) = ''success''
           then None else Some (EnclaveReturned v)))"

definition leg_sides :: "side \<Rightarrow> string \<times> string" where
  "leg_sides taker_side = (case taker_side of Long \<Rightarrow> (''short'', ''long'') | Short \<Rightarrow> (''long'', ''short''))"

definition settle_fill ::
  "'e enclave \<Rightarrow> nat \<Rightarrow> nat option \<Rightarrow> trade \<Rightarrow> 'e \<Rightarrow> failed_fill list \<times> 'e" where
  "settle_fill enc leverage close_position_id tr e =
     (let fill_price = fp8_to_string (t_price tr);
          fill_size = fp8_to_string (t_size tr);
          (maker_side, taker_side) = leg_sides (t_taker_side tr);
          (taker_reply, e1) =
            (case close_position_id of
               Some pos_id \<Rightarrow> enc_close_position enc (t_taker_user_id tr) pos_id fill_price e
             | None \<Rightarrow> enc_open_position enc (t_taker_user_id tr) taker_side fill_size fill_price leverage e);
          taker_err = status_error taker_reply;
          (maker_reply, e2) = enc_open_position enc (t_maker_user_id tr) maker_side fill_size fill_price leverage e1;
          maker_err = status_error maker_reply
      in (if taker_err \<noteq> None \<or> maker_err \<noteq> None
          then [\<lparr>ff_trade = tr, ff_maker_error = maker_err, ff_taker_error = taker_err\<rparr>] else [], e2))"

fun settle_fills ::
  "'e enclave \<Rightarrow> nat \<Rightarrow> nat option \<Rightarrow> trade list \<Rightarrow> 'e \<Rightarrow> failed_fill list \<times> 'e" where
  "settle_fills enc leverage close_position_id [] e = ([], e)"
| "settle_fills enc leverage close_position_id (tr # trs) e =
     (let (f1, e1) = settle_fill enc leverage close_position_id tr e;
          (f2, e2) = settle_fills enc leverage close_position_id trs e1
      in (f1 @ f2, e2))"

section \<open>Publishing\<close>

definition fill_message_of :: "trade \<Rightarrow> fill_message" where
  "fill_message_of t =
     \<lparr>fm_trade_id = t_trade_id t, fm_maker_order_id = t_maker_order_id t,
      fm_taker_order_id = t_taker_order_id t, fm_maker_user_id = t_maker_user_id t,
      fm_price = fp8_to_string (t_price t), fm_size = fp8_to_string (t_size t),
      fm_taker_side = side_to_string (t_taker_side t)\<rparr>"

definition order_message_of :: "order_authorization \<Rightarrow> order \<Rightarrow> trade list \<Rightarrow> order_message" where
  "order_message_of authorization ord trades =
     \<lparr>om_order_id = o_id ord, om_user_id = o_user_id ord, om_side = side_to_string (o_side ord),
      om_order_type = order_type_debug (o_order_type ord), om_price = fp8_to_string (o_price ord),
      om_size = fp8_to_string (o_size ord), om_leverage = o_leverage ord,
      om_status = order_status_debug (o_status ord), om_fills = map fill_message_of trades,
      om_authorization = Some authorization\<rparr>"

definition state_hash_input :: "nat \<Rightarrow> trade list \<Rightarrow> nat \<Rightarrow> bytes" where
  "state_hash_input seq trades now =
     le_bytes 8 seq
     @ concat (map (\<lambda>t. le_bytes 8 (t_trade_id t) @ le_bytes_i64 (raw (t_price t))
                        @ le_bytes_i64 (raw (t_size t))) trades)
     @ le_bytes 8 now"

definition make_batch ::
  "(bytes \<Rightarrow> string) \<Rightarrow> nat \<Rightarrow> string \<Rightarrow> nat \<Rightarrow> order_authorization \<Rightarrow> order \<Rightarrow> trade list \<Rightarrow> order_batch" where
  "make_batch digest seq peer_id now authorization ord trades =
     \<lparr>ba_seq_num = seq, ba_orders = [order_message_of authorization ord trades],
      ba_state_hash = digest (state_hash_input seq trades now),
      ba_timestamp = now, ba_sequencer_id = peer_id\<rparr>"

definition publish ::
  "(bytes \<Rightarrow> string) \<Rightarrow> nat \<Rightarrow> order_authorization \<Rightarrow> order \<Rightarrow> trade list \<Rightarrow> 'e trading_engine \<Rightarrow> 'e trading_engine" where
  "publish digest attested authorization ord trades te =
     (case te_batch_tx te of
        None \<Rightarrow> te
      | Some sent \<Rightarrow>
          te\<lparr>te_seq_num := u64_add (te_seq_num te) 1,
             te_batch_tx := Some (sent @ [make_batch digest (te_seq_num te) (te_peer_id te)
                                            (attested div 1000) authorization ord trades])\<rparr>)"

section \<open>The whole submission\<close>

text \<open>Step 1, under the book lock.\<close>

definition place_locked ::
  "nat \<Rightarrow> nat \<Rightarrow> nat \<Rightarrow> order_book \<Rightarrow> string \<Rightarrow> side \<Rightarrow> order_type \<Rightarrow> fp8 \<Rightarrow> fp8 \<Rightarrow> nat \<Rightarrow> time_in_force
     \<Rightarrow> bool \<Rightarrow> string option \<Rightarrow> fp8 option
     \<Rightarrow> (trade_error + order \<times> trade list \<times> (order \<times> int) list) \<times> order_book" where
  "place_locked t_peek t_record attested book user_id sd ty price sz leverage tif reduce_only client_order_id avail =
     (let book1 = set_attested_ms book attested
      in case margin_check book1 user_id price sz leverage avail of
           Inl err \<Rightarrow> (Err err, book1)
         | Inr _ \<Rightarrow>
             (case submit_order t_peek t_record book1 user_id sd ty price sz leverage tif reduce_only client_order_id of
                (Inl err, book2) \<Rightarrow> (Err (Book err), book2)
              | (Inr r, book2) \<Rightarrow> (Ok r, book2)))"

definition submit_order_inner ::
  "'e enclave \<Rightarrow> (bytes \<Rightarrow> string) \<Rightarrow> nat \<Rightarrow> nat \<Rightarrow> 'e trading_engine \<Rightarrow> order_authorization \<Rightarrow> string \<Rightarrow> side
     \<Rightarrow> order_type \<Rightarrow> fp8 \<Rightarrow> fp8 \<Rightarrow> nat \<Rightarrow> time_in_force \<Rightarrow> bool \<Rightarrow> string option \<Rightarrow> nat option
     \<Rightarrow> (trade_error + order_result) \<times> 'e trading_engine" where
  "submit_order_inner enc digest t_peek t_record te authorization user_id sd ty price sz leverage tif
     reduce_only client_order_id close_position_id =
     (case authorised authorization user_id of
        Inl err \<Rightarrow> (Err err, te)
      | Inr _ \<Rightarrow>
     (case available_for enc user_id close_position_id (te_enclave te) of
        (Inl err, e1) \<Rightarrow> (Err err, te\<lparr>te_enclave := e1\<rparr>)
      | (Inr avail, e1) \<Rightarrow>
     (case read_attested_ms enc e1 of
        (Inl err, e2) \<Rightarrow> (Err err, te\<lparr>te_enclave := e2\<rparr>)
      | (Inr attested, e2) \<Rightarrow>
     (case place_locked t_peek t_record attested (te_book te) user_id sd ty price sz leverage tif
             reduce_only client_order_id avail of
        (Inl err, book) \<Rightarrow> (Err err, te\<lparr>te_enclave := e2, te_book := book\<rparr>)
      | (Inr (ord0, trades, stp), book) \<Rightarrow>
          let ord = ord0\<lparr>o_close_position_id := close_position_id\<rparr>;
              te1 = te\<lparr>te_enclave := e2, te_book := book\<rparr>
          in if trades = []
             then (Ok \<lparr>or_order = ord, or_trades = trades, or_failed_fills = [], or_stp_cancelled = stp\<rparr>, te1)
             else
               let (failed, e3) = settle_fills enc leverage close_position_id trades e2;
                   te2 = publish digest attested authorization ord trades (te1\<lparr>te_enclave := e3\<rparr>)
               in (Ok \<lparr>or_order = ord, or_trades = trades, or_failed_fills = failed, or_stp_cancelled = stp\<rparr>, te2)))))"

definition engine_submit_order ::
  "'e enclave \<Rightarrow> (bytes \<Rightarrow> string) \<Rightarrow> nat \<Rightarrow> nat \<Rightarrow> 'e trading_engine \<Rightarrow> order_authorization \<Rightarrow> string \<Rightarrow> side
     \<Rightarrow> order_type \<Rightarrow> fp8 \<Rightarrow> fp8 \<Rightarrow> nat \<Rightarrow> time_in_force \<Rightarrow> bool \<Rightarrow> string option
     \<Rightarrow> (trade_error + order_result) \<times> 'e trading_engine" where
  "engine_submit_order enc digest t_peek t_record te authorization user_id sd ty price sz leverage tif
     reduce_only client_order_id =
     submit_order_inner enc digest t_peek t_record te authorization user_id sd ty price sz leverage tif
       reduce_only client_order_id None"

definition submit_close_order ::
  "'e enclave \<Rightarrow> (bytes \<Rightarrow> string) \<Rightarrow> nat \<Rightarrow> nat \<Rightarrow> 'e trading_engine \<Rightarrow> order_authorization \<Rightarrow> string \<Rightarrow> side
     \<Rightarrow> fp8 \<Rightarrow> nat \<Rightarrow> nat \<Rightarrow> (trade_error + order_result) \<times> 'e trading_engine" where
  "submit_close_order enc digest t_peek t_record te authorization user_id close_side sz leverage close_position_id =
     submit_order_inner enc digest t_peek t_record te authorization user_id close_side Market fp8_ZERO sz
       leverage Ioc True None (Some close_position_id)"

section \<open>Queries and cancellation\<close>

definition order_owner :: "'e trading_engine \<Rightarrow> nat \<Rightarrow> string option" where
  "order_owner te order_id =
     (case find (\<lambda>ord. o_id ord = order_id) (side_orders (bids (te_book te))) of
        Some ord \<Rightarrow> Some (o_user_id ord)
      | None \<Rightarrow> map_option o_user_id (find (\<lambda>ord. o_id ord = order_id) (side_orders (asks (te_book te)))))"

definition engine_load_orders :: "'e trading_engine \<Rightarrow> order list \<Rightarrow> 'e trading_engine" where
  "engine_load_orders te orders = te\<lparr>te_book := load_orders (te_book te) orders\<rparr>"

definition engine_cancel_order :: "'e trading_engine \<Rightarrow> nat \<Rightarrow> (book_error + order) \<times> 'e trading_engine" where
  "engine_cancel_order te order_id =
     (case cancel_order (te_book te) order_id of (r, book) \<Rightarrow> (r, te\<lparr>te_book := book\<rparr>))"

definition engine_cancel_all :: "'e trading_engine \<Rightarrow> string \<Rightarrow> order list \<times> 'e trading_engine" where
  "engine_cancel_all te user_id =
     (case cancel_all (te_book te) user_id of (r, book) \<Rightarrow> (r, te\<lparr>te_book := book\<rparr>))"

definition ticker :: "'e trading_engine \<Rightarrow> fp8 option \<times> fp8 option \<times> fp8 option" where
  "ticker te = (best_bid (te_book te), best_ask (te_book te), mid_price (te_book te))"

end
