(* ===== verification/Replay.thy ===== *)
theory Replay
  imports Trading Election
begin

text \<open>
  The validator's side: \<^verbatim>\<open>verify_replicated_order\<close> of \<^verbatim>\<open>orchestrator/src/p2p.rs\<close>, the signature check of
  \<^verbatim>\<open>auth.rs\<close>, the batch-time window of \<^verbatim>\<open>attested_clock.rs\<close>, \<^verbatim>\<open>insert_trade\<close> of \<^verbatim>\<open>db.rs\<close> and the replay loop of
  \<^verbatim>\<open>main.rs\<close>. The cryptographic and encoding libraries (hashes, curves, base58, hex, the JSON
  parser) are the fields of the parameter \<open>crypto\<close>. A panic of the task is the outcome \<open>None\<close> or
  \<open>Panicked\<close>.
\<close>

section \<open>The batch-time window\<close>

definition RIPPLE_EPOCH_OFFSET_SECS :: nat where "RIPPLE_EPOCH_OFFSET_SECS = 946684800"
definition BATCH_TIME_FWD_TOL_SECS :: nat where "BATCH_TIME_FWD_TOL_SECS = 30"
definition BATCH_TIME_MAX_LAG_SECS :: nat where "BATCH_TIME_MAX_LAG_SECS = 600"

datatype time_divergence = OwnClockDead | BatchAhead | BatchStale

definition u64_saturating_add :: "nat \<Rightarrow> nat \<Rightarrow> nat" where
  "u64_saturating_add a b = min (a + b) (2 ^ 64 - 1)"

definition batch_time_divergence :: "nat \<Rightarrow> nat \<Rightarrow> nat \<Rightarrow> nat \<Rightarrow> time_divergence option" where
  "batch_time_divergence batch_ripple my_ripple fwd_tol_secs max_lag_secs =
     (if my_ripple = 0 then Some OwnClockDead
      else if u64_saturating_add my_ripple fwd_tol_secs < batch_ripple then Some BatchAhead
      else if max_lag_secs < u64_saturating_sub my_ripple batch_ripple then Some BatchStale
      else None)"

text \<open>The skip decision with the divergence counter.\<close>

definition batch_time_skip :: "nat \<Rightarrow> nat \<Rightarrow> nat \<Rightarrow> bool \<times> nat" where
  "batch_time_skip batch_timestamp_unix my_ripple divergences =
     (let batch_ripple = u64_saturating_sub batch_timestamp_unix RIPPLE_EPOCH_OFFSET_SECS
      in case batch_time_divergence batch_ripple my_ripple BATCH_TIME_FWD_TOL_SECS BATCH_TIME_MAX_LAG_SECS of
           Some _ \<Rightarrow> (True, u64_add divergences 1)
         | None \<Rightarrow> (False, divergences))"

section \<open>Signatures\<close>

record crypto =
  hex_decode :: "string \<Rightarrow> bytes option"
  cr_sha256 :: "bytes \<Rightarrow> bytes"
  cr_sha512 :: "bytes \<Rightarrow> bytes"
  cr_ripemd160 :: "bytes \<Rightarrow> bytes"
  bs58_xrpl :: "bytes \<Rightarrow> string"
  secp_key_ok :: "bytes \<Rightarrow> bool"
  der_ok :: "bytes \<Rightarrow> bool"
  secp_verify :: "bytes \<Rightarrow> bytes \<Rightarrow> bytes \<Rightarrow> bool"
  ed_key_ok :: "bytes \<Rightarrow> bool"
  ed_verify :: "bytes \<Rightarrow> bytes \<Rightarrow> bytes \<Rightarrow> bool"
  json_parse :: "bytes \<Rightarrow> json option"

datatype sig_error =
    InvalidSecpKey | InvalidDer | InvalidEdKeyLength | InvalidEdKey | InvalidEdSigLength
  | SigVerificationFailed | UnsupportedKeyType
  | InvalidPubkeyHex | AddressMismatch string string | InvalidBodyHex | EmptySignedBody | InvalidSignatureHex

definition verify_xrpl_sig :: "crypto \<Rightarrow> bytes \<Rightarrow> bytes \<Rightarrow> bytes \<Rightarrow> sig_error + unit" where
  "verify_xrpl_sig cr pubkey_bytes sig_bytes hash =
     (let sha512_half = take 32 (cr_sha512 cr hash)
      in case pubkey_bytes of
           [] \<Rightarrow> Err UnsupportedKeyType
         | b # pk \<Rightarrow>
             if b = 0x02 \<or> b = 0x03 then
               if \<not> secp_key_ok cr pubkey_bytes then Err InvalidSecpKey
               else if \<not> der_ok cr sig_bytes then Err InvalidDer
               else if secp_verify cr pubkey_bytes sig_bytes hash \<or> secp_verify cr pubkey_bytes sig_bytes sha512_half
               then Ok () else Err SigVerificationFailed
             else if b = 0xED then
               if length pubkey_bytes \<noteq> 33 then Err InvalidEdKeyLength
               else if \<not> ed_key_ok cr pk then Err InvalidEdKey
               else if length sig_bytes \<noteq> 64 then Err InvalidEdSigLength
               else if ed_verify cr pk sig_bytes hash \<or> ed_verify cr pk sig_bytes sha512_half
               then Ok () else Err SigVerificationFailed
             else Err UnsupportedKeyType)"

definition xrpl_address :: "crypto \<Rightarrow> bytes \<Rightarrow> string" where
  "xrpl_address cr pubkey_bytes =
     (let payload = 0x00 # cr_ripemd160 cr (cr_sha256 cr pubkey_bytes);
          checksum = cr_sha256 cr (cr_sha256 cr payload)
      in bs58_xrpl cr (payload @ take 4 checksum))"

definition verify_signature_only :: "crypto \<Rightarrow> order_signature_binding \<Rightarrow> sig_error + unit" where
  "verify_signature_only cr binding =
     (case hex_decode cr (signer_pubkey_hex binding) of
        None \<Rightarrow> Err InvalidPubkeyHex
      | Some pubkey_bytes \<Rightarrow>
          let derived = xrpl_address cr pubkey_bytes
          in if derived \<noteq> signer_address binding then Err (AddressMismatch (signer_address binding) derived)
             else case hex_decode cr (signed_body_hex binding) of
                 None \<Rightarrow> Err InvalidBodyHex
               | Some body_bytes \<Rightarrow>
                   if body_bytes = [] then Err EmptySignedBody
                   else
                     let hash = cr_sha256 cr (body_bytes @ bytes_of (osb_timestamp binding))
                     in case hex_decode cr (signature_hex binding) of
                          None \<Rightarrow> Err InvalidSignatureHex
                        | Some sig_bytes \<Rightarrow> verify_xrpl_sig cr pubkey_bytes sig_bytes hash)"

section \<open>A replicated order\<close>

definition parse_side :: "string \<Rightarrow> side option" where
  "parse_side s =
     (let l = map ascii_lower s
      in if l = ''buy'' \<or> l = ''long'' then Some Long
         else if l = ''sell'' \<or> l = ''short'' then Some Short else None)"

datatype refusal =
    NoAuthorization | VaultNotConfigured string | BadSignature sig_error | SignerNotOwner string string
  | BodyNotHex | BodyNotJson | BodyOtherUser | BadSide string | SideMismatch side string
  | SizeMismatch | PriceMismatch | LeverageMismatch

datatype verdict = Verified | Refused refusal | Panicked

text \<open>The closure \<open>num\<close>: the raw value, \<open>i64::MIN\<close> for what does not parse, or the panic.\<close>

definition num_value :: "string \<Rightarrow> int option" where
  "num_value s =
     (case fp8_from_str s of
        Inr v \<Rightarrow> Some (raw v) | Inl SlicePanic \<Rightarrow> None | Inl _ \<Rightarrow> Some i64_min)"

definition body_str :: "json \<Rightarrow> string \<Rightarrow> string" where
  "body_str body k =
     (case json_get body k of
        Some v \<Rightarrow> (case json_as_str v of Some s \<Rightarrow> s | None \<Rightarrow> [])
      | None \<Rightarrow> [])"

definition check_terms :: "json \<Rightarrow> order_message \<Rightarrow> verdict" where
  "check_terms body ord =
     (if body_str body ''user_id'' \<noteq> om_user_id ord then Refused BodyOtherUser
      else case parse_side (body_str body ''side'') of
          None \<Rightarrow> Refused (BadSide (body_str body ''side''))
        | Some signed_side \<Rightarrow>
            if side_to_string signed_side \<noteq> om_side ord then Refused (SideMismatch signed_side (om_side ord))
            else case (num_value (body_str body ''size''), num_value (om_size ord)) of
                (Some a, Some b) \<Rightarrow>
                  if a \<noteq> b then Refused SizeMismatch
                  else
                    let signed_price = body_str body ''price'';
                        leverage_check =
                          (let signed_lev = (case json_get body ''leverage'' of
                                 Some v \<Rightarrow> (case json_as_u64 v of Some n \<Rightarrow> n | None \<Rightarrow> 1)
                               | None \<Rightarrow> 1) mod 2 ^ 32
                           in if signed_lev \<noteq> om_leverage ord then Refused LeverageMismatch else Verified)
                    in if signed_price = [] then leverage_check
                       else (case (num_value signed_price, num_value (om_price ord)) of
                               (Some p, Some q) \<Rightarrow> if p \<noteq> q then Refused PriceMismatch else leverage_check
                             | _ \<Rightarrow> Panicked)
              | _ \<Rightarrow> Panicked)"

definition verify_replicated_order :: "crypto \<Rightarrow> order_message \<Rightarrow> string list \<Rightarrow> verdict" where
  "verify_replicated_order cr ord vault_user_ids =
     (case om_authorization ord of
        None \<Rightarrow> Refused NoAuthorization
      | Some ProtocolVault \<Rightarrow>
          if om_user_id ord \<in> set vault_user_ids then Verified else Refused (VaultNotConfigured (om_user_id ord))
      | Some (ClientSigned binding) \<Rightarrow>
          (case verify_signature_only cr binding of
             Inl e \<Rightarrow> Refused (BadSignature e)
           | Inr _ \<Rightarrow>
               if signer_address binding \<noteq> om_user_id ord
               then Refused (SignerNotOwner (signer_address binding) (om_user_id ord))
               else case hex_decode cr (signed_body_hex binding) of
                   None \<Rightarrow> Refused BodyNotHex
                 | Some b \<Rightarrow>
                     (case json_parse cr b of None \<Rightarrow> Refused BodyNotJson | Some body \<Rightarrow> check_terms body ord)))"

section \<open>The trade history\<close>

record trade_row =
  tr_trade_id :: nat
  tr_market :: string
  tr_maker_order_id :: nat
  tr_taker_order_id :: nat
  tr_maker_user_id :: string
  tr_taker_user_id :: string
  tr_price :: fp8
  tr_size :: fp8
  tr_taker_side :: string
  tr_timestamp_ms :: nat

text \<open>The table has one row per trade id and market; a conflicting insert does nothing.\<close>

definition insert_trade :: "trade_row list \<Rightarrow> trade_row \<Rightarrow> trade_row list" where
  "insert_trade rows r =
     (if \<exists>x\<in>set rows. tr_trade_id x = tr_trade_id r \<and> tr_market x = tr_market r then rows else rows @ [r])"

section \<open>The replay loop\<close>

record 'e validator =
  va_is_sequencer :: bool
  va_leader :: "string option"
  va_my_ripple :: nat
  va_vault_users :: "string list"
  va_enclave :: 'e
  va_db :: "trade_row list option"
  va_last_seq :: nat
  va_batches_seen :: nat
  va_last_batch_seq :: nat
  va_state_hash_mismatches :: nat
  va_mismatches_of :: "string \<Rightarrow> nat"
  va_batch_time_divergences :: nat
  va_unverified_orders :: nat
  va_replay_failures :: nat
  va_failures_of :: "string \<Rightarrow> nat"
  va_replays_ok :: nat

definition price_bytes :: "string \<Rightarrow> bytes option" where
  "price_bytes s =
     (case fp8_from_str s of Inr v \<Rightarrow> Some (le_bytes_i64 (raw v)) | Inl SlicePanic \<Rightarrow> None | Inl _ \<Rightarrow> Some [])"

fun fills_bytes :: "fill_message list \<Rightarrow> bytes option" where
  "fills_bytes [] = Some []"
| "fills_bytes (f # fs) =
     (case (price_bytes (fm_price f), price_bytes (fm_size f), fills_bytes fs) of
        (Some p, Some s, Some r) \<Rightarrow> Some (le_bytes 8 (fm_trade_id f) @ p @ s @ r)
      | _ \<Rightarrow> None)"

definition batch_hash_input :: "order_batch \<Rightarrow> bytes option" where
  "batch_hash_input batch =
     (case fills_bytes (concat (map om_fills (ba_orders batch))) of
        None \<Rightarrow> None
      | Some b \<Rightarrow> Some (le_bytes 8 (ba_seq_num batch) @ b @ le_bytes 8 (ba_timestamp batch)))"

definition replay_leg ::
  "'e enclave \<Rightarrow> string \<Rightarrow> string \<Rightarrow> string \<Rightarrow> string \<Rightarrow> string \<Rightarrow> nat \<Rightarrow> 'e validator \<Rightarrow> 'e validator" where
  "replay_leg enc sequencer user sd sz price leverage v =
     (case enc_open_position enc user sd sz price leverage (va_enclave v) of
        (Inl _, e) \<Rightarrow>
          v\<lparr>va_enclave := e, va_replay_failures := u64_add (va_replay_failures v) 1,
            va_failures_of := (va_failures_of v)(sequencer := u64_add (va_failures_of v sequencer) 1)\<rparr>
      | (Inr _, e) \<Rightarrow> v\<lparr>va_enclave := e, va_replays_ok := u64_add (va_replays_ok v) 1\<rparr>)"

text \<open>The database write of one fill: skipped when a number does not parse.\<close>

definition write_fill :: "order_message \<Rightarrow> nat \<Rightarrow> fill_message \<Rightarrow> 'e validator \<Rightarrow> 'e validator option" where
  "write_fill ord timestamp_ms f v =
     (case va_db v of
        None \<Rightarrow> Some v
      | Some rows \<Rightarrow>
          (case (fp8_from_str (fm_price f), fp8_from_str (fm_size f)) of
             (Inl SlicePanic, _) \<Rightarrow> None
           | (_, Inl SlicePanic) \<Rightarrow> None
           | (Inr price, Inr sz) \<Rightarrow>
               Some (v\<lparr>va_db := Some (insert_trade rows
                 \<lparr>tr_trade_id = fm_trade_id f, tr_market = ''XRP-USD-PERP'',
                  tr_maker_order_id = fm_maker_order_id f, tr_taker_order_id = fm_taker_order_id f,
                  tr_maker_user_id = fm_maker_user_id f, tr_taker_user_id = om_user_id ord,
                  tr_price = price, tr_size = sz, tr_taker_side = fm_taker_side f,
                  tr_timestamp_ms = timestamp_ms\<rparr>)\<rparr>)
           | _ \<Rightarrow> Some v))"

definition replay_fill ::
  "'e enclave \<Rightarrow> string \<Rightarrow> order_message \<Rightarrow> nat \<Rightarrow> fill_message \<Rightarrow> 'e validator \<Rightarrow> 'e validator option" where
  "replay_fill enc sequencer ord timestamp_ms f v =
     (let (taker_side, maker_side) =
            (if fm_taker_side f = ''long'' then (''long'', ''short'') else (''short'', ''long''));
          v1 = replay_leg enc sequencer (om_user_id ord) taker_side (fm_size f) (fm_price f) (om_leverage ord) v;
          v2 = replay_leg enc sequencer (fm_maker_user_id f) maker_side (fm_size f) (fm_price f) (om_leverage ord) v1
      in write_fill ord timestamp_ms f v2)"

fun replay_fills ::
  "'e enclave \<Rightarrow> string \<Rightarrow> order_message \<Rightarrow> nat \<Rightarrow> fill_message list \<Rightarrow> 'e validator \<Rightarrow> 'e validator option" where
  "replay_fills enc sequencer ord ts [] v = Some v"
| "replay_fills enc sequencer ord ts (f # fs) v =
     (case replay_fill enc sequencer ord ts f v of
        None \<Rightarrow> None | Some v1 \<Rightarrow> replay_fills enc sequencer ord ts fs v1)"

fun replay_orders ::
  "'e enclave \<Rightarrow> crypto \<Rightarrow> string \<Rightarrow> nat \<Rightarrow> order_message list \<Rightarrow> 'e validator \<Rightarrow> 'e validator option" where
  "replay_orders enc cr sequencer ts [] v = Some v"
| "replay_orders enc cr sequencer ts (ord # ords) v =
     (case verify_replicated_order cr ord (va_vault_users v) of
        Panicked \<Rightarrow> None
      | Refused _ \<Rightarrow>
          replay_orders enc cr sequencer ts ords (v\<lparr>va_unverified_orders := u64_add (va_unverified_orders v) 1\<rparr>)
      | Verified \<Rightarrow>
          (case replay_fills enc sequencer ord ts (om_fills ord) v of
             None \<Rightarrow> None | Some v1 \<Rightarrow> replay_orders enc cr sequencer ts ords v1))"

text \<open>One turn of the loop, for a batch with its authenticated publisher.\<close>

definition replay_batch ::
  "'e enclave \<Rightarrow> crypto \<Rightarrow> (bytes \<Rightarrow> string) \<Rightarrow> order_batch \<Rightarrow> string option \<Rightarrow> 'e validator \<Rightarrow> 'e validator option" where
  "replay_batch enc cr digest batch src_peer v =
     (if va_is_sequencer v then Some v
      else if leader_gate_decision src_peer (va_leader v) (ba_sequencer_id batch) \<noteq> GateAccept then Some v
      else
        let v1 = v\<lparr>va_last_seq := ba_seq_num batch, va_batches_seen := u64_add (va_batches_seen v) 1,
                   va_last_batch_seq := ba_seq_num batch\<rparr>
        in case batch_hash_input batch of
             None \<Rightarrow> None
           | Some input \<Rightarrow>
               if digest input \<noteq> ba_state_hash batch
               then Some (v1\<lparr>va_state_hash_mismatches := u64_add (va_state_hash_mismatches v1) 1,
                             va_mismatches_of := (va_mismatches_of v1)
                               (ba_sequencer_id batch := u64_add (va_mismatches_of v1 (ba_sequencer_id batch)) 1)\<rparr>)
               else
                 let (skip, divergences) =
                       batch_time_skip (ba_timestamp batch) (va_my_ripple v1) (va_batch_time_divergences v1);
                     v2 = v1\<lparr>va_batch_time_divergences := divergences\<rparr>
                 in if skip then Some v2
                    else replay_orders enc cr (ba_sequencer_id batch)
                           (min (ba_timestamp batch * 1000) (2 ^ 64 - 1)) (ba_orders batch) v2)"

end
