(* ===== verification/Trading_Margin.thy ===== *)
theory Trading_Margin
  imports Trading OrderBook_Life OrderBook_Props
begin

text \<open>
  Reserve at placement: what the resting orders of a user reserve, as an exact sum, and how a
  submission changes it. The properties of admission to the book are at the end.
\<close>

section \<open>Margins as exact numbers\<close>

definition notional_fits :: "int \<Rightarrow> int \<Rightarrow> bool" where
  "notional_fits sz price \<longleftrightarrow> sz * price div FP8_SCALE < 2 ^ 63"

definition exact_margin :: "int \<Rightarrow> int \<Rightarrow> nat \<Rightarrow> int" where
  "exact_margin sz price leverage = sz * price div FP8_SCALE div int leverage"

lemma margin_exact:
  assumes "0 \<le> sz" "0 \<le> price" "notional_fits sz price" "0 < leverage"
  shows "raw (fp8_mul (FP8 sz) (FP8 price)) sdiv int leverage = exact_margin sz price leverage"
proof -
  have "0 \<le> sz * price div FP8_SCALE" using assms by (simp add: FP8_SCALE_def pos_imp_zdiv_nonneg_iff)
  then show ?thesis
    using assms by (simp add: fp8_mul_def exact_margin_def notional_fits_def sdiv_nonneg FP8_SCALE_def wrap_i64_id is_i64_def)
qed

lemma exact_margin_mono:
  "0 \<le> sz \<Longrightarrow> sz \<le> sz' \<Longrightarrow> 0 \<le> price \<Longrightarrow> exact_margin sz price lev \<le> exact_margin sz' price lev"
  unfolding exact_margin_def by (cases "lev = 0") (auto simp: FP8_SCALE_def intro!: zdiv_mono1 mult_right_mono)

lemma exact_margin_nonneg: "0 \<le> sz \<Longrightarrow> 0 \<le> price \<Longrightarrow> 0 \<le> exact_margin sz price lev"
  unfolding exact_margin_def by (cases "lev = 0") (auto simp: FP8_SCALE_def pos_imp_zdiv_nonneg_iff)

lemma notional_fits_mono: "notional_fits sz' price \<Longrightarrow> sz \<le> sz' \<Longrightarrow> 0 \<le> price \<Longrightarrow> notional_fits sz price"
  unfolding notional_fits_def
  by (rule le_less_trans [rotated]) (auto simp: FP8_SCALE_def intro!: zdiv_mono1 mult_right_mono)

text \<open>What one order reserves for a user, and what a queue of orders reserves.\<close>

definition margin_of :: "string \<Rightarrow> order \<Rightarrow> int" where
  "margin_of u x = (if o_user_id x = u \<and> \<not> o_reduce_only x \<and> 0 < o_leverage x
     then exact_margin (raw (remaining x)) (raw (o_price x)) (o_leverage x) else 0)"

definition reserve :: "string \<Rightarrow> (int \<times> order) list \<Rightarrow> int" where
  "reserve u q = sum_list (map (\<lambda>e. margin_of u (snd e)) q)"

text \<open>A resting order whose margin is computed without wrap-around.\<close>

definition sound_order :: "order \<Rightarrow> bool" where
  "sound_order x \<longleftrightarrow> taker_ok x \<and> 0 < raw (o_price x) \<and> notional_fits (raw (o_size x)) (raw (o_price x))"

lemma reserve_simps [simp]: "reserve u [] = 0" "reserve u (e # q) = margin_of u (snd e) + reserve u q"
  "reserve u (q @ q') = reserve u q + reserve u q'"
  by (simp_all add: reserve_def)

lemma reserve_mset: "mset q = mset q' \<Longrightarrow> reserve u q = reserve u q'"
  unfolding reserve_def by (simp add: sum_mset_sum_list [symmetric])

lemma remaining_le_size: "taker_ok x \<Longrightarrow> raw (remaining x) \<le> raw (o_size x)"
  by (simp add: raw_remaining) (simp add: taker_ok_def)

lemma margin_of_nonneg: "sound_order x \<Longrightarrow> 0 \<le> margin_of u x"
  by (auto simp: margin_of_def sound_order_def remaining_nonneg intro!: exact_margin_nonneg)

lemma order_margin_exact:
  assumes "sound_order x" "o_user_id x = u" "\<not> o_reduce_only x" "0 < o_leverage x"
  shows "raw (order_margin x) = margin_of u x"
proof -
  have "notional_fits (raw (remaining x)) (raw (o_price x))"
    using assms(1) by (auto simp: sound_order_def intro: notional_fits_mono remaining_le_size)
  then have "raw (fp8_mul (FP8 (raw (remaining x))) (FP8 (raw (o_price x)))) sdiv int (o_leverage x)
      = exact_margin (raw (remaining x)) (raw (o_price x)) (o_leverage x)"
    using assms by (intro margin_exact) (auto simp: sound_order_def remaining_nonneg)
  then show ?thesis using assms by (simp add: order_margin_def margin_of_def)
qed

lemma reserve_nonneg: "\<forall>e\<in>set q. sound_order (snd e) \<Longrightarrow> 0 \<le> reserve u q"
  unfolding reserve_def by (rule sum_list_nonneg) (auto intro: margin_of_nonneg)

lemma margin_of_same_maker:
  assumes "same_maker m m'" "0 \<le> raw (remaining m')" "raw (remaining m') \<le> raw (remaining m)" "0 < raw (o_price m)"
  shows "margin_of u m' \<le> margin_of u m"
  using assms same_maker_fields [OF assms(1)] by (auto simp: margin_of_def intro: exact_margin_mono)

lemma reserve_fifo:
  assumes "fifo_rest q q'" "\<forall>e\<in>set q. sound_order (snd e)"
  shows "reserve u q' \<le> reserve u q"
proof -
  consider g where "q = g @ q'"
    | g p m m' r where "q = g @ (p, m) # r" "q' = (p, m') # r" "same_maker m m'"
      "0 < raw (remaining m')" "raw (remaining m') < raw (remaining m)"
    using assms(1) by (auto simp: fifo_rest_def)
  then show ?thesis
  proof cases
    case 1
    then show ?thesis using assms(2) reserve_nonneg [of g u] by simp
  next
    case 2
    then have "0 < raw (o_price m)" using assms(2) by (simp add: sound_order_def)
    then have "margin_of u m' \<le> margin_of u m" using 2 by (intro margin_of_same_maker) auto
    then show ?thesis using 2 assms(2) reserve_nonneg [of g u] by simp
  qed
qed

section \<open>The reserved margin of a book\<close>

definition book_reserve :: "order_book \<Rightarrow> string \<Rightarrow> int" where
  "book_reserve ob u = reserve u (flat (bids ob)) + reserve u (flat (asks ob))"

definition sound_book :: "order_book \<Rightarrow> bool" where
  "sound_book ob \<longleftrightarrow> (\<forall>e\<in>set (flat (bids ob)) \<union> set (flat (asks ob)). sound_order (snd e))"

lemma book_reserve_dir: "book_reserve ob u = reserve u (flat (own_book ob sd)) + reserve u (flat (opposite_book ob sd))"
  by (cases sd) (simp_all add: book_reserve_def own_book_def opposite_book_def)

lemma fold_margins:
  assumes "\<forall>x\<in>set xs. 0 \<le> raw (f x)" "0 \<le> a" "a + sum_list (map (\<lambda>x. raw (f x)) xs) < 2 ^ 63"
  shows "foldl (\<lambda>s x. fp8_add s (f x)) (FP8 a) xs = FP8 (a + sum_list (map (\<lambda>x. raw (f x)) xs))"
  using assms
proof (induction xs arbitrary: a)
  case (Cons x xs)
  have "0 \<le> sum_list (map (\<lambda>x. raw (f x)) xs)" using Cons.prems(1) by (intro sum_list_nonneg) auto
  then have "is_i64 (a + raw (f x))" using Cons.prems by (simp add: is_i64_def)
  then have "fp8_add (FP8 a) (f x) = FP8 (a + raw (f x))" by (simp add: fp8_add_def wrap_i64_id)
  then show ?case using Cons.IH [of "a + raw (f x)"] Cons.prems by (simp add: add.assoc)
qed simp

lemma user_margins_sum:
  assumes "\<forall>e\<in>set q. sound_order (snd e)"
  shows "sum_list (map (\<lambda>x. raw (order_margin x)) (filter (\<lambda>x. \<not> o_reduce_only x \<and> 0 < o_leverage x)
      (filter (\<lambda>x. o_user_id x = u) (map snd q)))) = reserve u q"
  using assms
proof (induction q)
  case (Cons e q)
  then show ?case
    using order_margin_exact [of "snd e" u] by (auto simp: margin_of_def)
qed simp

lemma reserved_exact:
  assumes "sound_book ob" "book_reserve ob u < 2 ^ 63"
  shows "user_reserved_margin ob u = FP8 (book_reserve ob u)"
proof -
  let ?q = "flat (bids ob) @ flat (asks ob)"
  let ?xs = "filter (\<lambda>x. \<not> o_reduce_only x \<and> 0 < o_leverage x) (user_orders ob u)"
  have uo: "user_orders ob u = filter (\<lambda>x. o_user_id x = u) (map snd ?q)"
    by (simp add: user_orders_def side_orders_flat)
  have s: "\<forall>e\<in>set ?q. sound_order (snd e)" using assms(1) by (auto simp: sound_book_def)
  have sum: "sum_list (map (\<lambda>x. raw (order_margin x)) ?xs) = book_reserve ob u"
    unfolding uo user_margins_sum [OF s] by (simp add: book_reserve_def)
  have "0 \<le> raw (order_margin x)" if "x \<in> set ?xs" for x
  proof -
    have "sound_order x" "o_user_id x = u" "\<not> o_reduce_only x" "0 < o_leverage x"
      using that s unfolding uo by auto
    then show ?thesis using order_margin_exact margin_of_nonneg by metis
  qed
  then show ?thesis
    unfolding reserved_by_user fp8_ZERO_def using fold_margins [of ?xs order_margin 0] assms(2) sum by simp
qed

lemma sound_book_attested [simp]: "sound_book (set_attested_ms ob ms) = sound_book ob"
  "book_reserve (set_attested_ms ob ms) u = book_reserve ob u"
  "wf_book (set_attested_ms ob ms) = wf_book ob"
  "next_order_id (set_attested_ms ob ms) = next_order_id ob"
  by (simp_all add: set_attested_ms_def sound_book_def book_reserve_def wf_book_def uncrossed_def ids_ok_def)

section \<open>How a submission changes the reserve\<close>

definition fits_book :: "order_book \<Rightarrow> bool" where
  "fits_book ob \<longleftrightarrow> (\<forall>e\<in>set (flat (bids ob)) \<union> set (flat (asks ob)).
     notional_fits (raw (o_size (snd e))) (raw (o_price (snd e))))"

lemma fits_book_dir: "fits_book ob \<longleftrightarrow> (\<forall>e\<in>set (flat (own_book ob sd)) \<union> set (flat (opposite_book ob sd)).
     notional_fits (raw (o_size (snd e))) (raw (o_price (snd e))))"
  unfolding fits_book_def book_elems [of ob sd] ..

lemma sound_book_wf: "wf_book ob \<Longrightarrow> fits_book ob \<Longrightarrow> sound_book ob"
  by (fastforce simp: sound_book_def sound_order_def wf_book_def wf_side_def resting_ok_def live_iff fits_book_def)

lemma sound_opposite:
  assumes "sound_book ob"
  shows "\<forall>e\<in>set (flat (own_book ob sd)) \<union> set (flat (opposite_book ob sd)). sound_order (snd e)"
  using assms unfolding sound_book_def book_elems [of ob sd] .

lemma match_order_reserve:
  assumes wf: "wf_book ob" and t: "taker_ok t" and fits: "fits_book ob"
    and m: "match_order ob t = (ob', t', trades, stp)"
  shows "book_reserve ob' u \<le> book_reserve ob u" and "fits_book ob'"
proof -
  let ?sd = "o_side t" and ?q = "queue ob (o_side t)" and ?in = "\<lambda>e :: int \<times> order. crosses t (fst e)"
  have sound: "sound_book ob" by (rule sound_book_wf [OF wf fits])
  note side = conjunct1 [OF wf_book_sides [OF wf, of ?sd]]
  have ok: "bt_ok (opposite_book ob ?sd)" using side by (simp add: wf_side_def)
  have live: "all_live (filter ?in ?q)" using wf_side_all_live [OF side] by (auto simp: set_queue)
  from match_order_sweep [OF ok m] obtain q' acc where s:
    "sweep (env_of ob) (filter ?in ?q) t (acc_of ob) = (q', t', acc)"
    "queue ob' ?sd = q' @ filter (\<lambda>e. \<not> ?in e) ?q" by metis
  have f: "fifo_rest (filter ?in ?q) q'" using sweep_fifo [OF s(1) t live] by simp
  have "\<forall>e\<in>set (filter ?in ?q). sound_order (snd e)"
    using sound_opposite [OF sound, of ?sd] by (auto simp: set_queue)
  then have "reserve u q' \<le> reserve u (filter ?in ?q)" by (rule reserve_fifo [OF f])
  moreover have "reserve u (filter ?in ?q) + reserve u (filter (\<lambda>e. \<not> ?in e) ?q) = reserve u (flat (opposite_book ob ?sd))"
    unfolding reserve_simps(3) [symmetric] by (rule reserve_mset) (simp add: queue_def)
  moreover have "reserve u (queue ob' ?sd) = reserve u (flat (opposite_book ob' ?sd))"
    by (rule reserve_mset) (simp add: queue_def)
  ultimately have "reserve u (flat (opposite_book ob' ?sd)) \<le> reserve u (flat (opposite_book ob ?sd))"
    using s(2) by simp
  then show "book_reserve ob' u \<le> book_reserve ob u"
    unfolding book_reserve_dir [of _ _ ?sd] match_order_frame(1) [OF m] by simp
  have makers: "\<exists>x. (p, x) \<in> set (flat (opposite_book ob ?sd)) \<and> same_maker x x'"
    if "(p, x') \<in> set (flat (opposite_book ob' ?sd))" for p x'
  proof -
    from that have "(p, x') \<in> set q' \<or> (p, x') \<in> set ?q" using s(2) by (auto simp: set_queue [symmetric])
    then show ?thesis
    proof
      assume "(p, x') \<in> set q'"
      from fifo_rest_subset [OF f this] show ?thesis by (auto simp: set_queue)
    next
      assume "(p, x') \<in> set ?q"
      then show ?thesis using same_maker_refl by (auto simp: set_queue)
    qed
  qed
  have "notional_fits (raw (o_size (snd e))) (raw (o_price (snd e)))" if "e \<in> set (flat (opposite_book ob' ?sd))" for e
  proof -
    obtain p x' where e: "e = (p, x')" by (cases e)
    with that makers obtain x where x: "(p, x) \<in> set (flat (opposite_book ob ?sd))" "same_maker x x'"
      by blast
    then have "notional_fits (raw (o_size x)) (raw (o_price x))" using fits unfolding fits_book_dir [of ob ?sd] by force
    then show ?thesis using same_maker_fields(5,6) [OF x(2)] e by simp
  qed
  then show "fits_book ob'"
    using fits unfolding fits_book_dir [of _ ?sd] match_order_frame(1) [OF m] by blast
qed

text \<open>What the new order may reserve: its full size at its own price.\<close>

definition new_margin :: "order \<Rightarrow> int" where
  "new_margin x = (if o_order_type x = Limit \<and> 0 < o_leverage x
     then exact_margin (raw (o_size x)) (raw (o_price x)) (o_leverage x) else 0)"

lemma margin_of_resting:
  assumes "taker_ok x" "0 < raw (o_price x)" "o_order_type x = Limit"
  shows "margin_of u x \<le> new_margin x"
  using assms exact_margin_mono [OF remaining_nonneg remaining_le_size, of x "raw (o_price x)" "o_leverage x"]
    exact_margin_nonneg [of "raw (o_size x)" "raw (o_price x)" "o_leverage x"]
  by (auto simp: margin_of_def new_margin_def taker_ok_def)

lemma match_order_size:
  assumes wf: "wf_book ob" and t: "taker_ok t" and m: "match_order ob t = (ob', t', trades, stp)"
  shows "raw (o_size t') \<le> raw (o_size t)"
proof -
  obtain acc where "effects (env_of ob) (filter (\<lambda>e. crosses t (fst e)) (queue ob (o_side t))) t (acc_of ob) t' acc trades stp"
    using match_order_effects [OF conjunct1 [OF wf_book_sides [OF wf]] t m] by auto
  then have "raw (o_size t') = raw (o_size t) - prevented stp" "\<forall>x\<in>set stp. 0 < snd x"
    by (auto simp: effects_def)
  moreover from this(2) have "0 \<le> prevented stp" by (force simp: prevented_def intro!: sum_list_nonneg)
  ultimately show ?thesis by simp
qed

lemma execute_order_reserve:
  assumes wf: "wf_book ob" and fits: "fits_book ob" and t: "taker_ok ord"
    and pos: "o_order_type ord = Limit \<Longrightarrow> 0 < raw (o_price ord)"
    and nf: "o_order_type ord = Limit \<Longrightarrow> notional_fits (raw (o_size ord)) (raw (o_price ord))"
    and run: "execute_order tr ob ord = (r, ob')"
  shows "book_reserve ob' u \<le> book_reserve ob u + new_margin ord" and "fits_book ob'"
proof -
  let ?sd = "o_side ord"
  obtain ob1 ord1 trades stp where m: "match_order ob ord = (ob1, ord1, trades, stp)" by (metis prod_cases4)
  define ob2 where "ob2 = (if stp \<noteq> [] then ob1\<lparr>stp_rate := record_at (stp_rate ob1) (o_user_id ord1) tr\<rparr> else ob1)"
  obtain ord2 where st: "settle_remainder ob2 ord1 = (ob', ord2)"
    using run by (auto simp: execute_order_def m ob2_def Let_def split: prod.splits)
  have b: "book_reserve ob2 u \<le> book_reserve ob u" "fits_book ob2"
    using match_order_reserve(1) [OF wf t fits m, of u] match_order_reserve(2) [OF wf t fits m] by (simp_all add: ob2_def book_reserve_def fits_book_def)
  have ex: "taker_ok ord1" "same_taker ord ord1"
    using match_order_exhausts [OF conjunct1 [OF wf_book_sides [OF wf]] t m] by auto
  note f = same_taker_fields [OF ex(2)]
  have le: "raw (o_size ord1) \<le> raw (o_size ord)"
    using match_order_size [OF wf t m] .
  have n: "0 \<le> new_margin ord" "new_margin ord1 \<le> new_margin ord" if "o_order_type ord = Limit"
    using that pos ex(1) t le f
    by (auto simp: new_margin_def taker_ok_def intro!: exact_margin_nonneg exact_margin_mono)
  have n0: "0 \<le> new_margin ord" using n by (cases "o_order_type ord") (auto simp: new_margin_def)
  have "book_reserve ob' u \<le> book_reserve ob u + new_margin ord \<and> fits_book ob'"
  proof (cases "ob' = ob2")
    case True
    then show ?thesis using b n0 by simp
  next
    case False
    then have a: "ob' = add_to_book ob2 ord1" "o_order_type ord1 = Limit" using settle_remainder_book [OF st] by auto
    have "mset (flat (own_book ob' ?sd)) = mset ((raw (o_price ord1), ord1) # flat (own_book ob2 ?sd))"
      "opposite_book ob' ?sd = opposite_book ob2 ?sd"
      using add_to_book_frame(1,2) [of ob2 ord1] a(1) f by (simp_all add: mset_flat_upsert)
    note own = this
    have r: "book_reserve ob' u = margin_of u ord1 + book_reserve ob2 u"
      using reserve_mset [OF own(1), of u] own(2) unfolding book_reserve_dir [of _ _ ?sd] by simp
    have "margin_of u ord1 \<le> new_margin ord1" using a(2) ex(1) f pos by (intro margin_of_resting) auto
    moreover have "fits_book ob'"
    proof -
      have "set (flat (own_book ob' ?sd)) = insert (raw (o_price ord1), ord1) (set (flat (own_book ob2 ?sd)))"
        using add_to_book_frame(1) [of ob2 ord1] a(1) f by (simp add: set_flat_upsert)
      moreover have "notional_fits (raw (o_size ord1)) (raw (o_price ord1))"
        using nf pos a(2) f le by (auto intro: notional_fits_mono)
      ultimately show ?thesis
        using b(2) own(2) unfolding fits_book_dir [of _ ?sd] by auto
    qed
    ultimately show ?thesis using r b(1) n a(2) f by auto
  qed
  then show "book_reserve ob' u \<le> book_reserve ob u + new_margin ord" "fits_book ob'" by simp_all
qed

lemma submit_order_reserve:
  assumes wf: "wf_book ob" and fits: "fits_book ob" and sz: "raw sz < 2 ^ 63" and id: "next_order_id ob + 1 < 2 ^ 64"
    and nf: "ty = Limit \<Longrightarrow> notional_fits (raw sz) (raw price)"
    and run: "submit_order tp tr ob user sd ty price sz lev tif ro cid = (Ok r, ob')"
  shows "book_reserve ob' u \<le> book_reserve ob u
      + (if ty = Limit \<and> 0 < lev then exact_margin (raw sz) (raw price) lev else 0)"
    and "fits_book ob'" and "wf_book ob'" and "0 < raw sz" and "ty = Limit \<Longrightarrow> 0 < raw price"
proof -
  let ?new = "new_order ob user sd ty price sz lev tif ro cid"
  have inc: "u64_add (next_order_id ob) 1 = next_order_id ob + 1" using id by (simp add: u64_add_def)
  have wf2: "wf_book (admitted tp ob user)"
    using wf unfolding admitted_def asked_def by (intro wf_book_next_id) (simp_all add: inc [simplified])
  have fits2: "fits_book (admitted tp ob user)" "book_reserve (admitted tp ob user) u = book_reserve ob u"
    using fits by (simp_all add: fits_book_def book_reserve_def)
  have "book_reserve ob' u \<le> book_reserve ob u
      + (if ty = Limit \<and> 0 < lev then exact_margin (raw sz) (raw price) lev else 0)
    \<and> fits_book ob' \<and> 0 < raw sz \<and> (ty = Limit \<longrightarrow> 0 < raw price)"
    using run
  proof (cases rule: submit_order_cases)
    case killed
    then show ?thesis
      using fits2 exact_margin_nonneg [of "raw sz" "raw price" lev] by auto
  next
    case executed
    have "new_margin ?new = (if ty = Limit \<and> 0 < lev then exact_margin (raw sz) (raw price) lev else 0)"
      by (simp add: new_margin_def new_order_def)
    moreover have ord: "taker_ok ?new" "o_order_type ?new = Limit \<Longrightarrow> 0 < raw (o_price ?new)"
      "o_order_type ?new = Limit \<Longrightarrow> notional_fits (raw (o_size ?new)) (raw (o_price ?new))"
      using executed sz nf by (auto simp: new_order_taker_ok)
    moreover note execute_order_reserve(1) [OF wf2 fits2(1) ord executed(6), of u]
      execute_order_reserve(2) [OF wf2 fits2(1) ord executed(6)]
    ultimately show ?thesis using executed(1,2) fits2(2) by auto
  qed simp_all
  then show "book_reserve ob' u \<le> book_reserve ob u
      + (if ty = Limit \<and> 0 < lev then exact_margin (raw sz) (raw price) lev else 0)"
    and "fits_book ob'" and "0 < raw sz" and "ty = Limit \<Longrightarrow> 0 < raw price" by blast+
  show "wf_book ob'" by (rule submit_order_wf [OF wf sz id run])
qed

text \<open>The margin check, without wrap-around.\<close>

lemma margin_check_exact:
  assumes ok: "margin_check ob user price sz lev (Some av) = Ok ()"
    and sound: "sound_book ob" "book_reserve ob user < 2 ^ 62" "0 \<le> book_reserve ob user"
    and av: "- (2 ^ 62) \<le> raw av" "raw av < 2 ^ 63" and sz: "0 < raw sz"
    and nf: "notional_fits (raw sz) (if 0 < raw price then raw price else FP8_SCALE)"
  shows "book_reserve ob user + (if 0 < raw price \<and> 0 < lev then exact_margin (raw sz) (raw price) lev else 0) \<le> raw av"
proof -
  let ?p = "if 0 < raw price then raw price else FP8_SCALE"
  have lev: "0 < lev" using ok by (auto simp: margin_check_def split: if_splits)
  have "user_reserved_margin ob user = FP8 (book_reserve ob user)"
    using sound by (intro reserved_exact) auto
  then have "\<not> wrap_i64 (raw av - book_reserve ob user) < raw (required_margin price sz lev)"
    using ok lev by (auto simp: margin_check_def Let_def split: if_splits)
  moreover have "raw (required_margin price sz lev) = exact_margin (raw sz) ?p lev"
    using margin_exact [of "raw sz" ?p lev] sz nf lev
    by (cases sz; cases price) (auto simp: required_margin_def Let_def fp8_ONE_def FP8_SCALE_def)
  moreover have "wrap_i64 (raw av - book_reserve ob user) = raw av - book_reserve ob user"
    using sound(2,3) av by (intro wrap_i64_id) (simp add: is_i64_def)
  moreover have "0 \<le> exact_margin (raw sz) ?p lev" using sz by (intro exact_margin_nonneg) (auto simp: FP8_SCALE_def)
  ultimately show ?thesis by auto
qed

lemma place_locked_Ok:
  assumes "place_locked tp tr at book user sd ty price sz lev tif ro cid avail = (Ok r, book')"
  shows "margin_check (set_attested_ms book at) user price sz lev avail = Ok ()"
    and "submit_order tp tr (set_attested_ms book at) user sd ty price sz lev tif ro cid = (Ok r, book')"
  using assms by (auto simp: place_locked_def Let_def split: sum.splits prod.splits)

lemma submit_order_inner_Ok:
  assumes "submit_order_inner enc digest tp tr te auth user sd ty price sz lev tif ro cid cp = (Ok res, te')"
  obtains avail e1 at e2 ord trades stp book where
    "authorised auth user = Ok ()"
    "available_for enc user cp (te_enclave te) = (Ok avail, e1)"
    "read_attested_ms enc e1 = (Ok at, e2)"
    "place_locked tp tr at (te_book te) user sd ty price sz lev tif ro cid avail = (Ok (ord, trades, stp), book)"
    "te_book te' = book" "or_order res = ord\<lparr>o_close_position_id := cp\<rparr>" "or_trades res = trades"
    "or_stp_cancelled res = stp"
    "trades \<noteq> [] \<Longrightarrow> te_enclave te' = snd (settle_fills enc lev cp trades e2)"
    "trades = [] \<Longrightarrow> te_enclave te' = e2 \<and> te_batch_tx te' = te_batch_tx te"
    "trades \<noteq> [] \<Longrightarrow> te_batch_tx te' = map_option (\<lambda>sent. sent @ [make_batch digest (te_seq_num te) (te_peer_id te)
       (at div 1000) auth (or_order res) trades]) (te_batch_tx te)"
proof -
  note run = assms [unfolded submit_order_inner_def]
  obtain u where a: "authorised auth user = Ok u" using run by (cases "authorised auth user") auto
  obtain avail e1 where b: "available_for enc user cp (te_enclave te) = (Ok avail, e1)"
    using run a by (auto split: prod.splits sum.splits)
  obtain at e2 where c: "read_attested_ms enc e1 = (Ok at, e2)"
    using run a b by (auto split: prod.splits sum.splits)
  obtain ord trades stp book where d:
    "place_locked tp tr at (te_book te) user sd ty price sz lev tif ro cid avail = (Ok (ord, trades, stp), book)"
    using run a b c by (auto split: prod.splits sum.splits)
  have u: "u = ()" by simp
  show thesis
  proof (rule that [OF a [unfolded u] b c d])
    show "te_book te' = book" "or_order res = ord\<lparr>o_close_position_id := cp\<rparr>" "or_trades res = trades"
      "or_stp_cancelled res = stp"
      using run a b c d
      by (auto simp: Let_def publish_def split: if_splits prod.splits option.splits)
    show "te_enclave te' = snd (settle_fills enc lev cp trades e2)" if "trades \<noteq> []"
      using run a b c d that by (auto simp: Let_def publish_def split: prod.splits option.splits)
    show "te_enclave te' = e2 \<and> te_batch_tx te' = te_batch_tx te" if "trades = []"
      using run a b c d that by (auto simp: Let_def)
    show "te_batch_tx te' = map_option (\<lambda>sent. sent @ [make_batch digest (te_seq_num te) (te_peer_id te)
       (at div 1000) auth (or_order res) trades]) (te_batch_tx te)" if "trades \<noteq> []"
      using run a b c d that by (auto simp: Let_def publish_def split: prod.splits option.splits)
  qed
qed

lemma fp8_from_str_i64:
  assumes "fp8_from_str s0 = Ok v"
  shows "is_i64 (raw v)"
proof -
  let ?s = "dropWhile (\<lambda>c. c = CHR ''-'') (str_trim s0)"
  obtain w f where p: "(case split_once (CHR ''.'') ?s of Some (w, f) \<Rightarrow> (w, f) | None \<Rightarrow> (?s, [])) = (w, f)"
    by (metis surj_pair)
  obtain wh where wh: "(if w = [] then Some 0 else parse_i64 w) = Some wh"
    using assms unfolding fp8_from_str_def Let_def p by (cases "if w = [] then Some 0 else parse_i64 w") simp_all
  have "\<exists>x n. v = FP8 (if n then wrap_i64 (- wrap_i64 x) else wrap_i64 x)"
    using assms unfolding fp8_from_str_def Let_def p prod.case wh option.case
    by (simp split: if_splits option.splits) blast+
  then show ?thesis by (auto split: if_splits)
qed

lemma available_for_Ok:
  assumes "available_for enc user None e = (Ok avail, e')"
  obtains av where "avail = Some av" "fetch_available enc user e = (Ok av, e')" "is_i64 (raw av)"
proof -
  from assms obtain av where av: "avail = Some av" "fetch_available enc user e = (Ok av, e')"
    by (auto simp: available_for_def split: prod.splits sum.splits)
  moreover from av(2) have "\<exists>s. fp8_from_str s = Ok av"
    by (auto simp: fetch_available_def split: prod.splits sum.splits option.splits fp8_error.splits)
  ultimately show thesis using that fp8_from_str_i64 by blast
qed

section \<open>A logging enclave, for examples\<close>

datatype enclave_call = OpenCall string string string string nat | CloseCall string nat string

definition log_enclave :: "fp8 \<Rightarrow> enclave_call list enclave" where
  "log_enclave available =
     \<lparr>enc_get_balance = (\<lambda>user e. (Ok (JObj [(''data'', JObj [(''available_margin'', JStr (fp8_to_string available))])]), e)),
      enc_attested_clock_status = (\<lambda>e. (Ok (JObj [(''attested_close_time_ripple_epoch'', JNum 7)]), e)),
      enc_open_position = (\<lambda>user sd sz price lev e. (Ok (JObj [(''status'', JStr ''success'')]), e @ [OpenCall user sd sz price lev])),
      enc_close_position = (\<lambda>user pos price e. (Ok (JObj [(''status'', JStr ''success'')]), e @ [CloseCall user pos price]))\<rparr>"

definition sample_engine :: "enclave_call list trading_engine" where
  "sample_engine = \<lparr>te_book = sample_book, te_enclave = [], te_batch_tx = Some [], te_seq_num = 1, te_peer_id = ''A''\<rparr>"

lemma sample_run:
  "\<exists>res te'. submit_order_inner (log_enclave (FP8 1000)) digest 8 9 sample_engine ProtocolVault ''dave'' Short Limit
      (FP8 95) (FP8 2) 2 Gtc False None cp = (Ok res, te') \<and> or_trades res \<noteq> [] \<and> (\<forall>t\<in>set (or_trades res). is_i64 (raw (t_price t)) \<and> is_i64 (raw (t_size t)))
      \<and> o_user_id (or_order res) = ''dave'' \<and> t_timestamp_ms (hd (or_trades res)) = 946684807000"
proof -
  have b: "available_for (log_enclave (FP8 1000)) ''dave'' cp [] = (Ok (case cp of None \<Rightarrow> Some (FP8 1000) | Some _ \<Rightarrow> None), [])"
    using fp8_print_parse [of 1000]
    by (cases cp) (simp_all add: available_for_def fetch_available_def log_enclave_def json_index_def is_i64_def)
  have c: "read_attested_ms (log_enclave (FP8 1000)) [] = (Ok 946684807000, [])"
    by (simp add: read_attested_ms_def log_enclave_def json_index_def RIPPLE_EPOCH_def u64_mul_def u64_add_def Let_def)
  have d: "\<exists>ord trades book. place_locked 8 9 946684807000 sample_book ''dave'' Short Limit (FP8 95) (FP8 2) 2 Gtc False None
      (case cp of None \<Rightarrow> Some (FP8 1000) | Some _ \<Rightarrow> None) = (Ok (ord, trades, []), book) \<and> trades \<noteq> [] \<and> (\<forall>t\<in>set trades. is_i64 (raw (t_price t)) \<and> is_i64 (raw (t_size t)))
      \<and> o_user_id ord = ''dave'' \<and> t_timestamp_ms (hd trades) = 946684807000"
    by (cases cp) (simp_all add: place_locked_def margin_check_def required_margin_def user_reserved_margin_def sum_level_def
      order_margin_def bt_values_def fp8_mul_def FP8_SCALE_def sdiv_nonneg fp8_ONE_def run_simps sample_simps is_i64_def)
  then obtain ord trades book where d: "place_locked 8 9 946684807000 sample_book ''dave'' Short Limit (FP8 95) (FP8 2) 2 Gtc False None
      (case cp of None \<Rightarrow> Some (FP8 1000) | Some _ \<Rightarrow> None) = (Ok (ord, trades, []), book)" "trades \<noteq> []" "(\<forall>t\<in>set trades. is_i64 (raw (t_price t)) \<and> is_i64 (raw (t_size t)))"
      "o_user_id ord = ''dave''" "t_timestamp_ms (hd trades) = 946684807000" by blast
  show ?thesis
    by (simp add: submit_order_inner_def authorised_def sample_engine_def b c d case_prod_beta Let_def)
qed

section \<open>Properties\<close>

text \<open>
  C11. Reserve at placement: once an order was accepted, the margin all resting orders of its
  owner reserve together is at most the margin the enclave reported available, so no sequence
  of resting orders that are each affordable can over-commit an account. The hypotheses keep
  notionals and sums inside an \<open>i64\<close>.
\<close>

theorem reserve_at_placement:
  assumes wf: "wf_book (te_book te)" and fits: "fits_book (te_book te)" "book_reserve (te_book te) user < 2 ^ 62"
    and sz: "raw sz < 2 ^ 63" and id: "next_order_id (te_book te) + 1 < 2 ^ 64"
    and nf: "notional_fits (raw sz) (if 0 < raw price then raw price else FP8_SCALE)"
    and av: "fetch_available enc user (te_enclave te) = (Ok av, e1)" "- (2 ^ 62) \<le> raw av"
    and run: "engine_submit_order enc digest tp tr te auth user sd ty price sz lev tif ro cid = (Ok res, te')"
  shows "raw (user_reserved_margin (te_book te') user) \<le> raw av \<and> wf_book (te_book te')"
proof -
  from run [unfolded engine_submit_order_def] obtain avail e1' at e2 ord trades stp where
    a: "available_for enc user None (te_enclave te) = (Ok avail, e1')"
    and p: "place_locked tp tr at (te_book te) user sd ty price sz lev tif ro cid avail = (Ok (ord, trades, stp), te_book te')"
    by (rule submit_order_inner_Ok) blast
  from available_for_Ok [OF a] av(1) have avail: "avail = Some av" "is_i64 (raw av)" by fastforce+
  let ?ob = "set_attested_ms (te_book te) at"
  note pl = place_locked_Ok [OF p]
  have sound: "sound_book (te_book te)" by (rule sound_book_wf [OF wf fits(1)])
  then have nonneg: "0 \<le> book_reserve (te_book te) user"
    by (auto simp: book_reserve_def sound_book_def intro!: add_nonneg_nonneg reserve_nonneg)
  have f: "fits_book ?ob" using fits(1) by (simp add: fits_book_def set_attested_ms_def)
  have nf': "ty = Limit \<Longrightarrow> notional_fits (raw sz) (raw price)"
    using nf pl(2) by (auto simp: submit_order_def split: if_splits)
  have s: "book_reserve (te_book te') user \<le> book_reserve (te_book te) user
      + (if ty = Limit \<and> 0 < lev then exact_margin (raw sz) (raw price) lev else 0)"
    "fits_book (te_book te')" "wf_book (te_book te')" "0 < raw sz" "ty = Limit \<Longrightarrow> 0 < raw price"
    using submit_order_reserve(1) [OF _ f sz _ nf' pl(2), of user] submit_order_reserve(2-5) [OF _ f sz _ nf' pl(2)]
      wf id by simp_all
  have "book_reserve (te_book te) user + (if 0 < raw price \<and> 0 < lev then exact_margin (raw sz) (raw price) lev else 0) \<le> raw av"
    using margin_check_exact [OF pl(1) [unfolded avail(1)]] sound fits(2) nonneg av(2) avail(2) s(4) nf
    by (simp add: is_i64_def)
  moreover have "0 \<le> exact_margin (raw sz) (raw price) lev" if "0 < raw price"
    using that s(4) by (intro exact_margin_nonneg) auto
  ultimately have le: "book_reserve (te_book te') user \<le> raw av" using s(1,5) by (auto split: if_splits)
  then have "user_reserved_margin (te_book te') user = FP8 (book_reserve (te_book te') user)"
    using avail(2) by (intro reserved_exact sound_book_wf s(2,3)) (auto simp: is_i64_def)
  then show ?thesis using le s(3) by simp
qed

theorem reserve_at_placement_witness:
  "\<exists>res te'. engine_submit_order (log_enclave (FP8 1000)) (\<lambda>x. []) 8 9 sample_engine ProtocolVault ''dave'' Short Limit
      (FP8 95) (FP8 2) 2 Gtc False None = (Ok res, te') \<and> raw (user_reserved_margin (te_book te') ''dave'') \<le> 1000"
proof -
  obtain res te' where run: "engine_submit_order (log_enclave (FP8 1000)) (\<lambda>x. []) 8 9 sample_engine ProtocolVault ''dave''
      Short Limit (FP8 95) (FP8 2) 2 Gtc False None = (Ok res, te')"
    using sample_run [of "\<lambda>x. []" None] unfolding engine_submit_order_def by blast
  have book: "te_book sample_engine = sample_book" "te_enclave sample_engine = []" by (simp_all add: sample_engine_def)
  have "fits_book sample_book" "book_reserve sample_book ''dave'' < 2 ^ 62"
    by (simp_all add: fits_book_def book_reserve_def sample_simps notional_fits_def FP8_SCALE_def margin_of_def)
  moreover have "fetch_available (log_enclave (FP8 1000)) ''dave'' [] = (Ok (FP8 1000), [])"
    using fp8_print_parse [of 1000] by (simp add: fetch_available_def log_enclave_def json_index_def is_i64_def)
  moreover have "notional_fits (raw (FP8 2)) (if 0 < raw (FP8 95) then raw (FP8 95) else FP8_SCALE)"
    by (simp add: notional_fits_def FP8_SCALE_def)
  moreover have "next_order_id sample_book + 1 < 2 ^ 64" by (simp add: sample_book_def)
  ultimately have "raw (user_reserved_margin (te_book te') ''dave'') \<le> raw (FP8 1000)"
    using reserve_at_placement [OF _ _ _ _ _ _ _ _ run] sample_book_wf unfolding book by fastforce
  with run show ?thesis by auto
qed

end
