(* ===== verification/Replay_Props.thy ===== *)
theory Replay_Props
  imports Replay Trading_Margin
begin

text \<open>
  What the sequencer publishes against what a validator does with it: the state hash, the
  replay of the fills in the validator's own enclave, the refusal of orders that do not match
  their signature, and the gates before any of it.
\<close>

section \<open>Numbers on the wire\<close>

definition wire_ok :: "trade list \<Rightarrow> bool" where
  "wire_ok trades \<longleftrightarrow> (\<forall>t\<in>set trades. is_i64 (raw (t_price t)) \<and> is_i64 (raw (t_size t)))"

lemma parse_printed: "is_i64 (raw x) \<Longrightarrow> fp8_from_str (fp8_to_string x) = Ok x"
  using fp8_print_parse [of "raw x"] by simp

lemma fills_bytes_published:
  "wire_ok trades \<Longrightarrow> fills_bytes (map fill_message_of trades) =
     Some (concat (map (\<lambda>t. le_bytes 8 (t_trade_id t) @ le_bytes_i64 (raw (t_price t)) @ le_bytes_i64 (raw (t_size t))) trades))"
  by (induction trades) (simp_all add: wire_ok_def fill_message_of_def price_bytes_def parse_printed)

lemma batch_hash_published:
  assumes "wire_ok trades"
  shows "batch_hash_input (make_batch digest seq peer now auth ord trades) = Some (state_hash_input seq trades now)"
  using fills_bytes_published [OF assms]
  by (simp add: batch_hash_input_def make_batch_def order_message_of_def state_hash_input_def)

section \<open>Replaying a published order\<close>

text \<open>What a replay leaves alone of a validator.\<close>

definition same_audit :: "'e validator \<Rightarrow> 'e validator \<Rightarrow> bool" where
  "same_audit v v' \<longleftrightarrow> va_state_hash_mismatches v' = va_state_hash_mismatches v
     \<and> va_unverified_orders v' = va_unverified_orders v \<and> va_vault_users v' = va_vault_users v"

lemma replay_leg_enclave:
  "va_enclave (replay_leg enc sq user sd sz price lev v) =
     snd (enc_open_position enc user sd sz price lev (va_enclave v))"
  "same_audit v (replay_leg enc sq user sd sz price lev v)"
  by (auto simp: replay_leg_def same_audit_def split: prod.splits sum.splits)

lemma write_fill_enclave:
  assumes "is_i64 (raw (t_price t))" "is_i64 (raw (t_size t))"
  shows "\<exists>v'. write_fill ord ts (fill_message_of t) v = Some v' \<and> va_enclave v' = va_enclave v \<and> same_audit v v'"
  using assms
  by (cases "va_db v") (simp_all add: write_fill_def fill_message_of_def parse_printed same_audit_def)

lemma settle_fill_open:
  "snd (settle_fill enc lev None t e) =
     (let p = fp8_to_string (t_price t); s = fp8_to_string (t_size t); (mk, tk) = leg_sides (t_taker_side t)
      in snd (enc_open_position enc (t_maker_user_id t) mk s p lev
           (snd (enc_open_position enc (t_taker_user_id t) tk s p lev e))))"
  by (auto simp: settle_fill_def leg_sides_def Let_def split: prod.splits side.splits)

lemma replay_fill_settles:
  assumes t: "is_i64 (raw (t_price t))" "is_i64 (raw (t_size t))" "t_taker_user_id t = om_user_id ord"
  shows "\<exists>v'. replay_fill enc sq ord ts (fill_message_of t) v = Some v'
    \<and> va_enclave v' = snd (settle_fill enc (om_leverage ord) None t (va_enclave v)) \<and> same_audit v v'"
proof -
  let ?tk = "side_to_string (t_taker_side t)" and ?mk = "case t_taker_side t of Long \<Rightarrow> ''short'' | Short \<Rightarrow> ''long''"
  let ?p = "fp8_to_string (t_price t)" and ?s = "fp8_to_string (t_size t)"
  define v1 where "v1 = replay_leg enc sq (om_user_id ord) ?tk ?s ?p (om_leverage ord) v"
  define v2 where "v2 = replay_leg enc sq (t_maker_user_id t) ?mk ?s ?p (om_leverage ord) v1"
  have run: "replay_fill enc sq ord ts (fill_message_of t) v = write_fill ord ts (fill_message_of t) v2"
    unfolding replay_fill_def v2_def v1_def
    by (cases "t_taker_side t") (simp_all add: fill_message_of_def side_to_string_def)
  have e: "va_enclave v2 = snd (settle_fill enc (om_leverage ord) None t (va_enclave v))"
    unfolding v2_def v1_def settle_fill_open using t(3)
    by (cases "t_taker_side t") (simp_all add: replay_leg_enclave leg_sides_def side_to_string_def Let_def)
  have a: "same_audit v v2" using replay_leg_enclave(2) unfolding v1_def v2_def same_audit_def by metis
  show ?thesis using write_fill_enclave [OF t(1,2), of ord ts v2] run e a by (auto simp: same_audit_def)
qed

lemma replay_fills_settles:
  assumes "wire_ok trades" "\<forall>t\<in>set trades. t_taker_user_id t = om_user_id ord"
  shows "\<exists>v'. replay_fills enc sq ord ts (map fill_message_of trades) v = Some v'
    \<and> va_enclave v' = snd (settle_fills enc (om_leverage ord) None trades (va_enclave v)) \<and> same_audit v v'"
  using assms
proof (induction trades arbitrary: v)
  case (Cons t trades)
  obtain v1 where v1: "replay_fill enc sq ord ts (fill_message_of t) v = Some v1"
    "va_enclave v1 = snd (settle_fill enc (om_leverage ord) None t (va_enclave v))" "same_audit v v1"
    using replay_fill_settles [of t ord enc sq ts v] Cons.prems by (auto simp: wire_ok_def)
  obtain v2 where "replay_fills enc sq ord ts (map fill_message_of trades) v1 = Some v2"
    "va_enclave v2 = snd (settle_fills enc (om_leverage ord) None trades (va_enclave v1))" "same_audit v1 v2"
    using Cons.IH [of v1] Cons.prems by (auto simp: wire_ok_def)
  then show ?case using v1 by (auto simp: same_audit_def case_prod_beta Let_def)
qed (simp add: same_audit_def)

definition in_window :: "nat \<Rightarrow> nat \<Rightarrow> bool" where
  "in_window timestamp my_ripple \<longleftrightarrow> my_ripple \<noteq> 0
     \<and> timestamp - RIPPLE_EPOCH_OFFSET_SECS \<le> u64_saturating_add my_ripple BATCH_TIME_FWD_TOL_SECS
     \<and> my_ripple - (timestamp - RIPPLE_EPOCH_OFFSET_SECS) \<le> BATCH_TIME_MAX_LAG_SECS"

lemma batch_time_skip_window:
  "batch_time_skip ts my d = (if in_window ts my then (False, d) else (True, u64_add d 1))"
  by (auto simp: batch_time_skip_def batch_time_divergence_def in_window_def Let_def u64_saturating_sub_def
      split: if_splits)

lemma replay_published:
  assumes wire: "wire_ok trades" and users: "\<forall>t\<in>set trades. t_taker_user_id t = o_user_id ord"
    and v: "\<not> va_is_sequencer v" "va_leader v = Some peer" "in_window now (va_my_ripple v)"
    and ok: "verify_replicated_order cr (order_message_of auth ord trades) (va_vault_users v) = Verified"
  shows "\<exists>v'. replay_batch enc cr digest (make_batch digest seq peer now auth ord trades) (Some peer) v = Some v'
    \<and> va_enclave v' = snd (settle_fills enc (o_leverage ord) None trades (va_enclave v)) \<and> same_audit v v'"
proof -
  let ?b = "make_batch digest seq peer now auth ord trades" and ?m = "order_message_of auth ord trades"
  let ?v = "v\<lparr>va_last_seq := seq, va_batches_seen := u64_add (va_batches_seen v) 1, va_last_batch_seq := seq\<rparr>"
  have m: "om_user_id ?m = o_user_id ord" "om_leverage ?m = o_leverage ord" "om_fills ?m = map fill_message_of trades"
    by (simp_all add: order_message_of_def)
  have "\<forall>t\<in>set trades. t_taker_user_id t = om_user_id ?m" using users m(1) by simp
  from replay_fills_settles [OF wire this, of enc peer "min (now * 1000) (2 ^ 64 - 1)" ?v]
  obtain v' where "replay_fills enc peer ?m (min (now * 1000) (2 ^ 64 - 1)) (om_fills ?m) ?v = Some v'"
    "va_enclave v' = snd (settle_fills enc (o_leverage ord) None trades (va_enclave v))" "same_audit v v'"
    by (auto simp: m same_audit_def)
  moreover have "batch_hash_input ?b = Some (state_hash_input seq trades now)" by (rule batch_hash_published [OF wire])
  ultimately show ?thesis
    using v ok by (simp add: replay_batch_def leader_gate_accept make_batch_def batch_time_skip_window Let_def)
qed

section \<open>The gates of a replay\<close>

lemma replay_orders_enclave:
  assumes "replay_orders enc cr sq ts ords v = Some v'" "va_enclave v' \<noteq> va_enclave v"
  shows "\<exists>ord\<in>set ords. om_fills ord \<noteq> [] \<and> verify_replicated_order cr ord (va_vault_users v) = Verified"
  using assms
proof (induction enc cr sq ts ords v rule: replay_orders.induct)
  case (2 enc cr sq ts ord ords v)
  show ?case
  proof (cases "verify_replicated_order cr ord (va_vault_users v)")
    case Verified
    then show ?thesis
    proof (cases "om_fills ord")
      case Nil
      then show ?thesis using 2 Verified by auto
    qed auto
  next
    case (Refused r)
    then show ?thesis using 2 by auto
  qed (use 2 in auto)
qed simp

text \<open>What a verified client order was signed for.\<close>

definition signed_terms :: "json \<Rightarrow> order_message \<Rightarrow> bool" where
  "signed_terms body ord \<longleftrightarrow>
     body_str body ''user_id'' = om_user_id ord
   \<and> (\<exists>sd. parse_side (body_str body ''side'') = Some sd \<and> om_side ord = side_to_string sd)
   \<and> num_value (body_str body ''size'') = num_value (om_size ord)
   \<and> (body_str body ''price'' = [] \<or> num_value (body_str body ''price'') = num_value (om_price ord))"

lemma check_terms_Verified:
  assumes "check_terms body ord = Verified"
  shows "signed_terms body ord"
proof -
  have u: "body_str body ''user_id'' = om_user_id ord" using assms by (auto simp: check_terms_def split: if_splits)
  obtain sd where sd: "parse_side (body_str body ''side'') = Some sd" "side_to_string sd = om_side ord"
    using assms u by (auto simp: check_terms_def split: option.splits if_splits)
  obtain a where sz: "num_value (body_str body ''size'') = Some a" "num_value (om_size ord) = Some a"
    using assms u sd by (auto simp: check_terms_def split: option.splits if_splits)
  have "body_str body ''price'' = [] \<or> num_value (body_str body ''price'') = num_value (om_price ord)"
    using assms u sd sz by (auto simp: check_terms_def Let_def split: option.splits if_splits)
  then show ?thesis using u sd sz by (auto simp: signed_terms_def)
qed

lemma verify_client_order:
  assumes "verify_replicated_order cr ord vaults = Verified" "om_authorization ord = Some (ClientSigned b)"
  shows "verify_signature_only cr b = Ok () \<and> signer_address b = om_user_id ord
    \<and> (\<exists>raw body. hex_decode cr (signed_body_hex b) = Some raw \<and> json_parse cr raw = Some body \<and> signed_terms body ord)"
  using assms check_terms_Verified
  by (auto simp: verify_replicated_order_def split: sum.splits option.splits if_splits)

section \<open>Example runs\<close>

definition sample_validator :: "enclave_call list validator" where
  "sample_validator =
     \<lparr>va_is_sequencer = False, va_leader = Some ''A'', va_my_ripple = 7, va_vault_users = [''dave''],
      va_enclave = [], va_db = None, va_last_seq = 0, va_batches_seen = 0, va_last_batch_seq = 0,
      va_state_hash_mismatches = 0, va_mismatches_of = (\<lambda>_. 0), va_batch_time_divergences = 0,
      va_unverified_orders = 0, va_replay_failures = 0, va_failures_of = (\<lambda>_. 0), va_replays_ok = 0\<rparr>"

definition no_crypto :: crypto where
  "no_crypto = \<lparr>hex_decode = (\<lambda>_. None), cr_sha256 = id, cr_sha512 = id, cr_ripemd160 = id, bs58_xrpl = (\<lambda>_. []),
     secp_key_ok = (\<lambda>_. False), der_ok = (\<lambda>_. False), secp_verify = (\<lambda>_ _ _. False), ed_key_ok = (\<lambda>_. False),
     ed_verify = (\<lambda>_ _ _. False), json_parse = (\<lambda>_. None)\<rparr>"

lemma sample_verified:
  "o_user_id ord = ''dave'' \<Longrightarrow>
     verify_replicated_order no_crypto (order_message_of ProtocolVault ord trades) (va_vault_users sample_validator) = Verified"
  by (simp add: verify_replicated_order_def order_message_of_def sample_validator_def)

lemma sample_window: "in_window 946684807 7"
  by (simp add: in_window_def RIPPLE_EPOCH_OFFSET_SECS_def u64_saturating_add_def BATCH_TIME_FWD_TOL_SECS_def BATCH_TIME_MAX_LAG_SECS_def)

lemma sample_close_run:
  "\<exists>res te'. submit_close_order (log_enclave (FP8 1000)) digest 8 9 sample_engine ProtocolVault ''dave'' Short (FP8 2) 2 5
      = (Ok res, te') \<and> or_trades res \<noteq> [] \<and> wire_ok (or_trades res)
      \<and> o_user_id (or_order res) = ''dave'' \<and> t_timestamp_ms (hd (or_trades res)) = 946684807000"
proof -
  have c: "read_attested_ms (log_enclave (FP8 1000)) [] = (Ok 946684807000, [])"
    by (simp add: read_attested_ms_def log_enclave_def json_index_def RIPPLE_EPOCH_def u64_mul_def u64_add_def Let_def)
  have "\<exists>ord trades book. place_locked 8 9 946684807000 sample_book ''dave'' Short Market fp8_ZERO (FP8 2) 2 Ioc True None None
      = (Ok (ord, trades, []), book) \<and> trades \<noteq> [] \<and> wire_ok trades
      \<and> o_user_id ord = ''dave'' \<and> t_timestamp_ms (hd trades) = 946684807000"
    by (simp add: place_locked_def margin_check_def run_simps sample_simps wire_ok_def is_i64_def)
  then obtain ord trades book where d: "place_locked 8 9 946684807000 sample_book ''dave'' Short Market fp8_ZERO (FP8 2) 2 Ioc True None None
      = (Ok (ord, trades, []), book)" "trades \<noteq> []" "wire_ok trades"
      "o_user_id ord = ''dave''" "t_timestamp_ms (hd trades) = 946684807000" by blast
  show ?thesis
    by (simp add: submit_close_order_def submit_order_inner_def authorised_def available_for_def sample_engine_def c d
        case_prod_beta Let_def)
qed

definition sample_binding :: order_signature_binding where
  "sample_binding = \<lparr>signed_body_hex = ''00'', signature_hex = ''00'', osb_timestamp = ''0'', signer_address = ''alice'',
     signer_pubkey_hex = ''02''\<rparr>"

lemma sample_stp_run:
  "\<exists>res te'. engine_submit_order (log_enclave (FP8 1000)) digest 8 9 sample_engine (ClientSigned sample_binding) ''alice'' Short
      Limit (FP8 85) (FP8 7) 2 Gtc False None = (Ok res, te') \<and> or_trades res \<noteq> [] \<and> or_stp_cancelled res \<noteq> []"
proof -
  have b: "available_for (log_enclave (FP8 1000)) ''alice'' None [] = (Ok (Some (FP8 1000)), [])"
    using fp8_print_parse [of 1000]
    by (simp add: available_for_def fetch_available_def log_enclave_def json_index_def is_i64_def)
  have c: "read_attested_ms (log_enclave (FP8 1000)) [] = (Ok 946684807000, [])"
    by (simp add: read_attested_ms_def log_enclave_def json_index_def RIPPLE_EPOCH_def u64_mul_def u64_add_def Let_def)
  have "\<exists>ord trades stp book. place_locked 8 9 946684807000 sample_book ''alice'' Short Limit (FP8 85) (FP8 7) 2 Gtc False None
      (Some (FP8 1000)) = (Ok (ord, trades, stp), book) \<and> trades \<noteq> [] \<and> stp \<noteq> []"
    by (simp add: place_locked_def margin_check_def required_margin_def user_reserved_margin_def sum_level_def
      order_margin_def bt_values_def fp8_mul_def FP8_SCALE_def sdiv_nonneg fp8_ONE_def run_simps sample_simps)
  then obtain ord trades stp book where d: "place_locked 8 9 946684807000 sample_book ''alice'' Short Limit (FP8 85) (FP8 7) 2 Gtc
      False None (Some (FP8 1000)) = (Ok (ord, trades, stp), book)" "trades \<noteq> []" "stp \<noteq> []" by blast
  show ?thesis
    by (simp add: engine_submit_order_def submit_order_inner_def authorised_def sample_binding_def sample_engine_def b c d
        case_prod_beta Let_def)
qed

text \<open>The calls one fill makes, and the calls of a settlement in the log.\<close>

definition fill_calls :: "nat \<Rightarrow> nat option \<Rightarrow> trade \<Rightarrow> enclave_call list" where
  "fill_calls lev cp t =
     (let p = fp8_to_string (t_price t); s = fp8_to_string (t_size t)
      in [case cp of Some pos \<Rightarrow> CloseCall (t_taker_user_id t) pos p
                   | None \<Rightarrow> OpenCall (t_taker_user_id t) (snd (leg_sides (t_taker_side t))) s p lev,
          OpenCall (t_maker_user_id t) (fst (leg_sides (t_taker_side t))) s p lev])"

lemma log_settle_fills:
  "snd (settle_fills (log_enclave a) lev cp trades e) = e @ concat (map (fill_calls lev cp) trades)"
proof (induction trades arbitrary: e)
  case (Cons t trades)
  have "snd (settle_fill (log_enclave a) lev cp t e) = e @ fill_calls lev cp t"
    by (simp add: settle_fill_def log_enclave_def fill_calls_def Let_def case_prod_beta split: option.splits)
  then show ?case using Cons by (simp add: case_prod_beta Let_def)
qed simp

lemma engine_trades:
  assumes wf: "wf_book (te_book te)" and sz: "raw sz < 2 ^ 63"
    and run: "submit_order_inner enc digest tp tr te auth user sd ty price sz lev tif ro cid cp = (Ok res, te')"
    and ne: "or_trades res \<noteq> []"
  obtains e2 at where "te_enclave te' = snd (settle_fills enc lev cp (or_trades res) e2)"
    "te_batch_tx te' = map_option (\<lambda>sent. sent @ [make_batch digest (te_seq_num te) (te_peer_id te)
       (at div 1000) auth (or_order res) (or_trades res)]) (te_batch_tx te)"
    "\<forall>t\<in>set (or_trades res). t_taker_user_id t = o_user_id (or_order res)"
    "o_leverage (or_order res) = lev" "raw (o_size (or_order res)) = raw sz - prevented (or_stp_cancelled res)"
    "\<forall>x\<in>set (or_stp_cancelled res). 0 < snd x"
    "\<forall>t\<in>set (or_trades res). t_timestamp_ms t = at"
    "read_attested_ms enc (snd (available_for enc user cp (te_enclave te))) = (Ok at, e2)"
proof -
  obtain avail e1 at e2 ord trades stp where d:
    "place_locked tp tr at (te_book te) user sd ty price sz lev tif ro cid avail = (Ok (ord, trades, stp), te_book te')"
    "or_order res = ord\<lparr>o_close_position_id := cp\<rparr>" "or_trades res = trades" "or_stp_cancelled res = stp"
    "te_enclave te' = snd (settle_fills enc lev cp trades e2)"
    "te_batch_tx te' = map_option (\<lambda>sent. sent @ [make_batch digest (te_seq_num te) (te_peer_id te)
       (at div 1000) auth (or_order res) trades]) (te_batch_tx te)"
    "available_for enc user cp (te_enclave te) = (Ok avail, e1)" "read_attested_ms enc e1 = (Ok at, e2)"
    using run by (rule submit_order_inner_Ok) (use ne in blast)
  note sub = place_locked_Ok(2) [OF d(1)]
  have wf': "wf_book (set_attested_ms (te_book te) at)" using wf by simp
  note c = submit_order_conserved [OF wf' sz sub] and f = submit_order_fields [OF wf' sz sub]
  show thesis
    by (rule that [of e2 at]) (use c f d in \<open>simp_all add: set_attested_ms_def\<close>)
qed

lemma engine_size:
  assumes wf: "wf_book (te_book te)" and sz: "raw sz < 2 ^ 63"
    and run: "engine_submit_order enc digest tp tr te auth user sd ty price sz lev tif ro cid = (Ok res, te')"
  shows "0 \<le> raw (o_size (or_order res))"
proof -
  obtain at ord trades stp avail where d:
    "place_locked tp tr at (te_book te) user sd ty price sz lev tif ro cid avail = (Ok (ord, trades, stp), te_book te')"
    "or_order res = ord\<lparr>o_close_position_id := None\<rparr>"
    using run unfolding engine_submit_order_def by (rule submit_order_inner_Ok) blast
  have wf': "wf_book (set_attested_ms (te_book te) at)" using wf by simp
  from submit_order_conserved [OF wf' sz place_locked_Ok(2) [OF d(1)]] d(2) show ?thesis by simp
qed

section \<open>Properties\<close>



text \<open>
  Replication of a closing order diverges: the sequencer settles the taker's leg by closing
  its position, the batch does not say so, and a validator that accepts the batch opens a new
  position for the taker instead.
\<close>

theorem close_order_replays_as_open:
  assumes wf: "wf_book (te_book te)" and sz: "raw sz < 2 ^ 63"
    and run: "submit_close_order enc digest tp tr te auth user sd sz lev pos = (Ok res, te')"
    and trades: "or_trades res \<noteq> []" "wire_ok (or_trades res)" and tx: "te_batch_tx te = Some sent"
    and v: "\<not> va_is_sequencer v" "va_leader v = Some (te_peer_id te)"
    and time: "in_window (t_timestamp_ms (hd (or_trades res)) div 1000) (va_my_ripple v)"
    and auth: "verify_replicated_order cr (order_message_of auth (or_order res) (or_trades res)) (va_vault_users v) = Verified"
  shows "\<exists>b e2 v'. te_batch_tx te' = Some (sent @ [b])
    \<and> te_enclave te' = snd (settle_fills enc lev (Some pos) (or_trades res) e2)
    \<and> replay_batch enc cr digest b (Some (te_peer_id te)) v = Some v'
    \<and> va_enclave v' = snd (settle_fills enc lev None (or_trades res) (va_enclave v))"
proof -
  from engine_trades [OF wf sz run [unfolded submit_close_order_def] trades(1)] obtain e2 at where t:
    "te_enclave te' = snd (settle_fills enc lev (Some pos) (or_trades res) e2)"
    "te_batch_tx te' = map_option (\<lambda>sent. sent @ [make_batch digest (te_seq_num te) (te_peer_id te)
       (at div 1000) auth (or_order res) (or_trades res)]) (te_batch_tx te)"
    "\<forall>t\<in>set (or_trades res). t_taker_user_id t = o_user_id (or_order res)"
    "o_leverage (or_order res) = lev" "\<forall>t\<in>set (or_trades res). t_timestamp_ms t = at" by metis
  have "t_timestamp_ms (hd (or_trades res)) = at" using t(5) trades(1) by simp
  with replay_published [OF trades(2) t(3) v(1,2) _ auth, of "at div 1000" enc digest "te_seq_num te"] time t tx
  show ?thesis by auto
qed

theorem close_order_replays_as_open_witness:
  "\<exists>res te' e2 b v'. submit_close_order (log_enclave (FP8 1000)) (\<lambda>x. []) 8 9 sample_engine ProtocolVault ''dave'' Short (FP8 2) 2 5
      = (Ok res, te') \<and> or_trades res \<noteq> [] \<and> te_batch_tx te' = Some [b]
    \<and> te_enclave te' = e2 @ concat (map (fill_calls 2 (Some 5)) (or_trades res))
    \<and> replay_batch (log_enclave (FP8 1000)) no_crypto (\<lambda>x. []) b (Some ''A'') sample_validator = Some v'
    \<and> va_enclave v' = concat (map (fill_calls 2 None) (or_trades res))"
proof -
  obtain res te' where run: "submit_close_order (log_enclave (FP8 1000)) (\<lambda>x. []) 8 9 sample_engine ProtocolVault ''dave'' Short
      (FP8 2) 2 5 = (Ok res, te')" "or_trades res \<noteq> []" "wire_ok (or_trades res)"
    "o_user_id (or_order res) = ''dave''" "t_timestamp_ms (hd (or_trades res)) = 946684807000"
    using sample_close_run [of "\<lambda>x. []"] by blast
  have "wf_book (te_book sample_engine)" by (simp add: sample_engine_def sample_book_wf)
  from close_order_replays_as_open [OF this _ run(1-3), of "[]" sample_validator no_crypto] sample_verified [OF run(4)] run(1,2,5)
  show ?thesis
    by (fastforce simp: sample_engine_def sample_validator_def sample_window log_settle_fills)
qed

text \<open>
  An order that self-trade prevention shortened is published with its shortened size, so no
  validator accepts it as the order its owner signed, and its fills are never replayed.
\<close>

theorem stp_reduced_order_refused:
  assumes wf: "wf_book (te_book te)" and sz: "0 < raw sz" "raw sz < 2 ^ 63"
    and run: "engine_submit_order enc digest tp tr te (ClientSigned b) user sd ty price sz lev tif ro cid = (Ok res, te')"
    and trades: "or_trades res \<noteq> []" and stp: "or_stp_cancelled res \<noteq> []"
    and body: "hex_decode cr (signed_body_hex b) = Some rb" "json_parse cr rb = Some bd"
      "fp8_from_str (body_str bd ''size'') = Ok sz"
  shows "verify_replicated_order cr (order_message_of (ClientSigned b) (or_order res) (or_trades res)) vaults \<noteq> Verified"
proof
  let ?m = "order_message_of (ClientSigned b) (or_order res) (or_trades res)"
  assume "verify_replicated_order cr ?m vaults = Verified"
  from verify_client_order [OF this] body have "signed_terms bd ?m" by (auto simp: order_message_of_def)
  then have eq: "num_value (fp8_to_string (o_size (or_order res))) = Some (raw sz)"
    using body(3) by (simp add: signed_terms_def order_message_of_def num_value_def)
  from engine_trades [OF wf sz(2) run [unfolded engine_submit_order_def] trades] obtain
    t: "raw (o_size (or_order res)) = raw sz - prevented (or_stp_cancelled res)"
    "\<forall>x\<in>set (or_stp_cancelled res). 0 < snd x" "\<forall>t\<in>set (or_trades res). t_taker_user_id t = o_user_id (or_order res)"
    by metis
  have "0 < prevented (or_stp_cancelled res)"
    using t(2) stp by (cases "or_stp_cancelled res") (fastforce simp: prevented_def intro!: add_pos_nonneg sum_list_nonneg)+
  moreover have "0 \<le> raw (o_size (or_order res))" using engine_size [OF wf sz(2) run] .
  ultimately have "is_i64 (raw (o_size (or_order res)))" "raw (o_size (or_order res)) \<noteq> raw sz"
    using t(1) sz by (auto simp: is_i64_def)
  with eq show False by (simp add: num_value_def parse_printed)
qed

theorem stp_reduced_order_refused_witness:
  "\<exists>res te'. engine_submit_order (log_enclave (FP8 1000)) (\<lambda>x. []) 8 9 sample_engine (ClientSigned sample_binding) ''alice'' Short
      Limit (FP8 85) (FP8 7) 2 Gtc False None = (Ok res, te') \<and> or_trades res \<noteq> []
    \<and> verify_replicated_order (no_crypto\<lparr>hex_decode := (\<lambda>_. Some [1]),
          json_parse := (\<lambda>_. Some (JObj [(''size'', JStr (fp8_to_string (FP8 7)))]))\<rparr>)
        (order_message_of (ClientSigned sample_binding) (or_order res) (or_trades res)) [] \<noteq> Verified"
proof -
  obtain res te' where run: "engine_submit_order (log_enclave (FP8 1000)) (\<lambda>x. []) 8 9 sample_engine (ClientSigned sample_binding)
      ''alice'' Short Limit (FP8 85) (FP8 7) 2 Gtc False None = (Ok res, te')" "or_trades res \<noteq> []" "or_stp_cancelled res \<noteq> []"
    using sample_stp_run by blast
  have wf: "wf_book (te_book sample_engine)" by (simp add: sample_engine_def sample_book_wf)
  show ?thesis
    using stp_reduced_order_refused [OF wf _ _ run] run(1,2) fp8_print_parse [of 7]
    by (fastforce simp: body_str_def is_i64_def)
qed

text \<open>
  C13. Nothing moves the validator's enclave but a batch of the elected leader: if replaying a
  batch changed it, the validator is not the sequencer, the authenticated publisher is the
  leader it believes in and named itself in the batch, the hash recomputed from the batch is
  the published one, the batch time lies in the window of the validator's own clock, and some
  order of the batch with fills was verified against its authorisation.
\<close>

theorem replay_needs_all_gates:
  assumes "replay_batch enc cr digest batch src v = Some v'" "va_enclave v' \<noteq> va_enclave v"
  shows "\<not> va_is_sequencer v \<and> src = Some (ba_sequencer_id batch) \<and> va_leader v = src
    \<and> map_option digest (batch_hash_input batch) = Some (ba_state_hash batch)
    \<and> in_window (ba_timestamp batch) (va_my_ripple v)
    \<and> (\<exists>ord\<in>set (ba_orders batch). om_fills ord \<noteq> [] \<and> verify_replicated_order cr ord (va_vault_users v) = Verified)"
proof -
  let ?v = "v\<lparr>va_last_seq := ba_seq_num batch, va_batches_seen := u64_add (va_batches_seen v) 1,
    va_last_batch_seq := ba_seq_num batch\<rparr>"
  have g: "\<not> va_is_sequencer v" "leader_gate_decision src (va_leader v) (ba_sequencer_id batch) = GateAccept"
    using assms by (auto simp: replay_batch_def split: if_splits)
  obtain input where i: "batch_hash_input batch = Some input" using assms g by (auto simp: replay_batch_def Let_def split: option.splits)
  have h: "digest input = ba_state_hash batch" using assms g i by (auto simp: replay_batch_def Let_def split: if_splits)
  have w: "in_window (ba_timestamp batch) (va_my_ripple v)"
    using assms g i h by (auto simp: replay_batch_def batch_time_skip_window Let_def split: if_splits)
  then have "replay_orders enc cr (ba_sequencer_id batch) (min (ba_timestamp batch * 1000) (2 ^ 64 - 1)) (ba_orders batch)
      ?v = Some v'" using assms(1) g i h by (simp add: replay_batch_def batch_time_skip_window Let_def)
  from replay_orders_enclave [OF this] assms(2) show ?thesis using g i h w by (auto simp: leader_gate_accept)
qed

theorem replay_needs_all_gates_witness:
  "\<exists>b v'. replay_batch (log_enclave (FP8 1000)) no_crypto (\<lambda>x. []) b (Some ''A'') sample_validator = Some v'
     \<and> va_enclave v' \<noteq> va_enclave sample_validator \<and> ba_sequencer_id b = ''A''"
proof -
  define t where "t = \<lparr>t_trade_id = 1, t_market = ''XRP'', t_maker_order_id = 2, t_taker_order_id = 4,
    t_maker_user_id = ''bob'', t_taker_user_id = ''dave'', t_price = FP8 100, t_size = FP8 2, t_taker_side = Short,
    t_timestamp_ms = 946684807000\<rparr>"
  let ?ord = "sample_order 4 ''dave'' Short 95 2"
  have "wire_ok [t]" "\<forall>x\<in>set [t]. t_taker_user_id x = o_user_id ?ord"
    by (simp_all add: wire_ok_def t_def is_i64_def sample_order_def)
  from replay_published [OF this, of sample_validator "''A''" 946684807 no_crypto ProtocolVault "log_enclave (FP8 1000)" "\<lambda>x. []" 1]
    sample_verified [of ?ord "[t]"]
  obtain v' where v': "replay_batch (log_enclave (FP8 1000)) no_crypto (\<lambda>x. [])
      (make_batch (\<lambda>x. []) 1 ''A'' 946684807 ProtocolVault ?ord [t]) (Some ''A'') sample_validator = Some v'"
    "va_enclave v' = snd (settle_fills (log_enclave (FP8 1000)) 2 None [t] [])"
    by (auto simp: sample_window sample_validator_def sample_order_def)
  have "va_enclave v' \<noteq> va_enclave sample_validator"
    unfolding v'(2) log_settle_fills by (simp add: fill_calls_def Let_def sample_validator_def)
  moreover from replay_needs_all_gates [OF v'(1) this]
  have "ba_sequencer_id (make_batch (\<lambda>x. []) 1 ''A'' 946684807 ProtocolVault ?ord [t]) = ''A''" by simp
  ultimately show ?thesis using v'(1) by blast
qed

end
