(* ===== verification/SpvProof.thy ===== *)
theory SpvProof
  imports TxShamap Json Fp8 "HOL-Library.Monad_Syntax"
begin

text \<open>
  \<^verbatim>\<open>orchestrator/src/spv_proof.rs\<close>: the byte shapes handed to the enclave. The ledger header, the
  wire nodes of \<open>getProofPath\<close>, the rebuild of the account-state SHAMap, the split of a raw
  validation into key, signature and signed body, and the three transport blobs. The hex
  decoder is a library function and the argument \<open>hex\<close>. Error values keep the innermost cause;
  the surrounding context strings are left out.
\<close>

type_synonym hex_fun = "string \<Rightarrow> bytes option"

datatype spv_error =
    NotAString string
  | NotHex string
  | WrongLength string nat
  | MissingField string
  | BadNumber string
  | FieldWidth string
  | EmptyInnerWire
  | FullInnerSize nat
  | CompressedInnerSize nat
  | BranchRange nat
  | NotInnerWire nat
  | NotAccountLeaf
  | PathTooShort nat
  | StateKeyCollision
  | StateIndexPanic
  | OtherIndexAtSlot
  | EmptyStateSlot nat
  | ValidationWalk
  | PubKeySize
  | NoSigningPubKey
  | NoSignature
  | ValidationTooLarge
  | CountTooLarge
  | LeafTooLarge
  | PathTooDeep
  | TxTooLarge
  | MetaTooLarge

definition require :: "'e \<Rightarrow> 'a option \<Rightarrow> 'e + 'a" where
  "require e x = (case x of None \<Rightarrow> Err e | Some v \<Rightarrow> Ok v)"

definition narrow :: "'e \<Rightarrow> nat \<Rightarrow> nat \<Rightarrow> 'e + nat" where
  "narrow e w n = (if n < 2 ^ w then Ok n else Err e)"

lemma require_Ok_iff [simp]: "require e x = Ok v \<longleftrightarrow> x = Some v"
  by (simp add: require_def split: option.splits)

lemma require_Err_iff: "require e x = Err e' \<longleftrightarrow> x = None \<and> e' = e"
  by (auto simp: require_def split: option.splits)

lemma narrow_Ok_iff [simp]: "narrow e w n = Ok v \<longleftrightarrow> v = n \<and> n < 2 ^ w"
  by (auto simp: narrow_def)

section \<open>The ledger header\<close>

definition HEADER_LEN :: nat where "HEADER_LEN = 118"
definition HP_LEDGER :: bytes where "HP_LEDGER = [0x4C, 0x57, 0x52, 0x00]"
definition HP_LEAF :: bytes where "HP_LEAF = [0x4D, 0x4C, 0x4E, 0x00]"

definition hex32 :: "hex_fun \<Rightarrow> json \<Rightarrow> string \<Rightarrow> spv_error + bytes" where
  "hex32 hex v k =
     result_bind (require (NotAString k) (json_as_str (json_index v k))) (\<lambda>s.
     result_bind (require (NotHex k) (hex s)) (\<lambda>b.
     if length b \<noteq> 32 then Err (WrongLength k (length b)) else Ok b))"

definition as_u64 :: "json \<Rightarrow> nat option" where
  "as_u64 v = (case json_as_u64 v of Some n \<Rightarrow> Some n | None \<Rightarrow> Option.bind (json_as_str v) parse_u64)"

text \<open>A numeric member that must fit \<open>w\<close> bits.\<close>

definition field_uint :: "nat \<Rightarrow> json \<Rightarrow> string \<Rightarrow> spv_error + nat" where
  "field_uint w ledger k =
     result_bind (require (MissingField k) (as_u64 (json_index ledger k))) (narrow (FieldWidth k) w)"

definition serialize_ledger_header :: "hex_fun \<Rightarrow> json \<Rightarrow> spv_error + bytes" where
  "serialize_ledger_header hex ledger =
     result_bind (field_uint 32 ledger ''ledger_index'') (\<lambda>seq.
     result_bind (require (MissingField ''total_coins'') (json_as_str (json_index ledger ''total_coins''))) (\<lambda>coins.
     result_bind (require (BadNumber ''total_coins'') (parse_u64 coins)) (\<lambda>drops.
     result_bind (hex32 hex ledger ''parent_hash'') (\<lambda>parent.
     result_bind (hex32 hex ledger ''transaction_hash'') (\<lambda>txh.
     result_bind (hex32 hex ledger ''account_hash'') (\<lambda>acct.
     result_bind (field_uint 32 ledger ''parent_close_time'') (\<lambda>pct.
     result_bind (field_uint 32 ledger ''close_time'') (\<lambda>ct.
     result_bind (field_uint 8 ledger ''close_time_resolution'') (\<lambda>ctr.
     result_bind (field_uint 8 ledger ''close_flags'') (\<lambda>cf.
     Ok (be_bytes 4 seq @ be_bytes 8 drops @ parent @ txh @ acct @ be_bytes 4 pct @ be_bytes 4 ct
         @ be_bytes 1 ctr @ be_bytes 1 cf)))))))))))"

definition ledger_hash :: "hash_fun \<Rightarrow> bytes \<Rightarrow> bytes" where
  "ledger_hash sha512 header = sha512half sha512 [HP_LEDGER, header]"

section \<open>Wire nodes\<close>

record xspv_proof =
  kind :: nat
  leaf_index :: bytes
  leaf_data :: bytes
  xspv_path :: "bytes list"

definition WIRE_ACCOUNT_STATE :: nat where "WIRE_ACCOUNT_STATE = 1"
definition WIRE_INNER :: nat where "WIRE_INNER = 2"
definition WIRE_COMPRESSED_INNER :: nat where "WIRE_COMPRESSED_INNER = 3"

text \<open>\<open>dst[i..i + src.len()].copy_from_slice(src)\<close>, and \<open>chunks(n)\<close>.\<close>

definition copy_at :: "nat \<Rightarrow> 'a list \<Rightarrow> 'a list \<Rightarrow> 'a list" where
  "copy_at i src dst = take i dst @ src @ drop (i + length src) dst"

function chunks :: "nat \<Rightarrow> 'a list \<Rightarrow> 'a list list" where
  "chunks n xs = (if xs = [] \<or> n = 0 then [] else take n xs # chunks n (drop n xs))"
  by pat_completeness auto
termination by (relation "measure (length \<circ> snd)") auto

declare chunks.simps [simp del]

fun place_chunks :: "bytes list \<Rightarrow> bytes \<Rightarrow> spv_error + bytes" where
  "place_chunks [] out = Ok out"
| "place_chunks (chunk # cs) out =
     (let branch = unat (chunk ! 32)
      in if 16 \<le> branch then Err (BranchRange branch)
         else place_chunks cs (copy_at (branch * 32) (take 32 chunk) out))"

definition wire_inner_to_512 :: "bytes \<Rightarrow> spv_error + bytes" where
  "wire_inner_to_512 wire =
     (if wire = [] then Err EmptyInnerWire
      else
        let tag = unat (last wire); body = butlast wire; out = replicate 512 0
        in if tag = WIRE_INNER then
             if length body \<noteq> 512 then Err (FullInnerSize (length wire)) else Ok body
           else if tag = WIRE_COMPRESSED_INNER then
             if length body mod 33 \<noteq> 0 then Err (CompressedInnerSize (length body))
             else place_chunks (chunks 33 body) out
           else Err (NotInnerWire tag))"

definition wire_leaf_split :: "bytes \<Rightarrow> spv_error + (bytes \<times> bytes)" where
  "wire_leaf_split wire =
     (let n = length wire
      in if n < 33 \<or> unat (last wire) \<noteq> WIRE_ACCOUNT_STATE then Err NotAccountLeaf
         else Ok (take (n - 33) wire, take 32 (drop (n - 33) wire)))"

fun map_result :: "('a \<Rightarrow> 'e + 'b) \<Rightarrow> 'a list \<Rightarrow> 'e + 'b list" where
  "map_result f [] = Ok []"
| "map_result f (x # xs) = result_bind (f x) (\<lambda>y. result_bind (map_result f xs) (\<lambda>ys. Ok (y # ys)))"

definition proof_from_getproofpath :: "bytes list \<Rightarrow> nat \<Rightarrow> spv_error + xspv_proof" where
  "proof_from_getproofpath proof_path knd =
     (if length proof_path < 2 then Err (PathTooShort (length proof_path))
      else
        result_bind (wire_leaf_split (hd proof_path)) (\<lambda>(data, index).
        result_bind (map_result wire_inner_to_512 (rev (tl proof_path))) (\<lambda>inner.
        Ok \<lparr>kind = knd, leaf_index = index, leaf_data = data, xspv_path = inner\<rparr>)))"

text \<open>
  The host's own walk. The key has 32 bytes, so a path of more than 64 nodes indexes past its
  end, which panics: the value \<open>None\<close>.
\<close>

fun verify_up :: "hash_fun \<Rightarrow> bytes \<Rightarrow> bytes list \<Rightarrow> nat \<Rightarrow> bytes \<Rightarrow> bytes \<Rightarrow> bool option" where
  "verify_up sha512 index path 0 running account_hash = Some (running = account_hash)"
| "verify_up sha512 index path (Suc d) running account_hash =
     (if length index \<le> d div 2 then None
      else
        let node = path ! d; nib = nibble index d
        in if take 32 (drop (nib * 32) node) \<noteq> running then Some False
           else verify_up sha512 index path d (sha512half sha512 [HP_INNER, node]) account_hash)"

definition verify_inclusion :: "hash_fun \<Rightarrow> xspv_proof \<Rightarrow> bytes \<Rightarrow> bool option" where
  "verify_inclusion sha512 pf account_hash =
     verify_up sha512 (leaf_index pf) (xspv_path pf) (length (xspv_path pf))
       (sha512half sha512 [HP_LEAF, leaf_data pf, leaf_index pf]) account_hash"

section \<open>The account-state tree\<close>

datatype state_node = SEmpty | SLeaf bytes bytes | SInner "state_node list"

definition state_nibble :: "bytes \<Rightarrow> nat \<Rightarrow> nat" where
  "state_nibble key depth =
     (if depth mod 2 = 0 then unat (key ! (depth div 2)) div 16 else unat (key ! (depth div 2)) mod 16)"

definition state_empty_inner :: state_node where
  "state_empty_inner = SInner (replicate 16 SEmpty)"

fun state_hash :: "hash_fun \<Rightarrow> state_node \<Rightarrow> bytes" where
  "state_hash sha512 SEmpty = replicate 32 0"
| "state_hash sha512 (SLeaf key data) = sha512half sha512 [HP_LEAF, data, key]"
| "state_hash sha512 (SInner children) =
     sha512half sha512 [HP_INNER, concat (map (state_hash sha512) children)]"

fun state_flat_children :: "hash_fun \<Rightarrow> state_node \<Rightarrow> bytes option" where
  "state_flat_children sha512 (SInner children) = Some (concat (map (state_hash sha512) children))"
| "state_flat_children sha512 _ = None"

text \<open>Unlike the transaction tree, a key met twice keeps the first object and succeeds.\<close>

function state_insert :: "state_node \<Rightarrow> bytes \<Rightarrow> bytes \<Rightarrow> nat \<Rightarrow> spv_error + state_node" where
  "state_insert node key data depth =
     (if 64 \<le> depth then Err StateKeyCollision
      else case node of
          SEmpty \<Rightarrow> Ok (SLeaf key data)
        | SLeaf ek ed \<Rightarrow>
            if ek = key then Ok node
            else (case state_insert state_empty_inner ek ed depth of
                    Inl e \<Rightarrow> Err e
                  | Inr node' \<Rightarrow> state_insert node' key data depth)
        | SInner children \<Rightarrow>
            let nib = state_nibble key depth
            in if nib < length children
               then (case state_insert (children ! nib) key data (depth + 1) of
                       Inl e \<Rightarrow> Err e
                     | Inr child \<Rightarrow> Ok (SInner (children[nib := child])))
               else Err StateIndexPanic)"
  by pat_completeness auto
termination
proof (relation "measures [\<lambda>(node, key, data, depth). 64 - depth,
    \<lambda>(node, key, data, depth). case node of SLeaf _ _ \<Rightarrow> 1 | _ \<Rightarrow> 0]", goal_cases)
  case (3 node key data depth ek ed n)
  have "state_insert (SInner cs) k x d = Ok m \<Longrightarrow> \<exists>cs'. m = SInner cs'"
    if "state_insert_dom (SInner cs, k, x, d)" for cs k x d m
    unfolding state_insert.psimps [OF that] by (auto simp: Let_def split: if_splits sum.splits)
  then show ?case using 3 by (fastforce simp: state_empty_inner_def)
qed (auto simp: state_empty_inner_def)

declare state_insert.simps [simp del]

record state_shamap = state_root :: state_node

fun state_insert_all :: "(bytes \<times> bytes) list \<Rightarrow> state_node \<Rightarrow> spv_error + state_node" where
  "state_insert_all [] node = Ok node"
| "state_insert_all ((key, data) # items) node =
     result_bind (state_insert node key data 0) (state_insert_all items)"

definition state_build :: "(bytes \<times> bytes) list \<Rightarrow> spv_error + state_shamap" where
  "state_build items =
     result_bind (state_insert_all items (if items = [] then SEmpty else state_empty_inner))
       (\<lambda>node. Ok \<lparr>state_root = node\<rparr>)"

definition state_root_hash :: "hash_fun \<Rightarrow> state_shamap \<Rightarrow> bytes" where
  "state_root_hash sha512 m = state_hash sha512 (state_root m)"

function state_path_loop ::
  "hash_fun \<Rightarrow> bytes \<Rightarrow> state_node \<Rightarrow> nat \<Rightarrow> bytes list \<Rightarrow> spv_error + xspv_proof" where
  "state_path_loop sha512 target (SInner children) depth path =
     (let nib = state_nibble target depth
      in if nib < length children
         then state_path_loop sha512 target (children ! nib) (depth + 1)
                (path @ [concat (map (state_hash sha512) children)])
         else Err StateIndexPanic)"
| "state_path_loop sha512 target (SLeaf key data) depth path =
     (if key \<noteq> target then Err OtherIndexAtSlot
      else Ok \<lparr>kind = 0, leaf_index = target, leaf_data = data, xspv_path = path\<rparr>)"
| "state_path_loop sha512 target SEmpty depth path = Err (EmptyStateSlot depth)"
  by pat_completeness auto
termination
  by (relation "measure (\<lambda>(_, _, node, _, _). size node)")
    (auto simp: less_Suc_eq_le intro: size_list_estimation' [OF nth_mem])

definition state_proof :: "hash_fun \<Rightarrow> state_shamap \<Rightarrow> bytes \<Rightarrow> spv_error + xspv_proof" where
  "state_proof sha512 m target = state_path_loop sha512 target (state_root m) 0 []"

section \<open>Validations\<close>

definition byte_at :: "bytes \<Rightarrow> nat \<Rightarrow> nat option" where
  "byte_at b i = (if i < length b then Some (unat (b ! i)) else None)"

text \<open>The start and length of the value of a field of type \<open>tc\<close> whose header ends at \<open>i\<close>.\<close>

definition st_value :: "bytes \<Rightarrow> nat \<Rightarrow> nat \<Rightarrow> (nat \<times> nat) option" where
  "st_value b tc i =
     (if tc = 1 then Some (i, 2)
      else if tc = 2 then Some (i, 4)
      else if tc = 3 then Some (i, 8)
      else if tc = 4 then Some (i, 16)
      else if tc = 5 then Some (i, 32)
      else if tc = 16 then Some (i, 1)
      else if tc = 6 then do { x \<leftarrow> byte_at b i; Some (i, if 128 \<le> x then 48 else 8) }
      else if tc = 7 \<or> tc = 8 \<or> tc = 19 then do {
        l0 \<leftarrow> byte_at b i;
        if l0 \<le> 192 then Some (i + 1, l0)
        else if l0 \<le> 240 then do {
          x \<leftarrow> byte_at b (i + 1);
          Some (i + 2, 193 + (l0 - 193) * 2 ^ 8 + x) }
        else do {
          a \<leftarrow> byte_at b (i + 1);
          bb \<leftarrow> byte_at b (i + 2);
          Some (i + 3, 12481 + (l0 - 241) * 2 ^ 16 + a * 2 ^ 8 + bb) } }
      else None)"

definition st_next :: "bytes \<Rightarrow> nat \<Rightarrow> (nat \<times> nat \<times> nat \<times> nat \<times> nat) option" where
  "st_next b pos = do {
     h \<leftarrow> byte_at b pos;
     (tc, i) \<leftarrow> (if h div 16 = 0 then do { t \<leftarrow> byte_at b (pos + 1); Some (t, pos + 2) }
                 else Some (h div 16, pos + 1));
     (fc, i) \<leftarrow> (if h mod 16 = 0 then do { f \<leftarrow> byte_at b i; Some (f, i + 1) }
                 else Some (h mod 16, i));
     (vstart, vlen) \<leftarrow> st_value b tc i;
     if length b < vstart + vlen then None else Some (tc, fc, pos, vstart, vstart + vlen) }"

lemma st_value_start: "st_value b tc i = Some (vs, l) \<Longrightarrow> i \<le> vs"
  by (auto simp: st_value_def bind_eq_Some_conv split: if_splits)

lemma st_next_progress:
  assumes "st_next b pos = Some (tc, fc, s, vs, nx)"
  shows "pos < vs" "vs \<le> nx" "nx \<le> length b" "s = pos"
  using assms st_value_start
  by (fastforce simp: st_next_def bind_eq_Some_conv split: if_splits prod.splits)+

lemma st_next_measure:
  "st_next b pos = Some (tc, fc, s, vs, nx) \<Longrightarrow> pos < length b \<Longrightarrow> length b - nx < length b - pos"
  using st_next_progress [of b pos tc fc s vs nx] by linarith

text \<open>The loop of \<open>validation_entry\<close>: the key, the signature, and where its field lies.\<close>

function entry_loop ::
  "bytes \<Rightarrow> nat \<Rightarrow> bytes option \<Rightarrow> bytes option \<Rightarrow> (nat \<times> nat) option
    \<Rightarrow> spv_error + (bytes option \<times> bytes option \<times> (nat \<times> nat) option)" where
  "entry_loop data pos pubkey sig sig_field =
     (if length data \<le> pos then Ok (pubkey, sig, sig_field)
      else case st_next data pos of
          None \<Rightarrow> Err ValidationWalk
        | Some (tc, fc, idst, vs, nx) \<Rightarrow>
            if tc = 7 \<and> fc = 3 then
              if nx - vs \<noteq> 33 then Err PubKeySize
              else entry_loop data nx (Some (take (nx - vs) (drop vs data))) sig sig_field
            else if tc = 7 \<and> fc = 6 then
              entry_loop data nx pubkey (Some (take (nx - vs) (drop vs data))) (Some (idst, nx))
            else entry_loop data nx pubkey sig sig_field)"
  by pat_completeness auto
termination
  by (relation "measure (\<lambda>(data, pos, _). length data - pos)") (auto dest!: st_next_measure simp: not_le)

declare entry_loop.simps [simp del]

type_synonym val_entry = "bytes \<times> bytes \<times> bytes"

definition validation_entry :: "bytes \<Rightarrow> spv_error + val_entry" where
  "validation_entry data =
     result_bind (entry_loop data 0 None None None) (\<lambda>(pubkey, sig, sig_field).
     result_bind (require NoSigningPubKey pubkey) (\<lambda>pk.
     result_bind (require NoSignature sig) (\<lambda>sg.
     let (sf_start, sf_end) = the sig_field
     in Ok (pk, sg, take sf_start data @ drop sf_end data))))"

definition frame_entry :: "val_entry \<Rightarrow> bytes" where
  "frame_entry = (\<lambda>(pk, sig, vbody).
     pk @ be_bytes 1 (length sig) @ sig @ be_bytes 2 (length vbody) @ vbody)"

fun validations_loop :: "bytes list \<Rightarrow> nat \<Rightarrow> bytes \<Rightarrow> spv_error + (nat \<times> bytes)" where
  "validations_loop [] n out = Ok (n, out)"
| "validations_loop (d # datas) n out =
     result_bind (validation_entry d) (\<lambda>(pk, sig, vbody).
     if 72 < length sig \<or> 65535 < length vbody then Err ValidationTooLarge
     else validations_loop datas ((n + 1) mod 2 ^ 16) (out @ frame_entry (pk, sig, vbody)))"

definition build_validations_section :: "bytes list \<Rightarrow> spv_error + (nat \<times> bytes)" where
  "build_validations_section datas = validations_loop datas 0 []"

section \<open>Transport blobs\<close>

definition XSPV_MAGIC :: bytes where "XSPV_MAGIC = [0x58, 0x53, 0x50, 0x56]"
definition XDEP_MAGIC :: bytes where "XDEP_MAGIC = [0x58, 0x44, 0x45, 0x50]"
definition XCLK_MAGIC :: bytes where "XCLK_MAGIC = [0x58, 0x43, 0x4C, 0x4B]"

text \<open>The prefix all three formats write: magic, version, header length, header, validations.\<close>

definition attested_prefix :: "bytes \<Rightarrow> bytes \<Rightarrow> nat \<Rightarrow> bytes \<Rightarrow> bytes" where
  "attested_prefix magic header val_count validations =
     magic @ [1] @ be_bytes 2 HEADER_LEN @ header @ be_bytes 2 val_count @ validations"

definition frame_proof :: "xspv_proof \<Rightarrow> spv_error + bytes" where
  "frame_proof pr =
     result_bind (narrow LeafTooLarge 16 (length (leaf_data pr))) (\<lambda>leaf_len.
     result_bind (narrow PathTooDeep 8 (length (xspv_path pr))) (\<lambda>depth.
     Ok (be_bytes 1 (kind pr) @ leaf_index pr @ be_bytes 2 leaf_len @ leaf_data pr
         @ be_bytes 1 depth @ concat (xspv_path pr))))"

definition build_xspv_blob_framed :: "bytes \<Rightarrow> nat \<Rightarrow> bytes \<Rightarrow> xspv_proof list \<Rightarrow> spv_error + bytes" where
  "build_xspv_blob_framed header val_count validations proofs =
     result_bind (narrow CountTooLarge 8 (length proofs)) (\<lambda>proof_count.
     result_bind (map_result frame_proof proofs) (\<lambda>framed.
     Ok (attested_prefix XSPV_MAGIC header val_count validations @ be_bytes 1 proof_count @ concat framed)))"

definition build_xspv_blob :: "bytes \<Rightarrow> bytes list \<Rightarrow> xspv_proof list \<Rightarrow> spv_error + bytes" where
  "build_xspv_blob header validations proofs =
     result_bind (build_validations_section validations) (\<lambda>(val_count, vals).
     build_xspv_blob_framed header val_count vals proofs)"

definition build_xdep_blob_framed ::
  "bytes \<Rightarrow> nat \<Rightarrow> bytes \<Rightarrow> bytes \<Rightarrow> bytes \<Rightarrow> bytes list \<Rightarrow> spv_error + bytes" where
  "build_xdep_blob_framed header val_count validations tx_blob meta path =
     result_bind (narrow TxTooLarge 32 (length tx_blob)) (\<lambda>tx_len.
     result_bind (narrow MetaTooLarge 32 (length meta)) (\<lambda>meta_len.
     result_bind (narrow PathTooDeep 8 (length path)) (\<lambda>depth.
     Ok (attested_prefix XDEP_MAGIC header val_count validations
         @ be_bytes 4 tx_len @ tx_blob @ be_bytes 4 meta_len @ meta @ be_bytes 1 depth @ concat path))))"

definition build_xdep_blob :: "bytes \<Rightarrow> bytes list \<Rightarrow> bytes \<Rightarrow> bytes \<Rightarrow> bytes list \<Rightarrow> spv_error + bytes" where
  "build_xdep_blob header validations tx_blob meta path =
     result_bind (build_validations_section validations) (\<lambda>(val_count, vals).
     build_xdep_blob_framed header val_count vals tx_blob meta path)"

definition build_xclk_blob :: "bytes \<Rightarrow> bytes list \<Rightarrow> spv_error + bytes" where
  "build_xclk_blob header validations =
     result_bind (build_validations_section validations) (\<lambda>(val_count, vals).
     Ok (attested_prefix XCLK_MAGIC header val_count vals))"

end
