(* ===== verification/SpvProof_Props.thy ===== *)
theory SpvProof_Props
  imports SpvProof
begin

text \<open>
  What the byte shapes of \<^verbatim>\<open>spv_proof.rs\<close> promise. The enclave that parses the blobs is not part of
  the repository; the readers of this theory state the wire formats that the comments of the
  source document, and the builders are shown to be read back exactly. The account-state tree
  is related to the transaction tree by an abstraction, so that its proofs verify too.
\<close>

section \<open>Readers of the wire formats\<close>

definition of_be_bytes :: "bytes \<Rightarrow> nat" where "of_be_bytes b = of_le_bytes (rev b)"

definition read_bytes :: "nat \<Rightarrow> bytes \<Rightarrow> (bytes \<times> bytes) option" where
  "read_bytes k b = (if length b < k then None else Some (take k b, drop k b))"

definition read_be :: "nat \<Rightarrow> bytes \<Rightarrow> (nat \<times> bytes) option" where
  "read_be k b = map_option (\<lambda>(x, r). (of_be_bytes x, r)) (read_bytes k b)"

fun read_many :: "(bytes \<Rightarrow> ('a \<times> bytes) option) \<Rightarrow> nat \<Rightarrow> bytes \<Rightarrow> ('a list \<times> bytes) option" where
  "read_many rd 0 b = Some ([], b)"
| "read_many rd (Suc n) b = do {
     (x, b) \<leftarrow> rd b;
     (xs, b) \<leftarrow> read_many rd n b;
     Some (x # xs, b) }"

definition read_entry :: "bytes \<Rightarrow> (val_entry \<times> bytes) option" where
  "read_entry b = do {
     (pk, b) \<leftarrow> read_bytes 33 b;
     (sl, b) \<leftarrow> read_be 1 b;
     (sig, b) \<leftarrow> read_bytes sl b;
     (vl, b) \<leftarrow> read_be 2 b;
     (vbody, b) \<leftarrow> read_bytes vl b;
     Some ((pk, sig, vbody), b) }"

definition read_proof :: "bytes \<Rightarrow> (xspv_proof \<times> bytes) option" where
  "read_proof b = do {
     (knd, b) \<leftarrow> read_be 1 b;
     (index, b) \<leftarrow> read_bytes 32 b;
     (ll, b) \<leftarrow> read_be 2 b;
     (data, b) \<leftarrow> read_bytes ll b;
     (d, b) \<leftarrow> read_be 1 b;
     (path, b) \<leftarrow> read_many (read_bytes 512) d b;
     Some (\<lparr>kind = knd, leaf_index = index, leaf_data = data, xspv_path = path\<rparr>, b) }"

definition read_prefix :: "bytes \<Rightarrow> bytes \<Rightarrow> ((bytes \<times> val_entry list) \<times> bytes) option" where
  "read_prefix magic b = do {
     (m, b) \<leftarrow> read_bytes 4 b;
     (version, b) \<leftarrow> read_be 1 b;
     (hl, b) \<leftarrow> read_be 2 b;
     if m \<noteq> magic \<or> version \<noteq> 1 \<or> hl \<noteq> HEADER_LEN then None
     else do {
       (header, b) \<leftarrow> read_bytes hl b;
       (n, b) \<leftarrow> read_be 2 b;
       (es, b) \<leftarrow> read_many read_entry n b;
       Some ((header, es), b) } }"

definition read_xdep :: "bytes \<Rightarrow> (bytes \<times> val_entry list \<times> bytes \<times> bytes \<times> bytes list) option" where
  "read_xdep b = do {
     ((header, es), b) \<leftarrow> read_prefix XDEP_MAGIC b;
     (tl, b) \<leftarrow> read_be 4 b;
     (tx, b) \<leftarrow> read_bytes tl b;
     (ml, b) \<leftarrow> read_be 4 b;
     (meta, b) \<leftarrow> read_bytes ml b;
     (d, b) \<leftarrow> read_be 1 b;
     (path, b) \<leftarrow> read_many (read_bytes 512) d b;
     if b = [] then Some (header, es, tx, meta, path) else None }"

definition read_xspv :: "bytes \<Rightarrow> (bytes \<times> val_entry list \<times> xspv_proof list) option" where
  "read_xspv b = do {
     ((header, es), b) \<leftarrow> read_prefix XSPV_MAGIC b;
     (n, b) \<leftarrow> read_be 1 b;
     (ps, b) \<leftarrow> read_many read_proof n b;
     if b = [] then Some (header, es, ps) else None }"

definition read_xclk :: "bytes \<Rightarrow> (bytes \<times> val_entry list) option" where
  "read_xclk b = do {
     ((header, es), b) \<leftarrow> read_prefix XCLK_MAGIC b;
     if b = [] then Some (header, es) else None }"

section \<open>Self-delimiting codecs\<close>

locale codec =
  fixes wr :: "'a \<Rightarrow> bytes"
    and rd :: "bytes \<Rightarrow> ('a \<times> bytes) option"
    and ok :: "'a \<Rightarrow> bool"
  assumes rd_wr: "ok x \<Longrightarrow> rd (wr x @ r) = Some (x, r)"
begin

lemma read_many_wr:
  "\<forall>x\<in>set xs. ok x \<Longrightarrow> read_many rd (length xs) (concat (map wr xs) @ r) = Some (xs, r)"
proof (induction xs)
  case (Cons x xs)
  have "rd (wr x @ concat (map wr xs) @ r) = Some (x, concat (map wr xs) @ r)" using Cons.prems by (simp add: rd_wr)
  then show ?case using Cons by simp
qed simp

lemma wr_prefix_free: "ok x \<Longrightarrow> ok y \<Longrightarrow> wr x @ r = wr y @ s \<Longrightarrow> x = y \<and> r = s"
  by (metis rd_wr option.inject prod.inject)

end

lemma of_be_bytes_be_bytes [simp]: "n < 256 ^ k \<Longrightarrow> of_be_bytes (be_bytes k n) = n"
  by (simp add: of_be_bytes_def be_bytes_def of_le_bytes_le_bytes)

lemma length_be_bytes [simp]: "length (be_bytes k n) = k"
  by (simp add: be_bytes_def)

lemma read_bytes_append [simp]: "length x = k \<Longrightarrow> read_bytes k (x @ r) = Some (x, r)"
  by (simp add: read_bytes_def)

lemma read_be_append [simp]: "n < 256 ^ k \<Longrightarrow> read_be k (be_bytes k n @ r) = Some (n, r)"
  by (simp add: read_be_def)

definition entry_ok :: "val_entry \<Rightarrow> bool" where
  "entry_ok = (\<lambda>(pk, sig, vbody). length pk = 33 \<and> length sig \<le> 72 \<and> length vbody \<le> 65535)"

interpretation entry_codec: codec frame_entry read_entry entry_ok
  by unfold_locales (auto simp: entry_ok_def frame_entry_def read_entry_def)

interpretation node_codec: codec id "read_bytes 512" "\<lambda>n. length n = 512"
  by unfold_locales simp

definition proof_ok :: "xspv_proof \<Rightarrow> bool" where
  "proof_ok pr \<longleftrightarrow> kind pr < 256 \<and> length (leaf_index pr) = 32 \<and> length (leaf_data pr) < 2 ^ 16
     \<and> length (xspv_path pr) < 2 ^ 8 \<and> (\<forall>n\<in>set (xspv_path pr). length n = 512)"

interpretation proof_codec: codec "projr \<circ> frame_proof" read_proof proof_ok
proof unfold_locales
  fix pr r
  assume ok: "proof_ok pr"
  show "read_proof ((projr \<circ> frame_proof) pr @ r) = Some (pr, r)"
    using ok node_codec.read_many_wr [of "xspv_path pr" r]
    by (simp add: proof_ok_def read_proof_def frame_proof_def narrow_def)
qed

section \<open>Splitting a validation\<close>

definition entry_inv :: "bytes \<Rightarrow> bytes option \<Rightarrow> bytes option \<Rightarrow> (nat \<times> nat) option \<Rightarrow> bool" where
  "entry_inv data pk sig sf \<longleftrightarrow> (\<forall>k. pk = Some k \<longrightarrow> length k = 33)
     \<and> (case sig of None \<Rightarrow> sf = None
        | Some g \<Rightarrow> (\<exists>a vs e. sf = Some (a, e) \<and> st_next data a = Some (7, 6, a, vs, e)
            \<and> g = take (e - vs) (drop vs data)))"

lemma entry_loop_inv:
  assumes "entry_loop data pos pk sig sf = Ok (pk', sig', sf')" "entry_inv data pk sig sf"
  shows "entry_inv data pk' sig' sf'"
  using assms
proof (induction data pos pk sig sf rule: entry_loop.induct)
  case (1 data pos pk sig sf)
  show ?case
  proof (cases "length data \<le> pos")
    case True
    then show ?thesis using "1.prems" by (simp add: entry_loop.simps [of data pos])
  next
    case False
    then obtain tc fc idst vs nx where n: "st_next data pos = Some (tc, fc, idst, vs, nx)"
      using "1.prems"(1) by (auto simp: entry_loop.simps [of data pos] split: option.splits)
    have b: "pos < vs" "vs \<le> nx" "nx \<le> length data" "idst = pos" using st_next_progress [OF n] by simp_all
    consider (key) "tc = 7" "fc = 3" | (sig) "tc = 7" "fc = 6" | (other) "\<not> (tc = 7 \<and> (fc = 3 \<or> fc = 6))" by blast
    then show ?thesis
    proof cases
      case key
      then have l: "nx - vs = 33" and r: "entry_loop data nx (Some (take (nx - vs) (drop vs data))) sig sf = Ok (pk', sig', sf')"
        using "1.prems"(1) n False by (auto simp: entry_loop.simps [of data pos] split: if_splits)
      have "entry_inv data (Some (take (nx - vs) (drop vs data))) sig sf"
        using "1.prems"(2) l b by (simp add: entry_inv_def)
      then show ?thesis using "1.IH"(1) [OF False n refl refl refl refl] key l r by simp
    next
      case sig
      then have r: "entry_loop data nx pk (Some (take (nx - vs) (drop vs data))) (Some (idst, nx)) = Ok (pk', sig', sf')"
        using "1.prems"(1) n False by (simp add: entry_loop.simps [of data pos])
      have "entry_inv data pk (Some (take (nx - vs) (drop vs data))) (Some (idst, nx))"
        using "1.prems"(2) n sig b by (auto simp: entry_inv_def)
      then show ?thesis using "1.IH"(2) [OF False n refl refl refl refl] sig r by simp
    next
      case other
      then have r: "entry_loop data nx pk sig sf = Ok (pk', sig', sf')"
        using "1.prems"(1) n False by (auto simp: entry_loop.simps [of data pos] split: if_splits)
      then show ?thesis using "1.IH"(3) [OF False n refl refl refl refl] other "1.prems"(2) by blast
    qed
  qed
qed

lemma validation_entry_split:
  assumes "validation_entry data = Ok (pk, sig, vbody)"
  shows "length pk = 33 \<and> (\<exists>pre hd post. data = pre @ hd @ sig @ post \<and> vbody = pre @ post
    \<and> st_next data (length pre) = Some (7, 6, length pre, length (pre @ hd), length (pre @ hd @ sig)))"
proof -
  obtain sf where l: "entry_loop data 0 None None None = Ok (Some pk, Some sig, sf)"
    and v: "vbody = take (fst (the sf)) data @ drop (snd (the sf)) data"
    using assms by (auto simp: validation_entry_def result_bind_Ok_iff case_prod_beta)
  have i: "entry_inv data (Some pk) (Some sig) sf" by (rule entry_loop_inv [OF l]) (simp add: entry_inv_def)
  then obtain a vs e where sf: "sf = Some (a, e)" and n: "st_next data a = Some (7, 6, a, vs, e)"
    and g: "sig = take (e - vs) (drop vs data)" by (auto simp: entry_inv_def)
  note b = st_next_progress [OF n]
  let ?pre = "take a data" and ?hd = "take (vs - a) (drop a data)"
  have "?pre @ ?hd = take vs data" using take_add [of a "vs - a" data] b by simp
  moreover have "take vs data @ sig = take e data" using take_add [of vs "e - vs" data] b g by simp
  ultimately have "data = ?pre @ ?hd @ sig @ drop e data"
    by (metis append.assoc append_take_drop_id)
  moreover have "length sig = e - vs" using b g by simp
  ultimately have "data = ?pre @ ?hd @ sig @ drop e data \<and> vbody = ?pre @ drop e data
      \<and> st_next data (length ?pre) = Some (7, 6, length ?pre, length (?pre @ ?hd), length (?pre @ ?hd @ sig))"
    using v sf n b by simp
  moreover have "length pk = 33" using i by (simp add: entry_inv_def)
  ultimately show ?thesis by blast
qed

lemma validations_loop_ok:
  assumes "validations_loop datas n out = Ok (c, res)" "n < 2 ^ 16"
  shows "\<exists>es. map_result validation_entry datas = Ok es \<and> (\<forall>e\<in>set es. entry_ok e) \<and> length es = length datas
    \<and> c = (n + length datas) mod 2 ^ 16 \<and> res = out @ concat (map frame_entry es)"
  using assms
proof (induction datas arbitrary: n out)
  case (Cons d datas)
  obtain e where e: "validation_entry d = Ok e" using Cons.prems by (auto simp: result_bind_Ok_iff)
  obtain pk sig vb where p: "e = (pk, sig, vb)" by (cases e)
  have ok: "entry_ok e" and l: "validations_loop datas ((n + 1) mod 2 ^ 16) (out @ frame_entry e) = Ok (c, res)"
    using Cons.prems e p validation_entry_split [of d pk sig vb] by (auto simp: entry_ok_def split: if_splits)
  from Cons.IH [OF l] ok e show ?case by (auto simp: mod_simps)
qed simp

lemma validations_section_ok:
  assumes "build_validations_section vals = Ok (c, sec)" "length vals < 2 ^ 16"
  shows "\<exists>es. map_result validation_entry vals = Ok es \<and> (\<forall>e\<in>set es. entry_ok e)
    \<and> c = length es \<and> c < 2 ^ 16 \<and> sec = concat (map frame_entry es)"
  using validations_loop_ok [OF assms(1) [unfolded build_validations_section_def]] assms(2) by fastforce

lemma read_prefix_ok:
  assumes "length magic = 4" "length header = HEADER_LEN" "length es < 2 ^ 16" "\<forall>e\<in>set es. entry_ok e"
  shows "read_prefix magic (attested_prefix magic header (length es) (concat (map frame_entry es)) @ r)
    = Some ((header, es), r)"
proof -
  have "read_be 1 (1 # x) = Some (1, x)" for x using read_be_append [of 1 1 x] by (simp add: be_bytes_def)
  moreover have "length header = 118" using assms(2) by (simp add: HEADER_LEN_def)
  ultimately show ?thesis
    using assms entry_codec.read_many_wr [OF assms(4), of r] read_be_append [of 118 2]
    by (simp add: read_prefix_def attested_prefix_def HEADER_LEN_def)
qed

lemma xdep_read_back:
  assumes b: "build_xdep_blob header vals tx meta path = Ok b"
    and h: "length header = HEADER_LEN" "length vals < 2 ^ 16" "\<forall>n\<in>set path. length n = 512"
  shows "\<exists>es. map_result validation_entry vals = Ok es \<and> read_xdep b = Some (header, es, tx, meta, path)"
proof -
  obtain c sec where s: "build_validations_section vals = Ok (c, sec)"
    and f: "build_xdep_blob_framed header c sec tx meta path = Ok b"
    using b by (auto simp: build_xdep_blob_def result_bind_Ok_iff)
  obtain es where es: "map_result validation_entry vals = Ok es" "\<forall>e\<in>set es. entry_ok e" "c = length es"
      "c < 2 ^ 16" "sec = concat (map frame_entry es)"
    using validations_section_ok [OF s h(2)] by blast
  have m: "length XDEP_MAGIC = 4" by (simp add: XDEP_MAGIC_def)
  have "read_xdep b = Some (header, es, tx, meta, path)"
    using f read_prefix_ok [OF m h(1) es(4) [unfolded es(3)] es(2)] node_codec.read_many_wr [OF h(3), of "[]"]
    by (auto simp: build_xdep_blob_framed_def result_bind_Ok_iff read_xdep_def es)
  with es(1) show ?thesis by blast
qed

lemma map_result_projr: "map_result f xs = Ok ys \<Longrightarrow> ys = map (projr \<circ> f) xs"
  by (induction xs arbitrary: ys) (auto simp: result_bind_Ok_iff)

lemma map_result_all: "map_result f xs = Ok ys \<Longrightarrow> \<forall>x\<in>set xs. \<exists>y. f x = Ok y"
  by (induction xs arbitrary: ys) (auto simp: result_bind_Ok_iff)

lemma xspv_read_back:
  assumes b: "build_xspv_blob header vals proofs = Ok b"
    and h: "length header = HEADER_LEN" "length vals < 2 ^ 16"
    and p: "\<forall>pr\<in>set proofs. kind pr < 256 \<and> length (leaf_index pr) = 32 \<and> (\<forall>n\<in>set (xspv_path pr). length n = 512)"
  shows "\<exists>es. map_result validation_entry vals = Ok es \<and> read_xspv b = Some (header, es, proofs)"
proof -
  obtain c sec where s: "build_validations_section vals = Ok (c, sec)"
    and f: "build_xspv_blob_framed header c sec proofs = Ok b"
    using b by (auto simp: build_xspv_blob_def result_bind_Ok_iff)
  obtain es where es: "map_result validation_entry vals = Ok es" "\<forall>e\<in>set es. entry_ok e" "c = length es"
      "c < 2 ^ 16" "sec = concat (map frame_entry es)"
    using validations_section_ok [OF s h(2)] by blast
  obtain fs where fs: "map_result frame_proof proofs = Ok fs" and n: "length proofs < 2 ^ 8"
    and e: "b = attested_prefix XSPV_MAGIC header c sec @ be_bytes 1 (length proofs) @ concat fs"
    using f by (auto simp: build_xspv_blob_framed_def result_bind_Ok_iff)
  have "\<forall>pr\<in>set proofs. proof_ok pr"
    using p map_result_all [OF fs] by (fastforce simp: proof_ok_def frame_proof_def result_bind_Ok_iff)
  note rm = proof_codec.read_many_wr [OF this, of "[]"]
  have m: "length XSPV_MAGIC = 4" by (simp add: XSPV_MAGIC_def)
  have "read_xspv b = Some (header, es, proofs)"
    using read_prefix_ok [OF m h(1) es(4) [unfolded es(3)] es(2)] rm n
    by (simp add: e read_xspv_def es map_result_projr [OF fs])
  with es(1) show ?thesis by blast
qed

lemma xclk_read_back:
  assumes b: "build_xclk_blob header vals = Ok b"
    and h: "length header = HEADER_LEN" "length vals < 2 ^ 16"
  shows "\<exists>es. map_result validation_entry vals = Ok es \<and> read_xclk b = Some (header, es)"
proof -
  obtain c sec where s: "build_validations_section vals = Ok (c, sec)"
    and e: "b = attested_prefix XCLK_MAGIC header c sec"
    using b by (auto simp: build_xclk_blob_def result_bind_Ok_iff)
  obtain es where es: "map_result validation_entry vals = Ok es" "\<forall>e\<in>set es. entry_ok e" "c = length es"
      "c < 2 ^ 16" "sec = concat (map frame_entry es)"
    using validations_section_ok [OF s h(2)] by blast
  have m: "length XCLK_MAGIC = 4" by (simp add: XCLK_MAGIC_def)
  show ?thesis
    using read_prefix_ok [OF m h(1) es(4) [unfolded es(3)] es(2), of "[]"] es(1)
    by (simp add: e read_xclk_def es)
qed

section \<open>The header\<close>

lemma hex32_length: "hex32 hex v k = Ok b \<Longrightarrow> length b = 32"
  by (auto simp: hex32_def result_bind_Ok_iff split: if_splits)

lemma header_layout_fields:
  assumes "serialize_ledger_header hex ledger = Ok h"
  shows "length h = HEADER_LEN"
    and "field_uint 32 ledger ''ledger_index'' = Ok (of_be_bytes (take 4 h))"
    and "hex32 hex ledger ''transaction_hash'' = Ok (take 32 (drop 44 h))"
    and "hex32 hex ledger ''account_hash'' = Ok (take 32 (drop 76 h))"
proof -
  obtain seq drops parent txh acct pct ct ctr cf where f: "field_uint 32 ledger ''ledger_index'' = Ok seq"
    "hex32 hex ledger ''parent_hash'' = Ok parent"
    "hex32 hex ledger ''transaction_hash'' = Ok txh" "hex32 hex ledger ''account_hash'' = Ok acct"
    and h: "h = be_bytes 4 seq @ be_bytes 8 drops @ parent @ txh @ acct @ be_bytes 4 pct @ be_bytes 4 ct
         @ be_bytes 1 ctr @ be_bytes 1 cf"
    using assms by (auto simp: serialize_ledger_header_def result_bind_Ok_iff)
  have l: "length parent = 32" "length txh = 32" "length acct = 32" using f hex32_length by blast+
  show "length h = HEADER_LEN" using l by (simp add: h HEADER_LEN_def)
  show "field_uint 32 ledger ''ledger_index'' = Ok (of_be_bytes (take 4 h))"
    using f(1) by (auto simp: h field_uint_def result_bind_Ok_iff)
  show "hex32 hex ledger ''transaction_hash'' = Ok (take 32 (drop 44 h))"
    "hex32 hex ledger ''account_hash'' = Ok (take 32 (drop 76 h))"
    using f l by (simp_all add: h)
qed

section \<open>The account-state tree as a transaction tree\<close>

text \<open>A state leaf stands for a leaf with the account-state hash.\<close>

fun abs_node :: "hash_fun \<Rightarrow> state_node \<Rightarrow> node" where
  "abs_node sha512 SEmpty = Empty"
| "abs_node sha512 (SLeaf k d) = Leaf k (sha512half sha512 [HP_LEAF, d, k])"
| "abs_node sha512 (SInner cs) = Inner (map (abs_node sha512) cs)"

lemma state_nibble_eq [simp]: "state_nibble k d = nibble k d"
  by (simp add: state_nibble_def nibble_def)

lemma abs_empty_inner [simp]: "abs_node H state_empty_inner = empty_inner"
  by (simp add: state_empty_inner_def empty_inner_def)

lemma node_hash_abs [simp]: "node_hash H (abs_node H n) = state_hash H n"
proof (induction n)
  case (SInner cs)
  then have "map (node_hash H \<circ> abs_node H) cs = map (state_hash H) cs" by simp
  then show ?case by (simp only: abs_node.simps node_hash.simps state_hash.simps list.map_comp)
qed (simp_all add: zero_hash_def)

lemma node_hash_o_abs [simp]: "node_hash H \<circ> abs_node H = state_hash H"
  by (simp add: fun_eq_iff)

fun state_leaves :: "state_node \<Rightarrow> (bytes \<times> bytes) set" where
  "state_leaves SEmpty = {}"
| "state_leaves (SLeaf k d) = {(k, d)}"
| "state_leaves (SInner cs) = (\<Union>c\<in>set cs. state_leaves c)"

lemma leaves_abs: "leaves (abs_node H n) = (\<lambda>(k, d). (k, sha512half H [HP_LEAF, d, k])) ` state_leaves n"
  by (induction n) (auto simp: image_UN)

lemma keys_abs: "fst ` leaves (abs_node H n) = fst ` state_leaves n"
  by (force simp: leaves_abs)

lemma state_leaves_nth: "state_leaves (SInner cs) = (\<Union>j<length cs. state_leaves (cs ! j))"
  unfolding state_leaves.simps set_conv_nth by blast

lemma state_leaves_update:
  assumes "i < length cs"
  shows "state_leaves (SInner (cs[i := c])) = state_leaves c \<union> (\<Union>j\<in>{..<length cs} - {i}. state_leaves (cs ! j))"
  unfolding state_leaves_nth using assms by (auto simp: nth_list_update split: if_splits)

lemma state_leaves_pick:
  "i < length cs \<Longrightarrow> state_leaves (SInner cs) = state_leaves (cs ! i) \<union> (\<Union>j\<in>{..<length cs} - {i}. state_leaves (cs ! j))"
  using state_leaves_update [of i cs "cs ! i"] by simp

lemma state_insert_inner_depth: "state_insert (SInner cs) key x d = Ok n' \<Longrightarrow> d + 1 < MAX_DEPTH"
  by (auto simp: state_insert.simps [of "SInner cs"] state_insert.simps [of "cs ! _"] Let_def MAX_DEPTH_def
      split: if_splits sum.splits)

text \<open>
  Inserting an object simulates the insertion of the transaction tree, except that a key
  already present leaves the tree as it is.
\<close>

lemma state_insert_sim:
  assumes H: "digest_ok H"
  shows "state_insert n key x d = Ok n' \<Longrightarrow> shaped d (abs_node H n) \<Longrightarrow>
    (if key \<in> fst ` state_leaves n then n' = n
     else node_insert (abs_node H n) key (sha512half H [HP_LEAF, x, key]) d = Ok (abs_node H n')
       \<and> state_leaves n' = insert (key, x) (state_leaves n))"
proof (induction n key x d arbitrary: n' rule: state_insert.induct)
  case (1 n key x d)
  let ?h = "\<lambda>x k. sha512half H [HP_LEAF, x, k]"
  have d: "\<not> 64 \<le> d" using "1.prems"(1) by (simp add: state_insert.simps [of n] split: if_splits)
  show ?case
  proof (cases n)
    case SEmpty
    then show ?thesis using "1.prems" d by (auto simp: state_insert.simps [of SEmpty] node_insert.simps [of Empty] MAX_DEPTH_def)
  next
    case (SLeaf ek ed)
    show ?thesis
    proof (cases "ek = key")
      case True
      then show ?thesis using "1.prems" SLeaf d by (auto simp: state_insert.simps [of "SLeaf key ed"])
    next
      case False
      then obtain m where m: "state_insert state_empty_inner ek ed d = Ok m" "state_insert m key x d = Ok n'"
        using "1.prems"(1) SLeaf d by (auto simp: state_insert.simps [of "SLeaf ek ed"] split: sum.splits)
      have sh: "shaped d (abs_node H state_empty_inner)"
        using state_insert_inner_depth m(1) by (simp add: state_empty_inner_def [symmetric]) (metis state_empty_inner_def)
      have e: "state_leaves state_empty_inner = {}" by (simp add: state_empty_inner_def)
      have s1: "node_insert empty_inner ek (?h ed ek) d = Ok (abs_node H m)" "state_leaves m = {(ek, ed)}"
        using "1.IH"(1) [OF d SLeaf False m(1) sh] e by simp_all
      have "shaped d (abs_node H m)" using node_insert_ok [OF s1(1)] sh H by simp
      then have "node_insert (abs_node H m) key (?h x key) d = Ok (abs_node H n')" "state_leaves n' = {(key, x), (ek, ed)}"
        using "1.IH"(2) [OF d SLeaf False m(1) m(2)] s1(2) False by simp_all
      then show ?thesis using SLeaf False s1(1) d by (simp add: node_insert.simps [of "Leaf _ _"] MAX_DEPTH_def)
    qed
  next
    case (SInner cs)
    let ?i = "nibble key d"
    have sh: "shaped d (Inner (map (abs_node H) cs))" and i: "?i < length cs"
      using "1.prems"(2) SInner by simp_all
    obtain c where c: "state_insert (cs ! ?i) key x (d + 1) = Ok c" "n' = SInner (cs[?i := c])"
      using "1.prems"(1) SInner d i by (auto simp: state_insert.simps [of "SInner cs"] Let_def split: sum.splits)
    have shc: "shaped (d + 1) (abs_node H (cs ! ?i))" using sh i by simp
    note IH = "1.IH"(3) [OF d SInner refl, simplified, OF i, of c] 
    have at: "key \<in> fst ` state_leaves n \<longleftrightarrow> key \<in> fst ` state_leaves (cs ! ?i)"
    proof
      assume "key \<in> fst ` state_leaves n"
      then have "key \<in> fst ` leaves (Inner (map (abs_node H) cs))" using keys_abs [of H n] by (simp add: SInner)
      then obtain l where l: "l \<in> leaves (Inner (map (abs_node H) cs))" "fst l = key" by (metis imageE)
      then have "l \<in> leaves (abs_node H (cs ! ?i))" using leaves_at [OF sh l(1)] i by simp
      then show "key \<in> fst ` state_leaves (cs ! ?i)" using l(2) keys_abs [of H "cs ! ?i"] by (metis imageI)
    next
      assume "key \<in> fst ` state_leaves (cs ! ?i)"
      then show "key \<in> fst ` state_leaves n" by (simp only: SInner state_leaves_pick [OF i] image_Un Un_iff simp_thms)
    qed
    show ?thesis
    proof (cases "key \<in> fst ` state_leaves (cs ! ?i)")
      case True
      then show ?thesis using IH c shc at SInner by simp
    next
      case False
      then have s: "node_insert (abs_node H (cs ! ?i)) key (?h x key) (d + 1) = Ok (abs_node H c)"
        "state_leaves c = insert (key, x) (state_leaves (cs ! ?i))" using IH c shc by simp_all
      have "state_leaves n' = insert (key, x) (state_leaves n)"
        unfolding c(2) SInner state_leaves_update [OF i] s(2) state_leaves_pick [OF i] by (rule Un_insert_left)
      moreover have "node_insert (abs_node H n) key (?h x key) d = Ok (abs_node H n')"
        using s(1) i d by (simp add: SInner c(2) node_insert.simps [of "Inner (map (abs_node H) cs)"] Let_def MAX_DEPTH_def map_update)
      ultimately show ?thesis using False at by simp
    qed
  qed
qed

lemma state_insert_ok:
  assumes "digest_ok H" "state_insert n key x d = Ok n'" "shaped d (abs_node H n)"
  shows "shaped d (abs_node H n') \<and> state_leaves n'
    = state_leaves n \<union> (if key \<in> fst ` state_leaves n then {} else {(key, x)})"
  using state_insert_sim [OF assms] assms(3) node_insert_ok [OF _ assms(3)] assms(1) by (auto split: if_splits)

lemma map_of_fresh_seen:
  "k \<in> K \<Longrightarrow> {(a, y). map_of ((k, x) # items) a = Some y \<and> a \<notin> K} = {(a, y). map_of items a = Some y \<and> a \<notin> K}"
  by (auto split: if_splits)

lemma map_of_fresh_new:
  "k \<notin> K \<Longrightarrow> {(a, y). map_of ((k, x) # items) a = Some y \<and> a \<notin> K}
    = insert (k, x) {(a, y). map_of items a = Some y \<and> a \<notin> insert k K}"
  by (auto split: if_splits)

lemma state_insert_all_ok:
  assumes "digest_ok H" "state_insert_all items n = Ok n'" "shaped 0 (abs_node H n)"
  shows "shaped 0 (abs_node H n') \<and> state_leaves n'
    = state_leaves n \<union> {(k, x). map_of items k = Some x \<and> k \<notin> fst ` state_leaves n}"
  using assms(2,3)
proof (induction items arbitrary: n)
  case (Cons i items)
  obtain k x where i: "i = (k, x)" by (cases i)
  obtain m where m: "state_insert n k x 0 = Ok m" "state_insert_all items m = Ok n'"
    using Cons.prems i by (auto simp: result_bind_Ok_iff)
  note s = state_insert_ok [OF assms(1) m(1) Cons.prems(2)]
  show ?case
  proof (cases "k \<in> fst ` state_leaves n")
    case True
    note map_of_fresh_seen [OF this, of x items]
    then show ?thesis using Cons.IH [OF m(2)] s True by (simp add: i)
  next
    case False
    note map_of_fresh_new [OF this, of x items]
    then show ?thesis using Cons.IH [OF m(2)] s False by (simp add: i)
  qed
qed simp

lemma state_build_ok:
  assumes "digest_ok H" "state_build items = Ok m"
  shows "shaped 0 (abs_node H (state_root m))"
    and "state_leaves (state_root m) = {(k, x). map_of items k = Some x}"
proof -
  let ?n = "if items = [] then SEmpty else state_empty_inner"
  have "shaped 0 (abs_node H ?n)" "state_leaves ?n = {}" by (auto simp: MAX_DEPTH_def state_empty_inner_def)
  moreover have "state_insert_all items ?n = Ok (state_root m)"
    using assms(2) by (auto simp: state_build_def result_bind_Ok_iff)
  ultimately show "shaped 0 (abs_node H (state_root m))"
    "state_leaves (state_root m) = {(k, x). map_of items k = Some x}"
    using state_insert_all_ok [OF assms(1)] by simp_all
qed

text \<open>The two path loops agree, and so do the two walks on a key of 32 bytes.\<close>

lemma state_path_loop_sim:
  "path_loop H target (abs_node H n) d path = Ok pf \<Longrightarrow> shaped d (abs_node H n) \<Longrightarrow>
   \<exists>x. state_path_loop H target n d path
       = Ok \<lparr>kind = 0, leaf_index = target, leaf_data = x, xspv_path = inner_root_to_leaf pf\<rparr>
     \<and> (target, x) \<in> state_leaves n"
proof (induction H target n d path rule: state_path_loop.induct)
  case (1 H target cs d path)
  let ?i = "nibble target d"
  have i: "?i < length cs" using "1.prems"(2) by simp
  have "path_loop H target (abs_node H (cs ! ?i)) (d + 1) (path @ [concat (map (state_hash H) cs)]) = Ok pf"
    using "1.prems"(1) i by (simp add: Let_def)
  moreover have "shaped (d + 1) (abs_node H (cs ! ?i))" using "1.prems"(2) i by simp
  ultimately obtain x where "state_path_loop H target (cs ! ?i) (d + 1) (path @ [concat (map (state_hash H) cs)])
       = Ok \<lparr>kind = 0, leaf_index = target, leaf_data = x, xspv_path = inner_root_to_leaf pf\<rparr>"
     "(target, x) \<in> state_leaves (cs ! ?i)"
    using "1.IH" [of ?i] i by auto
  then show ?case using i by (auto simp: Let_def)
qed (auto split: if_splits)

lemma verify_up_walk:
  assumes "length index = 32" "d \<le> 64" "verify_walk H index path d running = Ok r"
  shows "verify_up H index path d running account_hash = Some (r = account_hash)"
  using assms by (induction d arbitrary: running) (auto simp: Let_def split: if_splits)

lemma concat_node_hash_length:
  assumes "digest_ok H" "shaped d (Inner cs)"
  shows "length (concat (map (node_hash H) cs)) = 512"
proof -
  have "map (length \<circ> node_hash H) cs = map (\<lambda>_. 32) cs"
    using assms(2) node_hash_length [OF assms(1)] by auto
  then show ?thesis using assms(2) by (simp add: length_concat map_replicate_const sum_list_replicate)
qed

lemma path_loop_512:
  "path_loop H target n d path = Ok pf \<Longrightarrow> digest_ok H \<Longrightarrow> shaped d n \<Longrightarrow> \<forall>x\<in>set path. length x = 512
    \<Longrightarrow> \<forall>x\<in>set (inner_root_to_leaf pf). length x = 512"
proof (induction H target n d path rule: path_loop.induct)
  case (1 H target cs d path)
  have i: "nibble target d < length cs" using "1.prems"(3) by simp
  have "\<forall>x\<in>set (path @ [concat (map (node_hash H) cs)]). length x = 512"
    using "1.prems"(4) concat_node_hash_length [OF "1.prems"(2,3)] by auto
  moreover have "shaped (d + 1) (cs ! nibble target d)" using "1.prems"(3) i by simp
  ultimately show ?case using "1.IH" [OF refl i] "1.prems"(1,2) i by (simp add: Let_def)
qed (auto split: if_splits)

lemma state_proof_ok:
  assumes H: "digest_ok H" and b: "state_build items = Ok m" and k: "map_of items k = Some x" "length k = 32"
  shows "\<exists>pf. state_proof H m k = Ok pf \<and> kind pf = 0 \<and> leaf_index pf = k \<and> leaf_data pf = x
    \<and> (\<forall>n\<in>set (xspv_path pf). length n = 512)
    \<and> verify_inclusion H pf (state_root_hash H m) = Some True"
proof -
  let ?n = "state_root m" and ?h = "sha512half H [HP_LEAF, x, k]"
  note sh = state_build_ok [OF H b]
  have "(k, ?h) \<in> leaves (abs_node H ?n)" using k(1) by (force simp: leaves_abs sh(2))
  then obtain p where p: "path_loop H k (abs_node H ?n) 0 [] = Ok \<lparr>proof_tx_id = k, inner_root_to_leaf = p\<rparr>"
    "length p < MAX_DEPTH" "verify_walk H k p (length p) ?h = Ok (state_hash H ?n)"
    using path_loop_verifies [OF H, of "[]" "abs_node H ?n" k ?h] sh(1) by (auto simp: MAX_DEPTH_def)
  obtain y where y: "state_path_loop H k ?n 0 [] = Ok \<lparr>kind = 0, leaf_index = k, leaf_data = y, xspv_path = p\<rparr>"
    "(k, y) \<in> state_leaves ?n" using state_path_loop_sim [OF p(1) sh(1)] by auto
  have "y = x" using y(2) k(1) by (simp add: sh(2))
  moreover have "verify_up H k p (length p) ?h (state_hash H ?n) = Some True"
    using verify_up_walk [OF k(2) _ p(3)] p(2) by (simp add: MAX_DEPTH_def)
  moreover have "\<forall>n\<in>set p. length n = 512" using path_loop_512 [OF p(1) H sh(1)] by simp
  ultimately show ?thesis using y(1) by (simp add: state_proof_def verify_inclusion_def state_root_hash_def)
qed

section \<open>The two inner wire forms\<close>

definition block :: "nat \<Rightarrow> bytes \<Rightarrow> bytes" where
  "block i node = take 32 (drop (i * 32) node)"

definition compressed :: "bytes \<Rightarrow> bytes" where
  "compressed node =
     concat (map (\<lambda>i. block i node @ [of_nat i]) (filter (\<lambda>i. block i node \<noteq> replicate 32 0) [0..<16])) @ [3]"

lemma chunks_concat: "\<forall>x\<in>set xs. length x = n \<Longrightarrow> 0 < n \<Longrightarrow> chunks n (concat xs) = xs"
  by (induction xs) (auto simp: chunks.simps [of n])

lemma nth_copy_at:
  assumes "i + length src \<le> length dst" "k < length dst"
  shows "copy_at i src dst ! k = (if i \<le> k \<and> k < i + length src then src ! (k - i) else dst ! k)"
  using assms by (auto simp: copy_at_def nth_append)

lemma length_copy_at [simp]: "i + length src \<le> length dst \<Longrightarrow> length (copy_at i src dst) = length dst"
  by (simp add: copy_at_def)

lemma nth_block: "length node = 512 \<Longrightarrow> i < 16 \<Longrightarrow> j < 32 \<Longrightarrow> block i node ! j = node ! (i * 32 + j)"
  by (simp add: block_def)

lemma length_block: "length node = 512 \<Longrightarrow> i < 16 \<Longrightarrow> length (block i node) = 32"
  by (simp add: block_def)

lemma place_blocks:
  assumes "length node = 512" "length out = 512" "set is \<subseteq> {..<16}"
  shows "\<exists>res. place_chunks (map (\<lambda>i. block i node @ [of_nat i]) is) out = Ok res \<and> length res = 512
    \<and> (\<forall>k<512. res ! k = (if k div 32 \<in> set is then node ! k else out ! k))"
  using assms(2,3)
proof (induction "is" arbitrary: out)
  case (Cons i "is")
  have i: "i < 16" using Cons.prems by simp
  note lb = length_block [OF assms(1) i]
  let ?out = "copy_at (i * 32) (block i node) out"
  have out: "?out ! k = (if k div 32 = i then node ! k else out ! k)" if "k < 512" for k
  proof -
    have "(i * 32 \<le> k \<and> k < i * 32 + 32) = (k div 32 = i)" by linarith
    moreover have "block i node ! (k - i * 32) = node ! k" if "k div 32 = i"
      using nth_block [OF assms(1) i, of "k - i * 32"] that by simp
    ultimately show ?thesis using that i Cons.prems(1) lb by (simp add: nth_copy_at)
  qed
  have u: "unat (of_nat i :: byte) = i" using i by (simp add: unat_of_nat)
  have "length ?out = 512" using Cons.prems(1) lb i by simp
  from Cons.IH [OF this] Cons.prems(2) obtain res where
    "place_chunks (map (\<lambda>i. block i node @ [of_nat i]) is) ?out = Ok res" "length res = 512"
    "\<forall>k<512. res ! k = (if k div 32 \<in> set is then node ! k else ?out ! k)" by auto
  then show ?case using out i by (auto simp: Let_def nth_append lb u)
qed simp

lemma compressed_expands: "length node = 512 \<Longrightarrow> wire_inner_to_512 (compressed node) = Ok node"
proof -
  assume l: "length node = 512"
  let ?is = "filter (\<lambda>i. block i node \<noteq> replicate 32 0) [0..<16]"
  let ?cs = "map (\<lambda>i. block i node @ [of_nat i :: byte]) ?is"
  have c: "\<forall>x\<in>set ?cs. length x = 33" using length_block [OF l] by auto
  have "map length ?cs = map (\<lambda>_. 33) ?cs" using c by auto
  then have m: "length (concat ?cs) mod 33 = 0"
    by (simp only: length_concat map_replicate_const sum_list_replicate) simp
  obtain res where r: "place_chunks ?cs (replicate 512 0) = Ok res" "length res = 512"
    "\<forall>k<512. res ! k = (if k div 32 \<in> set ?is then node ! k else replicate 512 0 ! k)"
    using place_blocks [OF l, of "replicate 512 0" ?is] by auto
  have "res ! k = node ! k" if k: "k < 512" for k
  proof (cases "k div 32 \<in> set ?is")
    case False
    then have z: "block (k div 32) node = replicate 32 0" using k by auto
    have "node ! k = block (k div 32) node ! (k mod 32)"
      using nth_block [OF l, of "k div 32" "k mod 32"] k by simp
    then show ?thesis using r(3) False k unfolding z by simp
  qed (use r(3) k in simp)
  then have "res = node" using r(2) l by (simp add: list_eq_iff_nth_eq)
  moreover have "chunks 33 (concat ?cs) = ?cs" using chunks_concat [OF c] by simp
  ultimately show ?thesis
    using r(1) m by (simp add: wire_inner_to_512_def compressed_def WIRE_INNER_def WIRE_COMPRESSED_INNER_def Let_def)
qed

lemma full_expands: "length node = 512 \<Longrightarrow> wire_inner_to_512 (node @ [2]) = Ok node"
  by (simp add: wire_inner_to_512_def WIRE_INNER_def)

lemma map_result_wires:
  "list_all2 (\<lambda>w n. w = n @ [2] \<or> w = compressed n) ws ns \<Longrightarrow> \<forall>n\<in>set ns. length n = 512
    \<Longrightarrow> map_result wire_inner_to_512 ws = Ok ns"
  by (induction rule: list_all2_induct) (auto simp: compressed_expands full_expands)

section \<open>Sample data\<close>

definition sample_validation :: bytes where
  "sample_validation = [0x73, 33] @ replicate 33 2 @ [0x76, 1, 9, 0x11, 5, 5]"

lemma sample_validation_entry:
  "validation_entry sample_validation = Ok (replicate 33 2, [9], [0x73, 33] @ replicate 33 2 @ [0x11, 5, 5])"
  by code_simp

section \<open>Properties\<close>

text \<open>
  A transport blob that was built is read back exactly by the documented wire format: the
  header, one entry per collected validation in order, and the payload, for the deposit, the
  state and the clock transports, as long as fewer than 65536 validations are framed.
\<close>

theorem transport_roundtrip:
  assumes "length header = HEADER_LEN" "length vals < 2 ^ 16"
  shows "(build_xdep_blob header vals tx meta path = Ok b \<and> (\<forall>n\<in>set path. length n = 512) \<longrightarrow>
      (\<exists>es. map_result validation_entry vals = Ok es \<and> read_xdep b = Some (header, es, tx, meta, path)))
    \<and> (build_xspv_blob header vals proofs = Ok b \<and> (\<forall>pr\<in>set proofs. kind pr < 256
        \<and> length (leaf_index pr) = 32 \<and> (\<forall>n\<in>set (xspv_path pr). length n = 512)) \<longrightarrow>
      (\<exists>es. map_result validation_entry vals = Ok es \<and> read_xspv b = Some (header, es, proofs)))
    \<and> (build_xclk_blob header vals = Ok b \<longrightarrow>
      (\<exists>es. map_result validation_entry vals = Ok es \<and> read_xclk b = Some (header, es)))"
  using xdep_read_back xspv_read_back xclk_read_back assms by blast

theorem transport_roundtrip_witness:
  "\<exists>b. build_xclk_blob (replicate 118 7) [sample_validation] = Ok b
     \<and> read_xclk b = Some (replicate 118 7, [(replicate 33 2, [9], [0x73, 33] @ replicate 33 2 @ [0x11, 5, 5])])"
proof -
  obtain b where b: "build_xclk_blob (replicate 118 7) [sample_validation] = Ok b"
    by (simp add: build_xclk_blob_def build_validations_section_def sample_validation_entry)
  show ?thesis
    using transport_roundtrip [of "replicate 118 7" "[sample_validation]" _ _ _ b "[]"] b
    by (auto simp: HEADER_LEN_def sample_validation_entry)
qed

text \<open>
  Splitting a raw validation yields a 33-byte key and a signed body that is the validation
  with exactly one field cut out, the signature field whose value is the returned signature.
\<close>

theorem validation_entry_cuts_signature:
  assumes "validation_entry data = Ok (pk, sig, vbody)"
  shows "length pk = 33 \<and> (\<exists>pre hd post. data = pre @ hd @ sig @ post \<and> vbody = pre @ post
    \<and> st_next data (length pre) = Some (7, 6, length pre, length (pre @ hd), length (pre @ hd @ sig)))"
  by (rule validation_entry_split [OF assms])

theorem validation_entry_cuts_signature_witness:
  "\<exists>pre hd post. sample_validation = pre @ hd @ [9] @ post
     \<and> [0x73, 33] @ replicate 33 2 @ [0x11, 5, 5] = pre @ post"
  using validation_entry_cuts_signature [OF sample_validation_entry] by blast

text \<open>
  The rebuild of the account-state tree proves every object of the dump: the path read off
  it verifies against the rebuilt root with the object's own data, the first one where an
  index is listed twice.
\<close>

theorem state_proof_verifies:
  assumes "digest_ok sha512" "state_build items = Ok m" "map_of items k = Some x" "length k = 32"
  shows "\<exists>pf. state_proof sha512 m k = Ok pf \<and> leaf_index pf = k \<and> leaf_data pf = x
    \<and> verify_inclusion sha512 pf (state_root_hash sha512 m) = Some True"
  using state_proof_ok [OF assms] by blast

lemma state_build_single: "length k = 32 \<Longrightarrow> \<exists>m. state_build [(k, x)] = Ok m"
  by (simp add: state_build_def state_empty_inner_def state_insert.simps [of "SInner _"]
      state_insert.simps [of SEmpty] Let_def)

theorem state_proof_verifies_witness:
  "\<exists>m pf. state_build [(replicate 32 1, [5])] = Ok m \<and> state_proof sum_digest m (replicate 32 1) = Ok pf
     \<and> leaf_data pf = [5] \<and> verify_inclusion sum_digest pf (state_root_hash sum_digest m) = Some True"
proof -
  obtain m where m: "state_build [(replicate 32 1, [5])] = Ok m" using state_build_single [of "replicate 32 1"] by auto
  show ?thesis using state_proof_verifies [OF sum_digest_ok m, of "replicate 32 1" "[5]"] m by auto
qed

text \<open>
  The two producers agree: a \<open>getProofPath\<close> answer whose nodes encode the path of the rebuilt
  tree, each inner node in the full or the compressed form, is converted to the very proof
  the rebuild reads off.
\<close>

theorem getproofpath_equals_rebuild:
  assumes "digest_ok sha512" "state_build items = Ok m" "map_of items k = Some x" "length k = 32"
    and "state_proof sha512 m k = Ok pf" "xspv_path pf \<noteq> []"
    and "list_all2 (\<lambda>w n. w = n @ [2] \<or> w = compressed n) ws (xspv_path pf)"
  shows "proof_from_getproofpath ((x @ k @ [1]) # rev ws) 0 = Ok pf"
proof -
  have pf: "kind pf = 0" "leaf_index pf = k" "leaf_data pf = x" "\<forall>n\<in>set (xspv_path pf). length n = 512"
    using state_proof_ok [OF assms(1-4)] assms(5) by auto
  have "ws \<noteq> []" using assms(6,7) by auto
  then have "\<not> length ((x @ k @ [1]) # rev ws) < 2" by (cases ws) auto
  then show ?thesis
    using pf map_result_wires [OF assms(7) pf(4)] assms(4)
    by (simp add: proof_from_getproofpath_def wire_leaf_split_def Let_def WIRE_ACCOUNT_STATE_def)
qed

theorem getproofpath_equals_rebuild_witness:
  "\<exists>m pf. state_build [(replicate 32 1, [5])] = Ok m \<and> state_proof sum_digest m (replicate 32 1) = Ok pf
     \<and> proof_from_getproofpath (([5] @ replicate 32 1 @ [1]) # rev (map compressed (xspv_path pf))) 0 = Ok pf"
proof -
  let ?k = "replicate 32 1 :: bytes"
  let ?m = "\<lparr>state_root = SInner ((replicate 16 SEmpty)[nibble ?k 0 := SLeaf ?k [5]])\<rparr>"
  have m: "state_build [(?k, [5])] = Ok ?m"
    by (simp add: state_build_def state_empty_inner_def state_insert.simps [of "SInner _"]
        state_insert.simps [of SEmpty] Let_def)
  obtain pf where pf: "state_proof sum_digest ?m ?k = Ok pf" using state_proof_ok [OF sum_digest_ok m, of ?k "[5]"] by auto
  then have "xspv_path pf \<noteq> []" by (auto simp: state_proof_def Let_def split: if_splits)
  then show ?thesis
    using getproofpath_equals_rebuild [OF sum_digest_ok m _ _ pf, of "[5]" "map compressed (xspv_path pf)"] m pf
    by (auto simp: list_all2_conv_all_nth)
qed

end
