(* ===== verification/Deposit.thy ===== *)
theory Deposit
  imports SpvProof
begin

text \<open>
  \<^verbatim>\<open>orchestrator/src/deposit_spv.rs\<close>: the rolling buffer of validations, the assembly of a deposit
  proof, the classification of the enclave's answers and the ledger scanner. The XRPL node is
  the argument \<open>rpc\<close>, which answers a request with a JSON document or a transport error; the
  enclave is the argument \<open>enclave\<close>, a function of its own state and the proof blob.
\<close>

section \<open>The validation buffer\<close>

definition VALIDATION_BUFFER_LEDGERS :: nat where "VALIDATION_BUFFER_LEDGERS = 256"

record validation_buffer =
  by_hash :: "(string, bytes list) btree"
  vb_order :: "string list"

definition validation_buffer_new :: validation_buffer where
  "validation_buffer_new = \<lparr>by_hash = [], vb_order = []\<rparr>"

function evict :: "validation_buffer \<Rightarrow> validation_buffer" where
  "evict b =
     (if VALIDATION_BUFFER_LEDGERS < length (vb_order b)
      then evict \<lparr>by_hash = bt_remove (hd (vb_order b)) (by_hash b), vb_order = tl (vb_order b)\<rparr>
      else b)"
  by pat_completeness auto
termination by (relation "measure (\<lambda>b. length (vb_order b))") auto

declare evict.simps [simp del]

definition vb_insert :: "string \<Rightarrow> bytes \<Rightarrow> validation_buffer \<Rightarrow> validation_buffer" where
  "vb_insert h data b =
     evict \<lparr>by_hash = bt_upsert h [] (\<lambda>v. v @ [data]) (by_hash b),
            vb_order = (if bt_get (by_hash b) h = None then vb_order b @ [h] else vb_order b)\<rparr>"

definition vb_get :: "validation_buffer \<Rightarrow> string \<Rightarrow> bytes list option" where
  "vb_get b h = bt_get (by_hash b) h"

definition vb_len :: "validation_buffer \<Rightarrow> nat" where "vb_len b = length (by_hash b)"

definition vb_is_empty :: "validation_buffer \<Rightarrow> bool" where "vb_is_empty b \<longleftrightarrow> by_hash b = []"

section \<open>Hexadecimal\<close>

datatype deposit_error =
    UnhexOdd nat
  | UnhexBad nat
  | UnhexPanic
  | HeaderLength nat
  | HeaderFields spv_error
  | NoTransactions
  | IndexOutOfRange nat nat
  | NoTxBlob nat
  | NoMeta nat
  | ShamapFailed shamap_error
  | RootDiffers nat
  | BlobFailed spv_error

definition hex_digit :: "char \<Rightarrow> nat option" where
  "hex_digit c =
     (let n = (of_char c :: nat)
      in if 48 \<le> n \<and> n \<le> 57 then Some (n - 48)
         else if 65 \<le> n \<and> n \<le> 70 then Some (n - 55)
         else if 97 \<le> n \<and> n \<le> 102 then Some (n - 87)
         else None)"

text \<open>\<open>u8::from_str_radix(s, 16)\<close> on a slice of two bytes: a plus sign is accepted.\<close>

definition parse_hex_pair :: "char \<Rightarrow> char \<Rightarrow> byte option" where
  "parse_hex_pair a b =
     (if a = CHR ''+'' then map_option of_nat (hex_digit b)
      else do { x \<leftarrow> hex_digit a; y \<leftarrow> hex_digit b; Some (of_nat (16 * x + y)) })"

text \<open>
  The slices \<open>s[i..i + 2]\<close> are taken at byte offsets; one whose start or end splits a character
  panics.
\<close>

fun unhex_from :: "nat \<Rightarrow> string \<Rightarrow> deposit_error + bytes" where
  "unhex_from i (a # b # s) =
     (if is_cont_byte a \<or> \<not> is_char_boundary (a # b # s) 2 then Err UnhexPanic
      else case parse_hex_pair a b of
          None \<Rightarrow> Err (UnhexBad i)
        | Some x \<Rightarrow> result_bind (unhex_from (i + 2) s) (\<lambda>xs. Ok (x # xs)))"
| "unhex_from i _ = Ok []"

definition unhex :: "string \<Rightarrow> deposit_error + bytes" where
  "unhex s = (if length s mod 2 \<noteq> 0 then Err (UnhexOdd (length s)) else unhex_from 0 s)"

section \<open>The proof\<close>

record deposit_proof =
  blob :: bytes
  dep_tx_id :: bytes
  dep_ledger_index :: nat

definition map_err :: "('e \<Rightarrow> 'f) \<Rightarrow> 'e + 'a \<Rightarrow> 'f + 'a" where
  "map_err f r = (case r of Inl e \<Rightarrow> Err (f e) | Inr x \<Rightarrow> Ok x)"

lemma map_err_Ok_iff [simp]: "map_err f r = Ok x \<longleftrightarrow> r = Ok x"
  by (cases r) (simp_all add: map_err_def)

lemma map_err_Err_iff: "map_err f r = Err e \<longleftrightarrow> (\<exists>e'. r = Err e' \<and> e = f e')"
  by (cases r) (auto simp: map_err_def)

definition deposit_header :: "hex_fun \<Rightarrow> json \<Rightarrow> deposit_error + bytes" where
  "deposit_header hex ledger =
     (case json_as_str (json_index ledger ''ledger_data'') of
        Some s \<Rightarrow>
          result_bind (unhex s) (\<lambda>raw.
          if length raw \<noteq> HEADER_LEN then Err (HeaderLength (length raw)) else Ok raw)
      | None \<Rightarrow> map_err HeaderFields (serialize_ledger_header hex ledger))"

fun collect_items :: "nat \<Rightarrow> json list \<Rightarrow> deposit_error + (bytes \<times> bytes) list" where
  "collect_items i [] = Ok []"
| "collect_items i (t # ts) =
     result_bind (require (NoTxBlob i) (json_as_str (json_index t ''tx_blob''))) (\<lambda>tx_hex.
     result_bind (require (NoMeta i) (json_as_str (json_index t ''meta''))) (\<lambda>meta_hex.
     result_bind (unhex tx_hex) (\<lambda>tx.
     result_bind (unhex meta_hex) (\<lambda>meta.
     result_bind (collect_items (i + 1) ts) (\<lambda>items. Ok ((tx, meta) # items))))))"

definition be_u32 :: "bytes \<Rightarrow> nat" where
  "be_u32 b = of_le_bytes (rev (take 4 b))"

definition build_deposit_proof ::
  "hash_fun \<Rightarrow> hex_fun \<Rightarrow> json \<Rightarrow> nat \<Rightarrow> bytes list \<Rightarrow> deposit_error + deposit_proof" where
  "build_deposit_proof sha512 hex ledger_json target_index validations =
     (let ledger = json_index ledger_json ''ledger''
      in result_bind (deposit_header hex ledger) (\<lambda>header.
         result_bind (require NoTransactions (json_as_array (json_index ledger ''transactions''))) (\<lambda>txs.
         if length txs \<le> target_index then Err (IndexOutOfRange target_index (length txs))
         else
           result_bind (collect_items 0 txs) (\<lambda>items.
           result_bind (map_err ShamapFailed (build sha512 items)) (\<lambda>m.
           if root_hash sha512 m \<noteq> take 32 (drop 44 header) then Err (RootDiffers (length items))
           else
             let (tx_blob, meta) = items ! target_index;
                 key = tx_id sha512 tx_blob
             in result_bind (map_err ShamapFailed (inclusion_proof sha512 m key)) (\<lambda>pf.
                result_bind (map_err BlobFailed
                    (build_xdep_blob header validations tx_blob meta (inner_root_to_leaf pf))) (\<lambda>b.
                Ok \<lparr>blob = b, dep_tx_id = key, dep_ledger_index = be_u32 header\<rparr>)))))))"

definition find_escrow_payments :: "json \<Rightarrow> string \<Rightarrow> nat list" where
  "find_escrow_payments ledger_json escrow_classic =
     (case json_as_array (json_index (json_index ledger_json ''ledger'') ''transactions'') of
        None \<Rightarrow> []
      | Some txs \<Rightarrow>
          map fst (filter (\<lambda>(i, t). json_index t ''TransactionType'' = JStr ''Payment''
                                  \<and> json_index t ''Destination'' = JStr escrow_classic)
                     (enumerate 0 txs)))"

section \<open>The enclave's answers\<close>

datatype submit_outcome =
    Credited string int
  | AlreadySettled
  | PermanentRefusal int
  | BoundaryNotArmed
  | Transient string

definition classify_submit :: "int \<Rightarrow> submit_outcome" where
  "classify_submit rc =
     (if rc = -2 \<or> rc = -86 then AlreadySettled
      else if rc = -85 then BoundaryNotArmed
      else PermanentRefusal rc)"

text \<open>\<open>str::find\<close> of a pattern, as the text after its first occurrence.\<close>

fun after_first :: "string \<Rightarrow> string \<Rightarrow> string option" where
  "after_first pat [] = (if pat = [] then Some [] else None)"
| "after_first pat (c # s) =
     (if take (length pat) (c # s) = pat then Some (drop (length pat) (c # s)) else after_first pat s)"

definition parse_i32 :: "string \<Rightarrow> int option" where
  "parse_i32 s = (case parse_i64 s of
     Some v \<Rightarrow> if - (2 ^ 31) \<le> v \<and> v < 2 ^ 31 then Some v else None | None \<Rightarrow> None)"

definition rc_from_error :: "string \<Rightarrow> int option" where
  "rc_from_error msg =
     Option.bind (after_first ''rc='' msg)
       (\<lambda>rest. parse_i32 (takeWhile (\<lambda>c. is_ascii_digit c \<or> c = CHR ''-'') rest))"

definition outcome_from_error :: "string \<Rightarrow> submit_outcome" where
  "outcome_from_error msg = (case rc_from_error msg of Some rc \<Rightarrow> classify_submit rc | None \<Rightarrow> Transient msg)"

datatype arm_outcome = Armed | AlreadyArmed | NoBaselineProven | ArmOther string

definition int_to_dec :: "int \<Rightarrow> string" where
  "int_to_dec n = (if n < 0 then CHR ''-'' # nat_to_dec (nat (- n)) else nat_to_dec (nat n))"

definition classify_arm :: "int \<Rightarrow> arm_outcome" where
  "classify_arm rc =
     (if rc = 0 then Armed else if rc = -62 then AlreadyArmed else if rc = -84 then NoBaselineProven
      else ArmOther (''rc='' @ int_to_dec rc))"

fun arm_requires_action :: "arm_outcome \<Rightarrow> bool" where
  "arm_requires_action Armed = False"
| "arm_requires_action AlreadyArmed = False"
| "arm_requires_action NoBaselineProven = True"
| "arm_requires_action (ArmOther _) = True"

definition arm_outcome_from_error :: "string \<Rightarrow> arm_outcome" where
  "arm_outcome_from_error msg = (case rc_from_error msg of Some rc \<Rightarrow> classify_arm rc | None \<Rightarrow> ArmOther msg)"

text \<open>The command-line wrapper: its exit status from the enclave's answer.\<close>

definition cli_arm_spv_deposit_boundary :: "string + json \<Rightarrow> arm_outcome + unit" where
  "cli_arm_spv_deposit_boundary answer =
     (let outcome = (case answer of Inr _ \<Rightarrow> Armed | Inl e \<Rightarrow> arm_outcome_from_error e)
      in if arm_requires_action outcome then Err outcome else Ok ())"

definition resume_from :: "nat \<Rightarrow> nat \<Rightarrow> nat \<Rightarrow> nat" where
  "resume_from last_credited boundary safety_margin = u64_saturating_sub (max last_credited boundary) safety_margin"

section \<open>Collecting validations\<close>

datatype ws_message = TextFrame string | CloseFrame | OtherFrame

datatype ws_event = NextTimeout | StreamEnd | StreamError string | Received ws_message

datatype pump_end = Closed | PumpFailed string | IdleTimeout

datatype pump_state = Pumping | Ended pump_end | PumpPanicked

text \<open>What one text frame does to the buffer; \<open>None\<close> is the panic of the hex decoder.\<close>

definition take_frame :: "(string \<Rightarrow> json option) \<Rightarrow> string \<Rightarrow> validation_buffer \<Rightarrow> validation_buffer option" where
  "take_frame from_str txt b =
     (case from_str txt of
        None \<Rightarrow> Some b
      | Some j \<Rightarrow>
          if json_index j ''type'' \<noteq> JStr ''validationReceived'' \<or> json_index j ''full'' \<noteq> JBool True then Some b
          else case (json_as_str (json_index j ''ledger_hash''), json_as_str (json_index j ''data'')) of
              (Some lh, Some data_hex) \<Rightarrow>
                (case unhex data_hex of
                   Inr data \<Rightarrow> Some (vb_insert lh data b)
                 | Inl UnhexPanic \<Rightarrow> None
                 | Inl _ \<Rightarrow> Some b)
            | _ \<Rightarrow> Some b)"

fun pump_validations ::
  "(string \<Rightarrow> json option) \<Rightarrow> ws_event list \<Rightarrow> validation_buffer \<Rightarrow> pump_state \<times> validation_buffer" where
  "pump_validations from_str [] b = (Pumping, b)"
| "pump_validations from_str (NextTimeout # es) b = (Ended IdleTimeout, b)"
| "pump_validations from_str (StreamEnd # es) b = (Ended Closed, b)"
| "pump_validations from_str (StreamError e # es) b = (Ended (PumpFailed e), b)"
| "pump_validations from_str (Received CloseFrame # es) b = (Ended Closed, b)"
| "pump_validations from_str (Received OtherFrame # es) b = pump_validations from_str es b"
| "pump_validations from_str (Received (TextFrame txt) # es) b =
     (case take_frame from_str txt b of
        None \<Rightarrow> (PumpPanicked, b)
      | Some b' \<Rightarrow> pump_validations from_str es b')"

section \<open>The scanner\<close>

datatype rpc_request = ValidatedLedger | LedgerAt nat bool

type_synonym rpc_fun = "string \<Rightarrow> rpc_request \<Rightarrow> string + json"

type_synonym 's enclave_fun = "'s \<Rightarrow> bytes \<Rightarrow> (string + json) \<times> 's"

datatype scan_error =
    HttpFailed string
  | NoValidatedIndex
  | NoLedgerHash
  | NoValidations nat string nat
  | ProofFailed nat deposit_error
  | NotArmed

definition fetch_validated_index :: "rpc_fun \<Rightarrow> string \<Rightarrow> scan_error + nat" where
  "fetch_validated_index rpc url =
     result_bind (map_err HttpFailed (rpc url ValidatedLedger)) (\<lambda>v.
     require NoValidatedIndex (json_as_u64 (json_index (json_index v ''result'') ''ledger_index'')))"

definition first_reachable :: "rpc_fun \<Rightarrow> string list \<Rightarrow> string option" where
  "first_reachable rpc urls = find (\<lambda>u. \<not> isl (fetch_validated_index rpc u)) urls"

text \<open>Offering the proofs of one ledger to the enclave, in the order of the hits.\<close>

fun submit_hits ::
  "hash_fun \<Rightarrow> hex_fun \<Rightarrow> 's enclave_fun \<Rightarrow> json \<Rightarrow> bytes list \<Rightarrow> nat list \<Rightarrow> 's
    \<Rightarrow> (scan_error + unit) \<times> 's" where
  "submit_hits sha512 hex enclave ledger_json validations [] st = (Ok (), st)"
| "submit_hits sha512 hex enclave ledger_json validations (idx # hits) st =
     (case build_deposit_proof sha512 hex ledger_json idx validations of
        Inl e \<Rightarrow> (Err (ProofFailed idx e), st)
      | Inr pf \<Rightarrow>
          (case enclave st (blob pf) of
             (Inr v, st') \<Rightarrow> submit_hits sha512 hex enclave ledger_json validations hits st'
           | (Inl e, st') \<Rightarrow>
               if outcome_from_error e = BoundaryNotArmed then (Err NotArmed, st')
               else submit_hits sha512 hex enclave ledger_json validations hits st'))"

definition scan_one_ledger ::
  "hash_fun \<Rightarrow> hex_fun \<Rightarrow> rpc_fun \<Rightarrow> string \<Rightarrow> string \<Rightarrow> 's enclave_fun \<Rightarrow> validation_buffer \<Rightarrow> nat \<Rightarrow> 's
    \<Rightarrow> (scan_error + unit) \<times> 's" where
  "scan_one_ledger sha512 hex rpc url escrow_classic enclave buffer index st =
     (case rpc url (LedgerAt index False) of
        Inl e \<Rightarrow> (Err (HttpFailed e), st)
      | Inr j \<Rightarrow>
          let result = json_index j ''result'';
              hits = find_escrow_payments result escrow_classic
          in if hits = [] then (Ok (), st)
             else case json_as_str (json_index result ''ledger_hash'') of
                 None \<Rightarrow> (Err NoLedgerHash, st)
               | Some lh \<Rightarrow>
                   (case vb_get buffer lh of
                      None \<Rightarrow> (Err (NoValidations index lh (length hits)), st)
                    | Some validations \<Rightarrow>
                        (case rpc url (LedgerAt index True) of
                           Inl e \<Rightarrow> (Err (HttpFailed e), st)
                         | Inr jb \<Rightarrow>
                             submit_hits sha512 hex enclave (json_index jb ''result'') validations hits st)))"

record 's scanner =
  next_ledger :: "nat option"
  enclave_state :: 's
  panicked :: bool

text \<open>
  One pass of the scanner's loop. The first component is the ledger the pass completed, \<open>None\<close>
  where it ends in the interval sleep instead. A panic of the hex decoder ends the task: no pass does anything after it.
\<close>

fun is_panic :: "scan_error \<Rightarrow> bool" where
  "is_panic (ProofFailed _ UnhexPanic) = True"
| "is_panic _ = False"

definition scanner_pass ::
  "hash_fun \<Rightarrow> hex_fun \<Rightarrow> string list \<Rightarrow> string \<Rightarrow> 's enclave_fun \<Rightarrow> rpc_fun \<Rightarrow> validation_buffer
    \<Rightarrow> 's scanner \<Rightarrow> nat option \<times> 's scanner" where
  "scanner_pass sha512 hex urls escrow_classic enclave rpc buffer s =
     (if panicked s then (None, s)
      else case first_reachable rpc urls of
        None \<Rightarrow> (None, s)
      | Some primary \<Rightarrow>
          (case fetch_validated_index rpc primary of
             Inl e \<Rightarrow> (None, s)
           | Inr validated \<Rightarrow>
               let start = (case next_ledger s of None \<Rightarrow> validated | Some n \<Rightarrow> n);
                   s1 = s\<lparr>next_ledger := Some start\<rparr>
               in if validated < start then (None, s1)
                  else case scan_one_ledger sha512 hex rpc primary escrow_classic enclave buffer start (enclave_state s) of
                      (Inr _, st) \<Rightarrow> (Some start, s1\<lparr>next_ledger := Some (u64_add start 1), enclave_state := st\<rparr>)
                    | (Inl e, st) \<Rightarrow>
                        (None, s1\<lparr>enclave_state := st, panicked := is_panic e\<rparr>)))"

end
