(* ===== verification/Deposit_Props.thy ===== *)
theory Deposit_Props
  imports Deposit SpvProof_Props
begin

text \<open>
  Properties of the deposit path: the validation buffer is a bounded window with the oldest
  ledger evicted first, a proof that was built carries a verifying inclusion path for the
  chosen transaction, and the scanner walks the ledgers in order. Two behaviours are stated
  as they are: a ledger the node does not serve is passed over, and one malformed validation
  stops the scanner at its ledger.
\<close>

section \<open>The validation buffer\<close>

definition vb_ok :: "validation_buffer \<Rightarrow> bool" where
  "vb_ok b \<longleftrightarrow> bt_ok (by_hash b) \<and> distinct (vb_order b) \<and> set (vb_order b) = set (bt_keys (by_hash b))
     \<and> length (vb_order b) \<le> VALIDATION_BUFFER_LEDGERS"

lemma bt_get_remove: "bt_get (bt_remove k m) = (bt_get m)(k := None)"
  by (induction m) (auto simp: bt_get_def bt_remove_def fun_eq_iff)

lemma bt_remove_ok: "bt_ok m \<Longrightarrow> bt_ok (bt_remove k m)"
  by (auto simp: bt_ok_def bt_remove_def sorted_wrt_map intro: sorted_wrt_filter)

lemma set_keys_remove: "set (bt_keys (bt_remove k m)) = set (bt_keys m) - {k}"
  by (auto simp: bt_keys_def bt_remove_def)

lemma vb_order_get: "vb_ok b \<Longrightarrow> h \<in> set (vb_order b) \<longleftrightarrow> vb_get b h \<noteq> None"
  by (simp add: vb_ok_def vb_get_def bt.get_keys)

lemma evict_small: "length (vb_order b) \<le> VALIDATION_BUFFER_LEDGERS \<Longrightarrow> evict b = b"
  by (subst evict.simps) simp

lemma evict_one:
  "length (vb_order b) = Suc VALIDATION_BUFFER_LEDGERS \<Longrightarrow>
    evict b = \<lparr>by_hash = bt_remove (hd (vb_order b)) (by_hash b), vb_order = tl (vb_order b)\<rparr>"
  by (subst evict.simps) (simp add: evict_small)

lemma vb_insert_seen:
  assumes "vb_ok b" "vb_get b h \<noteq> None"
  shows "vb_insert h d b = b\<lparr>by_hash := bt_upsert h [] (\<lambda>v. v @ [d]) (by_hash b)\<rparr>"
  using assms by (auto simp: vb_insert_def vb_get_def vb_ok_def evict_small)

lemma vb_insert_room:
  assumes "vb_ok b" "vb_get b h = None" "length (vb_order b) < VALIDATION_BUFFER_LEDGERS"
  shows "vb_insert h d b = \<lparr>by_hash = bt_upsert h [] (\<lambda>v. v @ [d]) (by_hash b), vb_order = vb_order b @ [h]\<rparr>"
  using assms by (simp add: vb_insert_def vb_get_def vb_ok_def evict_small)

lemma vb_insert_full:
  assumes "vb_ok b" "vb_get b h = None" "length (vb_order b) = VALIDATION_BUFFER_LEDGERS"
  shows "vb_insert h d b = \<lparr>by_hash = bt_remove (hd (vb_order b)) (bt_upsert h [] (\<lambda>v. v @ [d]) (by_hash b)),
      vb_order = tl (vb_order b) @ [h]\<rparr>"
proof -
  have "vb_order b \<noteq> []" using assms(3) by (auto simp: VALIDATION_BUFFER_LEDGERS_def)
  then show ?thesis using assms by (simp add: vb_insert_def vb_get_def evict_one)
qed

text \<open>Whether an insertion pushes the oldest ledger out.\<close>

definition pushes_out :: "string \<Rightarrow> validation_buffer \<Rightarrow> bool" where
  "pushes_out h b \<longleftrightarrow> vb_get b h = None \<and> length (vb_order b) = VALIDATION_BUFFER_LEDGERS"

lemma vb_insert_spec:
  assumes ok: "vb_ok b"
  shows "vb_ok (vb_insert h d b)"
    and "vb_order (vb_insert h d b) = (if vb_get b h \<noteq> None then vb_order b
      else if pushes_out h b then tl (vb_order b) @ [h] else vb_order b @ [h])"
    and "vb_get (vb_insert h d b) h = Some ((case vb_get b h of None \<Rightarrow> [] | Some v \<Rightarrow> v) @ [d])"
    and "h' \<noteq> h \<Longrightarrow> vb_get (vb_insert h d b) h' = (if pushes_out h b \<and> h' = hd (vb_order b) then None else vb_get b h')"
proof -
  have B: "bt_ok (by_hash b)" "distinct (vb_order b)" "set (vb_order b) = set (bt_keys (by_hash b))"
    "length (vb_order b) \<le> VALIDATION_BUFFER_LEDGERS" using ok by (simp_all add: vb_ok_def)
  consider (seen) "vb_get b h \<noteq> None" | (room) "vb_get b h = None" "length (vb_order b) < VALIDATION_BUFFER_LEDGERS"
    | (full) "vb_get b h = None" "length (vb_order b) = VALIDATION_BUFFER_LEDGERS" using B(4) by linarith
  then have "vb_ok (vb_insert h d b) \<and> vb_order (vb_insert h d b) = (if vb_get b h \<noteq> None then vb_order b
      else if pushes_out h b then tl (vb_order b) @ [h] else vb_order b @ [h])
    \<and> vb_get (vb_insert h d b) h = Some ((case vb_get b h of None \<Rightarrow> [] | Some v \<Rightarrow> v) @ [d])
    \<and> (h' \<noteq> h \<longrightarrow> vb_get (vb_insert h d b) h' = (if pushes_out h b \<and> h' = hd (vb_order b) then None else vb_get b h'))"
  proof cases
    case seen
    then have "h \<in> set (vb_order b)" using vb_order_get [OF ok] by simp
    then show ?thesis using seen B
      by (auto simp: vb_insert_seen [OF ok seen] vb_ok_def bt.upsert_ok bt.set_keys_upsert vb_get_def bt.get_upsert pushes_out_def)
  next
    case room
    then have "h \<notin> set (vb_order b)" using vb_order_get [OF ok] by simp
    then show ?thesis using room B
      by (auto simp: vb_insert_room [OF ok room] vb_ok_def bt.upsert_ok bt.set_keys_upsert vb_get_def bt.get_upsert pushes_out_def)
  next
    case full
    then have n: "h \<notin> set (vb_order b)" using vb_order_get [OF ok] by simp
    obtain o1 os where o: "vb_order b = o1 # os" using full(2) by (cases "vb_order b") (auto simp: VALIDATION_BUFFER_LEDGERS_def)
    show ?thesis using full B n
      by (auto simp: vb_insert_full [OF ok full] vb_ok_def bt_remove_ok bt.upsert_ok bt.set_keys_upsert set_keys_remove
          vb_get_def bt_get_remove bt.get_upsert pushes_out_def o)
  qed
  then show "vb_ok (vb_insert h d b)"
    and "vb_order (vb_insert h d b) = (if vb_get b h \<noteq> None then vb_order b
      else if pushes_out h b then tl (vb_order b) @ [h] else vb_order b @ [h])"
    and "vb_get (vb_insert h d b) h = Some ((case vb_get b h of None \<Rightarrow> [] | Some v \<Rightarrow> v) @ [d])"
    and "h' \<noteq> h \<Longrightarrow> vb_get (vb_insert h d b) h' = (if pushes_out h b \<and> h' = hd (vb_order b) then None else vb_get b h')"
    by blast+
qed

lemma vb_ok_new: "vb_ok validation_buffer_new"
  by (simp add: vb_ok_def validation_buffer_new_def bt_keys_def)

abbreviation vb_inserts :: "(string \<times> bytes) list \<Rightarrow> validation_buffer \<Rightarrow> validation_buffer" where
  "vb_inserts xs b \<equiv> fold (\<lambda>(h, d). vb_insert h d) xs b"

text \<open>
  While fewer than 256 other ledgers follow, a ledger's entry keeps its place in the queue
  behind everything that can be pushed out.
\<close>

lemma vb_insert_keeps_place:
  assumes ok: "vb_ok b" and o: "vb_order b = pre @ h # post" "set post \<subseteq> F" "finite F" "card F < VALIDATION_BUFFER_LEDGERS"
    and h': "h' = h \<or> h' \<in> F" and g: "vb_get b h = Some ds"
  shows "vb_ok (vb_insert h' d' b) \<and> (\<exists>pre post. vb_order (vb_insert h' d' b) = pre @ h # post \<and> set post \<subseteq> F)
    \<and> vb_get (vb_insert h' d' b) h = Some (if h' = h then ds @ [d'] else ds)"
proof (intro conjI)
  note sp = vb_insert_spec [OF ok]
  have new: "h' \<in> F" if "vb_get b h' = None" using h' g that by auto
  have pre: "pre \<noteq> []" if out: "pushes_out h' b"
  proof
    assume "pre = []"
    then have l: "length (h' # post) = VALIDATION_BUFFER_LEDGERS" using out o(1) by (simp add: pushes_out_def)
    have n: "vb_get b h' = None" using out by (simp add: pushes_out_def)
    then have "distinct (h' # post)" using ok o(1) vb_order_get [OF ok, of h'] by (auto simp: vb_ok_def)
    moreover have "set (h' # post) \<subseteq> F" using new [OF n] o(2) by simp
    ultimately have "length (h' # post) \<le> card F" using o(3) by (metis card_mono distinct_card)
    then show False using l o(4) by simp
  qed
  show "vb_ok (vb_insert h' d' b)" by (rule sp(1))
  have hd: "hd (vb_order b) \<noteq> h" if "pushes_out h' b"
    using pre [OF that] o(1) ok by (cases pre) (auto simp: vb_ok_def)
  show "vb_get (vb_insert h' d' b) h = Some (if h' = h then ds @ [d'] else ds)"
    using sp(3) [of h' d'] sp(4) [of h h' d'] g hd by (cases "h' = h") auto
  consider (seen) "vb_get b h' \<noteq> None" | (out) "vb_get b h' = None" "pushes_out h' b"
    | (room) "vb_get b h' = None" "\<not> pushes_out h' b" by blast
  then show "\<exists>pre post. vb_order (vb_insert h' d' b) = pre @ h # post \<and> set post \<subseteq> F"
  proof cases
    case seen
    then show ?thesis using sp(2) o by auto
  next
    case out
    have "vb_order (vb_insert h' d' b) = tl pre @ h # (post @ [h'])" using sp(2) out o(1) pre by simp
    moreover have "set (post @ [h']) \<subseteq> F" using o(2) new out(1) by auto
    ultimately show ?thesis by blast
  next
    case room
    have "vb_order (vb_insert h' d' b) = pre @ h # (post @ [h'])" using sp(2) room o(1) by simp
    moreover have "set (post @ [h']) \<subseteq> F" using o(2) new room(1) by auto
    ultimately show ?thesis by blast
  qed
qed

lemma vb_inserts_keep_place:
  assumes "finite F" "card F < VALIDATION_BUFFER_LEDGERS" "fst ` set xs \<subseteq> insert h F"
    and "vb_ok b" "vb_order b = pre @ h # post" "set post \<subseteq> F" "vb_get b h = Some ds"
  shows "vb_ok (vb_inserts xs b) \<and> vb_get (vb_inserts xs b) h = Some (ds @ map snd (filter (\<lambda>(h', d). h' = h) xs))"
  using assms(3-)
proof (induction xs arbitrary: b pre post ds)
  case (Cons x xs)
  obtain h' d' where x: "x = (h', d')" by (cases x)
  have "h' = h \<or> h' \<in> F" using Cons.prems(1) x by auto
  from vb_insert_keeps_place [OF Cons.prems(2,3,4) assms(1,2) this Cons.prems(5), of d']
  obtain pre' post' where "vb_ok (vb_insert h' d' b)" "vb_order (vb_insert h' d' b) = pre' @ h # post'"
    "set post' \<subseteq> F" "vb_get (vb_insert h' d' b) h = Some (if h' = h then ds @ [d'] else ds)" by blast
  then show ?case using Cons.IH Cons.prems(1) by (simp add: x)
qed auto

section \<open>What a built proof carries\<close>

lemma unhex_length_header: "deposit_header hex ledger = Ok h \<Longrightarrow> length h = HEADER_LEN"
  using header_layout_fields(1)
  by (auto simp: deposit_header_def result_bind_Ok_iff split: option.splits if_splits)

lemma collect_items_length: "collect_items i ts = Ok items \<Longrightarrow> length items = length ts"
  by (induction i ts arbitrary: items rule: collect_items.induct) (auto simp: result_bind_Ok_iff)

lemma deposit_proof_carries:
  assumes H: "digest_ok sha512" and n: "length validations < 2 ^ 16"
    and b: "build_deposit_proof sha512 hex j target validations = Ok p"
  shows "\<exists>txs items header es tx meta path. json_as_array (json_index (json_index j ''ledger'') ''transactions'') = Some txs
    \<and> collect_items 0 txs = Ok items \<and> deposit_header hex (json_index j ''ledger'') = Ok header
    \<and> target < length items \<and> items ! target = (tx, meta) \<and> map_result validation_entry validations = Ok es
    \<and> read_xdep (blob p) = Some (header, es, tx, meta, path)
    \<and> verify_tx_inclusion sha512 (take 32 (drop 44 header)) tx meta path = Ok (dep_tx_id p)"
proof -
  let ?l = "json_index j ''ledger''"
  obtain header txs items m where c: "deposit_header hex ?l = Ok header"
    "json_as_array (json_index ?l ''transactions'') = Some txs" "target < length txs" "collect_items 0 txs = Ok items"
    "build sha512 items = Ok m" "root_hash sha512 m = take 32 (drop 44 header)"
    and r: "(let (tx_blob, meta) = items ! target; key = tx_id sha512 tx_blob
             in result_bind (map_err ShamapFailed (inclusion_proof sha512 m key)) (\<lambda>pf.
                result_bind (map_err BlobFailed
                    (build_xdep_blob header validations tx_blob meta (inner_root_to_leaf pf))) (\<lambda>b.
                Ok \<lparr>blob = b, dep_tx_id = key, dep_ledger_index = be_u32 header\<rparr>))) = Ok p"
    using b by (auto simp: build_deposit_proof_def Let_def result_bind_Ok_iff split: if_splits)
  obtain tx meta where t: "items ! target = (tx, meta)" by (cases "items ! target")
  have len: "target < length items" using c(3) collect_items_length [OF c(4)] by simp
  then have mem: "(tx, meta) \<in> set items" using t by (metis nth_mem)
  obtain pf where pf: "inclusion_proof sha512 m (tx_id sha512 tx) = Ok pf"
    "build_xdep_blob header validations tx meta (inner_root_to_leaf pf) = Ok (blob p)" "dep_tx_id p = tx_id sha512 tx"
    using r t by (auto simp: Let_def result_bind_Ok_iff)
  have "\<forall>n\<in>set (inner_root_to_leaf pf). length n = 512"
    using path_loop_512 [OF pf(1) [unfolded inclusion_proof_def] H build_ok(1) [OF c(5) H]] by simp
  from xdep_read_back [OF pf(2) unhex_length_header [OF c(1)] n this]
  obtain es where "map_result validation_entry validations = Ok es"
    "read_xdep (blob p) = Some (header, es, tx, meta, inner_root_to_leaf pf)" by blast
  moreover have "verify_tx_inclusion sha512 (take 32 (drop 44 header)) tx meta (inner_root_to_leaf pf) = Ok (dep_tx_id p)"
    using inclusion_complete [OF H c(5) mem] pf(1,3) c(6) by auto
  ultimately show ?thesis using c len t by blast
qed

section \<open>The scanner\<close>

text \<open>
  The passes of a scanner, each with whatever the node and the collectors offer at that time;
  the list holds the ledgers completed so far, with the node's answers and the buffer of the
  pass that completed them. No answer names the last index a \<open>u64\<close> has.
\<close>

inductive scan_reach ::
  "hash_fun \<Rightarrow> hex_fun \<Rightarrow> string list \<Rightarrow> string \<Rightarrow> 's enclave_fun \<Rightarrow> 's
    \<Rightarrow> (nat \<times> rpc_fun \<times> validation_buffer) list \<Rightarrow> 's scanner \<Rightarrow> bool"
  for sha512 hex urls escrow enclave st0 where
  start: "scan_reach sha512 hex urls escrow enclave st0 [] \<lparr>next_ledger = None, enclave_state = st0, panicked = False\<rparr>"
| advance: "scan_reach sha512 hex urls escrow enclave st0 ls s \<Longrightarrow>
    (\<And>u v. fetch_validated_index rpc u = Ok v \<Longrightarrow> v + 1 < 2 ^ 64) \<Longrightarrow>
    scanner_pass sha512 hex urls escrow enclave rpc buffer s = (Some l, s') \<Longrightarrow>
    scan_reach sha512 hex urls escrow enclave st0 (ls @ [(l, rpc, buffer)]) s'"
| wait: "scan_reach sha512 hex urls escrow enclave st0 ls s \<Longrightarrow>
    scanner_pass sha512 hex urls escrow enclave rpc buffer s = (None, s') \<Longrightarrow>
    scan_reach sha512 hex urls escrow enclave st0 ls s'"

text \<open>
  A ledger was handled: a node of the list served it, and every payment of that answer was
  proved with the validations buffered for the answer's ledger hash and offered to the enclave.
\<close>

definition handled ::
  "hash_fun \<Rightarrow> hex_fun \<Rightarrow> string list \<Rightarrow> string \<Rightarrow> 's enclave_fun \<Rightarrow> nat \<Rightarrow> rpc_fun \<Rightarrow> validation_buffer \<Rightarrow> bool" where
  "handled sha512 hex urls escrow enclave l rpc buffer \<longleftrightarrow> (\<exists>url\<in>set urls. \<exists>j.
     rpc url (LedgerAt l False) = Ok j
     \<and> (find_escrow_payments (json_index j ''result'') escrow = []
        \<or> (\<exists>lh validations jb. json_index (json_index j ''result'') ''ledger_hash'' = JStr lh
            \<and> vb_get buffer lh = Some validations \<and> rpc url (LedgerAt l True) = Ok jb
            \<and> (\<forall>i\<in>set (find_escrow_payments (json_index j ''result'') escrow). \<exists>pf st.
                build_deposit_proof sha512 hex (json_index jb ''result'') i validations = Ok pf
                \<and> (\<forall>e. fst (enclave st (blob pf)) = Err e \<longrightarrow> outcome_from_error e \<noteq> BoundaryNotArmed)))))"

lemma json_as_str_Some [simp]: "json_as_str v = Some s \<longleftrightarrow> v = JStr s"
  by (cases v) auto

lemma submit_hits_ok:
  "submit_hits sha512 hex enclave j vals hits st = (Ok (), st') \<Longrightarrow> i \<in> set hits \<Longrightarrow>
   \<exists>pf st. build_deposit_proof sha512 hex j i vals = Ok pf
     \<and> (\<forall>e. fst (enclave st (blob pf)) = Err e \<longrightarrow> outcome_from_error e \<noteq> BoundaryNotArmed)"
proof (induction sha512 hex enclave j vals hits st rule: submit_hits.induct)
  case (2 sha512 hex enclave j vals idx hits st)
  obtain pf where pf: "build_deposit_proof sha512 hex j idx vals = Ok pf"
    using "2.prems"(1) by (auto split: sum.splits)
  obtain r st1 where r: "enclave st (blob pf) = (r, st1)" by (cases "enclave st (blob pf)")
  have ok: "\<forall>e. r = Err e \<longrightarrow> outcome_from_error e \<noteq> BoundaryNotArmed"
    and rest: "submit_hits sha512 hex enclave j vals hits st1 = (Ok (), st')"
    using "2.prems"(1) pf r by (auto split: sum.splits if_splits)
  show ?case
  proof (cases "i = idx")
    case True
    then show ?thesis using pf ok r by (metis fst_conv)
  next
    case False
    then have "i \<in> set hits" using "2.prems"(2) by simp
    then show ?thesis
      using "2.IH" rest pf r ok by (cases r) (metis prod.exhaust)+
  qed
qed simp

lemma scan_one_ledger_ok:
  assumes "scan_one_ledger sha512 hex rpc url escrow enclave buffer l st = (Ok (), st')" "url \<in> set urls"
  shows "handled sha512 hex urls escrow enclave l rpc buffer"
proof -
  obtain j where j: "rpc url (LedgerAt l False) = Ok j"
    using assms by (auto simp: scan_one_ledger_def split: sum.splits)
  let ?hits = "find_escrow_payments (json_index j ''result'') escrow"
  show ?thesis
  proof (cases "?hits = []")
    case True
    then show ?thesis unfolding handled_def using j assms(2) by blast
  next
    case False
    then obtain lh vals jb where jb: "json_index (json_index j ''result'') ''ledger_hash'' = JStr lh"
      "vb_get buffer lh = Some vals" "rpc url (LedgerAt l True) = Ok jb"
      "submit_hits sha512 hex enclave (json_index jb ''result'') vals ?hits st = (Ok (), st')"
      using assms(1) j by (auto simp: scan_one_ledger_def Let_def split: sum.splits option.splits)
    then show ?thesis unfolding handled_def using j assms(2) submit_hits_ok [OF jb(4)] by blast
  qed
qed

lemma scanner_pass_Some:
  assumes "scanner_pass sha512 hex urls escrow enclave rpc buffer s = (Some l, s')"
  shows "\<exists>url\<in>set urls. \<exists>v. fetch_validated_index rpc url = Ok v \<and> l \<le> v \<and> (case next_ledger s of None \<Rightarrow> l = v | Some n \<Rightarrow> l = n)
    \<and> next_ledger s' = Some (u64_add l 1)
    \<and> (\<exists>st'. scan_one_ledger sha512 hex rpc url escrow enclave buffer l (enclave_state s) = (Ok (), st'))"
  using assms
  by (fastforce simp: scanner_pass_def Let_def not_less first_reachable_def find_Some_iff
      split: option.splits sum.splits if_splits prod.splits)

lemma scanner_pass_None:
  assumes "scanner_pass sha512 hex urls escrow enclave rpc buffer s = (None, s')"
  shows "next_ledger s' = next_ledger s \<or> next_ledger s = None"
  using assms by (auto simp: scanner_pass_def Let_def split: option.splits sum.splits if_splits prod.splits)

lemma scan_reach_walk:
  assumes "scan_reach sha512 hex urls escrow enclave st0 ls s"
  shows "(next_ledger s = None \<longrightarrow> ls = [])
    \<and> (\<forall>n. next_ledger s = Some n \<longrightarrow> length ls \<le> n \<and> map fst ls = [n - length ls..<n])
    \<and> (\<forall>(l, rpc, buffer)\<in>set ls. handled sha512 hex urls escrow enclave l rpc buffer)"
  using assms
proof (induction rule: scan_reach.induct)
  case (advance ls s rpc buffer l s')
  obtain url v st' where p: "url \<in> set urls" "fetch_validated_index rpc url = Ok v" "l \<le> v"
    "case next_ledger s of None \<Rightarrow> l = v | Some n \<Rightarrow> l = n" "next_ledger s' = Some (u64_add l 1)"
    and sc: "scan_one_ledger sha512 hex rpc url escrow enclave buffer l (enclave_state s) = (Ok (), st')"
    using scanner_pass_Some [OF advance.hyps(3)] by blast
  have n: "next_ledger s' = Some (Suc l)"
    using p(3,5) advance.hyps(2) [OF p(2)] by (simp add: u64_add_def)
  have w: "map fst ls = [l - length ls..<l]" "length ls \<le> l"
    using p(4) advance.IH by (cases "next_ledger s"; simp)+
  then have "map fst (ls @ [(l, rpc, buffer)]) = [Suc l - length (ls @ [(l, rpc, buffer)])..<Suc l]" by simp
  then show ?case using n w(2) advance.IH scan_one_ledger_ok [OF sc p(1)] by simp
next
  case (wait ls s rpc buffer s')
  then show ?case using scanner_pass_None [OF wait.hyps(2)] by auto
qed simp

lemma validations_loop_bad:
  "d \<in> set datas \<Longrightarrow> validation_entry d = Err e \<Longrightarrow> \<exists>e'. validations_loop datas n out = Err e'"
proof (induction datas arbitrary: n out)
  case (Cons x datas)
  then show ?case by (cases "validation_entry x") auto
qed simp

lemma bad_validation_no_proof:
  assumes "d \<in> set validations" "validation_entry d = Err e"
  shows "\<exists>e'. build_deposit_proof sha512 hex j target validations = Err e'"
proof (cases "build_deposit_proof sha512 hex j target validations")
  case (Inr p)
  obtain e' where "build_validations_section validations = Err e'"
    using validations_loop_bad [OF assms] by (auto simp: build_validations_section_def)
  then have "build_xdep_blob header validations tx meta path \<noteq> Ok b" for header tx meta path b
    by (simp add: build_xdep_blob_def)
  then show ?thesis using Inr by (auto simp: build_deposit_proof_def Let_def result_bind_Ok_iff split: if_splits prod.splits)
qed simp

section \<open>Sample data\<close>

definition sample_ledger :: json where
  "sample_ledger = JObj [(''ledger'', JObj
     [(''ledger_data'', JStr (concat (replicate 44 ''00'') @ concat (replicate 32 ''24'') @ concat (replicate 42 ''00''))),
      (''transactions'', JArr [JObj [(''tx_blob'', JStr ''01''), (''meta'', JStr ''02'')]])])]"

lemma sample_items:
  "collect_items 0 [JObj [(''tx_blob'', JStr ''01''), (''meta'', JStr ''02'')]] = Ok [([1], [2])]"
  by code_simp

lemma sample_deposit: "\<not> isl (build_deposit_proof sum_digest (\<lambda>_. None) sample_ledger 0 [sample_validation])"
proof -
  let ?l = "json_index sample_ledger ''ledger''"
  let ?h = "replicate 44 0 @ replicate 32 0x24 @ replicate 42 0 :: bytes"
  have h: "deposit_header (\<lambda>_. None) ?l = Ok ?h" by code_simp
  have t: "json_as_array (json_index ?l ''transactions'') = Some [JObj [(''tx_blob'', JStr ''01''), (''meta'', JStr ''02'')]]"
    by (simp add: sample_ledger_def json_index_def)
  have "replicate 16 Empty = replicate 15 Empty @ [Empty]" by (simp add: numeral_eq_Suc)
  then have u: "(replicate 16 Empty)[15 := x] = replicate 15 Empty @ [x]" for x
    by (simp add: list_update_append)
  have z: "sum_list (concat (replicate n (replicate 32 (0 :: byte)))) = 0" for n
    by (induction n) (simp_all add: sum_list_replicate)
  obtain m where m: "build sum_digest [([1], [2])] = Ok m" "root_hash sum_digest m = replicate 32 0x24"
    by (simp add: shamap_run u z sum_list_replicate zero_hash_def)
  obtain pf where pf: "inclusion_proof sum_digest m (tx_id sum_digest [1]) = Ok pf" "length (inner_root_to_leaf pf) < MAX_DEPTH"
    using inclusion_complete [OF sum_digest_ok m(1), of "[1]" "[2]"] by auto
  show ?thesis
    using pf by (simp add: build_deposit_proof_def Let_def h t sample_items m map_err_def MAX_DEPTH_def
        build_xdep_blob_def build_xdep_blob_framed_def build_validations_section_def sample_validation_entry narrow_def require_def
        del: collect_items.simps)
qed

definition sample_rpc :: "json \<Rightarrow> rpc_fun" where
  "sample_rpc answer url req = (case req of
     ValidatedLedger \<Rightarrow> Ok (JObj [(''result'', JObj [(''ledger_index'', JNum 5)])])
   | LedgerAt n b \<Rightarrow> Ok answer)"

lemma sample_rpc_index [simp]: "fetch_validated_index (sample_rpc a) u = Ok 5"
  by (simp add: fetch_validated_index_def sample_rpc_def json_index_def map_err_def)

lemma sample_rpc_ledger [simp]: "sample_rpc a u (LedgerAt n b) = Ok a"
  by (simp add: sample_rpc_def)

definition unserved :: json where
  "unserved = JObj [(''result'', JObj [(''error'', JStr ''lgrNotFound'')])]"

definition silent_enclave :: "unit enclave_fun" where
  "silent_enclave st b = (Ok JNull, st)"

section \<open>Properties\<close>

text \<open>
  C14. A deposit proof that was built reads back as the header, the framed validations and the
  transaction at the chosen index of the served ledger, and its inclusion path verifies
  against the transaction root inside that header.
\<close>

theorem deposit_blob_proves:
  assumes "digest_ok sha512" "length validations < 2 ^ 16"
    and "build_deposit_proof sha512 hex j target validations = Ok p"
  shows "\<exists>txs items header es tx meta path. json_as_array (json_index (json_index j ''ledger'') ''transactions'') = Some txs
    \<and> collect_items 0 txs = Ok items \<and> deposit_header hex (json_index j ''ledger'') = Ok header
    \<and> target < length items \<and> items ! target = (tx, meta) \<and> map_result validation_entry validations = Ok es
    \<and> read_xdep (blob p) = Some (header, es, tx, meta, path)
    \<and> verify_tx_inclusion sha512 (take 32 (drop 44 header)) tx meta path = Ok (dep_tx_id p)"
  by (rule deposit_proof_carries [OF assms])

theorem deposit_blob_proves_witness:
  "\<exists>p header es path. build_deposit_proof sum_digest (\<lambda>_. None) sample_ledger 0 [sample_validation] = Ok p
     \<and> read_xdep (blob p) = Some (header, es, [1], [2], path)
     \<and> verify_tx_inclusion sum_digest (take 32 (drop 44 header)) [1] [2] path = Ok (dep_tx_id p)"
proof -
  obtain p where p: "build_deposit_proof sum_digest (\<lambda>_. None) sample_ledger 0 [sample_validation] = Ok p"
    using sample_deposit by (metis isl_def sum.exhaust)
  have t: "json_as_array (json_index (json_index sample_ledger ''ledger'') ''transactions'')
      = Some [JObj [(''tx_blob'', JStr ''01''), (''meta'', JStr ''02'')]]"
    by (simp add: sample_ledger_def json_index_def)
  show ?thesis using deposit_blob_proves [OF sum_digest_ok _ p] p t sample_items by auto
qed

text \<open>
  From the first validation of a ledger on, every validation of that ledger is kept, in
  order of arrival, while validations of fewer than 256 other ledgers arrive in any order and
  number, and the buffer never holds more than 256 ledgers.
\<close>

theorem validation_kept_for_window:
  assumes "vb_ok b" "vb_get b h = None" "card (fst ` set xs - {h}) < VALIDATION_BUFFER_LEDGERS"
  shows "vb_get (vb_inserts ((h, d) # xs) b) h = Some (d # map snd (filter (\<lambda>(h', d). h' = h) xs))
    \<and> vb_ok (vb_inserts ((h, d) # xs) b)"
proof -
  note sp = vb_insert_spec [OF assms(1), where h = h and d = d]
  obtain pre where o: "vb_order (vb_insert h d b) = pre @ h # []" using sp(2) assms(2) by (cases "pushes_out h b") auto
  have g: "vb_get (vb_insert h d b) h = Some [d]" using sp(3) assms(2) by simp
  have "fst ` set xs \<subseteq> insert h (fst ` set xs - {h})" by blast
  from vb_inserts_keep_place [OF _ assms(3) this sp(1) o _ g] show ?thesis by simp
qed

theorem validation_kept_for_window_witness:
  "vb_get (vb_inserts [(''A'', [1]), (''B'', [2]), (''A'', [3])] validation_buffer_new) ''A'' = Some [[1], [3]]"
  using validation_kept_for_window [OF vb_ok_new, of "''A''" "[(''B'', [2]), (''A'', [3])]" "[1]"]
  by (simp add: validation_buffer_new_def vb_get_def bt_get_def VALIDATION_BUFFER_LEDGERS_def insert_Diff_if)


lemma first_reachable_sample [simp]: "first_reachable (sample_rpc a) [u] = Some u"
  by (simp add: first_reachable_def)

lemma unserved_pass:
  "scanner_pass H hex [u] escrow silent_enclave (sample_rpc unserved) b
      \<lparr>next_ledger = None, enclave_state = (), panicked = False\<rparr>
    = (Some 5, \<lparr>next_ledger = Some 6, enclave_state = (), panicked = False\<rparr>)"
  by (simp add: scanner_pass_def Let_def scan_one_ledger_def unserved_def json_index_def
      find_escrow_payments_def u64_add_def)


text \<open>
  An answer without a transaction list, such as the error document of a node that does not
  have the ledger, counts as a ledger without payments: the pass completes the ledger and the
  scanner never returns to it.
\<close>

theorem scanner_skips_unserved_ledger:
  assumes "\<not> panicked s" "next_ledger s = Some n" "first_reachable rpc urls = Some u"
    and "fetch_validated_index rpc u = Ok v" "n \<le> v" "v + 1 < 2 ^ 64"
    and "rpc u (LedgerAt n False) = Ok j"
    and "json_as_array (json_index (json_index (json_index j ''result'') ''ledger'') ''transactions'') = None"
  shows "scanner_pass sha512 hex urls escrow enclave rpc buffer s = (Some n, s\<lparr>next_ledger := Some (n + 1)\<rparr>)"
  using assms
  by (simp add: scanner_pass_def Let_def scan_one_ledger_def find_escrow_payments_def u64_add_def)

theorem scanner_skips_unserved_ledger_witness:
  "scanner_pass sum_digest (\<lambda>_. None) [''u''] ''r'' silent_enclave (sample_rpc unserved) validation_buffer_new
      \<lparr>next_ledger = Some 4, enclave_state = (), panicked = False\<rparr>
    = (Some 4, \<lparr>next_ledger = Some 5, enclave_state = (), panicked = False\<rparr>)"
  using scanner_skips_unserved_ledger [of "\<lparr>next_ledger = Some 4, enclave_state = (), panicked = False\<rparr>" 4
      "sample_rpc unserved" "[''u'']" "''u''" 5 unserved sum_digest "\<lambda>_. None" "''r''" silent_enclave validation_buffer_new]
  by (simp add: unserved_def json_index_def)

text \<open>
  One malformed validation among those buffered for a ledger, from any of the merged
  sources, makes every proof for that ledger fail: the enclave is not asked, the pass sleeps,
  and the scanner stays at the ledger for as long as the entry is buffered.
\<close>

theorem bad_validation_blocks_ledger:
  assumes "next_ledger s = Some n" "n \<le> v" "first_reachable rpc urls = Some u" "fetch_validated_index rpc u = Ok v"
    and "rpc u (LedgerAt n False) = Ok j" "find_escrow_payments (json_index j ''result'') escrow \<noteq> []"
    and "json_index (json_index j ''result'') ''ledger_hash'' = JStr lh"
    and "vb_get buffer lh = Some validations" "d \<in> set validations" "validation_entry d = Err e"
  shows "\<exists>s'. scanner_pass sha512 hex urls escrow enclave rpc buffer s = (None, s')
    \<and> next_ledger s' = Some n \<and> enclave_state s' = enclave_state s"
proof -
  obtain i hits where h: "find_escrow_payments (json_index j ''result'') escrow = i # hits"
    using assms(6) by (cases "find_escrow_payments (json_index j ''result'') escrow") auto
  have "\<exists>e'. scan_one_ledger sha512 hex rpc u escrow enclave buffer n st = (Err e', st)" for st
  proof (cases "rpc u (LedgerAt n True)")
    case (Inr jb)
    obtain e0 where "build_deposit_proof sha512 hex (json_index jb ''result'') i validations = Err e0"
      using bad_validation_no_proof [OF assms(9,10)] by blast
    then show ?thesis using Inr assms(5,7,8) h by (simp add: scan_one_ledger_def Let_def)
  qed (use assms(5,7,8) h in \<open>simp add: scan_one_ledger_def Let_def\<close>)
  then obtain e' where "scan_one_ledger sha512 hex rpc u escrow enclave buffer n (enclave_state s) = (Err e', enclave_state s)"
    by blast
  then show ?thesis using assms(1-4) by (auto simp: scanner_pass_def Let_def)
qed

definition payment_answer :: json where
  "payment_answer = JObj [(''result'', JObj [(''ledger_hash'', JStr ''AB''), (''ledger'', JObj [(''transactions'',
     JArr [JObj [(''TransactionType'', JStr ''Payment''), (''Destination'', JStr ''r'')]])])])]"

theorem bad_validation_blocks_ledger_witness:
  "\<exists>s'. scanner_pass sum_digest (\<lambda>_. None) [''u''] ''r'' silent_enclave (sample_rpc payment_answer)
      (vb_inserts [(''AB'', sample_validation), (''AB'', [0])] validation_buffer_new)
      \<lparr>next_ledger = Some 4, enclave_state = (), panicked = False\<rparr> = (None, s')
    \<and> next_ledger s' = Some 4 \<and> enclave_state s' = ()"
proof -
  let ?b = "vb_inserts [(''AB'', sample_validation), (''AB'', [0])] validation_buffer_new"
  have g: "vb_get ?b ''AB'' = Some [sample_validation, [0]]"
    by (simp add: vb_insert_def vb_get_def validation_buffer_new_def bt_get_def evict.simps VALIDATION_BUFFER_LEDGERS_def)
  have e: "validation_entry [0] = Err ValidationWalk"
    by (simp add: validation_entry_def entry_loop.simps st_next_def byte_at_def)
  show ?thesis
    using bad_validation_blocks_ledger [where s = "\<lparr>next_ledger = Some 4, enclave_state = (), panicked = False\<rparr>"
          and rpc = "sample_rpc payment_answer" and urls = "[''u'']" and escrow = "''r''" and buffer = ?b
          and ?sha512.0 = sum_digest and hex = "\<lambda>_. None" and enclave = silent_enclave and n = 4 and v = 5 and u = "''u''" and j = payment_answer and lh = "''AB''"
          and validations = "[sample_validation, [0]]" and d = "[0]" and e = ValidationWalk]
    by (simp add: g [simplified] e payment_answer_def json_index_def find_escrow_payments_def)
qed

end
