(* ===== verification/Withdrawal.thy ===== *)
theory Withdrawal
  imports Deposit
begin

text \<open>
  \<^verbatim>\<open>orchestrator/src/withdrawal_reconcile.rs\<close>: the durable journal of reserved withdrawals, the pure
  decision about one of them, the pass that reads the ledger, builds the proof and asks the
  enclave, and the sweep. The XRPL node is the field \<open>xrpl\<close> of an environment, the state
  proof of an unspent sequence the field \<open>spv_bundle\<close>, the enclave a record of three
  functions of its own state.
\<close>

section \<open>The journal\<close>

record pending_withdrawal =
  escrow :: string
  sequence :: nat
  last_ledger_sequence :: nat
  amount_drops :: nat
  pw_destination :: string
  destination_tag :: "nat option"
  submitted_hash :: "string option"
  pw_user_id :: string
  reserved_at_ms :: nat

record journal = entries :: "pending_withdrawal list"

definition journal_default :: journal where "journal_default = \<lparr>entries = []\<rparr>"

fun upsert_entry :: "pending_withdrawal \<Rightarrow> pending_withdrawal list \<Rightarrow> pending_withdrawal list" where
  "upsert_entry e [] = [e]"
| "upsert_entry e (x # xs) =
     (if escrow x = escrow e \<and> sequence x = sequence e then e # xs else x # upsert_entry e xs)"

definition journal_upsert :: "pending_withdrawal \<Rightarrow> journal \<Rightarrow> journal" where
  "journal_upsert e j = j\<lparr>entries := upsert_entry e (entries j)\<rparr>"

definition journal_remove :: "string \<Rightarrow> nat \<Rightarrow> journal \<Rightarrow> bool \<times> journal" where
  "journal_remove esc seq j =
     (let kept = filter (\<lambda>x. \<not> (escrow x = esc \<and> sequence x = seq)) (entries j)
      in (length kept \<noteq> length (entries j), j\<lparr>entries := kept\<rparr>))"

definition journal_find :: "string \<Rightarrow> nat \<Rightarrow> journal \<Rightarrow> pending_withdrawal option" where
  "journal_find esc seq j = find (\<lambda>x. escrow x = esc \<and> sequence x = seq) (entries j)"

section \<open>Files\<close>

text \<open>
  A directory is a map from paths to contents. Writing a file is not atomic: a crash may leave
  any prefix of the new contents. Renaming is atomic.
\<close>

type_synonym files = "string \<Rightarrow> string option"

datatype file_op = WriteFile string string | RenameFile string string

fun run_op :: "file_op \<Rightarrow> files \<Rightarrow> files" where
  "run_op (WriteFile p c) fs = fs(p \<mapsto> c)"
| "run_op (RenameFile p q) fs = fs(q := fs p, p := None)"

datatype journal_error = ParseJournal | ReadJournal string

text \<open>What \<open>read_to_string\<close> finds: the contents, no file, or another error.\<close>

definition journal_load :: "(string \<Rightarrow> journal option) \<Rightarrow> string + string option \<Rightarrow> journal_error + journal" where
  "journal_load from_str file =
     (case file of
        Inr (Some s) \<Rightarrow> require ParseJournal (from_str s)
      | Inr None \<Rightarrow> Ok journal_default
      | Inl e \<Rightarrow> Err (ReadJournal e))"

text \<open>\<open>Path::with_extension\<close> on the file name after the last slash.\<close>

definition file_name :: "string \<Rightarrow> string" where
  "file_name path = rev (takeWhile (\<lambda>c. c \<noteq> CHR ''/'') (rev path))"

definition file_stem :: "string \<Rightarrow> string" where
  "file_stem name =
     (if CHR ''.'' \<in> set (tl name) then rev (tl (dropWhile (\<lambda>c. c \<noteq> CHR ''.'') (rev name))) else name)"

definition with_extension :: "string \<Rightarrow> string \<Rightarrow> string" where
  "with_extension path ext =
     take (length path - length (file_name path)) path @ file_stem (file_name path) @ CHR ''.'' # ext"

definition journal_save_ops :: "(journal \<Rightarrow> string) \<Rightarrow> string \<Rightarrow> journal \<Rightarrow> file_op list" where
  "journal_save_ops to_string path j =
     (let tmp = with_extension path ''json.tmp''
      in [WriteFile tmp (to_string j), RenameFile tmp path])"

section \<open>The verdict\<close>

datatype slot_verdict = SlotConsumed | Expired | Pending | VerdictAnomaly

definition classify :: "nat \<Rightarrow> nat \<Rightarrow> pending_withdrawal \<Rightarrow> slot_verdict" where
  "classify escrow_validated_sequence current_validated_ledger e =
     (if sequence e < escrow_validated_sequence then SlotConsumed
      else if escrow_validated_sequence < sequence e then VerdictAnomaly
      else if last_ledger_sequence e < current_validated_ledger then Expired
      else Pending)"

datatype defer_reason =
    RpcFailed string | NotVisible | LedgerLacksTx | NoLedgerHashField | NoBufferedValidations
  | ProofBuild deposit_error | Retryable int | NoEnclaveRc string | BundleFailed string

datatype anomaly_reason = SequenceBehind nat nat | BadTxHash string | RollbackRefused string | Terminal int

datatype reconcile_outcome =
    Finalized
  | RolledBackStolen
  | RolledBackExpired
  | StillPending
  | Deferred defer_reason
  | Anomaly anomaly_reason

fun is_terminal :: "reconcile_outcome \<Rightarrow> bool" where
  "is_terminal Finalized = True"
| "is_terminal RolledBackStolen = True"
| "is_terminal RolledBackExpired = True"
| "is_terminal _ = False"

section \<open>Reading the ledger\<close>

definition decode_tx_id :: "hex_fun \<Rightarrow> string \<Rightarrow> bytes option" where
  "decode_tx_id hex s = (case hex s of None \<Rightarrow> None | Some v \<Rightarrow> if length v \<noteq> 32 then None else Some v)"

text \<open>A transaction whose blob is missing or not hexadecimal is passed over.\<close>

definition find_target_index :: "hash_fun \<Rightarrow> hex_fun \<Rightarrow> json \<Rightarrow> bytes \<Rightarrow> nat option" where
  "find_target_index sha512 hex ledger_result target =
     Option.bind (json_as_array (json_index (json_index ledger_result ''ledger'') ''transactions''))
       (position (\<lambda>t. case Option.bind (json_as_str (json_index t ''tx_blob'')) hex of
                        None \<Rightarrow> False
                      | Some b \<Rightarrow> tx_id sha512 b = target))"

datatype xrpl_request =
    AccountInfo string | LedgerValidated | AccountTx string | FullLedger nat

type_synonym xrpl_fun = "xrpl_request \<Rightarrow> string + json"

definition as_u32 :: "nat \<Rightarrow> nat" where "as_u32 n = n mod 2 ^ 32"

definition escrow_validated_sequence :: "xrpl_fun \<Rightarrow> string \<Rightarrow> string + nat" where
  "escrow_validated_sequence xrpl esc =
     result_bind (xrpl (AccountInfo esc)) (\<lambda>r.
     require ''account_info: missing validated Sequence''
       (map_option as_u32 (json_as_u64 (json_index (json_index (json_index r ''result'') ''account_data'') ''Sequence''))))"

definition or_else :: "'a option \<Rightarrow> 'a option \<Rightarrow> 'a option" where
  "or_else x y = (case x of Some v \<Rightarrow> Some v | None \<Rightarrow> y)"

definition current_validated_ledger :: "xrpl_fun \<Rightarrow> string + nat" where
  "current_validated_ledger xrpl =
     result_bind (xrpl LedgerValidated) (\<lambda>r.
     let top = json_index (json_index r ''result'') ''ledger_index'';
         inner = json_index (json_index (json_index r ''result'') ''ledger'') ''ledger_index''
     in require ''ledger(validated): missing ledger_index''
          (map_option as_u32 (or_else (json_as_u64 top) (or_else (json_as_u64 inner)
             (Option.bind (json_as_str inner) parse_u64)))))"

fun is_object :: "json \<Rightarrow> bool" where
  "is_object (JObj _) = True"
| "is_object _ = False"

text \<open>What one entry of \<open>account_tx\<close> contributes to the search for sequence \<open>s\<close>.\<close>

definition tx_at_sequence :: "nat \<Rightarrow> json \<Rightarrow> (string \<times> nat) option" where
  "tx_at_sequence s t =
     (if json_as_bool (json_index t ''validated'') \<noteq> Some True then None
      else
        let txo = (if is_object (json_index t ''tx'') then json_index t ''tx'' else json_index t ''tx_json'')
        in if json_as_u64 (json_index txo ''Sequence'') \<noteq> Some s then None
           else do {
             h \<leftarrow> or_else (json_as_str (json_index t ''hash'')) (json_as_str (json_index txo ''hash''));
             li \<leftarrow> or_else (json_as_u64 (json_index t ''ledger_index''))
                    (or_else (json_as_u64 (json_index txo ''ledger_index'')) (json_as_u64 (json_index txo ''inLedger'')));
             Some (h, as_u32 li) })"

fun first_some :: "('a \<Rightarrow> 'b option) \<Rightarrow> 'a list \<Rightarrow> 'b option" where
  "first_some f [] = None"
| "first_some f (x # xs) = (case f x of Some y \<Rightarrow> Some y | None \<Rightarrow> first_some f xs)"

definition find_validated_tx_at_sequence ::
  "xrpl_fun \<Rightarrow> string \<Rightarrow> nat \<Rightarrow> string + (string \<times> nat) option" where
  "find_validated_tx_at_sequence xrpl esc s =
     result_bind (xrpl (AccountTx esc)) (\<lambda>r.
     case json_as_array (json_index (json_index r ''result'') ''transactions'') of
       None \<Rightarrow> Ok None
     | Some txs \<Rightarrow> Ok (first_some (tx_at_sequence s) txs))"

definition fetch_full_ledger :: "xrpl_fun \<Rightarrow> nat \<Rightarrow> string + json" where
  "fetch_full_ledger xrpl ledger_index =
     result_bind (xrpl (FullLedger ledger_index)) (\<lambda>r. Ok (json_index r ''result''))"

section \<open>The enclave's return codes\<close>

text \<open>The parser of \<^verbatim>\<open>perp_client.rs\<close>, anchored at the opening parenthesis.\<close>

definition perp_rc_from_error :: "string \<Rightarrow> int option" where
  "perp_rc_from_error msg =
     Option.bind (after_first ''(rc='' msg)
       (\<lambda>rest. parse_i64 (takeWhile (\<lambda>c. is_ascii_digit c \<or> c = CHR ''-'') rest))"

definition SPV_HOST_RC_BASE :: int where "SPV_HOST_RC_BASE = -200"

definition RETRYABLE_ECALL :: "int list" where
  "RETRYABLE_ECALL = [-60, -70, -71, -74, -77, -81, -87]"

definition rc_is_retryable :: "int \<Rightarrow> bool" where
  "rc_is_retryable rc \<longleftrightarrow>
     rc \<in> set RETRYABLE_ECALL \<or> (let spv = wrap_i64 (rc - SPV_HOST_RC_BASE) in -12 \<le> spv \<and> spv \<le> -8)"

section \<open>One pass\<close>

record 's wd_enclave =
  withdraw_finalize :: "'s \<Rightarrow> bytes \<Rightarrow> (string + json) \<times> 's"
  withdraw_rollback_slot_stolen :: "'s \<Rightarrow> bytes \<Rightarrow> (string + json) \<times> 's"
  withdraw_rollback_expired :: "'s \<Rightarrow> bytes \<Rightarrow> (string + json) \<times> 's"

record recon_env =
  xrpl :: xrpl_fun
  spv_bundle :: "string + bytes"
  vbuffer :: validation_buffer

text \<open>The tail both paths share: how a refusal is sorted.\<close>

definition sort_refusal :: "string \<Rightarrow> reconcile_outcome" where
  "sort_refusal msg =
     (case perp_rc_from_error msg of
        Some rc \<Rightarrow> if rc_is_retryable rc then Deferred (Retryable rc) else Anomaly (Terminal rc)
      | None \<Rightarrow> Deferred (NoEnclaveRc msg))"

text \<open>Everything before the first call of the enclave: the proof, or the outcome that ends the pass.\<close>

definition consumed_slot_proof ::
  "hash_fun \<Rightarrow> hex_fun \<Rightarrow> recon_env \<Rightarrow> pending_withdrawal \<Rightarrow> reconcile_outcome + deposit_proof" where
  "consumed_slot_proof sha512 hex env e =
     result_bind (map_err (\<lambda>m. Deferred (RpcFailed m)) (find_validated_tx_at_sequence (xrpl env) (escrow e) (sequence e))) (\<lambda>found.
     result_bind (require (Deferred NotVisible) found) (\<lambda>(tx_hash, ledger_index).
     result_bind (require (Anomaly (BadTxHash tx_hash)) (decode_tx_id hex tx_hash)) (\<lambda>target_id.
     result_bind (map_err (\<lambda>m. Deferred (RpcFailed m)) (fetch_full_ledger (xrpl env) ledger_index)) (\<lambda>ledger.
     result_bind (require (Deferred LedgerLacksTx) (find_target_index sha512 hex ledger target_id)) (\<lambda>target_index.
     result_bind (require (Deferred NoLedgerHashField) (json_as_str (json_index ledger ''ledger_hash''))) (\<lambda>lh.
     case vb_get (vbuffer env) lh of
       Some (v # vs) \<Rightarrow>
         map_err (\<lambda>m. Deferred (ProofBuild m)) (build_deposit_proof sha512 hex ledger target_index (v # vs))
     | _ \<Rightarrow> Err (Deferred NoBufferedValidations)))))))"

definition reconcile_consumed_slot ::
  "hash_fun \<Rightarrow> hex_fun \<Rightarrow> 's wd_enclave \<Rightarrow> recon_env \<Rightarrow> pending_withdrawal \<Rightarrow> 's \<Rightarrow> reconcile_outcome \<times> 's" where
  "reconcile_consumed_slot sha512 hex perp env e st =
     (case consumed_slot_proof sha512 hex env e of
        Inl outcome \<Rightarrow> (outcome, st)
      | Inr pf \<Rightarrow>
          (case withdraw_finalize perp st (blob pf) of
             (Inr _, st1) \<Rightarrow> (Finalized, st1)
           | (Inl msg, st1) \<Rightarrow>
               if perp_rc_from_error msg = Some (-69) then
                 (case withdraw_rollback_slot_stolen perp st1 (blob pf) of
                    (Inr _, st2) \<Rightarrow> (RolledBackStolen, st2)
                  | (Inl msg2, st2) \<Rightarrow> (Anomaly (RollbackRefused msg2), st2))
               else (sort_refusal msg, st1)))"

definition reconcile_expired ::
  "'s wd_enclave \<Rightarrow> recon_env \<Rightarrow> 's \<Rightarrow> reconcile_outcome \<times> 's" where
  "reconcile_expired perp env st =
     (case spv_bundle env of
        Inl e \<Rightarrow> (Deferred (BundleFailed e), st)
      | Inr b \<Rightarrow>
          (case withdraw_rollback_expired perp st b of
             (Inr _, st1) \<Rightarrow> (RolledBackExpired, st1)
           | (Inl msg, st1) \<Rightarrow> (sort_refusal msg, st1)))"

definition reconcile_one ::
  "hash_fun \<Rightarrow> hex_fun \<Rightarrow> 's wd_enclave \<Rightarrow> recon_env \<Rightarrow> pending_withdrawal \<Rightarrow> 's \<Rightarrow> reconcile_outcome \<times> 's" where
  "reconcile_one sha512 hex perp env e st =
     (case escrow_validated_sequence (xrpl env) (escrow e) of
        Inl m \<Rightarrow> (Deferred (RpcFailed m), st)
      | Inr escrow_seq \<Rightarrow>
          (case current_validated_ledger (xrpl env) of
             Inl m \<Rightarrow> (Deferred (RpcFailed m), st)
           | Inr validated_idx \<Rightarrow>
               (case classify escrow_seq validated_idx e of
                  Pending \<Rightarrow> (StillPending, st)
                | VerdictAnomaly \<Rightarrow> (Anomaly (SequenceBehind escrow_seq (sequence e)), st)
                | SlotConsumed \<Rightarrow> reconcile_consumed_slot sha512 hex perp env e st
                | Expired \<Rightarrow> reconcile_expired perp env st)))"

section \<open>The shared handle and the sweep\<close>

text \<open>
  The handle holds the journal in memory and the file it persists to. A save that fails is
  logged and leaves the target file as it was; the argument \<open>saved\<close> says whether it succeeds.
\<close>

record journal_handle =
  held :: journal
  saved_file :: "string option"

definition persist :: "(journal \<Rightarrow> string) \<Rightarrow> bool \<Rightarrow> journal \<Rightarrow> journal_handle \<Rightarrow> journal_handle" where
  "persist to_string saved j h = \<lparr>held = j, saved_file = (if saved then Some (to_string j) else saved_file h)\<rparr>"

definition handle_open :: "(string \<Rightarrow> journal option) \<Rightarrow> string + string option \<Rightarrow> journal_error + journal_handle" where
  "handle_open from_str f =
     result_bind (journal_load from_str f) (\<lambda>j.
     Ok \<lparr>held = j, saved_file = (case f of Inr c \<Rightarrow> c | Inl _ \<Rightarrow> None)\<rparr>)"

definition handle_record ::
  "(journal \<Rightarrow> string) \<Rightarrow> bool \<Rightarrow> pending_withdrawal \<Rightarrow> journal_handle \<Rightarrow> journal_handle" where
  "handle_record to_string saved e h = persist to_string saved (journal_upsert e (held h)) h"

definition handle_resolve ::
  "(journal \<Rightarrow> string) \<Rightarrow> bool \<Rightarrow> string \<Rightarrow> nat \<Rightarrow> journal_handle \<Rightarrow> journal_handle" where
  "handle_resolve to_string saved esc seq h =
     (let (present, j) = journal_remove esc seq (held h)
      in if present then persist to_string saved j h else h\<lparr>held := j\<rparr>)"

definition snapshot :: "journal_handle \<Rightarrow> pending_withdrawal list" where
  "snapshot h = entries (held h)"

record sweep_summary =
  finalized_count :: nat
  rolled_back_count :: nat
  pending_count :: nat
  deferred_count :: nat
  anomaly_count :: nat

definition sweep_summary_default :: sweep_summary where
  "sweep_summary_default =
     \<lparr>finalized_count = 0, rolled_back_count = 0, pending_count = 0, deferred_count = 0, anomaly_count = 0\<rparr>"

fun count_outcome :: "reconcile_outcome \<Rightarrow> sweep_summary \<Rightarrow> sweep_summary" where
  "count_outcome Finalized s = s\<lparr>finalized_count := finalized_count s + 1\<rparr>"
| "count_outcome RolledBackStolen s = s\<lparr>rolled_back_count := rolled_back_count s + 1\<rparr>"
| "count_outcome RolledBackExpired s = s\<lparr>rolled_back_count := rolled_back_count s + 1\<rparr>"
| "count_outcome StillPending s = s\<lparr>pending_count := pending_count s + 1\<rparr>"
| "count_outcome (Deferred _) s = s\<lparr>deferred_count := deferred_count s + 1\<rparr>"
| "count_outcome (Anomaly _) s = s\<lparr>anomaly_count := anomaly_count s + 1\<rparr>"

text \<open>
  The loop over the snapshot. The lock is not held while a row is reconciled, so withdrawals
  may be recorded meanwhile: each row comes with its environment, the withdrawals recorded
  while it is worked on, and whether the saves succeed. A panic of the hex decoder inside the
  proof builder ends the task, and with it the sweep, at that row.
\<close>

type_synonym sweep_step = "recon_env \<times> pending_withdrawal list \<times> bool"

fun sweep_rows ::
  "hash_fun \<Rightarrow> hex_fun \<Rightarrow> (journal \<Rightarrow> string) \<Rightarrow> 's wd_enclave \<Rightarrow> (pending_withdrawal \<times> sweep_step) list
    \<Rightarrow> sweep_summary \<Rightarrow> journal_handle \<Rightarrow> 's \<Rightarrow> sweep_summary \<times> journal_handle \<times> 's" where
  "sweep_rows sha512 hex to_string perp [] summary h st = (summary, h, st)"
| "sweep_rows sha512 hex to_string perp ((row, env, recorded, saved) # rows) summary h st =
     (let (outcome, st1) = reconcile_one sha512 hex perp env row st;
          h1 = fold (handle_record to_string saved) recorded h;
          h2 = (if is_terminal outcome then handle_resolve to_string saved (escrow row) (sequence row) h1 else h1)
      in if outcome = Deferred (ProofBuild UnhexPanic) then (summary, h1, st1)
         else sweep_rows sha512 hex to_string perp rows (count_outcome outcome summary) h2 st1)"

definition reconcile_sweep ::
  "hash_fun \<Rightarrow> hex_fun \<Rightarrow> (journal \<Rightarrow> string) \<Rightarrow> 's wd_enclave \<Rightarrow> sweep_step list
    \<Rightarrow> journal_handle \<Rightarrow> 's \<Rightarrow> sweep_summary \<times> journal_handle \<times> 's" where
  "reconcile_sweep sha512 hex to_string perp steps h st =
     sweep_rows sha512 hex to_string perp (zip (snapshot h) steps) sweep_summary_default h st"

end
