(* ===== verification/Withdrawal_Props.thy ===== *)
theory Withdrawal_Props
  imports Withdrawal Deposit_Props
begin

text \<open>
  Properties of the withdrawal reconciliation: the journal is a map keyed by the reserved slot,
  a save interrupted at any point leaves a loadable file, and a sweep drops a withdrawal only
  after the enclave has confirmed its end.
\<close>

section \<open>The journal as a keyed store\<close>

type_synonym slot = "string \<times> nat"

definition slot_of :: "pending_withdrawal \<Rightarrow> slot" where
  "slot_of e = (escrow e, sequence e)"

definition slots_ok :: "journal \<Rightarrow> bool" where
  "slots_ok j \<longleftrightarrow> distinct (map slot_of (entries j))"

locale keyed_store =
  fixes ok :: "'m \<Rightarrow> bool"
    and lookup :: "'m \<Rightarrow> 'k \<Rightarrow> 'v option"
    and key :: "'v \<Rightarrow> 'k"
    and put :: "'v \<Rightarrow> 'm \<Rightarrow> 'm"
    and del :: "'k \<Rightarrow> 'm \<Rightarrow> 'm"
  assumes put_ok: "ok m \<Longrightarrow> ok (put v m)"
    and lookup_put: "ok m \<Longrightarrow> lookup (put v m) = (lookup m)(key v \<mapsto> v)"
    and del_ok: "ok m \<Longrightarrow> ok (del k m)"
    and lookup_del: "ok m \<Longrightarrow> lookup (del k m) = (lookup m)(k := None)"
begin

lemma fold_put_ok: "ok m \<Longrightarrow> ok (fold put vs m)"
  by (induction vs arbitrary: m) (simp_all add: put_ok)

lemma fold_put_kept: "ok m \<Longrightarrow> lookup m k \<noteq> None \<or> k \<in> key ` set vs \<Longrightarrow> lookup (fold put vs m) k \<noteq> None"
proof (induction vs arbitrary: m)
  case (Cons v vs)
  have "lookup (put v m) k \<noteq> None \<or> k \<in> key ` set vs" using Cons.prems by (auto simp: lookup_put)
  then show ?case using Cons.IH [OF put_ok [OF Cons.prems(1)]] by simp
qed simp

lemma del_other: "ok m \<Longrightarrow> lookup m k \<noteq> None \<Longrightarrow> k' \<noteq> k \<Longrightarrow> lookup (del k' m) k \<noteq> None"
  by (simp add: lookup_del)

end

definition journal_lookup :: "journal \<Rightarrow> slot \<Rightarrow> pending_withdrawal option" where
  "journal_lookup j k = journal_find (fst k) (snd k) j"

definition journal_del :: "slot \<Rightarrow> journal \<Rightarrow> journal" where
  "journal_del k j = snd (journal_remove (fst k) (snd k) j)"

lemma journal_lookup_find: "journal_lookup j k = find (\<lambda>x. slot_of x = k) (entries j)"
  by (cases k) (simp add: journal_lookup_def journal_find_def slot_of_def)

lemma slot_of_upsert: "slot_of ` set (upsert_entry e xs) = insert (slot_of e) (slot_of ` set xs)"
  by (induction xs) (auto simp: slot_of_def)

lemma find_upsert:
  "distinct (map slot_of xs) \<Longrightarrow> find (\<lambda>x. slot_of x = k) (upsert_entry e xs)
    = (if k = slot_of e then Some e else find (\<lambda>x. slot_of x = k) xs)"
  by (induction xs) (auto simp: slot_of_def)

lemma distinct_upsert: "distinct (map slot_of xs) \<Longrightarrow> distinct (map slot_of (upsert_entry e xs))"
proof (induction xs)
  case (Cons x xs)
  then show ?case using slot_of_upsert [of e xs] by (auto simp: slot_of_def)
qed simp

lemma find_filter_slot:
  "find (\<lambda>x. slot_of x = k) (filter (\<lambda>x. slot_of x \<noteq> k') xs) = (if k = k' then None else find (\<lambda>x. slot_of x = k) xs)"
  by (induction xs) auto

lemma journal_del_entries: "entries (journal_del k j) = filter (\<lambda>x. slot_of x \<noteq> k) (entries j)"
  by (cases k) (simp add: journal_del_def journal_remove_def Let_def slot_of_def)

interpretation wj: keyed_store slots_ok journal_lookup slot_of journal_upsert journal_del
proof unfold_locales
  fix j :: journal and e k
  assume ok: "slots_ok j"
  show "slots_ok (journal_upsert e j)" using ok by (simp add: slots_ok_def journal_upsert_def distinct_upsert)
  show "journal_lookup (journal_upsert e j) = (journal_lookup j)(slot_of e \<mapsto> e)"
    using ok by (simp add: fun_eq_iff journal_lookup_find journal_upsert_def find_upsert slots_ok_def)
  show "slots_ok (journal_del k j)" using ok by (simp add: slots_ok_def journal_del_entries distinct_map_filter)
  show "journal_lookup (journal_del k j) = (journal_lookup j)(k := None)"
    by (simp add: fun_eq_iff journal_lookup_find journal_del_entries find_filter_slot)
qed

section \<open>Saving\<close>

text \<open>The directories a crash during a sequence of file operations can leave behind.\<close>

fun crash_states :: "file_op list \<Rightarrow> files \<Rightarrow> files set" where
  "crash_states [] fs = {fs}"
| "crash_states (WriteFile p c # ops) fs =
     {fs} \<union> (\<lambda>k. fs(p \<mapsto> take k c)) ` UNIV \<union> crash_states ops (run_op (WriteFile p c) fs)"
| "crash_states (RenameFile p q # ops) fs = {fs} \<union> crash_states ops (run_op (RenameFile p q) fs)"

lemma file_stem_neq: "file_stem name @ CHR ''.'' # ''json.tmp'' \<noteq> name"
proof (cases "CHR ''.'' \<in> set (tl name)")
  case True
  let ?dot = "CHR ''.''"
  let ?e = "takeWhile (\<lambda>c. c \<noteq> ?dot) (rev name)" and ?r = "dropWhile (\<lambda>c. c \<noteq> ?dot) (rev name)"
  have "?dot \<in> set (rev name)" using True by (cases name) auto
  then have r: "?r \<noteq> []" by (simp add: dropWhile_eq_Nil_conv)
  then have "?r = ?dot # tl ?r" using hd_dropWhile [OF r] by (cases ?r) auto
  then have "rev name = ?e @ ?dot # tl ?r" by (metis takeWhile_dropWhile_id)
  then have n: "name = rev (tl ?r) @ ?dot # rev ?e" by (metis append.assoc append_Cons append_Nil rev.simps(2) rev_append rev_rev_ident)
  have "?dot \<notin> set (rev ?e)" using set_takeWhileD by fastforce
  then have "rev ?e \<noteq> ''json.tmp''" by (metis list.set_intros insertCI list.simps(15))
  then show ?thesis using True n by (metis file_stem_def list.inject same_append_eq)
qed (simp add: file_stem_def)

lemma with_extension_neq: "with_extension path ''json.tmp'' \<noteq> path"
proof
  assume a: "with_extension path ''json.tmp'' = path"
  let ?n = "file_name path"
  have "rev path = takeWhile (\<lambda>c. c \<noteq> CHR ''/'') (rev path) @ dropWhile (\<lambda>c. c \<noteq> CHR ''/'') (rev path)" by simp
  then have "path = rev (dropWhile (\<lambda>c. c \<noteq> CHR ''/'') (rev path)) @ ?n"
    unfolding file_name_def by (metis rev_append rev_rev_ident)
  then obtain dir where "path = dir @ ?n" by blast
  then have "dir @ file_stem ?n @ CHR ''.'' # ''json.tmp'' = dir @ ?n"
    using a unfolding with_extension_def by (metis add_diff_cancel_right' append_eq_conv_conj length_append)
  then show False using file_stem_neq by simp
qed

section \<open>What ends a withdrawal\<close>

text \<open>
  The enclave confirmed the end of a row: it accepted the proof of the transaction at the slot,
  or refused it as another payment and accepted the rollback of the stolen slot, or accepted
  the rollback of a slot that is still free after the last ledger of its window.
\<close>

definition confirmed ::
  "hash_fun \<Rightarrow> hex_fun \<Rightarrow> 's wd_enclave \<Rightarrow> recon_env \<Rightarrow> pending_withdrawal \<Rightarrow> 's \<Rightarrow> bool" where
  "confirmed sha512 hex perp env e st \<longleftrightarrow>
     (\<exists>pf. consumed_slot_proof sha512 hex env e = Ok pf
        \<and> (\<not> isl (fst (withdraw_finalize perp st (blob pf)))
           \<or> (\<exists>msg st1. withdraw_finalize perp st (blob pf) = (Err msg, st1) \<and> perp_rc_from_error msg = Some (-69)
                \<and> \<not> isl (fst (withdraw_rollback_slot_stolen perp st1 (blob pf))))))
     \<or> (\<exists>v b. escrow_validated_sequence (xrpl env) (escrow e) = Ok (sequence e)
        \<and> current_validated_ledger (xrpl env) = Ok v \<and> last_ledger_sequence e < v
        \<and> spv_bundle env = Ok b \<and> \<not> isl (fst (withdraw_rollback_expired perp st b)))"

lemma sort_refusal_not_terminal [simp]: "\<not> is_terminal (sort_refusal msg)"
  by (simp add: sort_refusal_def split: option.splits)

text \<open>Every error a fallible computation can return satisfies a predicate.\<close>

definition errs :: "('e \<Rightarrow> bool) \<Rightarrow> 'e + 'a \<Rightarrow> bool" where
  "errs P r \<longleftrightarrow> (\<forall>e. r = Err e \<longrightarrow> P e)"

lemma errs_bind: "errs P r \<Longrightarrow> (\<And>x. errs P (f x)) \<Longrightarrow> errs P (result_bind r f)"
  by (cases r) (simp_all add: errs_def)

lemma errs_require: "P e \<Longrightarrow> errs P (require e x)"
  by (simp add: errs_def require_Err_iff)

lemma errs_map_err: "(\<And>e. P (f e)) \<Longrightarrow> errs P (map_err f r)"
  by (auto simp: errs_def map_err_Err_iff)

lemma errs_Err: "P e \<Longrightarrow> errs P (Err e)"
  by (simp add: errs_def)

lemma consumed_slot_proof_errs: "errs (\<lambda>oc. \<not> is_terminal oc) (consumed_slot_proof sha512 hex env e)"
  unfolding consumed_slot_proof_def
  by (intro errs_bind; (simp only: split: prod.split option.split list.split)?;
      (intro errs_bind allI impI conjI)?;
      (auto intro!: errs_require errs_map_err errs_bind errs_Err split: prod.split option.split list.split)?)

lemma consumed_slot_proof_err: "consumed_slot_proof sha512 hex env e = Err oc \<Longrightarrow> \<not> is_terminal oc"
  using consumed_slot_proof_errs [of sha512 hex env e] by (simp add: errs_def)

lemma reconcile_consumed_terminal:
  assumes "reconcile_consumed_slot sha512 hex perp env e st = (oc, st')" "is_terminal oc"
  shows "confirmed sha512 hex perp env e st"
  using assms consumed_slot_proof_err [of sha512 hex env e]
  by (auto simp: reconcile_consumed_slot_def confirmed_def split: sum.splits prod.splits if_splits)

lemma reconcile_one_terminal:
  assumes r: "reconcile_one sha512 hex perp env e st = (oc, st')" and t: "is_terminal oc"
  shows "confirmed sha512 hex perp env e st"
proof -
  obtain sq where sq: "escrow_validated_sequence (xrpl env) (escrow e) = Ok sq"
    using r t by (auto simp: reconcile_one_def split: sum.splits)
  obtain v where v: "current_validated_ledger (xrpl env) = Ok v"
    using r t sq by (auto simp: reconcile_one_def split: sum.splits)
  show ?thesis
  proof (cases "classify sq v e")
    case SlotConsumed
    then show ?thesis using r t sq v reconcile_consumed_terminal by (fastforce simp: reconcile_one_def)
  next
    case Expired
    then have "sq = sequence e" "last_ledger_sequence e < v" by (auto simp: classify_def split: if_splits)
    moreover have "reconcile_expired perp env st = (oc, st')" using r sq v Expired by (simp add: reconcile_one_def)
    ultimately show ?thesis using t sq v
      by (auto simp: reconcile_expired_def confirmed_def split: sum.splits prod.splits)
  qed (use r t sq v in \<open>auto simp: reconcile_one_def\<close>)
qed

section \<open>The sweep\<close>

lemma held_record [simp]: "held (handle_record to_string saved e h) = journal_upsert e (held h)"
  by (simp add: handle_record_def persist_def)

lemma held_fold_record [simp]: "held (fold (handle_record to_string saved) es h) = fold journal_upsert es (held h)"
  by (induction es arbitrary: h) simp_all

lemma held_resolve [simp]: "held (handle_resolve to_string saved esc sq h) = journal_del (esc, sq) (held h)"
  by (simp add: handle_resolve_def persist_def journal_del_def Let_def split: prod.splits)

text \<open>The journal and the file after one row agree when its saves succeed.\<close>

definition synced :: "(journal \<Rightarrow> string) \<Rightarrow> journal_handle \<Rightarrow> bool" where
  "synced to_string h \<longleftrightarrow> saved_file h = Some (to_string (held h))"

lemma synced_record: "synced to_string (handle_record to_string True e h)"
  by (simp add: synced_def handle_record_def persist_def)

lemma journal_remove_absent: "journal_remove esc sq j = (False, j') \<Longrightarrow> j' = j"
proof -
  let ?P = "\<lambda>x. \<not> (escrow x = esc \<and> sequence x = sq)"
  assume a: "journal_remove esc sq j = (False, j')"
  then have "length (filter ?P (entries j)) = length (entries j)" by (simp add: journal_remove_def Let_def)
  then have "filter ?P (entries j) = entries j" by (metis filter_True length_filter_less order_less_irrefl)
  then show ?thesis using a by (simp add: journal_remove_def Let_def)
qed

lemma synced_resolve: "synced to_string h \<Longrightarrow> synced to_string (handle_resolve to_string True esc sq h)"
  by (auto simp: synced_def handle_resolve_def persist_def Let_def dest: journal_remove_absent split: prod.splits)

lemma synced_fold_record: "synced to_string h \<Longrightarrow> synced to_string (fold (handle_record to_string True) es h)"
  by (induction es arbitrary: h) (simp_all add: synced_record)

text \<open>The handle after one row.\<close>

definition row_handle where
  "row_handle to_string oc row recorded saved h =
     (let h1 = fold (handle_record to_string saved) recorded h
      in if is_terminal oc then handle_resolve to_string saved (escrow row) (sequence row) h1 else h1)"

lemma row_handle_ok: "slots_ok (held h) \<Longrightarrow> slots_ok (held (row_handle to_string oc row recorded saved h))"
  by (simp add: row_handle_def Let_def wj.fold_put_ok wj.del_ok)

lemma row_handle_lost:
  assumes "slots_ok (held h)" "journal_lookup (held h) k \<noteq> None \<or> k \<in> slot_of ` set recorded"
    and "journal_lookup (held (row_handle to_string oc row recorded saved h)) k = None"
  shows "is_terminal oc \<and> slot_of row = k"
proof -
  let ?j = "fold journal_upsert recorded (held h)"
  have k: "journal_lookup ?j k \<noteq> None" by (rule wj.fold_put_kept [OF assms(1,2)])
  have t: "is_terminal oc" using assms(3) k by (auto simp: row_handle_def Let_def split: if_splits)
  then have "journal_lookup (journal_del (slot_of row) ?j) k = None"
    using assms(3) by (simp add: row_handle_def Let_def slot_of_def)
  then have "slot_of row = k" using k wj.del_other [OF wj.fold_put_ok [OF assms(1)]] by blast
  with t show ?thesis by blast
qed

lemma row_handle_synced: "synced to_string h \<Longrightarrow> synced to_string (row_handle to_string oc row recorded True h)"
  by (simp add: row_handle_def Let_def synced_resolve synced_fold_record)

definition tally :: "sweep_summary \<Rightarrow> nat" where
  "tally s = finalized_count s + rolled_back_count s + pending_count s + deferred_count s + anomaly_count s"

lemma tally_count [simp]: "tally (count_outcome oc s) = Suc (tally s)"
  by (cases oc) (simp_all add: tally_def)

lemma sweep_rows_Cons:
  assumes "reconcile_one sha512 hex perp env row st = (oc, st1)"
  shows "sweep_rows sha512 hex to_string perp ((row, env, recorded, saved) # rows) sm h st =
     (if oc = Deferred (ProofBuild UnhexPanic) then (sm, row_handle to_string oc row recorded saved h, st1)
      else sweep_rows sha512 hex to_string perp rows (count_outcome oc sm) (row_handle to_string oc row recorded saved h) st1)"
  using assms by (simp add: row_handle_def Let_def)

lemma sweep_rows_safe:
  assumes "sweep_rows sha512 hex to_string perp rows sm h st = (sm', h', st')" "slots_ok (held h)"
  shows "slots_ok (held h')
    \<and> (journal_lookup (held h) k \<noteq> None \<and> journal_lookup (held h') k = None \<longrightarrow>
        (\<exists>row env recorded saved st1. (row, env, recorded, saved) \<in> set rows \<and> slot_of row = k
           \<and> confirmed sha512 hex perp env row st1))
    \<and> (synced to_string h \<and> (\<forall>(row, env, recorded, saved)\<in>set rows. saved) \<longrightarrow> synced to_string h')
    \<and> tally sm' \<le> tally sm + length rows"
  using assms
proof (induction rows arbitrary: sm h st)
  case (Cons r rows)
  obtain row env recorded saved where r: "r = (row, env, recorded, saved)" by (cases r) auto
  obtain oc st1 where o: "reconcile_one sha512 hex perp env row st = (oc, st1)"
    by (cases "reconcile_one sha512 hex perp env row st")
  let ?h = "row_handle to_string oc row recorded saved h"
  have ok: "slots_ok (held ?h)" by (rule row_handle_ok [OF Cons.prems(2)])
  have lost: "\<exists>st1. confirmed sha512 hex perp env row st1" "slot_of row = k"
    if "journal_lookup (held h) k \<noteq> None" "journal_lookup (held ?h) k = None"
    using row_handle_lost [OF Cons.prems(2) _ that(2)] that(1) reconcile_one_terminal [OF o] by blast+
  have sync: "synced to_string ?h" if "synced to_string h" "saved"
    using that row_handle_synced by auto
  have run: "(if oc = Deferred (ProofBuild UnhexPanic) then (sm, ?h, st1)
      else sweep_rows sha512 hex to_string perp rows (count_outcome oc sm) ?h st1) = (sm', h', st')"
    using Cons.prems(1) unfolding r sweep_rows_Cons [OF o] by simp
  show ?case
  proof (cases "oc = Deferred (ProofBuild UnhexPanic)")
    case True
    then have "h' = ?h" "sm' = sm" using run by simp_all
    then show ?thesis using ok lost sync r by auto
  next
    case False
    then have "sweep_rows sha512 hex to_string perp rows (count_outcome oc sm) ?h st1 = (sm', h', st')" using run by simp
    from Cons.IH [OF this ok] show ?thesis
      using lost sync r by (cases "journal_lookup (held ?h) k = None") auto
  qed
qed auto

section \<open>Sample data\<close>

definition sample_row :: pending_withdrawal where
  "sample_row = \<lparr>escrow = ''rE'', sequence = 7, last_ledger_sequence = 40, amount_drops = 5, pw_destination = ''rD'',
     destination_tag = None, submitted_hash = None, pw_user_id = ''u'', reserved_at_ms = 0\<rparr>"

text \<open>A node whose escrow still has the reserved sequence at ledger 41, and an agreeing enclave.\<close>

definition sample_env :: recon_env where
  "sample_env = \<lparr>xrpl = (\<lambda>req. case req of
       AccountInfo _ \<Rightarrow> Ok (JObj [(''result'', JObj [(''account_data'', JObj [(''Sequence'', JNum 7)])])])
     | LedgerValidated \<Rightarrow> Ok (JObj [(''result'', JObj [(''ledger_index'', JNum 41)])])
     | _ \<Rightarrow> Err ''down''), spv_bundle = Ok [1], vbuffer = validation_buffer_new\<rparr>"

definition agreeing_enclave :: "unit wd_enclave" where
  "agreeing_enclave = \<lparr>withdraw_finalize = (\<lambda>st b. (Ok JNull, st)), withdraw_rollback_slot_stolen = (\<lambda>st b. (Ok JNull, st)),
     withdraw_rollback_expired = (\<lambda>st b. (Ok JNull, st))\<rparr>"

definition sample_to_string :: "journal \<Rightarrow> string" where
  "sample_to_string j = (if entries j = [] then ''e'' else ''x'')"

definition sample_from_str :: "string \<Rightarrow> journal option" where
  "sample_from_str s = (if s = ''e'' then Some \<lparr>entries = []\<rparr> else if s = ''x'' then Some \<lparr>entries = [sample_row]\<rparr> else None)"

section \<open>Properties\<close>

text \<open>
  C16. A sweep drops a withdrawal from the journal only if the enclave confirmed its end for a
  row of that slot, whatever is recorded meanwhile. The journal keeps one entry per slot, the
  file follows the journal while saves succeed, and no row is counted twice.
\<close>

theorem sweep_drops_only_confirmed:
  assumes "slots_ok (held h)" "reconcile_sweep sha512 hex to_string perp steps h st = (sm, h', st')"
  shows "slots_ok (held h')
    \<and> (\<forall>k. journal_lookup (held h) k \<noteq> None \<and> journal_lookup (held h') k = None \<longrightarrow>
        (\<exists>row env recorded saved st1. (row, env, recorded, saved) \<in> set (zip (snapshot h) steps) \<and> slot_of row = k
           \<and> confirmed sha512 hex perp env row st1))
    \<and> (synced to_string h \<and> (\<forall>(env, recorded, saved)\<in>set steps. saved) \<longrightarrow> synced to_string h')
    \<and> tally sm \<le> length (snapshot h)"
proof -
  note safe = sweep_rows_safe [OF assms(2) [unfolded reconcile_sweep_def] assms(1)]
  have "(\<forall>(env, recorded, saved)\<in>set steps. saved) \<longrightarrow> (\<forall>(row, env, recorded, saved)\<in>set (zip (snapshot h) steps). saved)"
    by (auto dest: set_zip_rightD)
  moreover have "tally sm \<le> length (snapshot h)"
    using safe by (simp add: tally_def sweep_summary_default_def)
  ultimately show ?thesis using safe by blast
qed

lemma sample_sweep:
  "reconcile_sweep sum_digest (\<lambda>_. None) sample_to_string agreeing_enclave [(sample_env, [], True)]
     \<lparr>held = \<lparr>entries = [sample_row]\<rparr>, saved_file = Some ''x''\<rparr> ()
   = (sweep_summary_default\<lparr>rolled_back_count := 1\<rparr>, \<lparr>held = \<lparr>entries = []\<rparr>, saved_file = Some ''e''\<rparr>, ())"
  by (simp add: reconcile_sweep_def snapshot_def reconcile_one_def escrow_validated_sequence_def current_validated_ledger_def
      sample_env_def sample_row_def json_index_def require_def as_u32_def or_else_def classify_def reconcile_expired_def
      agreeing_enclave_def handle_resolve_def journal_remove_def persist_def sample_to_string_def sweep_summary_default_def)

theorem sweep_drops_only_confirmed_witness:
  "slots_ok \<lparr>entries = [sample_row]\<rparr>
    \<and> (\<exists>st1. confirmed sum_digest (\<lambda>_. None) agreeing_enclave sample_env sample_row st1)"
proof -
  let ?h = "\<lparr>held = \<lparr>entries = [sample_row]\<rparr>, saved_file = Some ''x''\<rparr>"
  have ok: "slots_ok (held ?h)" by (simp add: slots_ok_def)
  have "journal_lookup (held ?h) (slot_of sample_row) \<noteq> None"
    "journal_lookup (held \<lparr>held = \<lparr>entries = []\<rparr>, saved_file = Some ''e''\<rparr>) (slot_of sample_row) = None"
    by (simp_all add: journal_lookup_find)
  from sweep_drops_only_confirmed [OF ok sample_sweep, THEN conjunct2, THEN conjunct1, rule_format, OF conjI [OF this]]
  show ?thesis using ok by (auto simp: snapshot_def)
qed

text \<open>
  C17. Wherever a crash interrupts a save, the journal file afterwards is either the old one or
  the new one in full, so that a restart loads one of the two journals and never a torn file.
\<close>

theorem journal_save_crash_safe:
  assumes "fs path = Some (to_string old)" "from_str (to_string old) = Some old" "from_str (to_string new) = Some new"
    and "fs' \<in> crash_states (journal_save_ops to_string path new) fs"
  shows "(fs' path = fs path \<or> fs' path = Some (to_string new))
    \<and> journal_load from_str (Ok (fs' path)) \<in> {Ok old, Ok new}"
proof -
  have "fs' path = fs path \<or> fs' path = Some (to_string new)"
    using assms(4) with_extension_neq [of path] by (auto simp: journal_save_ops_def Let_def)
  then show ?thesis using assms(1-3) by (auto simp: journal_load_def require_def)
qed

theorem journal_save_crash_safe_witness:
  "journal_load sample_from_str (Ok ([''j.json'' \<mapsto> ''e'', ''j.json.tmp'' \<mapsto> []] ''j.json''))
    \<in> {Ok \<lparr>entries = []\<rparr>, Ok \<lparr>entries = [sample_row]\<rparr>}"
proof -
  have t: "with_extension ''j.json'' ''json.tmp'' = ''j.json.tmp''"
    by (simp add: with_extension_def file_name_def file_stem_def)
  have "[''j.json'' \<mapsto> ''e'', ''j.json.tmp'' \<mapsto> []]
      \<in> crash_states (journal_save_ops sample_to_string ''j.json'' \<lparr>entries = [sample_row]\<rparr>) [''j.json'' \<mapsto> ''e'']"
    unfolding journal_save_ops_def Let_def t crash_states.simps
    by (intro UnI1 UnI2 image_eqI [of _ _ 0]) simp_all
  from journal_save_crash_safe [OF _ _ _ this, of "\<lparr>entries = []\<rparr>" sample_from_str] show ?thesis
    by (simp add: sample_to_string_def sample_from_str_def)
qed

text \<open>
  The search for the transaction at a reserved sequence looks at the sequence number only:
  a validated transaction of any other account that touches the escrow and carries the same
  number is taken for the withdrawal when the node lists it first.
\<close>

theorem foreign_transaction_shadows:
  assumes "xrpl env (AccountTx (escrow e)) = Ok r"
    and "json_index (json_index r ''result'') ''transactions'' = JArr (t # rest)"
    and "json_index t ''validated'' = JBool True" "json_index t ''hash'' = JStr h"
    and "json_index t ''ledger_index'' = JNum (int li)" "li < 2 ^ 32"
    and "json_index t ''tx'' = JObj [(''Account'', JStr account), (''Sequence'', JNum (int (sequence e)))]"
    and "sequence e < 2 ^ 32"
  shows "find_validated_tx_at_sequence (xrpl env) (escrow e) (sequence e) = Ok (Some (h, li))"
  using assms
  by (simp add: find_validated_tx_at_sequence_def tx_at_sequence_def Let_def or_else_def as_u32_def json_index_def)

theorem foreign_transaction_shadows_witness:
  "find_validated_tx_at_sequence (\<lambda>_. Ok (JObj [(''result'', JObj [(''transactions'', JArr [
      JObj [(''validated'', JBool True), (''hash'', JStr ''F0''), (''ledger_index'', JNum 39),
            (''tx'', JObj [(''Account'', JStr ''rOther''), (''Sequence'', JNum 7)])],
      JObj [(''validated'', JBool True), (''hash'', JStr ''A1''), (''ledger_index'', JNum 38),
            (''tx'', JObj [(''Account'', JStr ''rE''), (''Sequence'', JNum 7)])]])])])) ''rE'' 7 = Ok (Some (''F0'', 39))"
proof -
  let ?r = "JObj [(''result'', JObj [(''transactions'', JArr [
      JObj [(''validated'', JBool True), (''hash'', JStr ''F0''), (''ledger_index'', JNum 39),
            (''tx'', JObj [(''Account'', JStr ''rOther''), (''Sequence'', JNum 7)])],
      JObj [(''validated'', JBool True), (''hash'', JStr ''A1''), (''ledger_index'', JNum 38),
            (''tx'', JObj [(''Account'', JStr ''rE''), (''Sequence'', JNum 7)])]])])]"
  show ?thesis
    using foreign_transaction_shadows [of "sample_env\<lparr>xrpl := \<lambda>_. Ok ?r\<rparr>" sample_row ?r _ _ "''F0''" 39 "''rOther''"]
    by (simp add: json_index_def sample_row_def)
qed

section \<open>Two parsers of one code\<close>

text \<open>
  The deposit path looks for the first \<open>rc=\<close> of a message, the withdrawal path for \<open>(rc=\<close>: on a
  message that mentions a source first, the deposit path reads the wrong number and takes a
  boundary that is not armed for a deposit already settled.
\<close>

lemma rc_parsers_disagree:
  "rc_from_error ''src=-2 refused (rc=-85)'' = Some (-2)"
  "outcome_from_error ''src=-2 refused (rc=-85)'' = AlreadySettled"
  "perp_rc_from_error ''src=-2 refused (rc=-85)'' = Some (-85)"
  by code_simp+

end
