(* ===== verification/XrplSigner.thy ===== *)
theory XrplSigner
  imports SpvProof_Props
begin

text \<open>
  \<^verbatim>\<open>orchestrator/src/xrpl_signer.rs\<close> and the address printer of \<^verbatim>\<open>membership_projection.rs\<close>: key
  compression, classic addresses and the DER form of a signature. Hex, base58 with the XRPL
  alphabet, SHA-256 and RIPEMD-160 are library functions, the fields of a record; \<open>lib_ok\<close> names
  what the code relies on.
\<close>

record xrpl_lib =
  hex_enc :: "bytes \<Rightarrow> string"
  hex_enc_upper :: "bytes \<Rightarrow> string"
  hex_dec :: "string \<Rightarrow> bytes option"
  b58_enc :: "bytes \<Rightarrow> string"
  b58_dec :: "string \<Rightarrow> bytes option"
  sha256 :: "bytes \<Rightarrow> bytes"
  ripemd160 :: "bytes \<Rightarrow> bytes"

text \<open>
  Decoding undoes encoding, and digests have their length.
\<close>

definition lib_ok :: "xrpl_lib \<Rightarrow> bool" where
  "lib_ok L \<longleftrightarrow> (\<forall>b. hex_dec L (hex_enc L b) = Some b) \<and> (\<forall>b. hex_dec L (hex_enc_upper L b) = Some b)
     \<and> (\<forall>b. b58_dec L (b58_enc L b) = Some b) \<and> (\<forall>b. length (sha256 L b) = 32)
     \<and> (\<forall>b. length (ripemd160 L b) = 20)"

lemma lib_okD [simp]:
  assumes "lib_ok L"
  shows "hex_dec L (hex_enc L b) = Some b" "hex_dec L (hex_enc_upper L b) = Some b"
    "b58_dec L (b58_enc L b) = Some b" "length (sha256 L b) = 32" "length (ripemd160 L b) = 20"
  using assms by (simp_all add: lib_ok_def)

text \<open>A library that satisfies the laws, for evaluation: bytes as characters, digests by padding.\<close>

definition sample_lib :: xrpl_lib where
  "sample_lib = \<lparr>hex_enc = map (\<lambda>b. char_of (unat b)), hex_enc_upper = map (\<lambda>b. char_of (unat b)),
     hex_dec = (\<lambda>s. Some (map (\<lambda>c. of_nat (of_char c)) s)),
     b58_enc = map (\<lambda>b. char_of (unat b)), b58_dec = (\<lambda>s. Some (map (\<lambda>c. of_nat (of_char c)) s)),
     sha256 = (\<lambda>b. take 32 (b @ replicate 32 0)), ripemd160 = (\<lambda>b. take 20 (b @ replicate 20 0))\<rparr>"

lemma sample_lib_chars: "map (\<lambda>c. of_nat (of_char c)) (map (\<lambda>b. char_of (unat b)) bs) = (bs :: bytes)"
proof (induction bs)
  case (Cons b bs)
  have "unat b < 2 ^ 8" using unsigned_less [of b, where 'a = nat] by simp
  then show ?case using Cons by (simp add: take_bit_nat_eq_self)
qed simp

lemma sample_lib_ok [simp]: "lib_ok sample_lib"
  using sample_lib_chars by (auto simp: lib_ok_def sample_lib_def min_def)

datatype signer_error = NotUncompressed nat | PubkeyHex | BadBase58 | AddressLength nat | ChecksumMismatch

section \<open>Keys and addresses\<close>

definition compress_pubkey :: "bytes \<Rightarrow> signer_error + bytes" where
  "compress_pubkey uncompressed =
     (if length uncompressed \<noteq> 65 \<or> uncompressed ! 0 \<noteq> 0x04 then Err (NotUncompressed (length uncompressed))
      else let x = take 32 (drop 1 uncompressed); y = take 32 (drop 33 uncompressed);
               prefix = (if unat (y ! 31) mod 2 = 0 then 0x02 else 0x03)
           in Ok (prefix # x))"

text \<open>\<open>payload || first four bytes of SHA-256(SHA-256(payload))\<close>, in base58.\<close>

definition base58check :: "xrpl_lib \<Rightarrow> bytes \<Rightarrow> string" where
  "base58check L payload = b58_enc L (payload @ take 4 (sha256 L (sha256 L payload)))"

definition account_id_to_r_address :: "xrpl_lib \<Rightarrow> bytes \<Rightarrow> string" where
  "account_id_to_r_address L account_id = base58check L (0x00 # account_id)"

definition strip_0x :: "string \<Rightarrow> string" where
  "strip_0x s = (if take 2 s = ''0x'' then drop 2 s else s)"

definition pubkey_to_xrpl_address :: "xrpl_lib \<Rightarrow> string \<Rightarrow> signer_error + string" where
  "pubkey_to_xrpl_address L uncompressed_hex =
     result_bind (require PubkeyHex (hex_dec L (strip_0x uncompressed_hex))) (\<lambda>raw.
     result_bind (compress_pubkey raw) (\<lambda>compressed.
     let account_id = ripemd160 L (sha256 L compressed)
     in Ok (base58check L (0x00 # account_id))))"

definition decode_xrpl_address :: "xrpl_lib \<Rightarrow> string \<Rightarrow> signer_error + bytes" where
  "decode_xrpl_address L addr =
     result_bind (require BadBase58 (b58_dec L addr)) (\<lambda>decoded.
     if length decoded \<noteq> 25 then Err (AddressLength (length decoded))
     else let payload = take 21 decoded; checksum = take 4 (drop 21 decoded)
          in if take 4 (sha256 L (sha256 L payload)) \<noteq> checksum then Err ChecksumMismatch
             else Ok (take 20 (drop 1 decoded)))"

section \<open>DER signatures\<close>

text \<open>\<open>iter().position(|b| b != 0)\<close> and the slice from there; a single zero byte if there is none.\<close>

definition strip_zeros :: "bytes \<Rightarrow> bytes" where
  "strip_zeros b = (case position (\<lambda>x. x \<noteq> 0) b of Some pos \<Rightarrow> drop pos b | None \<Rightarrow> [0])"

definition encode_integer :: "bytes \<Rightarrow> bytes" where
  "encode_integer b =
     (let stripped = strip_zeros b
      in if 128 \<le> unat (stripped ! 0)
         then [0x02, of_nat (length stripped + 1), 0x00] @ stripped
         else [0x02, of_nat (length stripped)] @ stripped)"

definition der_encode_signature :: "bytes \<Rightarrow> bytes \<Rightarrow> bytes" where
  "der_encode_signature r s =
     (let r_tlv = encode_integer r; s_tlv = encode_integer s
      in [0x30, of_nat (length r_tlv + length s_tlv)] @ r_tlv @ s_tlv)"

section \<open>Addresses decode to what they encode\<close>

lemma decode_base58check:
  assumes "lib_ok L" "length payload = 21"
  shows "decode_xrpl_address L (base58check L payload) = Ok (drop 1 payload)"
proof -
  have "drop 21 payload = []" "take 20 (drop 1 payload) = drop 1 payload" using assms(2) by simp_all
  then show ?thesis using assms by (simp add: decode_xrpl_address_def base58check_def require_def)
qed

lemma decode_account_id [simp]:
  "lib_ok L \<Longrightarrow> length acc = 20 \<Longrightarrow> decode_xrpl_address L (account_id_to_r_address L acc) = Ok acc"
  by (simp add: account_id_to_r_address_def decode_base58check)

lemma account_id_to_r_address_inj:
  "lib_ok L \<Longrightarrow> length a = 20 \<Longrightarrow> length b = 20 \<Longrightarrow>
   account_id_to_r_address L a = account_id_to_r_address L b \<longleftrightarrow> a = b"
  by (metis decode_account_id sum.inject(2))

lemma compress_pubkey_Ok:
  "compress_pubkey u = Ok c \<Longrightarrow> length u = 65 \<and> length c = 33 \<and> (hd c = 2 \<or> hd c = 3) \<and> tl c = take 32 (tl u)"
  by (auto simp: compress_pubkey_def Let_def drop_Suc split: if_splits)

lemma decode_pubkey_address:
  assumes "lib_ok L" "pubkey_to_xrpl_address L h = Ok a"
  shows "\<exists>raw c. hex_dec L (strip_0x h) = Some raw \<and> compress_pubkey raw = Ok c
    \<and> decode_xrpl_address L a = Ok (ripemd160 L (sha256 L c))"
  using assms by (auto simp: pubkey_to_xrpl_address_def result_bind_Ok_iff decode_base58check)

section \<open>Reading DER\<close>

text \<open>A strict reader: definite short lengths, non-negative integers in their shortest form, no rest.\<close>

definition read_der_int :: "bytes \<Rightarrow> (nat \<times> bytes) option" where
  "read_der_int b =
     (case b of
        t # l # r \<Rightarrow>
          (let n = unat l; v = take n r
           in if t \<noteq> 0x02 \<or> n = 0 \<or> 128 \<le> n \<or> length r < n \<or> 128 \<le> unat (v ! 0)
                 \<or> (1 < n \<and> v ! 0 = 0 \<and> unat (v ! 1) < 128) then None
              else Some (of_be_bytes v, drop n r))
      | _ \<Rightarrow> None)"

definition read_der :: "bytes \<Rightarrow> (nat \<times> nat) option" where
  "read_der b =
     (case b of
        t # l # r \<Rightarrow>
          if t \<noteq> 0x30 \<or> 128 \<le> unat l \<or> unat l \<noteq> length r then None
          else do { (x, r) \<leftarrow> read_der_int r; (y, r) \<leftarrow> read_der_int r; if r = [] then Some (x, y) else None }
      | _ \<Rightarrow> None)"

lemma of_le_bytes_append: "of_le_bytes (a @ b) = of_le_bytes a + 256 ^ length a * of_le_bytes b"
  by (induction a) (simp_all add: algebra_simps)

lemma of_be_bytes_Cons: "of_be_bytes (x # b) = unat x * 256 ^ length b + of_be_bytes b"
  by (simp add: of_be_bytes_def of_le_bytes_append algebra_simps)

lemma strip_zeros_Nil [simp]: "strip_zeros [] = [0]"
  by (simp add: strip_zeros_def)

lemma strip_zeros_Cons [simp]: "strip_zeros (x # b) = (if x = 0 then strip_zeros b else x # b)"
  by (auto simp: strip_zeros_def split: option.splits)

lemma of_be_bytes_Nil [simp]: "of_be_bytes [] = 0"
  by (simp add: of_be_bytes_def)

lemma strip_zeros_value [simp]: "of_be_bytes (strip_zeros b) = of_be_bytes b"
  by (induction b) (simp_all add: of_be_bytes_Cons)

lemma strip_zeros_nonempty [simp]: "strip_zeros b \<noteq> []" "0 < length (strip_zeros b)"
  by (induction b) auto

lemma strip_zeros_length: "length (strip_zeros b) \<le> max 1 (length b)"
  by (induction b) auto

lemma strip_zeros_head: "length (strip_zeros b) = 1 \<or> strip_zeros b ! 0 \<noteq> 0"
  by (induction b) auto

lemma length_encode_integer:
  "3 \<le> length (encode_integer b) \<and> length (encode_integer b) \<le> 3 + max 1 (length b)"
proof -
  have "1 \<le> length (strip_zeros b)" using strip_zeros_nonempty(2) [of b] by linarith
  then show ?thesis using strip_zeros_length [of b] by (simp add: encode_integer_def Let_def)
qed

lemma read_der_int_tlv:
  assumes "v \<noteq> []" "length v < 128" "unat (v ! 0) < 128" "length v = 1 \<or> v ! 0 \<noteq> 0 \<or> 128 \<le> unat (v ! 1)"
  shows "read_der_int (0x02 # of_nat (length v) # v @ r) = Some (of_be_bytes v, r)"
  using assms by (auto simp: read_der_int_def Let_def nth_append)

lemma read_encode_integer:
  assumes "length b \<le> 32"
  shows "read_der_int (encode_integer b @ r) = Some (of_be_bytes b, r)"
proof (cases "128 \<le> unat (strip_zeros b ! 0)")
  case True
  have l: "length (strip_zeros b) \<le> 32" using strip_zeros_length [of b] assms by auto
  have "encode_integer b = 0x02 # of_nat (length (0 # strip_zeros b)) # 0 # strip_zeros b"
    using True by (simp add: encode_integer_def Let_def)
  then show ?thesis using read_der_int_tlv [of "0 # strip_zeros b" r] True l
    by (simp add: of_be_bytes_Cons)
next
  case False
  have l: "length (strip_zeros b) \<le> 32" using strip_zeros_length [of b] assms by auto
  then show ?thesis using read_der_int_tlv [of "strip_zeros b" r] False strip_zeros_head [of b]
    by (auto simp: encode_integer_def Let_def)
qed

lemma length_der_encode:
  assumes "length r \<le> 32" "length s \<le> 32"
  shows "8 \<le> length (der_encode_signature r s) \<and> length (der_encode_signature r s) \<le> 72"
  using length_encode_integer [of r] length_encode_integer [of s] assms
  by (auto simp: der_encode_signature_def Let_def)

lemma read_der_encode:
  assumes "length r \<le> 32" "length s \<le> 32"
  shows "read_der (der_encode_signature r s) = Some (of_be_bytes r, of_be_bytes s)"
proof -
  have l: "length (encode_integer r) + length (encode_integer s) < 128"
    using length_encode_integer [of r] length_encode_integer [of s] assms by linarith
  have e: "read_der_int (encode_integer s) = Some (of_be_bytes s, [])"
    using read_encode_integer [OF assms(2), of "[]"] by simp
  have "unat (of_nat (length (encode_integer r) + length (encode_integer s)) :: byte)
    = length (encode_integer r) + length (encode_integer s)" using l by (simp only: unat_byte) simp
  then show ?thesis using l
    by (simp add: der_encode_signature_def Let_def read_der_def read_encode_integer [OF assms(1)] e)
qed

end
