(* ===== verification/SigningWire.thy ===== *)
theory SigningWire
  imports XrplSigner
begin

text \<open>
  The messages of the signing topic (\<^verbatim>\<open>orchestrator/src/p2p.rs\<close>): signer sets as they travel, the
  payload of an apply broadcast, every variant of \<open>SigningMessage\<close>, the fixed-width hex fields and
  the packed form of a signer set in the retention row. Error texts are constructors.
\<close>

section \<open>Signers\<close>

record signer_entry =
  account_id :: bytes
  weight :: nat

record membership_signer_wire =
  account_id_hex :: string
  wire_weight :: nat

definition to_wire :: "xrpl_lib \<Rightarrow> signer_entry \<Rightarrow> membership_signer_wire" where
  "to_wire L s = \<lparr>account_id_hex = hex_enc L (account_id s), wire_weight = weight s\<rparr>"

definition decode_20 :: "xrpl_lib \<Rightarrow> string \<Rightarrow> bytes option" where
  "decode_20 L s = do { b \<leftarrow> hex_dec L s; if length b = 20 then Some b else None }"

definition decode_32 :: "xrpl_lib \<Rightarrow> string \<Rightarrow> bytes option" where
  "decode_32 L s = do { b \<leftarrow> hex_dec L s; if length b = 32 then Some b else None }"

text \<open>The loop that turns wire signers into entries; it stops at the first bad account id.\<close>

fun decode_signers :: "xrpl_lib \<Rightarrow> membership_signer_wire list \<Rightarrow> signer_entry list option" where
  "decode_signers L [] = Some []"
| "decode_signers L (s # ss) =
     (case decode_20 L (account_id_hex s) of
        None \<Rightarrow> None
      | Some a \<Rightarrow> map_option (Cons \<lparr>account_id = a, weight = wire_weight s\<rparr>) (decode_signers L ss))"

section \<open>The packed set\<close>

fun pack_bytes :: "xrpl_lib \<Rightarrow> membership_signer_wire list \<Rightarrow> bytes" where
  "pack_bytes L [] = []"
| "pack_bytes L (s # ss) =
     (case hex_dec L (account_id_hex s) of
        Some b \<Rightarrow> if length b = 20 then b @ be_bytes 4 (wire_weight s) @ pack_bytes L ss else pack_bytes L ss
      | None \<Rightarrow> pack_bytes L ss)"

definition pack_membership_signers :: "xrpl_lib \<Rightarrow> membership_signer_wire list \<Rightarrow> string" where
  "pack_membership_signers L signers = hex_enc L (pack_bytes L signers)"

text \<open>\<open>chunks_exact(24)\<close>: a rest shorter than a record is dropped.\<close>

function chunks_exact_24 :: "bytes \<Rightarrow> bytes list" where
  "chunks_exact_24 b = (if length b < 24 then [] else take 24 b # chunks_exact_24 (drop 24 b))"
  by pat_completeness auto

termination chunks_exact_24
  by (relation "measure length") auto

declare chunks_exact_24.simps [simp del]

definition unpack_membership_signers :: "xrpl_lib \<Rightarrow> string \<Rightarrow> membership_signer_wire list" where
  "unpack_membership_signers L packed_hex =
     (case hex_dec L packed_hex of
        None \<Rightarrow> []
      | Some b \<Rightarrow> map (\<lambda>c. \<lparr>account_id_hex = hex_enc L (take 20 c), wire_weight = of_be_bytes (take 4 (drop 20 c))\<rparr>)
          (chunks_exact_24 b))"

section \<open>Messages\<close>

datatype membership_apply_payload =
    Seal (seal_escrow_hex: string) (seal_proposed_epoch: nat) (seal_prev_epoch_hash_hex: string)
      (seal_new_signers: "membership_signer_wire list") (seal_new_quorum: nat) (seal_quorum_bundle_hex: string)
      (seal_attesting_signers: "membership_signer_wire list") (seal_attesting_quorum: nat)
  | Confirm string string string nat
  | UnlPolicy string nat string nat nat nat string string
  | Bootstrap string nat string "membership_signer_wire list" nat string
  | GovernMrenclave nat string string nat string string string string

datatype mrenclave_sign_kind = Governance | Repro

datatype 'e signing_message =
    Request string string json string string "string option" "string option" "string option"
  | Response (resp_id: string) (resp_signer: string) (resp_der: "string option")
      (resp_pubkey: "string option") (resp_error: "'e option")
  | PathADelegationRequest string string string string string string
  | MembershipEpochRequest string string string nat string "membership_signer_wire list" nat nat string string
  | MrenclaveGovernanceRequest string string mrenclave_sign_kind string nat nat string
  | MembershipApply string string membership_apply_payload
  | UnlPolicyRequest string string nat string nat nat nat
  | UnlStatusRequest string string
  | UnlStatusResponse string string nat string nat nat "'e option"
  | SpvBaselineRequest string string string "string list"
  | SpvBaselineApply string string string string "string list" "string list"

record local_signer =
  enclave_url :: string
  ls_address :: string
  session_key :: string
  compressed_pubkey :: string
  ls_xrpl_address :: string

definition canonical_session_key :: "string \<Rightarrow> string" where
  "canonical_session_key s = strip_0x s"

definition session_key_hex :: "local_signer \<Rightarrow> string" where
  "session_key_hex l = canonical_session_key (session_key l)"

section \<open>Round trips\<close>

lemma decode_20_hex [simp]: "lib_ok L \<Longrightarrow> length b = 20 \<Longrightarrow> decode_20 L (hex_enc L b) = Some b"
  by (simp add: decode_20_def)

lemma decode_32_hex [simp]: "lib_ok L \<Longrightarrow> length b = 32 \<Longrightarrow> decode_32 L (hex_enc L b) = Some b"
  by (simp add: decode_32_def)

lemma decode_20_length: "decode_20 L s = Some b \<Longrightarrow> length b = 20"
  by (auto simp: decode_20_def bind_eq_Some_conv split: if_splits)

definition entry_wf :: "signer_entry \<Rightarrow> bool" where
  "entry_wf s \<longleftrightarrow> length (account_id s) = 20 \<and> weight s < 2 ^ 32"

lemma decode_signers_to_wire [simp]:
  "lib_ok L \<Longrightarrow> \<forall>s\<in>set ss. entry_wf s \<Longrightarrow> decode_signers L (map (to_wire L) ss) = Some ss"
  by (induction ss) (auto simp: to_wire_def entry_wf_def)

lemma decode_signers_wf:
  assumes "decode_signers L ws = Some ss" "\<forall>w\<in>set ws. wire_weight w < 2 ^ 32"
  shows "\<forall>s\<in>set ss. entry_wf s"
  using assms
proof (induction L ws arbitrary: ss rule: decode_signers.induct)
  case (2 L w ws)
  then obtain a rest where "decode_20 L (account_id_hex w) = Some a" "decode_signers L ws = Some rest"
    "ss = \<lparr>account_id = a, weight = wire_weight w\<rparr> # rest" by (auto split: option.splits)
  with 2 show ?case by (simp add: entry_wf_def decode_20_length)
qed simp

lemma chunks_exact_record:
  "length r = 24 \<Longrightarrow> chunks_exact_24 (r @ b) = r # chunks_exact_24 b"
  by (subst chunks_exact_24.simps) simp

lemma chunks_exact_Nil [simp]: "chunks_exact_24 [] = []"
  by (subst chunks_exact_24.simps) simp

lemma chunks_pack:
  assumes "lib_ok L" "\<forall>s\<in>set ss. entry_wf s"
  shows "chunks_exact_24 (pack_bytes L (map (to_wire L) ss))
    = map (\<lambda>s. account_id s @ be_bytes 4 (weight s)) ss"
  using assms(2)
proof (induction ss)
  case (Cons s ss)
  have "pack_bytes L (map (to_wire L) (s # ss))
    = (account_id s @ be_bytes 4 (weight s)) @ pack_bytes L (map (to_wire L) ss)"
    using Cons.prems assms(1) by (simp add: to_wire_def entry_wf_def)
  then show ?case using Cons by (simp only: chunks_exact_record) (simp add: chunks_exact_record entry_wf_def del: append_assoc)
qed simp

lemma unpack_pack:
  assumes "lib_ok L" "\<forall>s\<in>set ss. entry_wf s"
  shows "unpack_membership_signers L (pack_membership_signers L (map (to_wire L) ss)) = map (to_wire L) ss"
  using assms by (auto simp: unpack_membership_signers_def pack_membership_signers_def chunks_pack to_wire_def entry_wf_def)

lemma canonical_session_key_bare: "canonical_session_key s = s \<or> s = ''0x'' @ canonical_session_key s"
  by (auto simp: canonical_session_key_def strip_0x_def) (metis append_take_drop_id append_Cons append_Nil)

end
