(* ===== verification/Membership.thy ===== *)
theory Membership
  imports SigningWire
begin

text \<open>
  The membership epochs of the operator cluster: the canonical encodings
  (\<^verbatim>\<open>membership_canonical.rs\<close>), the statement of one transition, the collection of consents and the
  ceremony drivers (\<^verbatim>\<open>membership_coordinator.rs\<close>, \<^verbatim>\<open>quorum_bundle.rs\<close>), the apply broadcast
  (\<^verbatim>\<open>membership_apply.rs\<close>), the projection onto the XRPL signer list (\<^verbatim>\<open>membership_projection.rs\<close>), the
  reconciliation with the chain (\<^verbatim>\<open>membership_sync.rs\<close>) and the enclave adapters
  (\<^verbatim>\<open>membership_http.rs\<close>). The trait objects of the drivers are functions of a world state. Replies
  that reach a collector are a list with their arrival times; its window closes at a deadline.
\<close>

section \<open>Canonical encodings\<close>

definition MEMBERSHIP_EPOCH_DOMAIN :: bytes where
  "MEMBERSHIP_EPOCH_DOMAIN = bytes_of ''PERP_MEMBERSHIP_EPOCH_v1''"
definition EPOCH_DIGEST_DOMAIN :: bytes where
  "EPOCH_DIGEST_DOMAIN = bytes_of ''PERP_EPOCH_DIGEST_v1''"
definition MEMBERSHIP_DESCRIPTOR_DOMAIN :: bytes where
  "MEMBERSHIP_DESCRIPTOR_DOMAIN = bytes_of ''PERP_MEMBERSHIP_DESCRIPTOR_v1''"

text \<open>\<open>sort_by\<close> is stable, as \<open>sort_key\<close> is; account ids compare as byte strings.\<close>

definition sorted_signers :: "signer_entry list \<Rightarrow> signer_entry list" where
  "sorted_signers signers = sort_key account_id signers"

definition entry_bytes :: "signer_entry \<Rightarrow> bytes" where
  "entry_bytes s = account_id s @ le_bytes 4 (weight s)"

definition set_preimage :: "signer_entry list \<Rightarrow> nat \<Rightarrow> bytes" where
  "set_preimage signers quorum =
     (let sorted = sorted_signers signers
      in le_bytes 4 (length sorted) @ le_bytes 4 quorum @ concat (map entry_bytes sorted))"

definition compute_set_hash :: "xrpl_lib \<Rightarrow> signer_entry list \<Rightarrow> nat \<Rightarrow> bytes" where
  "compute_set_hash L signers quorum = sha256 L (set_preimage signers quorum)"

definition compute_epoch_authority_digest ::
  "xrpl_lib \<Rightarrow> bytes \<Rightarrow> nat \<Rightarrow> bytes \<Rightarrow> signer_entry list \<Rightarrow> nat \<Rightarrow> bytes" where
  "compute_epoch_authority_digest L escrow epoch prev_epoch_hash signers quorum =
     (let set_hash = compute_set_hash L signers quorum
      in sha256 L (EPOCH_DIGEST_DOMAIN @ escrow @ le_bytes 8 epoch @ prev_epoch_hash @ set_hash))"

definition compute_membership_message_hash :: "xrpl_lib \<Rightarrow> bytes \<Rightarrow> nat \<Rightarrow> bytes \<Rightarrow> bytes \<Rightarrow> bytes" where
  "compute_membership_message_hash L escrow proposed_epoch prev_epoch_hash new_set_hash =
     sha256 L (MEMBERSHIP_EPOCH_DOMAIN @ escrow @ le_bytes 8 proposed_epoch @ prev_epoch_hash @ new_set_hash)"

definition compute_membership_descriptor_digest ::
  "xrpl_lib \<Rightarrow> nat \<Rightarrow> bytes \<Rightarrow> nat \<Rightarrow> bytes \<Rightarrow> bytes \<Rightarrow> bytes \<Rightarrow> bytes" where
  "compute_membership_descriptor_digest L op escrow proposed_epoch prev_epoch_hash new_set_hash new_member_mrenclave =
     sha256 L (MEMBERSHIP_DESCRIPTOR_DOMAIN @ [of_nat op] @ escrow @ le_bytes 8 proposed_epoch
       @ prev_epoch_hash @ new_set_hash @ new_member_mrenclave)"

section \<open>The statement of a transition\<close>

definition MAX_SIGNERS :: nat where "MAX_SIGNERS = 32"

definition MEMBERSHIP_DESC_OP_ADD :: nat where "MEMBERSHIP_DESC_OP_ADD = 1"
definition MEMBERSHIP_DESC_OP_REMOVE :: nat where "MEMBERSHIP_DESC_OP_REMOVE = 2"
definition MEMBERSHIP_DESC_OP_SET :: nat where "MEMBERSHIP_DESC_OP_SET = 3"

record membership_epoch_statement =
  st_escrow :: bytes
  st_proposed_epoch :: nat
  st_prev_epoch_hash :: bytes
  st_new_signers :: "signer_entry list"
  st_new_quorum :: nat
  st_new_set_hash :: bytes
  st_message_hash :: bytes
  st_op :: nat
  st_new_member_mrenclave :: bytes
  st_descriptor_sigs :: bytes

datatype prepare_error = EmptySet | TooManySigners | ZeroWeight | QuorumOutOfBounds

fun weight_loop :: "signer_entry list \<Rightarrow> nat \<Rightarrow> prepare_error + nat" where
  "weight_loop [] weight_sum = Ok weight_sum"
| "weight_loop (s # ss) weight_sum =
     (if weight s = 0 then Err ZeroWeight else weight_loop ss (u64_add weight_sum (weight s)))"

definition prepare_statement ::
  "xrpl_lib \<Rightarrow> bytes \<Rightarrow> nat \<Rightarrow> bytes \<Rightarrow> signer_entry list \<Rightarrow> nat \<Rightarrow> nat \<Rightarrow> bytes \<Rightarrow> bytes
    \<Rightarrow> prepare_error + membership_epoch_statement" where
  "prepare_statement L escrow current_epoch current_epoch_digest new_signers new_quorum op new_member_mrenclave descriptor_sigs =
     (if new_signers = [] then Err EmptySet
      else if MAX_SIGNERS < length new_signers then Err TooManySigners
      else result_bind (weight_loop new_signers 0) (\<lambda>weight_sum.
        if new_quorum = 0 \<or> weight_sum < new_quorum then Err QuorumOutOfBounds
        else let proposed_epoch = u64_add current_epoch 1;
                 prev_epoch_hash = current_epoch_digest;
                 new_set_hash = compute_set_hash L new_signers new_quorum;
                 message_hash = compute_membership_message_hash L escrow proposed_epoch prev_epoch_hash new_set_hash
             in Ok \<lparr>st_escrow = escrow, st_proposed_epoch = proposed_epoch, st_prev_epoch_hash = prev_epoch_hash,
                     st_new_signers = new_signers, st_new_quorum = new_quorum, st_new_set_hash = new_set_hash,
                     st_message_hash = message_hash, st_op = op, st_new_member_mrenclave = new_member_mrenclave,
                     st_descriptor_sigs = descriptor_sigs\<rparr>))"

section \<open>Quorum bundles\<close>

definition bundle_entry :: "bytes \<times> bytes \<Rightarrow> bytes" where
  "bundle_entry e = fst e @ [of_nat (length (snd e))] @ snd e"

definition quorum_bundle_build :: "(bytes \<times> bytes) list \<Rightarrow> bytes" where
  "quorum_bundle_build entries =
     le_bytes 4 1 @ le_bytes 4 (length entries) @ concat (map bundle_entry entries)"

text \<open>The reply of a peer as a bundle entry, or nothing if it failed or is malformed.\<close>

definition parse_signing_response :: "xrpl_lib \<Rightarrow> 'e signing_message \<Rightarrow> (bytes \<times> bytes) option" where
  "parse_signing_response L msg =
     (case msg of
        Response _ _ der_signature pubkey error \<Rightarrow>
          if error \<noteq> None then None
          else do {
            d \<leftarrow> der_signature; sig \<leftarrow> hex_dec L d;
            p \<leftarrow> pubkey; pk \<leftarrow> hex_dec L p;
            if length pk \<noteq> 33 \<or> length sig < 8 \<or> 72 < length sig then None else Some (pk, sig) }
      | _ \<Rightarrow> None)"

definition push_entry :: "(bytes \<times> bytes) list \<Rightarrow> bytes \<times> bytes \<Rightarrow> (bytes \<times> bytes) list" where
  "push_entry entries e = (if fst e \<in> fst ` set entries then entries else entries @ [e])"

fun collect_loop ::
  "('m \<Rightarrow> (bytes \<times> bytes) option) \<Rightarrow> nat \<Rightarrow> (nat \<times> 'm) list \<Rightarrow> (bytes \<times> bytes) list \<Rightarrow> (bytes \<times> bytes) list" where
  "collect_loop parse deadline [] entries = entries"
| "collect_loop parse deadline ((t, m) # ms) entries =
     (if deadline \<le> t then entries
      else collect_loop parse deadline ms (case parse m of Some e \<Rightarrow> push_entry entries e | None \<Rightarrow> entries))"

datatype collect_error = RelayClosed | ZeroConsents

definition membership_collect ::
  "xrpl_lib \<Rightarrow> bool \<Rightarrow> nat \<Rightarrow> (nat \<times> 'e signing_message) list \<Rightarrow> collect_error + bytes" where
  "membership_collect L relay_open deadline arrivals =
     (if \<not> relay_open then Err RelayClosed
      else let entries = collect_loop (parse_signing_response L) deadline arrivals []
           in if entries = [] then Err ZeroConsents else Ok (quorum_bundle_build entries))"

section \<open>Ceremony drivers\<close>

record 'e node_result =
  nr_node :: string
  nr_ok :: bool
  nr_error :: "'e option"

record 'e membership_change_outcome =
  oc_proposed_epoch :: nat
  oc_message_hash :: bytes
  oc_node_results :: "'e node_result list"
  oc_quorum_bundle_hex :: string

definition all_ok :: "'e node_result list \<Rightarrow> bool" where
  "all_ok results \<longleftrightarrow> results \<noteq> [] \<and> list_all nr_ok results"

definition all_sealed :: "'e membership_change_outcome \<Rightarrow> bool" where
  "all_sealed oc \<longleftrightarrow> all_ok (oc_node_results oc)"

datatype ceremony_error =
    ReadEpoch string | PrepareFailed prepare_error | CollectFailed string | ApplyFailed string

type_synonym ('s, 'a) world_fun = "'s \<Rightarrow> (string + 'a) \<times> 's"

definition finish_change ::
  "xrpl_lib \<Rightarrow> membership_epoch_statement \<Rightarrow> (membership_epoch_statement \<Rightarrow> ('s, bytes) world_fun)
    \<Rightarrow> (membership_epoch_statement \<Rightarrow> bytes \<Rightarrow> ('s, 'e node_result list) world_fun)
    \<Rightarrow> 's \<Rightarrow> (ceremony_error + 'e membership_change_outcome) \<times> 's" where
  "finish_change L statement collector applier s =
     (case collector statement s of
        (Inl e, s) \<Rightarrow> (Err (CollectFailed e), s)
      | (Inr bundle, s) \<Rightarrow>
          (case applier statement bundle s of
             (Inl e, s) \<Rightarrow> (Err (ApplyFailed e), s)
           | (Inr results, s) \<Rightarrow>
               (Ok \<lparr>oc_proposed_epoch = st_proposed_epoch statement, oc_message_hash = st_message_hash statement,
                    oc_node_results = results, oc_quorum_bundle_hex = hex_enc L bundle\<rparr>, s)))"

definition run_membership_change ::
  "xrpl_lib \<Rightarrow> bytes \<Rightarrow> signer_entry list \<Rightarrow> nat \<Rightarrow> nat \<Rightarrow> bytes \<Rightarrow> bytes \<Rightarrow> ('s, nat \<times> bytes) world_fun
    \<Rightarrow> (membership_epoch_statement \<Rightarrow> ('s, bytes) world_fun)
    \<Rightarrow> (membership_epoch_statement \<Rightarrow> bytes \<Rightarrow> ('s, 'e node_result list) world_fun)
    \<Rightarrow> 's \<Rightarrow> (ceremony_error + 'e membership_change_outcome) \<times> 's" where
  "run_membership_change L escrow new_signers new_quorum op new_member_mrenclave descriptor_sigs digest_src collector applier s =
     (case digest_src s of
        (Inl e, s) \<Rightarrow> (Err (ReadEpoch e), s)
      | (Inr (current_epoch, current_digest), s) \<Rightarrow>
          (case prepare_statement L escrow current_epoch current_digest new_signers new_quorum op
                  new_member_mrenclave descriptor_sigs of
             Inl e \<Rightarrow> (Err (PrepareFailed e), s)
           | Inr statement \<Rightarrow> finish_change L statement collector applier s))"

definition zero32 :: bytes where "zero32 = replicate 32 0"

definition run_genesis_bootstrap ::
  "xrpl_lib \<Rightarrow> bytes \<Rightarrow> signer_entry list \<Rightarrow> nat \<Rightarrow> bytes
    \<Rightarrow> (membership_epoch_statement \<Rightarrow> ('s, bytes) world_fun)
    \<Rightarrow> (membership_epoch_statement \<Rightarrow> bytes \<Rightarrow> ('s, 'e node_result list) world_fun)
    \<Rightarrow> 's \<Rightarrow> (ceremony_error + 'e membership_change_outcome) \<times> 's" where
  "run_genesis_bootstrap L escrow genesis_signers genesis_quorum genesis_descriptor_sigs collector applier s =
     (case prepare_statement L escrow 0 zero32 genesis_signers genesis_quorum MEMBERSHIP_DESC_OP_SET zero32
             genesis_descriptor_sigs of
        Inl e \<Rightarrow> (Err (PrepareFailed e), s)
      | Inr statement \<Rightarrow> finish_change L statement collector applier s)"

section \<open>The apply broadcast\<close>

record membership_applier =
  expected_nodes :: nat
  ap_timeout :: nat
  attesting_signers :: "membership_signer_wire list"
  attesting_quorum :: nat

definition applier_new :: "nat \<Rightarrow> membership_applier" where
  "applier_new n = \<lparr>expected_nodes = max n 1, ap_timeout = 45, attesting_signers = [], attesting_quorum = 0\<rparr>"

definition with_attesting :: "membership_applier \<Rightarrow> membership_signer_wire list \<Rightarrow> nat \<Rightarrow> membership_applier" where
  "with_attesting ap signers quorum = ap\<lparr>attesting_signers := signers, attesting_quorum := quorum\<rparr>"

definition ok_count :: "'e node_result list \<Rightarrow> nat" where
  "ok_count acks = length (filter nr_ok acks)"

definition push_ack :: "'e signing_message \<Rightarrow> 'e node_result list \<Rightarrow> 'e node_result list" where
  "push_ack resp acks =
     (case resp of
        Response _ signer_xrpl_address _ _ error \<Rightarrow>
          let node = (if signer_xrpl_address = [] then ''<unknown>'' else signer_xrpl_address)
          in if node \<in> nr_node ` set acks then acks
             else acks @ [\<lparr>nr_node = node, nr_ok = (error = None), nr_error = error\<rparr>]
      | _ \<Rightarrow> acks)"

fun ack_loop ::
  "nat \<Rightarrow> nat \<Rightarrow> (nat \<times> 'e signing_message) list \<Rightarrow> 'e node_result list \<Rightarrow> 'e node_result list" where
  "ack_loop expected deadline [] acks = acks"
| "ack_loop expected deadline ((t, m) # ms) acks =
     (if expected \<le> ok_count acks then acks
      else if deadline \<le> t then acks
      else ack_loop expected deadline ms (push_ack m acks))"

text \<open>The payload goes to the run loop; \<open>arrivals\<close> is what comes back while it is out.\<close>

type_synonym 'e broadcast = "membership_apply_payload \<Rightarrow> (nat \<times> 'e signing_message) list option"

definition broadcast_and_collect ::
  "membership_applier \<Rightarrow> 'e broadcast \<Rightarrow> membership_apply_payload \<Rightarrow> collect_error + 'e node_result list" where
  "broadcast_and_collect ap send payload =
     (case send payload of
        None \<Rightarrow> Err RelayClosed
      | Some arrivals \<Rightarrow> Ok (ack_loop (expected_nodes ap) (ap_timeout ap) arrivals []))"

datatype 'e ack_error = AckError 'e | Shortfall nat nat

definition shortfall_error :: "membership_applier \<Rightarrow> nat \<Rightarrow> 'e ack_error option" where
  "shortfall_error ap oks = (if oks < expected_nodes ap then Some (Shortfall oks (expected_nodes ap)) else None)"

definition lift_ack :: "'e node_result \<Rightarrow> 'e ack_error node_result" where
  "lift_ack a = \<lparr>nr_node = nr_node a, nr_ok = nr_ok a, nr_error = map_option AckError (nr_error a)\<rparr>"

definition results_of :: "membership_applier \<Rightarrow> 'e node_result list \<Rightarrow> 'e ack_error node_result list" where
  "results_of ap acks =
     map lift_ack acks @
       (case shortfall_error ap (ok_count acks) of
          Some msg \<Rightarrow> [\<lparr>nr_node = ''<cluster>'', nr_ok = False, nr_error = Some msg\<rparr>]
        | None \<Rightarrow> [])"

definition apply_payload ::
  "membership_applier \<Rightarrow> 'e broadcast \<Rightarrow> membership_apply_payload \<Rightarrow> collect_error + 'e ack_error node_result list" where
  "apply_payload ap send payload =
     result_bind (broadcast_and_collect ap send payload) (\<lambda>acks. Ok (results_of ap acks))"

definition seal_payload :: "xrpl_lib \<Rightarrow> membership_applier \<Rightarrow> membership_epoch_statement \<Rightarrow> bytes \<Rightarrow> membership_apply_payload" where
  "seal_payload L ap statement bundle =
     Seal (hex_enc L (st_escrow statement)) (st_proposed_epoch statement) (hex_enc L (st_prev_epoch_hash statement))
       (map (to_wire L) (st_new_signers statement)) (st_new_quorum statement) (hex_enc L bundle)
       (attesting_signers ap) (attesting_quorum ap)"

definition apply_seal ::
  "xrpl_lib \<Rightarrow> membership_applier \<Rightarrow> 'e broadcast \<Rightarrow> membership_epoch_statement \<Rightarrow> bytes \<Rightarrow> collect_error + 'e ack_error node_result list" where
  "apply_seal L ap send statement bundle = apply_payload ap send (seal_payload L ap statement bundle)"

definition apply_genesis ::
  "xrpl_lib \<Rightarrow> membership_applier \<Rightarrow> 'e broadcast \<Rightarrow> membership_epoch_statement \<Rightarrow> bytes \<Rightarrow> collect_error + 'e ack_error node_result list" where
  "apply_genesis L ap send statement bundle =
     apply_payload ap send
       (Bootstrap (hex_enc L (st_escrow statement)) (st_proposed_epoch statement) (hex_enc L (st_prev_epoch_hash statement))
          (map (to_wire L) (st_new_signers statement)) (st_new_quorum statement) (hex_enc L bundle))"

definition apply_confirmation ::
  "xrpl_lib \<Rightarrow> membership_applier \<Rightarrow> 'e broadcast \<Rightarrow> bytes \<Rightarrow> bytes \<Rightarrow> bytes \<Rightarrow> nat \<Rightarrow> collect_error + 'e ack_error node_result list" where
  "apply_confirmation L ap send escrow signed_xrpl_tx_blob tx_hash ledger_index =
     apply_payload ap send
       (Confirm (hex_enc L escrow) (hex_enc L signed_xrpl_tx_blob) (hex_enc L tx_hash) ledger_index)"

text \<open>The policy broadcast reports the count of acks, the roster size, and the named refusals.\<close>

definition apply_unl_policy ::
  "membership_applier \<Rightarrow> 'e broadcast \<Rightarrow> string \<Rightarrow> nat \<Rightarrow> string \<Rightarrow> nat \<Rightarrow> nat \<Rightarrow> nat \<Rightarrow> string \<Rightarrow> string
    \<Rightarrow> collect_error + nat \<times> nat \<times> (string \<times> 'e option) list" where
  "apply_unl_policy ap send escrow_hex proposed_epoch prev_unl_hash_hex pinned_ledger_seq quorum_num quorum_den
       quorum_bundle_hex descriptor_sigs_hex =
     result_bind (broadcast_and_collect ap send
       (UnlPolicy escrow_hex proposed_epoch prev_unl_hash_hex pinned_ledger_seq quorum_num quorum_den
          quorum_bundle_hex descriptor_sigs_hex)) (\<lambda>acks.
     Ok (ok_count acks, expected_nodes ap, map (\<lambda>a. (nr_node a, nr_error a)) (filter (\<lambda>a. \<not> nr_ok a) acks)))"

end
