(* ===== verification/Projection.thy ===== *)
theory Projection
  imports Membership
begin

text \<open>
  The XRPL signer list as a projection of the sealed epoch (\<^verbatim>\<open>membership_projection.rs\<close>), the
  reconciliation with the chain (\<^verbatim>\<open>membership_sync.rs\<close>) and the request and reply shapes of the
  enclave's membership routes (\<^verbatim>\<open>membership_http.rs\<close>). Members of a JSON object are only looked up
  by name, so their order plays no role.
\<close>

section \<open>Rendering\<close>

definition signer_entry_json :: "xrpl_lib \<Rightarrow> signer_entry \<Rightarrow> json" where
  "signer_entry_json L s =
     JObj [(''SignerEntry'', JObj [(''Account'', JStr (account_id_to_r_address L (account_id s))),
                                   (''SignerWeight'', JNum (int (weight s)))])]"

definition render_signerlist_set :: "xrpl_lib \<Rightarrow> bytes \<Rightarrow> nat \<Rightarrow> nat \<Rightarrow> signer_entry list \<Rightarrow> nat \<Rightarrow> json" where
  "render_signerlist_set L escrow sequence fee_drops signers quorum =
     JObj [(''TransactionType'', JStr ''SignerListSet''),
           (''Account'', JStr (account_id_to_r_address L escrow)),
           (''Fee'', JStr (nat_to_dec fee_drops)),
           (''Sequence'', JNum (int sequence)),
           (''SigningPubKey'', JStr []),
           (''SignerQuorum'', JNum (int quorum)),
           (''SignerEntries'', JArr (map (signer_entry_json L) (sorted_signers signers)))]"

section \<open>The projection driver\<close>

record projection_confirmed_tx =
  signed_tx_blob :: bytes
  pc_tx_hash :: bytes
  pc_ledger_index :: nat

record projection_request =
  pr_escrow :: bytes
  pr_sequence :: nat
  pr_fee_drops :: nat
  pr_signers :: "signer_entry list"
  pr_quorum :: nat
  pr_quorum_bundle_hex :: string

record 'e projection_outcome =
  po_tx_hash :: bytes
  po_ledger_index :: nat
  po_node_results :: "'e node_result list"

definition all_recorded :: "'e projection_outcome \<Rightarrow> bool" where
  "all_recorded po \<longleftrightarrow> all_ok (po_node_results po)"

datatype projection_error = SubmitFailed string | RecordFailed string

definition run_projection ::
  "xrpl_lib \<Rightarrow> projection_request \<Rightarrow> (json \<Rightarrow> string \<Rightarrow> ('s, projection_confirmed_tx) world_fun)
    \<Rightarrow> (bytes \<Rightarrow> bytes \<Rightarrow> bytes \<Rightarrow> nat \<Rightarrow> ('s, 'e node_result list) world_fun)
    \<Rightarrow> 's \<Rightarrow> (projection_error + 'e projection_outcome) \<times> 's" where
  "run_projection L req submitter applier s =
     (let unsigned = render_signerlist_set L (pr_escrow req) (pr_sequence req) (pr_fee_drops req) (pr_signers req) (pr_quorum req)
      in case submitter unsigned (pr_quorum_bundle_hex req) s of
           (Inl e, s) \<Rightarrow> (Err (SubmitFailed e), s)
         | (Inr tx, s) \<Rightarrow>
             (case applier (pr_escrow req) (signed_tx_blob tx) (pc_tx_hash tx) (pc_ledger_index tx) s of
                (Inl e, s) \<Rightarrow> (Err (RecordFailed e), s)
              | (Inr results, s) \<Rightarrow>
                  (Ok \<lparr>po_tx_hash = pc_tx_hash tx, po_ledger_index = pc_ledger_index tx, po_node_results = results\<rparr>, s)))"

section \<open>Sync and drift\<close>

record membership_sync_state =
  authority_epoch :: nat
  projection_confirmed_epoch :: nat
  in_sync :: bool

record signer_set =
  members :: "(bytes \<times> nat) set"
  sset_quorum :: nat

definition from_entries :: "signer_entry list \<Rightarrow> nat \<Rightarrow> signer_set" where
  "from_entries signers quorum = \<lparr>members = set (map (\<lambda>s. (account_id s, weight s)) signers), sset_quorum = quorum\<rparr>"

text \<open>The text of a drift verdict names the epoch and the sizes and quorums of both sets.\<close>

datatype membership_status =
    InSync
  | TransitionPending nat nat
  | Drift nat nat nat nat nat

datatype sync_error =
    RetireRefused nat nat
  | SpendHalted membership_status
  | NodeNotBootstrapped nat
  | NodesDisagree nat membership_sync_state membership_sync_state
  | EmptyNodeSet

definition assert_safe_to_retire :: "membership_sync_state \<Rightarrow> sync_error + unit" where
  "assert_safe_to_retire st =
     (if \<not> in_sync st then Err (RetireRefused (authority_epoch st) (projection_confirmed_epoch st)) else Ok ())"

definition classify_local :: "membership_sync_state \<Rightarrow> signer_set \<Rightarrow> signer_set \<Rightarrow> membership_status" where
  "classify_local st authority on_chain =
     (if \<not> in_sync st then TransitionPending (authority_epoch st) (projection_confirmed_epoch st)
      else if authority = on_chain then InSync
      else Drift (authority_epoch st) (card (members on_chain)) (sset_quorum on_chain)
             (card (members authority)) (sset_quorum authority))"

fun assert_spend_allowed :: "membership_status \<Rightarrow> sync_error + unit" where
  "assert_spend_allowed InSync = Ok ()"
| "assert_spend_allowed (TransitionPending a c) = Ok ()"
| "assert_spend_allowed (Drift e m q m' q') = Err (SpendHalted (Drift e m q m' q'))"

fun reconcile_loop ::
  "nat \<Rightarrow> membership_sync_state option list \<Rightarrow> membership_sync_state option
    \<Rightarrow> sync_error + membership_sync_state option" where
  "reconcile_loop i [] agreed = Ok agreed"
| "reconcile_loop i (None # sts) agreed = Err (NodeNotBootstrapped i)"
| "reconcile_loop i (Some s # sts) None = reconcile_loop (Suc i) sts (Some s)"
| "reconcile_loop i (Some s # sts) (Some a) =
     (if authority_epoch a \<noteq> authority_epoch s \<or> projection_confirmed_epoch a \<noteq> projection_confirmed_epoch s
      then Err (NodesDisagree i a s)
      else reconcile_loop (Suc i) sts (Some a))"

definition reconcile_cluster :: "membership_sync_state option list \<Rightarrow> sync_error + membership_sync_state" where
  "reconcile_cluster states =
     result_bind (reconcile_loop 0 states None) (\<lambda>agreed. require EmptyNodeSet agreed)"

section \<open>The enclave routes\<close>

definition signers_json :: "xrpl_lib \<Rightarrow> signer_entry list \<Rightarrow> json" where
  "signers_json L ss =
     JArr (map (\<lambda>s. JObj [(''account_id'', JStr (hex_enc L (account_id s))), (''weight'', JNum (int (weight s)))]) ss)"

definition build_seal_request :: "xrpl_lib \<Rightarrow> membership_epoch_statement \<Rightarrow> bytes \<Rightarrow> json" where
  "build_seal_request L st bundle =
     JObj [(''escrow_account_id'', JStr (hex_enc L (st_escrow st))),
           (''prev_epoch_hash'', JStr (hex_enc L (st_prev_epoch_hash st))),
           (''quorum_bundle'', JStr (hex_enc L bundle)),
           (''signers'', signers_json L (st_new_signers st)),
           (''quorum_threshold'', JNum (int (st_new_quorum st))),
           (''proposed_epoch'', JNum (int (st_proposed_epoch st)))]"

definition build_bootstrap_attested_request :: "xrpl_lib \<Rightarrow> membership_epoch_statement \<Rightarrow> bytes \<Rightarrow> json" where
  "build_bootstrap_attested_request L st bundle =
     (let signers = signers_json L (st_new_signers st)
      in JObj [(''escrow_account_id'', JStr (hex_enc L (st_escrow st))),
               (''authority_signers'', signers),
               (''authority_quorum'', JNum (int (st_new_quorum st))),
               (''authority_epoch'', JNum (int (st_proposed_epoch st))),
               (''confirmed_epoch'', JNum (int (st_proposed_epoch st))),
               (''prev_epoch_hash'', JStr (hex_enc L (st_prev_epoch_hash st))),
               (''attesting_signers'', signers),
               (''attesting_quorum'', JNum (int (st_new_quorum st))),
               (''quorum_bundle'', JStr (hex_enc L bundle))])"

definition build_confirmation_request :: "xrpl_lib \<Rightarrow> bytes \<Rightarrow> bytes \<Rightarrow> bytes \<Rightarrow> nat \<Rightarrow> json" where
  "build_confirmation_request L escrow blob tx_hash ledger_index =
     JObj [(''escrow_account_id'', JStr (hex_enc L escrow)),
           (''signed_xrpl_tx_blob'', JStr (hex_enc L blob)),
           (''tx_hash'', JStr (hex_enc L tx_hash)),
           (''ledger_index'', JNum (int ledger_index))]"

datatype route_error =
    RouteRefused json | NotBootstrapped | MissingReplyField string | ReplyHex | ReplyLength nat

definition status_is :: "string \<Rightarrow> json \<Rightarrow> bool" where
  "status_is w body \<longleftrightarrow> json_as_str (json_index body ''status'') = Some w"

definition parse_epoch_digest :: "xrpl_lib \<Rightarrow> json \<Rightarrow> route_error + nat \<times> bytes" where
  "parse_epoch_digest L body =
     (if \<not> status_is ''ok'' body then Err (RouteRefused body)
      else if json_index body ''bootstrapped'' = JBool False then Err NotBootstrapped
      else result_bind (require (MissingReplyField ''epoch'') (json_as_u64 (json_index body ''epoch''))) (\<lambda>epoch.
           result_bind (require (MissingReplyField ''epoch_digest'') (json_as_str (json_index body ''epoch_digest''))) (\<lambda>h.
           result_bind (require ReplyHex (hex_dec L h)) (\<lambda>b.
           if length b \<noteq> 32 then Err (ReplyLength (length b)) else Ok (epoch, b)))))"

definition parse_seal_response :: "json \<Rightarrow> route_error + unit" where
  "parse_seal_response body = (if status_is ''ok'' body then Ok () else Err (RouteRefused body))"

definition parse_confirmation_response :: "json \<Rightarrow> route_error + unit" where
  "parse_confirmation_response body = (if status_is ''ok'' body then Ok () else Err (RouteRefused body))"

definition parse_sync_state :: "json \<Rightarrow> route_error + membership_sync_state option" where
  "parse_sync_state body =
     (if \<not> status_is ''ok'' body then Err (RouteRefused body)
      else if json_index body ''bootstrapped'' = JBool False then Ok None
      else result_bind (require (MissingReplyField ''authority_epoch'') (json_as_u64 (json_index body ''authority_epoch''))) (\<lambda>a.
           result_bind (require (MissingReplyField ''projection_confirmed_epoch'')
             (json_as_u64 (json_index body ''projection_confirmed_epoch''))) (\<lambda>c.
           result_bind (require (MissingReplyField ''in_sync'') (json_as_bool (json_index body ''in_sync''))) (\<lambda>b.
           Ok (Some \<lparr>authority_epoch = a, projection_confirmed_epoch = c, in_sync = b\<rparr>)))))"

text \<open>
  A reply over HTTP: none (a client that cannot be built included), a body that is no JSON, or a JSON
  body; the flag says whether the status code is a success.
\<close>

datatype http_reply = NoAnswer string | BadBody bool string | Body bool json

type_synonym 's http_post = "string \<Rightarrow> json \<Rightarrow> 's \<Rightarrow> http_reply \<times> 's"

datatype apply_error =
    HttpFailed string | BodyFailed string | Refused route_error | GovernNoOp int | GovernDescriptor int
  | PolicyRefused json

definition SEAL_EPOCH_PATH :: string where "SEAL_EPOCH_PATH = ''/v1/admin/signerlist/seal-epoch''"
definition RECORD_CONFIRMATION_PATH :: string where
  "RECORD_CONFIRMATION_PATH = ''/v1/admin/signerlist/record-projection-confirmation''"
definition BOOTSTRAP_ATTESTED_PATH :: string where
  "BOOTSTRAP_ATTESTED_PATH = ''/v1/admin/signerlist/bootstrap-attested''"
definition MRENCLAVES_GOVERN_PATH :: string where "MRENCLAVES_GOVERN_PATH = ''/v1/admin/mrenclaves/govern''"

definition trim_end :: "string \<Rightarrow> string" where
  "trim_end s = rev (dropWhile (\<lambda>c. c = CHR ''/'') (rev s))"

definition post_route ::
  "'s http_post \<Rightarrow> string \<Rightarrow> json \<Rightarrow> (json \<Rightarrow> apply_error + unit) \<Rightarrow> 's \<Rightarrow> (apply_error + unit) \<times> 's" where
  "post_route post url req parse s =
     (case post url req s of
        (NoAnswer e, s) \<Rightarrow> (Err (HttpFailed e), s)
      | (BadBody ok e, s) \<Rightarrow> (Err (BodyFailed e), s)
      | (Body ok b, s) \<Rightarrow> (parse b, s))"

definition refused :: "route_error + 'a \<Rightarrow> apply_error + 'a" where
  "refused r = map_sum Refused id r"

definition seal_on_node ::
  "xrpl_lib \<Rightarrow> 's http_post \<Rightarrow> string \<Rightarrow> membership_epoch_statement \<Rightarrow> bytes \<Rightarrow> 's \<Rightarrow> (apply_error + unit) \<times> 's" where
  "seal_on_node L post node_admin_url st bundle =
     post_route post (trim_end node_admin_url @ SEAL_EPOCH_PATH) (build_seal_request L st bundle) (refused \<circ> parse_seal_response)"

definition bootstrap_on_node ::
  "xrpl_lib \<Rightarrow> 's http_post \<Rightarrow> string \<Rightarrow> membership_epoch_statement \<Rightarrow> bytes \<Rightarrow> 's \<Rightarrow> (apply_error + unit) \<times> 's" where
  "bootstrap_on_node L post node_admin_url st bundle =
     post_route post (trim_end node_admin_url @ BOOTSTRAP_ATTESTED_PATH) (build_bootstrap_attested_request L st bundle)
       (refused \<circ> parse_seal_response)"

definition record_confirmation ::
  "xrpl_lib \<Rightarrow> 's http_post \<Rightarrow> string \<Rightarrow> bytes \<Rightarrow> bytes \<Rightarrow> bytes \<Rightarrow> nat \<Rightarrow> 's \<Rightarrow> (apply_error + unit) \<times> 's" where
  "record_confirmation L post node_admin_url escrow blob tx_hash ledger_index =
     post_route post (trim_end node_admin_url @ RECORD_CONFIRMATION_PATH)
       (build_confirmation_request L escrow blob tx_hash ledger_index) (refused \<circ> parse_confirmation_response)"

end
