(* ===== verification/Membership_Props.thy ===== *)
theory Membership_Props
  imports Projection
begin

text \<open>
  Properties of the membership ceremony: what the set hash binds, that a collected bundle reads
  back as the consents that arrived, what a fully sealed outcome means, and the reconciliation
  verdicts.
\<close>

section \<open>The set hash\<close>

lemma sorted_signers_mset [simp]: "mset (sorted_signers ss) = mset ss"
  by (simp add: sorted_signers_def)

lemma sorted_signers_set [simp]: "set (sorted_signers ss) = set ss"
  by (simp add: sorted_signers_def)

lemma sorted_signers_length [simp]: "length (sorted_signers ss) = length ss"
  by (simp add: sorted_signers_def)

lemma filter_account_singleton:
  "distinct (map account_id zs) \<Longrightarrow> k \<in> set zs \<Longrightarrow> filter (\<lambda>x. account_id k = account_id x) zs = [k]"
  by (induction zs) (auto simp: filter_empty_conv image_iff)

lemma distinct_accounts_cong: "mset xs = mset ys \<Longrightarrow> distinct (map account_id xs) = distinct (map account_id ys)"
  by (metis mset_eq_imp_distinct_iff mset_map)

lemma sorted_signers_cong:
  assumes "mset ss = mset ss'" "distinct (map account_id ss)"
  shows "sorted_signers ss = sorted_signers ss'"
proof -
  have d: "distinct (map account_id ss')" using assms distinct_accounts_cong by blast
  have "distinct (map account_id (sort_key account_id ss'))"
    using d distinct_accounts_cong [of "sort_key account_id ss'" ss'] by simp
  then have "sort_key account_id ss = sort_key account_id ss'"
    by (intro properties_for_sort_key) (use assms in \<open>auto simp: filter_account_singleton dest: mset_eq_setD\<close>)
  then show ?thesis by (simp add: sorted_signers_def)
qed

lemma entry_bytes_inj:
  "entry_wf a \<Longrightarrow> entry_wf b \<Longrightarrow> entry_bytes a = entry_bytes b \<Longrightarrow> a = b"
  by (cases a, cases b) (auto simp: entry_bytes_def entry_wf_def le_bytes_inj)

lemma length_entry_bytes: "entry_wf s \<Longrightarrow> length (entry_bytes s) = 24"
  by (simp add: entry_bytes_def entry_wf_def)

lemma concat_entry_bytes_inj:
  assumes "\<forall>s\<in>set xs. entry_wf s" "\<forall>s\<in>set ys. entry_wf s" "length xs = length ys"
    and "concat (map entry_bytes xs) = concat (map entry_bytes ys)"
  shows "xs = ys"
  using assms(3,1,2,4)
proof (induction xs ys rule: list_induct2)
  case (Cons x xs y ys)
  then have "entry_bytes x = entry_bytes y \<and> concat (map entry_bytes xs) = concat (map entry_bytes ys)"
    by (simp add: length_entry_bytes)
  then show ?case using Cons by (auto dest: entry_bytes_inj)
qed simp

lemma set_preimage_inj:
  assumes "\<forall>s\<in>set xs. entry_wf s" "\<forall>s\<in>set ys. entry_wf s" "length xs < 2 ^ 32" "length ys < 2 ^ 32"
    and "q < 2 ^ 32" "q' < 2 ^ 32" "set_preimage xs q = set_preimage ys q'"
  shows "mset xs = mset ys \<and> q = q'"
proof -
  have e: "le_bytes 4 (length xs) = le_bytes 4 (length ys)" "le_bytes 4 q = le_bytes 4 q'"
    "concat (map entry_bytes (sorted_signers xs)) = concat (map entry_bytes (sorted_signers ys))"
    using assms(7) by (simp_all add: set_preimage_def Let_def)
  have "length xs = length ys" "q = q'" using e(1,2) assms(3-6) by (simp_all add: le_bytes_inj)
  moreover from this have "sorted_signers xs = sorted_signers ys"
    using concat_entry_bytes_inj [OF _ _ _ e(3)] assms(1,2) by simp
  ultimately show ?thesis by (metis sorted_signers_mset)
qed

text \<open>
  The set hash does not depend on the order the signers are given in when their account ids
  are distinct, and it binds the set: two sets with the same hash are the same signers with the
  same weights and the same quorum, or their encodings are a collision of SHA-256.
\<close>

theorem set_hash_binds:
  assumes "\<forall>s\<in>set xs. entry_wf s" "\<forall>s\<in>set ys. entry_wf s" "length xs < 2 ^ 32" "length ys < 2 ^ 32"
    and "q < 2 ^ 32" "q' < 2 ^ 32" "distinct (map account_id xs)"
  shows "(mset xs = mset ys \<and> q = q' \<longrightarrow> compute_set_hash L xs q = compute_set_hash L ys q')
    \<and> (compute_set_hash L xs q = compute_set_hash L ys q' \<longrightarrow> mset xs = mset ys \<and> q = q'
        \<or> (set_preimage xs q \<noteq> set_preimage ys q' \<and> sha256 L (set_preimage xs q) = sha256 L (set_preimage ys q')))"
proof (intro conjI impI)
  assume "mset xs = mset ys \<and> q = q'"
  then show "compute_set_hash L xs q = compute_set_hash L ys q'"
    using sorted_signers_cong [of xs ys] assms(7) by (simp add: compute_set_hash_def set_preimage_def)
next
  assume "compute_set_hash L xs q = compute_set_hash L ys q'"
  then show "mset xs = mset ys \<and> q = q'
    \<or> (set_preimage xs q \<noteq> set_preimage ys q' \<and> sha256 L (set_preimage xs q) = sha256 L (set_preimage ys q'))"
    using set_preimage_inj [OF assms(1-6)] by (auto simp: compute_set_hash_def)
qed

definition sample_signer :: "nat \<Rightarrow> signer_entry" where
  "sample_signer n = \<lparr>account_id = replicate 20 (of_nat n), weight = 1\<rparr>"

lemma sample_signer_wf [simp]: "entry_wf (sample_signer n)"
  by (simp add: sample_signer_def entry_wf_def)

lemma sample_signer_account [simp]: "account_id (sample_signer n) = replicate 20 (of_nat n)" "weight (sample_signer n) = 1"
  by (simp_all add: sample_signer_def)

lemma sample_account_eq_iff:
  "m < 256 \<Longrightarrow> n < 256 \<Longrightarrow> replicate 20 (of_nat m :: byte) = replicate 20 (of_nat n) \<longleftrightarrow> m = n"
  by (metis length_replicate mod_less nth_replicate unat_byte zero_less_numeral)

theorem set_hash_binds_witness:
  "compute_set_hash sample_lib [sample_signer 1, sample_signer 2] 2
    = compute_set_hash sample_lib [sample_signer 2, sample_signer 1] 2"
  using set_hash_binds [of "[sample_signer 1, sample_signer 2]" "[sample_signer 2, sample_signer 1]" 2 2 sample_lib]
    sample_account_eq_iff [of 1 2] by (simp add: add_mset_commute)

text \<open>
  With a repeated account id the order does matter: the stable sort keeps the given order of the
  two entries, and so does the encoding.
\<close>

lemma repeated_account_order_matters:
  "set_preimage [\<lparr>account_id = a, weight = 1\<rparr>, \<lparr>account_id = a, weight = 2\<rparr>] q
     \<noteq> set_preimage [\<lparr>account_id = a, weight = 2\<rparr>, \<lparr>account_id = a, weight = 1\<rparr>] q"
  using le_bytes_inj [of 1 4 2] by (simp add: set_preimage_def sorted_signers_def entry_bytes_def)

text \<open>The three digests of one transition are taken over disjoint encodings.\<close>

lemma domains_disjoint:
  "take 6 MEMBERSHIP_EPOCH_DOMAIN \<noteq> take 6 EPOCH_DIGEST_DOMAIN"
  "take 17 MEMBERSHIP_EPOCH_DOMAIN \<noteq> take 17 MEMBERSHIP_DESCRIPTOR_DOMAIN"
  "take 6 EPOCH_DIGEST_DOMAIN \<noteq> take 6 MEMBERSHIP_DESCRIPTOR_DOMAIN"
  by (simp_all add: MEMBERSHIP_EPOCH_DOMAIN_def EPOCH_DIGEST_DOMAIN_def MEMBERSHIP_DESCRIPTOR_DOMAIN_def bytes_of_def of_char_def)

section \<open>Bundles\<close>

text \<open>The reader of the documented wire format: version 1, a count, and no trailing bytes.\<close>

definition read_le :: "nat \<Rightarrow> bytes \<Rightarrow> (nat \<times> bytes) option" where
  "read_le k b = map_option (\<lambda>(x, r). (of_le_bytes x, r)) (read_bytes k b)"

definition read_bundle_entry :: "bytes \<Rightarrow> ((bytes \<times> bytes) \<times> bytes) option" where
  "read_bundle_entry b = do {
     (pk, b) \<leftarrow> read_bytes 33 b;
     (l, b) \<leftarrow> read_le 1 b;
     if l < 8 \<or> 72 < l then None
     else do { (sig, b) \<leftarrow> read_bytes l b; Some ((pk, sig), b) } }"

definition read_bundle :: "bytes \<Rightarrow> (bytes \<times> bytes) list option" where
  "read_bundle b = do {
     (v, b) \<leftarrow> read_le 4 b;
     (n, b) \<leftarrow> read_le 4 b;
     if v \<noteq> 1 then None
     else do { (es, b) \<leftarrow> read_many read_bundle_entry n b; if b = [] then Some es else None } }"

definition bundle_entry_ok :: "bytes \<times> bytes \<Rightarrow> bool" where
  "bundle_entry_ok e \<longleftrightarrow> length (fst e) = 33 \<and> 8 \<le> length (snd e) \<and> length (snd e) \<le> 72"

lemma read_le_append [simp]: "n < 256 ^ k \<Longrightarrow> read_le k (le_bytes k n @ r) = Some (n, r)"
  by (simp add: read_le_def of_le_bytes_le_bytes)

lemma read_le_one [simp]: "n < 256 \<Longrightarrow> read_le (Suc 0) (of_nat n # r) = Some (n, r)"
  by (simp add: read_le_def read_bytes_def)

interpretation bundle_codec: codec bundle_entry read_bundle_entry bundle_entry_ok
proof unfold_locales
  fix e :: "bytes \<times> bytes" and r
  assume "bundle_entry_ok e"
  then show "read_bundle_entry (bundle_entry e @ r) = Some (e, r)"
    by (cases e) (auto simp: bundle_entry_ok_def bundle_entry_def read_bundle_entry_def)
qed

lemma read_bundle_build:
  assumes "\<forall>e\<in>set es. bundle_entry_ok e" "length es < 2 ^ 32"
  shows "read_bundle (quorum_bundle_build es) = Some es"
proof -
  have "read_many read_bundle_entry (length es) (concat (map bundle_entry es)) = Some (es, [])"
    using bundle_codec.read_many_wr [OF assms(1), of "[]"] by simp
  then show ?thesis using assms(2) by (simp add: read_bundle_def quorum_bundle_build_def)
qed

section \<open>Collecting consents\<close>

text \<open>What the messages inside the window contribute, in order of arrival.\<close>

definition contributions :: "('m \<Rightarrow> (bytes \<times> bytes) option) \<Rightarrow> nat \<Rightarrow> (nat \<times> 'm) list \<Rightarrow> (bytes \<times> bytes) list" where
  "contributions parse deadline arrivals =
     List.map_filter (parse \<circ> snd) (takeWhile (\<lambda>(t, m). t < deadline) arrivals)"

lemma collect_loop_fold:
  "collect_loop parse deadline arrivals es = fold (\<lambda>e es. push_entry es e) (contributions parse deadline arrivals) es"
  by (induction parse deadline arrivals es rule: collect_loop.induct)
     (auto simp: contributions_def map_filter_simps split: option.splits)

lemma fold_push_entry:
  assumes "distinct (map fst es)"
  shows "distinct (map fst (fold (\<lambda>e es. push_entry es e) cs es))
    \<and> set (fold (\<lambda>e es. push_entry es e) cs es) \<subseteq> set es \<union> set cs
    \<and> fst ` set (fold (\<lambda>e es. push_entry es e) cs es) = fst ` set es \<union> fst ` set cs"
  using assms
proof (induction cs arbitrary: es)
  case (Cons c cs)
  have "distinct (map fst (push_entry es c))" using Cons.prems by (auto simp: push_entry_def)
  from Cons.IH [OF this] show ?case by (auto simp: push_entry_def split: if_splits)
qed simp

lemma length_fold_push_entry: "length (fold (\<lambda>e es. push_entry es e) cs es) \<le> length es + length cs"
proof (induction cs arbitrary: es)
  case (Cons c cs)
  show ?case using Cons [of "push_entry es c"] by (auto simp: push_entry_def split: if_splits)
qed simp

lemma length_contributions: "length (contributions parse deadline arrivals) \<le> length arrivals"
  unfolding contributions_def List.map_filter_def
  by (simp, rule order_trans [OF length_filter_le length_takeWhile_le])

lemma collect_loop_spec:
  fixes parse :: "'m \<Rightarrow> (bytes \<times> bytes) option" and deadline :: nat and arrivals :: "(nat \<times> 'm) list"
  defines "cs \<equiv> contributions parse deadline arrivals"
  defines "es \<equiv> collect_loop parse deadline arrivals []"
  shows "distinct (map fst es)" "set es \<subseteq> set cs" "fst ` set es = fst ` set cs" "length es \<le> length arrivals"
    "es = [] \<longleftrightarrow> cs = []"
proof -
  show d: "distinct (map fst es)" "set es \<subseteq> set cs" "fst ` set es = fst ` set cs"
    using fold_push_entry [of "[]" cs] unfolding es_def cs_def collect_loop_fold by simp_all
  show "length es \<le> length arrivals"
    using length_fold_push_entry [of cs "[]"] length_contributions [of parse deadline arrivals]
    unfolding es_def cs_def collect_loop_fold by simp
  show "es = [] \<longleftrightarrow> cs = []" using d(3) by (metis image_is_empty set_empty)
qed

lemma parse_signing_response_ok: "parse_signing_response L m = Some e \<Longrightarrow> bundle_entry_ok e"
  by (auto simp: parse_signing_response_def bundle_entry_ok_def bind_eq_Some_conv
      split: signing_message.splits if_splits)

lemma contributions_ok:
  "e \<in> set (contributions (parse_signing_response L) deadline arrivals) \<Longrightarrow> bundle_entry_ok e"
  by (auto simp: contributions_def map_filter_def intro: parse_signing_response_ok)


definition sample_consent :: "nat \<Rightarrow> string signing_message" where
  "sample_consent n = Response ''beta1-membership-1'' ''r1'' (Some (hex_enc sample_lib (replicate 8 1)))
     (Some (hex_enc sample_lib (replicate 33 (of_nat n)))) None"


section \<open>The apply broadcast\<close>

definition node_name :: "string \<Rightarrow> string" where
  "node_name addr = (if addr = [] then ''<unknown>'' else addr)"

definition answered :: "nat \<Rightarrow> (nat \<times> 'e signing_message) list \<Rightarrow> 'e node_result \<Rightarrow> bool" where
  "answered deadline arrivals a \<longleftrightarrow> (\<exists>t rid addr d p. (t, Response rid addr d p (nr_error a)) \<in> set arrivals \<and> t < deadline
     \<and> nr_node a = node_name addr \<and> nr_ok a = (nr_error a = None))"

lemma push_ack_distinct: "distinct (map nr_node acks) \<Longrightarrow> distinct (map nr_node (push_ack m acks))"
  by (auto simp: push_ack_def Let_def split: signing_message.splits)

lemma push_ack_answered:
  assumes "a \<in> set (push_ack m acks)" "t < deadline"
  shows "a \<in> set acks \<or> answered deadline ((t, m) # ms) a"
proof (cases m)
  case (Response rid addr d p e)
  then have "a \<in> set acks \<or> a = \<lparr>nr_node = node_name addr, nr_ok = (e = None), nr_error = e\<rparr>"
    using assms(1) by (auto simp: push_ack_def node_name_def Let_def split: if_splits)
  moreover have "answered deadline ((t, m) # ms) \<lparr>nr_node = node_name addr, nr_ok = (e = None), nr_error = e\<rparr>"
    unfolding answered_def using assms(2) Response by (intro exI [of _ t] exI [of _ rid] exI [of _ addr] exI [of _ d] exI [of _ p]) simp
  ultimately show ?thesis by blast
qed (use assms in \<open>simp_all add: push_ack_def\<close>)

lemma answered_Cons: "answered deadline ms a \<Longrightarrow> answered deadline (x # ms) a"
  unfolding answered_def by (meson list.set_intros(2))

lemma ack_loop_spec:
  assumes "distinct (map nr_node acks)"
  shows "distinct (map nr_node (ack_loop expected deadline arrivals acks))
    \<and> (\<forall>a\<in>set (ack_loop expected deadline arrivals acks). a \<in> set acks \<or> answered deadline arrivals a)"
  using assms
proof (induction expected deadline arrivals acks rule: ack_loop.induct)
  case (2 expected deadline t m ms acks)
  show ?case
  proof (cases "expected \<le> ok_count acks \<or> deadline \<le> t")
    case True
    then show ?thesis using "2.prems" by auto
  next
    case False
    then have "t < deadline" and e: "ack_loop expected deadline ((t, m) # ms) acks = ack_loop expected deadline ms (push_ack m acks)"
      by simp_all
    with 2 False have ih: "distinct (map nr_node (ack_loop expected deadline ms (push_ack m acks)))"
      "\<forall>a\<in>set (ack_loop expected deadline ms (push_ack m acks)). a \<in> set (push_ack m acks) \<or> answered deadline ms a"
      using push_ack_distinct by blast+
    show ?thesis unfolding e using ih push_ack_answered [OF _ \<open>t < deadline\<close>] answered_Cons by blast
  qed
qed simp

lemma ok_count_le_ok_nodes:
  "distinct (map nr_node acks) \<Longrightarrow> ok_count acks = card (nr_node ` set (filter nr_ok acks))"
  unfolding ok_count_def
  by (metis (mono_tags, lifting) distinct_card distinct_map_filter length_map list.set_map)

lemma all_ok_results_of:
  "0 < expected_nodes ap \<Longrightarrow>
   all_ok (results_of ap acks) \<longleftrightarrow> expected_nodes ap \<le> ok_count acks \<and> list_all nr_ok acks"
  by (auto simp: all_ok_def results_of_def shortfall_error_def ok_count_def lift_ack_def list_all_iff)

text \<open>
  The driver reports a change as applied on all nodes exactly when, before the window
  closed, at least as many differently named nodes as the cluster has answered that they applied
  it, and no node it counted refused. Otherwise some reported row has failed: a node that stays
  silent cannot be mistaken for one that applied.
\<close>

theorem all_sealed_counts_nodes:
  assumes "0 < expected_nodes ap" "send payload = Some arrivals"
  shows "\<exists>results. apply_payload ap send payload = Ok results
    \<and> (all_ok results \<longrightarrow> (\<exists>nodes. distinct nodes \<and> expected_nodes ap \<le> length nodes
         \<and> (\<forall>n\<in>set nodes. \<exists>t rid addr d p. (t, Response rid addr d p None) \<in> set arrivals \<and> t < ap_timeout ap \<and> n = node_name addr)))
    \<and> (\<not> all_ok results \<longrightarrow> (\<exists>r\<in>set results. \<not> nr_ok r))"
proof -
  let ?acks = "ack_loop (expected_nodes ap) (ap_timeout ap) arrivals []"
  let ?nodes = "map nr_node (filter nr_ok ?acks)"
  have a: "distinct (map nr_node ?acks)" "\<forall>x\<in>set ?acks. answered (ap_timeout ap) arrivals x"
    using ack_loop_spec [of "[]" "expected_nodes ap" "ap_timeout ap" arrivals] by auto
  have r: "apply_payload ap send payload = Ok (results_of ap ?acks)"
    using assms(2) by (simp add: apply_payload_def broadcast_and_collect_def)
  have "distinct ?nodes" using a(1) by (simp add: distinct_map_filter)
  moreover have "\<forall>n\<in>set ?nodes. \<exists>t rid addr d p. (t, Response rid addr d p None) \<in> set arrivals \<and> t < ap_timeout ap \<and> n = node_name addr"
    using a(2) by (fastforce simp: answered_def)
  moreover have "length ?nodes = ok_count ?acks" by (simp add: ok_count_def)
  ultimately have "all_ok (results_of ap ?acks) \<Longrightarrow> \<exists>nodes. distinct nodes \<and> expected_nodes ap \<le> length nodes
    \<and> (\<forall>n\<in>set nodes. \<exists>t rid addr d p. (t, Response rid addr d p None) \<in> set arrivals \<and> t < ap_timeout ap \<and> n = node_name addr)"
    using all_ok_results_of [OF assms(1)] by metis
  moreover have "\<not> all_ok (results_of ap ?acks) \<Longrightarrow> \<exists>x\<in>set (results_of ap ?acks). \<not> nr_ok x"
    using assms(1) by (auto simp: all_ok_def list_all_iff results_of_def shortfall_error_def ok_count_def)
  ultimately show ?thesis using r by blast
qed

definition sample_ack :: "string \<Rightarrow> string signing_message" where
  "sample_ack n = Response ''beta-apply-1'' n None None None"

theorem all_sealed_counts_nodes_witness:
  "\<exists>results nodes. apply_payload (applier_new 2) (\<lambda>_. Some [(1, sample_ack ''r1''), (2, sample_ack ''r1''), (3, sample_ack ''r2'')])
      (Confirm [] [] [] 7) = Ok results \<and> all_ok results \<and> distinct nodes \<and> 2 \<le> length nodes \<and> set nodes \<subseteq> {''r1'', ''r2''}"
proof -
  let ?send = "\<lambda>_. Some [(1, sample_ack ''r1''), (2, sample_ack ''r1''), (3, sample_ack ''r2'')]"
  have "\<exists>results. apply_payload (applier_new 2) ?send (Confirm [] [] [] 7) = Ok results \<and> all_ok results"
    by (simp add: applier_new_def apply_payload_def broadcast_and_collect_def ok_count_def push_ack_def sample_ack_def
        results_of_def shortfall_error_def all_ok_def lift_ack_def)
  then show ?thesis
    using all_sealed_counts_nodes [of "applier_new 2" ?send "Confirm [] [] [] 7"]
    by (fastforce simp: applier_new_def sample_ack_def node_name_def)
qed

section \<open>Reconciliation\<close>

lemma reconcile_loop_Ok:
  "reconcile_loop i states (Some a) = Ok r \<longleftrightarrow>
     r = Some a \<and> (\<forall>st\<in>set states. \<exists>s. st = Some s \<and> authority_epoch s = authority_epoch a
       \<and> projection_confirmed_epoch s = projection_confirmed_epoch a)"
  by (induction i states "Some a" arbitrary: r rule: reconcile_loop.induct) auto

text \<open>
  The reconciler halts unless every node of a non-empty cluster is bootstrapped and all of
  them hold the same pair of authority and confirmed epochs; then it answers with the first.
\<close>

theorem reconcile_cluster_iff:
  "reconcile_cluster states = Ok a \<longleftrightarrow>
     (\<exists>rest. states = Some a # rest \<and> (\<forall>st\<in>set rest. \<exists>s. st = Some s \<and> authority_epoch s = authority_epoch a
       \<and> projection_confirmed_epoch s = projection_confirmed_epoch a))"
proof (cases states)
  case (Cons x rest)
  then show ?thesis by (cases x) (auto simp: reconcile_cluster_def result_bind_Ok_iff reconcile_loop_Ok)
qed (simp add: reconcile_cluster_def require_def)

theorem reconcile_cluster_iff_witness:
  "reconcile_cluster [Some \<lparr>authority_epoch = 4, projection_confirmed_epoch = 4, in_sync = True\<rparr>,
      Some \<lparr>authority_epoch = 4, projection_confirmed_epoch = 4, in_sync = True\<rparr>]
    = Ok \<lparr>authority_epoch = 4, projection_confirmed_epoch = 4, in_sync = True\<rparr>"
  by (simp add: reconcile_cluster_iff)

text \<open>
  A chain that holds the rendered projection is never reported as drift, and once the enclave is
  in sync any difference in members, weights or quorum halts spending.
\<close>

lemma projection_is_not_drift:
  "assert_spend_allowed (classify_local st (from_entries ss q) (from_entries (sorted_signers ss) q)) = Ok ()"
  by (simp add: classify_local_def from_entries_def)

lemma drift_halts_spend:
  "in_sync st \<Longrightarrow> authority \<noteq> on_chain \<Longrightarrow> \<exists>e. assert_spend_allowed (classify_local st authority on_chain) = Err e"
  by (simp add: classify_local_def)

lemma retire_only_in_sync: "assert_safe_to_retire st = Ok () \<longleftrightarrow> in_sync st"
  by (simp add: assert_safe_to_retire_def)

end
