(* ===== verification/Governance.thy ===== *)
theory Governance
  imports Membership_Props
begin

text \<open>
  The governed allowlist of enclave measurements (\<^verbatim>\<open>mrenclave_governance.rs\<close>, the govern route of
  \<^verbatim>\<open>membership_http.rs\<close>) and the validator-list policy ceremony (\<^verbatim>\<open>unl_policy.rs\<close>).
\<close>

section \<open>The allowlist\<close>

definition OP_ADD :: nat where "OP_ADD = 1"
definition OP_REMOVE :: nat where "OP_REMOVE = 2"
definition REPRO_MIN :: nat where "REPRO_MIN = 2"

definition MRENCLAVE_GOV_DESCRIPTOR_DOMAIN :: bytes where
  "MRENCLAVE_GOV_DESCRIPTOR_DOMAIN = bytes_of ''PERP_MRENCLAVE_GOV_DESCRIPTOR_v2''"

record gov_context =
  governing_mrenclave :: bytes
  membership_epoch_digest :: bytes

record governance_op =
  go_op :: nat
  go_mrenclave :: bytes
  go_escrow :: bytes
  go_proposed_epoch :: nat
  go_prev_allowlist_hash :: bytes

definition compute_trusted_mrenclave_descriptor_digest ::
  "xrpl_lib \<Rightarrow> nat \<Rightarrow> bytes \<Rightarrow> bytes \<Rightarrow> nat \<Rightarrow> bytes \<Rightarrow> gov_context \<Rightarrow> bytes" where
  "compute_trusted_mrenclave_descriptor_digest L op mrenclave escrow proposed_epoch prev_allowlist_hash gen =
     sha256 L (MRENCLAVE_GOV_DESCRIPTOR_DOMAIN @ [of_nat op] @ mrenclave @ escrow @ le_bytes 8 proposed_epoch
       @ prev_allowlist_hash @ governing_mrenclave gen @ membership_epoch_digest gen)"

record 'e governance_outcome =
  gv_op :: nat
  gv_mrenclave :: bytes
  gv_allowlist_epoch :: nat
  gv_repro_signers :: nat
  gv_node_results :: "'e node_result list"

definition all_applied :: "'e governance_outcome \<Rightarrow> bool" where
  "all_applied gv \<longleftrightarrow> all_ok (gv_node_results gv)"

datatype governance_error =
    UnknownOp nat | DescriptorMalformed nat | ReadHead string | ReproCollect string | ReproTooFew nat
  | GovernanceCollect string | GovernanceApply string

definition govern_with_proof ::
  "governance_op \<Rightarrow> bytes \<Rightarrow> nat \<Rightarrow> bytes \<Rightarrow> (governance_op \<Rightarrow> ('s, bytes) world_fun)
    \<Rightarrow> (governance_op \<Rightarrow> bytes \<Rightarrow> bytes \<Rightarrow> bytes \<Rightarrow> ('s, 'e node_result list) world_fun)
    \<Rightarrow> 's \<Rightarrow> (governance_error + 'e governance_outcome) \<times> 's" where
  "govern_with_proof gov_op repro_bundle repro_signers descriptor_sigs collect_governance apply_govern s =
     (case collect_governance gov_op s of
        (Inl e, s) \<Rightarrow> (Err (GovernanceCollect e), s)
      | (Inr quorum_bundle, s) \<Rightarrow>
          (case apply_govern gov_op quorum_bundle repro_bundle descriptor_sigs s of
             (Inl e, s) \<Rightarrow> (Err (GovernanceApply e), s)
           | (Inr results, s) \<Rightarrow>
               (Ok \<lparr>gv_op = go_op gov_op, gv_mrenclave = go_mrenclave gov_op, gv_allowlist_epoch = go_proposed_epoch gov_op,
                    gv_repro_signers = repro_signers, gv_node_results = results\<rparr>, s)))"

definition run_mrenclave_governance ::
  "nat \<Rightarrow> bytes \<Rightarrow> bytes \<Rightarrow> bytes \<Rightarrow> ('s, nat \<times> bytes) world_fun \<Rightarrow> (bytes \<Rightarrow> ('s, bytes \<times> nat) world_fun)
    \<Rightarrow> (governance_op \<Rightarrow> ('s, bytes) world_fun)
    \<Rightarrow> (governance_op \<Rightarrow> bytes \<Rightarrow> bytes \<Rightarrow> bytes \<Rightarrow> ('s, 'e node_result list) world_fun)
    \<Rightarrow> 's \<Rightarrow> (governance_error + 'e governance_outcome) \<times> 's" where
  "run_mrenclave_governance op mrenclave escrow descriptor_sigs status collect_repro collect_governance apply_govern s =
     (if op \<noteq> OP_ADD \<and> op \<noteq> OP_REMOVE then (Err (UnknownOp op), s)
      else if descriptor_sigs = [] \<or> length descriptor_sigs mod 64 \<noteq> 0 then (Err (DescriptorMalformed (length descriptor_sigs)), s)
      else case status s of
        (Inl e, s) \<Rightarrow> (Err (ReadHead e), s)
      | (Inr (current_epoch, prev_allowlist_hash), s) \<Rightarrow>
          (let gov_op = \<lparr>go_op = op, go_mrenclave = mrenclave, go_escrow = escrow,
                 go_proposed_epoch = u64_add current_epoch 1, go_prev_allowlist_hash = prev_allowlist_hash\<rparr>
           in if op = OP_ADD
              then case collect_repro mrenclave s of
                     (Inl e, s) \<Rightarrow> (Err (ReproCollect e), s)
                   | (Inr (bundle, signers), s) \<Rightarrow>
                       if signers < REPRO_MIN then (Err (ReproTooFew signers), s)
                       else govern_with_proof gov_op bundle signers descriptor_sigs collect_governance apply_govern s
              else govern_with_proof gov_op [] 0 descriptor_sigs collect_governance apply_govern s))"

text \<open>The collector of this ceremony and of the policy ceremony: any non-empty signature is taken.\<close>

definition parse_governance_response :: "xrpl_lib \<Rightarrow> 'e signing_message \<Rightarrow> (bytes \<times> bytes) option" where
  "parse_governance_response L msg =
     (case msg of
        Response _ _ (Some der_hex) (Some pk_hex) None \<Rightarrow>
          let pk = (case hex_dec L pk_hex of Some b \<Rightarrow> b | None \<Rightarrow> []);
              der = (case hex_dec L der_hex of Some b \<Rightarrow> b | None \<Rightarrow> [])
          in if length pk = 33 \<and> der \<noteq> [] then Some (pk, der) else None
      | _ \<Rightarrow> None)"

definition governance_collect ::
  "xrpl_lib \<Rightarrow> bool \<Rightarrow> nat \<Rightarrow> (nat \<times> 'e signing_message) list \<Rightarrow> collect_error + bytes \<times> nat" where
  "governance_collect L relay_open deadline arrivals =
     (if \<not> relay_open then Err RelayClosed
      else let entries = collect_loop (parse_governance_response L) deadline arrivals []
           in if entries = [] then Err ZeroConsents else Ok (quorum_bundle_build entries, length entries))"

definition apply_govern ::
  "xrpl_lib \<Rightarrow> membership_applier \<Rightarrow> 'e broadcast \<Rightarrow> governance_op \<Rightarrow> bytes \<Rightarrow> bytes \<Rightarrow> bytes
    \<Rightarrow> collect_error + 'e ack_error node_result list" where
  "apply_govern L ap send gop quorum_bundle repro_bundle descriptor_sigs =
     apply_payload ap send
       (GovernMrenclave (go_op gop) (hex_enc L (go_mrenclave gop)) (hex_enc L (go_escrow gop)) (go_proposed_epoch gop)
          (hex_enc L (go_prev_allowlist_hash gop)) (hex_enc L quorum_bundle) (hex_enc L repro_bundle)
          (hex_enc L descriptor_sigs))"

section \<open>The govern route\<close>

definition govern_build_request :: "xrpl_lib \<Rightarrow> governance_op \<Rightarrow> bytes \<Rightarrow> bytes \<Rightarrow> bytes \<Rightarrow> json" where
  "govern_build_request L gop quorum_bundle repro_bundle descriptor_sigs =
     JObj ([(''op'', JNum (int (go_op gop))),
            (''mrenclave'', JStr (hex_enc L (go_mrenclave gop))),
            (''escrow_account_id'', JStr (hex_enc L (go_escrow gop))),
            (''proposed_epoch'', JNum (int (go_proposed_epoch gop))),
            (''prev_allowlist_hash'', JStr (hex_enc L (go_prev_allowlist_hash gop))),
            (''quorum_bundle'', JStr (hex_enc L quorum_bundle)),
            (''descriptor_sigs'', JStr (hex_enc L descriptor_sigs))]
           @ (if repro_bundle = [] then [] else [(''repro_bundle'', JStr (hex_enc L repro_bundle))]))"

definition GOVERN_ERR_ALREADY :: int where "GOVERN_ERR_ALREADY = -11"
definition GOVERN_ERR_NOT_FOUND :: int where "GOVERN_ERR_NOT_FOUND = -12"
definition GOVERN_ERR_GOV_DESC_MALFORMED :: int where "GOVERN_ERR_GOV_DESC_MALFORMED = -18"
definition GOVERN_ERR_GOV_NOT_AUTHORIZED :: int where "GOVERN_ERR_GOV_NOT_AUTHORIZED = -19"

definition parse_govern_response :: "nat \<Rightarrow> json \<Rightarrow> apply_error + unit" where
  "parse_govern_response op body =
     (if status_is ''ok'' body then Ok ()
      else case Option.bind (json_get body ''code'') json_as_i64 of
        None \<Rightarrow> refused (parse_seal_response body)
      | Some code \<Rightarrow>
          if op = OP_ADD \<and> code = GOVERN_ERR_ALREADY then Err (GovernNoOp code)
          else if op = OP_REMOVE \<and> code = GOVERN_ERR_NOT_FOUND then Err (GovernNoOp code)
          else if code = GOVERN_ERR_GOV_DESC_MALFORMED then Err (GovernDescriptor code)
          else if code = GOVERN_ERR_GOV_NOT_AUTHORIZED then Err (GovernDescriptor code)
          else refused (parse_seal_response body))"

definition govern_on_node ::
  "xrpl_lib \<Rightarrow> 's http_post \<Rightarrow> string \<Rightarrow> governance_op \<Rightarrow> bytes \<Rightarrow> bytes \<Rightarrow> bytes \<Rightarrow> 's \<Rightarrow> (apply_error + unit) \<times> 's" where
  "govern_on_node L post node_admin_url gop quorum_bundle repro_bundle descriptor_sigs =
     post_route post (trim_end node_admin_url @ MRENCLAVES_GOVERN_PATH)
       (govern_build_request L gop quorum_bundle repro_bundle descriptor_sigs) (parse_govern_response (go_op gop))"

section \<open>The validator-list policy\<close>

definition UNL_POLICY_DOMAIN :: bytes where "UNL_POLICY_DOMAIN = bytes_of ''PERP_UNL_POLICY_v3''"
definition ACCEPT_WINDOW_LEDGERS :: nat where "ACCEPT_WINDOW_LEDGERS = 200"
definition UNL_POLICY_GOV_DESCRIPTOR_DOMAIN :: bytes where
  "UNL_POLICY_GOV_DESCRIPTOR_DOMAIN = bytes_of ''PERP_UNL_POLICY_GOV_DESCRIPTOR_v1''"

definition unl_policy_message_hash :: "xrpl_lib \<Rightarrow> nat \<Rightarrow> bytes \<Rightarrow> nat \<Rightarrow> nat \<Rightarrow> nat \<Rightarrow> bytes" where
  "unl_policy_message_hash L unl_epoch prev_unl_hash pinned_ledger_seq quorum_num quorum_den =
     sha256 L (UNL_POLICY_DOMAIN @ le_bytes 8 unl_epoch @ prev_unl_hash @ le_bytes 8 pinned_ledger_seq
       @ le_bytes 4 quorum_num @ le_bytes 4 quorum_den)"

definition unl_policy_gov_descriptor_digest ::
  "xrpl_lib \<Rightarrow> bytes \<Rightarrow> nat \<Rightarrow> bytes \<Rightarrow> nat \<Rightarrow> nat \<times> nat \<Rightarrow> gov_context \<Rightarrow> bytes" where
  "unl_policy_gov_descriptor_digest L escrow unl_epoch prev_unl_hash pinned_ledger_seq quorum gen =
     sha256 L (UNL_POLICY_GOV_DESCRIPTOR_DOMAIN @ escrow @ le_bytes 8 unl_epoch @ prev_unl_hash
       @ le_bytes 8 pinned_ledger_seq @ le_bytes 4 (fst quorum) @ le_bytes 4 (snd quorum)
       @ governing_mrenclave gen @ membership_epoch_digest gen)"

definition quorum_floor_ok :: "nat \<Rightarrow> nat \<Rightarrow> bool" where
  "quorum_floor_ok quorum_num quorum_den \<longleftrightarrow>
     quorum_den \<noteq> 0 \<and> u64_mul quorum_den 80 \<le> u64_mul quorum_num 100"

definition anchor_acceptable :: "nat \<Rightarrow> nat \<Rightarrow> bool" where
  "anchor_acceptable proposed own_validated \<longleftrightarrow>
     proposed \<le> own_validated \<and> u64_saturating_sub own_validated proposed \<le> ACCEPT_WINDOW_LEDGERS"

datatype unl_error =
    BelowFloor nat nat | OwnLedgerUnread string | AnchorRefused nat nat
  | UnlStatusFailed json | UnlStatusField string | UnlDigest
  | UnlDescriptor nat | UnlStatusHttp string | UnlCollect collect_error | TooFewEndorsements nat nat
  | UnlApply collect_error | ClusterSplit nat nat nat

definition own_validated_ledger :: "http_reply \<Rightarrow> unl_error + nat" where
  "own_validated_ledger reply =
     (case reply of
        NoAnswer e \<Rightarrow> Err (OwnLedgerUnread e)
      | BadBody ok e \<Rightarrow> Err (OwnLedgerUnread e)
      | Body ok resp \<Rightarrow> require (OwnLedgerUnread ''server_info has no validated_ledger.seq'')
          (json_as_u64 (json_index (json_index (json_index (json_index resp ''result'') ''info'') ''validated_ledger'') ''seq'')))"

definition cosigner_accepts :: "http_reply \<Rightarrow> nat \<Rightarrow> nat \<Rightarrow> nat \<Rightarrow> unl_error + unit" where
  "cosigner_accepts server_info pinned_ledger_seq quorum_num quorum_den =
     (if \<not> quorum_floor_ok quorum_num quorum_den then Err (BelowFloor quorum_num quorum_den)
      else result_bind (own_validated_ledger server_info) (\<lambda>own.
        if \<not> anchor_acceptable pinned_ledger_seq own then Err (AnchorRefused pinned_ledger_seq own) else Ok ()))"

record unl_record =
  unl_epoch :: nat
  unl_digest :: bytes
  live_validators :: nat
  pinned_ledger_seq :: nat

definition parse_unl_status :: "xrpl_lib \<Rightarrow> json \<Rightarrow> unl_error + unl_record" where
  "parse_unl_status L r =
     (if \<not> status_is ''success'' r then Err (UnlStatusFailed r)
      else result_bind (require (UnlStatusField ''unl_epoch'') (json_as_u64 (json_index r ''unl_epoch''))) (\<lambda>epoch.
           result_bind (require (UnlStatusField ''live_validators'') (json_as_u64 (json_index r ''live_validators''))) (\<lambda>live.
           result_bind (require (UnlStatusField ''pinned_ledger_seq'') (json_as_u64 (json_index r ''pinned_ledger_seq''))) (\<lambda>seq.
           result_bind (require (UnlStatusField ''digest'') (json_as_str (json_index r ''digest''))) (\<lambda>h.
           result_bind (require UnlDigest (hex_dec L h)) (\<lambda>d.
           if length d \<noteq> 32 then Err UnlDigest
           else Ok \<lparr>unl_epoch = epoch, unl_digest = d, live_validators = live mod 2 ^ 32, pinned_ledger_seq = seq\<rparr>))))))"

definition read_record :: "xrpl_lib \<Rightarrow> http_reply \<Rightarrow> unl_error + unl_record" where
  "read_record L reply =
     (case reply of
        NoAnswer e \<Rightarrow> Err (UnlStatusHttp e) | BadBody ok e \<Rightarrow> Err (UnlStatusHttp e) | Body ok r \<Rightarrow> parse_unl_status L r)"

definition enclave_root_from_v1 :: "string \<Rightarrow> string" where
  "enclave_root_from_v1 url =
     (let t = trim_end url
      in trim_end (if drop (length t - 3) t = ''/v1'' then take (length t - 3) t else t))"

record 'e node_unl_status =
  us_node :: string
  us_unl_epoch :: nat
  us_digest_hex :: string
  us_pinned_ledger_seq :: nat
  us_live_validators :: nat
  us_error :: "'e option"

record unl_status_group =
  ug_unl_epoch :: nat
  ug_digest_hex :: string
  ug_pinned_ledger_seq :: nat
  ug_nodes :: "string list"

record 'e cluster_unl_status =
  cu_in_sync :: bool
  cu_responded :: nat
  cu_unreadable :: nat
  cu_groups :: "unl_status_group list"
  cu_nodes :: "'e node_unl_status list"

fun add_to_group :: "'e node_unl_status \<Rightarrow> unl_status_group list \<Rightarrow> unl_status_group list" where
  "add_to_group n [] =
     [\<lparr>ug_unl_epoch = us_unl_epoch n, ug_digest_hex = us_digest_hex n,
       ug_pinned_ledger_seq = us_pinned_ledger_seq n, ug_nodes = [us_node n]\<rparr>]"
| "add_to_group n (g # gs) =
     (if ug_digest_hex g = us_digest_hex n then g\<lparr>ug_nodes := ug_nodes g @ [us_node n]\<rparr> # gs
      else g # add_to_group n gs)"

definition summarise_unl_agreement :: "'e node_unl_status list \<Rightarrow> nat \<Rightarrow> 'e cluster_unl_status" where
  "summarise_unl_agreement rows expected =
     (let nodes = sort_key us_node rows;
          unreadable = length (filter (\<lambda>n. us_error n \<noteq> None) nodes);
          groups = fold add_to_group (filter (\<lambda>n. us_error n = None) nodes) [];
          in_sync = (length groups = 1 \<and> unreadable = 0 \<and> length nodes = expected \<and> 0 < expected)
      in \<lparr>cu_in_sync = in_sync, cu_responded = length nodes, cu_unreadable = unreadable,
          cu_groups = groups, cu_nodes = nodes\<rparr>)"

definition push_status :: "'e signing_message \<Rightarrow> 'e node_unl_status list \<Rightarrow> 'e node_unl_status list" where
  "push_status resp rows =
     (case resp of
        UnlStatusResponse _ signer epoch digest_hex seq live error \<Rightarrow>
          if signer \<in> us_node ` set rows then rows
          else rows @ [\<lparr>us_node = signer, us_unl_epoch = epoch, us_digest_hex = digest_hex,
                 us_pinned_ledger_seq = seq, us_live_validators = live, us_error = error\<rparr>]
      | _ \<Rightarrow> rows)"

fun status_loop ::
  "nat \<Rightarrow> (nat \<times> 'e signing_message) list \<Rightarrow> 'e node_unl_status list \<Rightarrow> 'e node_unl_status list" where
  "status_loop deadline [] rows = rows"
| "status_loop deadline ((t, m) # ms) rows =
     (if deadline \<le> t then rows else status_loop deadline ms (push_status m rows))"

definition unl_status_collect ::
  "bool \<Rightarrow> nat \<Rightarrow> nat \<Rightarrow> (nat \<times> 'e signing_message) list \<Rightarrow> collect_error + 'e cluster_unl_status" where
  "unl_status_collect relay_open expected deadline arrivals =
     (if \<not> relay_open then Err RelayClosed
      else Ok (summarise_unl_agreement (status_loop deadline arrivals []) expected))"

definition apply_shortfall :: "nat \<Rightarrow> nat \<Rightarrow> 'f list \<Rightarrow> unl_error option" where
  "apply_shortfall applied expected failures =
     (if expected \<le> applied then None
      else Some (ClusterSplit applied expected (u64_saturating_sub expected (applied + length failures))))"

text \<open>
  The ceremony: \<open>status\<close> is the reply of the own enclave, \<open>arrivals\<close> the endorsements, \<open>send\<close> the
  apply broadcast. The result is the new epoch, the anchor, and the applied and expected counts.
\<close>

definition run_unl_policy_ceremony ::
  "xrpl_lib \<Rightarrow> http_reply \<Rightarrow> (nat \<times> 'e signing_message) list option \<Rightarrow> nat \<Rightarrow> string \<Rightarrow> nat \<Rightarrow> nat \<Rightarrow> nat \<Rightarrow> nat \<Rightarrow> bytes
    \<Rightarrow> membership_applier \<Rightarrow> 'e broadcast \<Rightarrow> unl_error + nat \<times> nat \<times> nat \<times> nat" where
  "run_unl_policy_ceremony L status arrivals deadline escrow_hex pinned quorum_num quorum_den cosign_quorum descriptor_sigs ap send =
     (if descriptor_sigs = [] \<or> length descriptor_sigs mod 64 \<noteq> 0 then Err (UnlDescriptor (length descriptor_sigs))
      else if \<not> quorum_floor_ok quorum_num quorum_den then Err (BelowFloor quorum_num quorum_den)
      else result_bind (read_record L status) (\<lambda>r.
        let epoch = u64_add (unl_epoch r) 1
        in result_bind (map_sum UnlCollect id
             (governance_collect L (arrivals \<noteq> None) deadline (case arrivals of Some a \<Rightarrow> a | None \<Rightarrow> []))) (\<lambda>(bundle, pubkeys).
           if pubkeys < cosign_quorum then Err (TooFewEndorsements pubkeys cosign_quorum)
           else result_bind (map_sum UnlApply id
             (apply_unl_policy ap send escrow_hex epoch (hex_enc L (unl_digest r)) pinned quorum_num quorum_den
                (hex_enc L bundle) (hex_enc L descriptor_sigs))) (\<lambda>(applied, expected, failures).
             case apply_shortfall applied expected failures of
               Some e \<Rightarrow> Err e
             | None \<Rightarrow> Ok (epoch, pinned, applied, expected)))))"

end
