(* ===== verification/Governance_Props.thy ===== *)
theory Governance_Props
  imports Governance
begin

text \<open>Properties of the two governance ceremonies and of the cluster status report.\<close>

section \<open>What a collector lets through\<close>

lemma parse_governance_response_bounds:
  "parse_governance_response L m = Some (pk, der) \<Longrightarrow> length pk = 33 \<and> der \<noteq> []"
  by (auto simp: parse_governance_response_def Let_def split: signing_message.splits option.splits if_splits)

text \<open>
  Whatever the membership collector takes, the governance collector takes too; the converse fails
  for every signature shorter than 8 or longer than 72 bytes.
\<close>

lemma parse_governance_extends:
  "parse_signing_response L m = Some e \<Longrightarrow> parse_governance_response L m = Some e"
  by (auto simp: parse_signing_response_def parse_governance_response_def bind_eq_Some_conv Let_def
      split: signing_message.splits if_splits option.splits)

lemma read_bundle_bad_tail:
  assumes "bundle_entry_ok e" "length pk = 33" "length der mod 256 < 8"
  shows "read_bundle (quorum_bundle_build [e, (pk, der)]) = None"
proof -
  have one: "read_bundle_entry (bundle_entry e @ bundle_entry (pk, der)) = Some (e, bundle_entry (pk, der))"
    using bundle_codec.rd_wr [OF assms(1)] .
  have two: "read_bundle_entry (bundle_entry (pk, der)) = None"
    using assms(2,3) by (simp add: bundle_entry_def read_bundle_entry_def read_le_def read_bytes_def)
  show ?thesis by (simp add: read_bundle_def quorum_bundle_build_def numeral_2_eq_2 one two)
qed

definition signed_reply :: "xrpl_lib \<Rightarrow> string \<Rightarrow> bytes \<Rightarrow> bytes \<Rightarrow> string signing_message" where
  "signed_reply L signer pk sig = Response ''mrenclave-gov-1'' signer (Some (hex_enc L sig)) (Some (hex_enc L pk)) None"

lemma parse_signed_reply:
  assumes "lib_ok L" "length pk = 33" "sig \<noteq> []"
  shows "parse_governance_response L (signed_reply L a pk sig) = Some (pk, sig)"
    "parse_signing_response L (signed_reply L a pk sig) = (if 8 \<le> length sig \<and> length sig \<le> 72 then Some (pk, sig) else None)"
  using assms by (auto simp: signed_reply_def parse_governance_response_def parse_signing_response_def)

text \<open>
  One reply with an oversized signature spoils the bundle of an allowlist or policy
  ceremony: the collector of those ceremonies checks only that the signature is not empty, the
  length byte of a 256-byte signature wraps to 0, and the wire format no longer reads back, while
  two signers are reported. The membership collector drops the same reply.
\<close>

theorem oversized_signature_spoils_bundle:
  assumes "lib_ok L" "bundle_entry_ok (pk, sig)" "length pk' = 33" "pk' \<noteq> pk" "length der = 256" "t < deadline" "t' < deadline"
  shows "(\<exists>b. governance_collect L True deadline [(t, signed_reply L a pk sig), (t', signed_reply L a' pk' der)] = Ok (b, 2)
      \<and> read_bundle b = None)
    \<and> membership_collect L True deadline [(t, signed_reply L a pk sig), (t', signed_reply L a' pk' der)]
      = Ok (quorum_bundle_build [(pk, sig)])"
proof -
  have s: "length pk = 33" "sig \<noteq> []" "8 \<le> length sig" "length sig \<le> 72" "der \<noteq> []"
    using assms(2,5) by (auto simp: bundle_entry_ok_def)
  note p = parse_signed_reply [OF assms(1) s(1,2), of a] parse_signed_reply [OF assms(1,3) s(5), of a']
  have "read_bundle (quorum_bundle_build [(pk, sig), (pk', der)]) = None"
    using assms(2,3,5) by (intro read_bundle_bad_tail) simp_all
  then show ?thesis
    using p s(3,4) assms(4-7) by (simp add: governance_collect_def membership_collect_def push_entry_def)
qed

theorem oversized_signature_spoils_bundle_witness:
  "\<exists>b. governance_collect sample_lib True 30
      [(1, signed_reply sample_lib ''r1'' (replicate 33 2) (replicate 8 1)),
       (2, signed_reply sample_lib ''r2'' (replicate 33 3) (replicate 256 1))] = Ok (b, 2) \<and> read_bundle b = None"
proof -
  have "replicate 33 (3 :: byte) ! 0 \<noteq> replicate 33 2 ! 0" by simp
  then have "replicate 33 (3 :: byte) \<noteq> replicate 33 2" by metis
  then show ?thesis
    using oversized_signature_spoils_bundle [of sample_lib "replicate 33 2" "replicate 8 1" "replicate 33 3" "replicate 256 1" 1 30 2]
    by (simp add: bundle_entry_ok_def)
qed

section \<open>Admitting a measurement\<close>

text \<open>
  An admission without two independent rebuilds, an operation that is neither add nor remove,
  or a missing or malformed descriptor fails, and the cluster is not touched: the outcome and the
  state it leaves are the same whatever the apply broadcast would do.
\<close>

theorem governance_refused_untouched:
  assumes "(op \<noteq> OP_ADD \<and> op \<noteq> OP_REMOVE) \<or> sigs = [] \<or> length sigs mod 64 \<noteq> 0
    \<or> (op = OP_ADD \<and> (case status s of (Inl e, s') \<Rightarrow> True
          | (Inr head, s') \<Rightarrow> (case collect_repro mre s' of (Inl e, s'') \<Rightarrow> True | (Inr (b, n), s'') \<Rightarrow> n < REPRO_MIN)))"
  shows "\<exists>e s'. \<forall>apply_govern. run_mrenclave_governance op mre escrow sigs status collect_repro collect_governance apply_govern s
    = (Err e, s')"
proof (cases "(op \<noteq> OP_ADD \<and> op \<noteq> OP_REMOVE) \<or> sigs = [] \<or> length sigs mod 64 \<noteq> 0")
  case True
  then show ?thesis by (cases "op \<noteq> OP_ADD \<and> op \<noteq> OP_REMOVE") (auto simp: run_mrenclave_governance_def)
next
  case False
  then show ?thesis using assms
    by (auto simp: run_mrenclave_governance_def Let_def split: prod.splits sum.splits)
qed

theorem governance_refused_untouched_witness:
  "\<exists>e s'. \<forall>apply_govern. run_mrenclave_governance OP_ADD [1] [2] (replicate 64 0) (\<lambda>s. (Ok (4, [9]), s))
      (\<lambda>_ s. (Ok ([], 1), s)) (\<lambda>_ s. (Ok [], s)) apply_govern (0 :: nat)
    = ((Err e, s') :: (governance_error + string governance_outcome) \<times> nat)"
  by (rule governance_refused_untouched) (simp add: REPRO_MIN_def)

lemma governance_accepted:
  assumes "run_mrenclave_governance op mre escrow sigs status collect_repro collect_governance applier s = (Ok oc, s')"
  shows "gv_op oc = op \<and> gv_mrenclave oc = mre \<and> (op = OP_ADD \<longrightarrow> REPRO_MIN \<le> gv_repro_signers oc)
    \<and> (\<exists>epoch prev s1. status s = (Ok (epoch, prev), s1) \<and> gv_allowlist_epoch oc = u64_add epoch 1)"
  using assms
  by (auto simp: run_mrenclave_governance_def govern_with_proof_def Let_def OP_ADD_def OP_REMOVE_def
      split: prod.splits sum.splits if_splits)

section \<open>The status report\<close>

lemma add_to_group_digests:
  "map ug_digest_hex (add_to_group n gs) =
     (if us_digest_hex n \<in> ug_digest_hex ` set gs then map ug_digest_hex gs else map ug_digest_hex gs @ [us_digest_hex n])"
  by (induction n gs rule: add_to_group.induct) auto

lemma fold_add_to_group:
  assumes "distinct (map ug_digest_hex gs)"
  shows "distinct (map ug_digest_hex (fold add_to_group ns gs))
    \<and> ug_digest_hex ` set (fold add_to_group ns gs) = ug_digest_hex ` set gs \<union> us_digest_hex ` set ns"
  using assms
proof (induction ns arbitrary: gs)
  case (Cons n ns)
  have "distinct (map ug_digest_hex (add_to_group n gs))" using Cons.prems by (simp add: add_to_group_digests)
  moreover have "ug_digest_hex ` set (add_to_group n gs) = insert (us_digest_hex n) (ug_digest_hex ` set gs)"
    using arg_cong [OF add_to_group_digests [of n gs], of set] by (auto split: if_splits)
  ultimately show ?case using Cons.IH [of "add_to_group n gs"] by auto
qed simp

lemma length_groups: "length (fold add_to_group ns []) = card (us_digest_hex ` set ns)"
  using fold_add_to_group [of "[]" ns]
  by (metis Un_empty_left distinct.simps(1) distinct_card empty_set image_empty length_map list.set_map list.map(1))

lemma summarise_in_sync:
  "cu_in_sync (summarise_unl_agreement rows expected) \<longleftrightarrow>
     0 < expected \<and> length rows = expected \<and> (\<exists>d. \<forall>r\<in>set rows. us_error r = None \<and> us_digest_hex r = d)"
proof -
  have u: "length (filter (\<lambda>n. us_error n \<noteq> None) (sort_key us_node rows)) = 0 \<longleftrightarrow> (\<forall>r\<in>set rows. us_error r = None)"
    by (simp add: filter_empty_conv)
  have g: "length (fold add_to_group (filter (\<lambda>n. us_error n = None) (sort_key us_node rows)) []) = 1
      \<longleftrightarrow> (\<exists>d. us_digest_hex ` set rows = {d})" if "\<forall>r\<in>set rows. us_error r = None"
    using that by (simp add: length_groups card_1_singleton_iff)
  show ?thesis unfolding summarise_unl_agreement_def Let_def using u g by (cases rows) auto
qed

lemma push_status_distinct: "distinct (map us_node rows) \<Longrightarrow> distinct (map us_node (push_status m rows))"
  by (auto simp: push_status_def split: signing_message.splits)

definition reported :: "nat \<Rightarrow> (nat \<times> 'e signing_message) list \<Rightarrow> 'e node_unl_status \<Rightarrow> bool" where
  "reported deadline arrivals r \<longleftrightarrow> (\<exists>t rid. (t, UnlStatusResponse rid (us_node r) (us_unl_epoch r) (us_digest_hex r)
     (us_pinned_ledger_seq r) (us_live_validators r) (us_error r)) \<in> set arrivals \<and> t < deadline)"

lemma push_status_reported:
  "r \<in> set (push_status m rows) \<Longrightarrow> t < deadline \<Longrightarrow> r \<in> set rows \<or> reported deadline ((t, m) # ms) r"
  unfolding push_status_def reported_def
  by (fastforce split: signing_message.splits if_splits)

lemma reported_Cons: "reported deadline ms r \<Longrightarrow> reported deadline (x # ms) r"
  unfolding reported_def by (meson list.set_intros(2))

lemma status_loop_spec:
  assumes "distinct (map us_node rows)"
  shows "distinct (map us_node (status_loop deadline arrivals rows))
    \<and> (\<forall>r\<in>set (status_loop deadline arrivals rows). r \<in> set rows \<or> reported deadline arrivals r)"
  using assms
proof (induction deadline arrivals rows rule: status_loop.induct)
  case (2 deadline t m ms rows)
  show ?case
  proof (cases "deadline \<le> t")
    case True
    then show ?thesis using "2.prems" by simp
  next
    case False
    then have "t < deadline" and e: "status_loop deadline ((t, m) # ms) rows = status_loop deadline ms (push_status m rows)"
      by simp_all
    with 2 False push_status_distinct [of rows m] have ih:
      "distinct (map us_node (status_loop deadline ms (push_status m rows)))"
      "\<forall>r\<in>set (status_loop deadline ms (push_status m rows)). r \<in> set (push_status m rows) \<or> reported deadline ms r"
      by blast+
    show ?thesis unfolding e using ih push_status_reported [OF _ \<open>t < deadline\<close>] reported_Cons by blast
  qed
qed simp

text \<open>
  The report calls the validator-list records in sync only if as many differently named nodes
  as the cluster has answered in time, each of them read its record, and all of them hold the same
  digest. A silent, unreadable or repeating node cannot be mistaken for agreement.
\<close>

theorem unl_in_sync_needs_every_node:
  assumes "unl_status_collect True expected deadline arrivals = Ok c" "cu_in_sync c"
  shows "\<exists>nodes d. distinct nodes \<and> length nodes = expected \<and> 0 < expected
    \<and> (\<forall>n\<in>set nodes. \<exists>t rid e s v. (t, UnlStatusResponse rid n e d s v None) \<in> set arrivals \<and> t < deadline)"
proof -
  let ?rows = "status_loop deadline arrivals []"
  have "cu_in_sync (summarise_unl_agreement ?rows expected)" using assms by (auto simp: unl_status_collect_def)
  then obtain d where d: "0 < expected" "length ?rows = expected" "\<forall>r\<in>set ?rows. us_error r = None \<and> us_digest_hex r = d"
    unfolding summarise_in_sync by blast
  have s: "distinct (map us_node ?rows)" "\<forall>r\<in>set ?rows. reported deadline arrivals r"
    using status_loop_spec [of "[]" deadline arrivals] by simp_all
  have "\<forall>n\<in>set (map us_node ?rows). \<exists>t rid e s v. (t, UnlStatusResponse rid n e d s v None) \<in> set arrivals \<and> t < deadline"
  proof
    fix n assume "n \<in> set (map us_node ?rows)"
    then obtain r where "r \<in> set ?rows" "n = us_node r" by auto
    then show "\<exists>t rid e s v. (t, UnlStatusResponse rid n e d s v None) \<in> set arrivals \<and> t < deadline"
      using s(2) d(3) unfolding reported_def by metis
  qed
  then show ?thesis using s(1) d(1,2) by (intro exI [of _ "map us_node ?rows"] exI [of _ d]) simp
qed

definition sample_status :: "string \<Rightarrow> string signing_message" where
  "sample_status n = UnlStatusResponse ''unl-status-1'' n 3 ''d'' 100 35 None"

theorem unl_in_sync_needs_every_node_witness:
  "\<exists>nodes d. distinct nodes \<and> length nodes = 2
    \<and> (\<forall>n\<in>set nodes. \<exists>t rid e s v. (t, UnlStatusResponse rid n e d s v None)
        \<in> set [(1 :: nat, sample_status ''a''), (2, sample_status ''a''), (3, sample_status ''b'')] \<and> t < 10)"
proof -
  let ?a = "[(1 :: nat, sample_status ''a''), (2, sample_status ''a''), (3, sample_status ''b'')]"
  have "cu_in_sync (summarise_unl_agreement (status_loop 10 ?a []) 2)"
    unfolding summarise_in_sync by (simp add: sample_status_def push_status_def)
  then show ?thesis using unl_in_sync_needs_every_node [of 2 10 ?a] unfolding unl_status_collect_def by simp
qed

lemma policy_ceremony_applied_everywhere:
  assumes "run_unl_policy_ceremony L status arrivals deadline esc pinned num den cosign_quorum sigs ap send = Ok (epoch, seq, applied, expected)"
  shows "quorum_floor_ok num den \<and> expected = expected_nodes ap \<and> expected \<le> applied \<and> seq = pinned"
  using assms
  by (auto simp: run_unl_policy_ceremony_def apply_unl_policy_def apply_shortfall_def result_bind_Ok_iff Let_def
      map_sum_def split: if_splits prod.splits sum.splits option.splits)

end
