(* ===== verification/SigningPolicy.thy ===== *)
theory SigningPolicy
  imports Governance_Props RateLimit
begin

text \<open>
  The co-signer side of the signing topic (\<^verbatim>\<open>orchestrator/src/p2p.rs\<close>): the policy a transaction must
  meet before the own enclave is asked to sign it, and the gates every request passes first (peer
  allowlist, per-peer rate, replay guard). The transaction codec, the recovery of a public key and
  the network are fields of an environment; the enclave is a function of its own state behind the
  loopback HTTP call.
\<close>

type_synonym tx_obj = "(string \<times> json) list"

definition tx_get :: "tx_obj \<Rightarrow> string \<Rightarrow> json option" where
  "tx_get tx k = map_of tx k"

section \<open>The policy\<close>

datatype policy_error =
    EscrowNotConfigured
  | TxNotObject
  | MissingTransactionType
  | DisallowedType string
  | MissingAccount
  | AccountNotEscrow string string
  | SigningPubKeyNotEmpty string
  | MissingSigningPubKey
  | SignerAccountHex
  | SignerAccountLength nat
  | LocalAddress signer_error
  | SignerNotLocal
  | HashFailed string
  | MissingDestination
  | EmptyDestination
  | DestinationIsEscrow
  | DestinationNotClassic string
  | MissingAmount
  | DisallowedField string
  | FlagsNotInteger
  | FlagsNonZero nat
  | ListIdNotInteger
  | ListIdNonZero nat
  | MissingSequence
  | MissingFee
  | FeeNotNumeric string
  | FeeTooLow nat
  | MissingEntries
  | EntriesLength nat
  | EntryNotObject nat
  | EntryWrapper nat
  | EntryInnerNotObject nat
  | EntryDisallowedField nat string
  | EntryMissingField nat string
  | EntryAccountNotString nat
  | EntryAccountInvalid nat signer_error
  | EntryDuplicate nat string
  | EntryWeightNotInteger nat
  | EntryWeightNotOne nat nat
  | MissingQuorum
  | QuorumRange nat nat

definition ensure :: "bool \<Rightarrow> 'e \<Rightarrow> 'e + unit" where
  "ensure b e = (if b then Ok () else Err e)"

lemma ensure_Ok_iff [simp]: "ensure b e = Ok u \<longleftrightarrow> b"
  by (simp add: ensure_def)

definition validate_payment_specific :: "tx_obj \<Rightarrow> string \<Rightarrow> policy_error + unit" where
  "validate_payment_specific tx escrow =
     result_bind (require MissingDestination (Option.bind (tx_get tx ''Destination'') json_as_str)) (\<lambda>destination.
     result_bind (ensure (destination \<noteq> []) EmptyDestination) (\<lambda>_.
     result_bind (ensure (destination \<noteq> escrow) DestinationIsEscrow) (\<lambda>_.
     result_bind (ensure (hd destination = CHR ''r'') (DestinationNotClassic destination)) (\<lambda>_.
     ensure (tx_get tx ''Amount'' \<noteq> None) MissingAmount))))"

definition ALLOWED_TOP_LEVEL :: "string list" where
  "ALLOWED_TOP_LEVEL = [''Account'', ''TransactionType'', ''Sequence'', ''Fee'', ''SigningPubKey'', ''SignerQuorum'',
     ''SignerEntries'', ''Flags'', ''SignerListID'', ''LastLedgerSequence'', ''NetworkID'']"

definition INNER_KEYS :: "string list" where "INNER_KEYS = [''Account'', ''SignerWeight'']"

definition MULTISIG_FEE_MIN_DROPS :: nat where "MULTISIG_FEE_MIN_DROPS = 12000"

text \<open>The first key that is not in a list of allowed ones.\<close>

definition foreign_key :: "string list \<Rightarrow> tx_obj \<Rightarrow> string option" where
  "foreign_key allowed tx = find (\<lambda>k. k \<notin> set allowed) (map fst tx)"

definition zero_if_present :: "'e \<Rightarrow> (nat \<Rightarrow> 'e) \<Rightarrow> json option \<Rightarrow> 'e + unit" where
  "zero_if_present not_int non_zero v =
     (case v of
        None \<Rightarrow> Ok ()
      | Some j \<Rightarrow> result_bind (require not_int (json_as_u64 j)) (\<lambda>n. ensure (n = 0) (non_zero n)))"

definition check_entry :: "xrpl_lib \<Rightarrow> nat \<Rightarrow> string set \<Rightarrow> json \<Rightarrow> policy_error + string" where
  "check_entry L i seen entry_outer =
     result_bind (require (EntryNotObject i) (json_as_object entry_outer)) (\<lambda>outer.
     result_bind (ensure (map fst outer = [''SignerEntry'']) (EntryWrapper i)) (\<lambda>_.
     result_bind (require (EntryInnerNotObject i) (json_as_object (json_index entry_outer ''SignerEntry''))) (\<lambda>entry.
     result_bind (case foreign_key INNER_KEYS entry of Some k \<Rightarrow> Err (EntryDisallowedField i k) | None \<Rightarrow> Ok ()) (\<lambda>_.
     result_bind (case find (\<lambda>k. k \<notin> fst ` set entry) INNER_KEYS of Some k \<Rightarrow> Err (EntryMissingField i k) | None \<Rightarrow> Ok ()) (\<lambda>_.
     result_bind (require (EntryAccountNotString i) (Option.bind (tx_get entry ''Account'') json_as_str)) (\<lambda>acct.
     result_bind (map_sum (EntryAccountInvalid i) id (decode_xrpl_address L acct)) (\<lambda>_.
     result_bind (ensure (acct \<notin> seen) (EntryDuplicate i acct)) (\<lambda>_.
     result_bind (require (EntryWeightNotInteger i) (Option.bind (tx_get entry ''SignerWeight'') json_as_u64)) (\<lambda>weight.
     result_bind (ensure (weight = 1) (EntryWeightNotOne i weight)) (\<lambda>_. Ok acct))))))))))"

fun check_entries :: "xrpl_lib \<Rightarrow> nat \<Rightarrow> json list \<Rightarrow> string set \<Rightarrow> policy_error + unit" where
  "check_entries L i [] seen = Ok ()"
| "check_entries L i (e # es) seen =
     result_bind (check_entry L i seen e) (\<lambda>acct. check_entries L (Suc i) es (insert acct seen))"

definition validate_signerlist_set_specific :: "xrpl_lib \<Rightarrow> tx_obj \<Rightarrow> policy_error + unit" where
  "validate_signerlist_set_specific L tx =
     result_bind (case foreign_key ALLOWED_TOP_LEVEL tx of Some k \<Rightarrow> Err (DisallowedField k) | None \<Rightarrow> Ok ()) (\<lambda>_.
     result_bind (zero_if_present FlagsNotInteger FlagsNonZero (tx_get tx ''Flags'')) (\<lambda>_.
     result_bind (zero_if_present ListIdNotInteger ListIdNonZero (tx_get tx ''SignerListID'')) (\<lambda>_.
     result_bind (require MissingSequence (Option.bind (tx_get tx ''Sequence'') json_as_u64)) (\<lambda>_.
     result_bind (require MissingFee (Option.bind (tx_get tx ''Fee'') json_as_str)) (\<lambda>fee_str.
     result_bind (require (FeeNotNumeric fee_str) (parse_u64 fee_str)) (\<lambda>fee.
     result_bind (ensure (MULTISIG_FEE_MIN_DROPS \<le> fee) (FeeTooLow fee)) (\<lambda>_.
     result_bind (require MissingEntries (Option.bind (tx_get tx ''SignerEntries'') json_as_array)) (\<lambda>entries.
     result_bind (ensure (3 \<le> length entries \<and> length entries \<le> 8) (EntriesLength (length entries))) (\<lambda>_.
     result_bind (check_entries L 0 entries {}) (\<lambda>_.
     result_bind (require MissingQuorum (Option.bind (tx_get tx ''SignerQuorum'') json_as_u64)) (\<lambda>quorum.
     ensure (2 \<le> quorum \<and> quorum \<le> length entries) (QuorumRange quorum (length entries)))))))))))))"

text \<open>\<open>multi_signing_hash\<close> and \<open>serialize_json_object\<close> of the transaction codec.\<close>

record tx_codec =
  multi_signing_hash :: "tx_obj \<Rightarrow> bytes \<Rightarrow> string + bytes"
  serialize_json_object :: "tx_obj \<Rightarrow> string + bytes"

definition validate_signing_policy ::
  "xrpl_lib \<Rightarrow> tx_codec \<Rightarrow> local_signer \<Rightarrow> string option \<Rightarrow> json \<Rightarrow> string \<Rightarrow> policy_error + bytes" where
  "validate_signing_policy L C signer escrow_xrpl_address unsigned_tx signer_account_id_hex =
     result_bind (require EscrowNotConfigured escrow_xrpl_address) (\<lambda>escrow.
     result_bind (require TxNotObject (json_as_object unsigned_tx)) (\<lambda>tx.
     result_bind (require MissingTransactionType (Option.bind (tx_get tx ''TransactionType'') json_as_str)) (\<lambda>tx_type.
     result_bind (if tx_type = ''Payment'' then validate_payment_specific tx escrow
                  else if tx_type = ''SignerListSet'' then validate_signerlist_set_specific L tx
                  else Err (DisallowedType tx_type)) (\<lambda>_.
     result_bind (require MissingAccount (Option.bind (tx_get tx ''Account'') json_as_str)) (\<lambda>account.
     result_bind (ensure (account = escrow) (AccountNotEscrow account escrow)) (\<lambda>_.
     result_bind (case Option.bind (tx_get tx ''SigningPubKey'') json_as_str of
                    None \<Rightarrow> Err MissingSigningPubKey
                  | Some k \<Rightarrow> ensure (k = []) (SigningPubKeyNotEmpty k)) (\<lambda>_.
     result_bind (require SignerAccountHex (hex_dec L (strip_tokens [''0x''] signer_account_id_hex))) (\<lambda>acct.
     result_bind (ensure (length acct = 20) (SignerAccountLength (length acct))) (\<lambda>_.
     result_bind (map_sum LocalAddress id (decode_xrpl_address L (ls_xrpl_address signer))) (\<lambda>own_acct.
     result_bind (ensure (acct = own_acct) SignerNotLocal) (\<lambda>_.
     map_sum HashFailed id (multi_signing_hash C tx acct))))))))))))"

section \<open>The gates\<close>

definition SIGNING_REPLAY_TTL :: nat where "SIGNING_REPLAY_TTL = 10 * 60"
definition SIGNING_RATE_WINDOW :: nat where "SIGNING_RATE_WINDOW = 60"
definition SIGNING_RATE_MAX_PER_WINDOW :: nat where "SIGNING_RATE_MAX_PER_WINDOW = 30"
definition DKG_STEP_REPLAY_TTL :: nat where "DKG_STEP_REPLAY_TTL = 30 * 60"
definition DKG_STEP_RATE_WINDOW :: nat where "DKG_STEP_RATE_WINDOW = 60"
definition DKG_STEP_RATE_MAX_PER_WINDOW :: nat where "DKG_STEP_RATE_MAX_PER_WINDOW = 60"
definition SHARE_V2_REPLAY_TTL :: nat where "SHARE_V2_REPLAY_TTL = 30 * 60"
definition SHARE_V2_RATE_WINDOW :: nat where "SHARE_V2_RATE_WINDOW = 60"
definition SHARE_V2_RATE_MAX_PER_WINDOW :: nat where "SHARE_V2_RATE_MAX_PER_WINDOW = 60"

record node_cosigner_config =
  escrow_r :: string
  xrpl_endpoint :: string

text \<open>The channels replies are routed to; \<open>waiting\<close> holds the request ids each of them waits for.\<close>

datatype reply_channel =
    SigningChannel | DelegationChannel | MembershipChannel | GovernanceChannel | ApplyChannel
  | SpvApplyChannel | UnlPolicyChannel | UnlStatusChannel | SpvBaselineChannel

record p2p_node =
  local_signer_opt :: "local_signer option"
  cosigner_config :: "node_cosigner_config option"
  escrow_xrpl_address :: "string option"
  allowed_signing_peers :: "string set option"
  recent_signing_requests :: "string \<rightharpoonup> nat"
  signing_request_rate :: "string \<rightharpoonup> nat list"
  recent_dkg_step_keys :: "string \<rightharpoonup> nat"
  dkg_step_rate :: "string \<rightharpoonup> nat list"
  recent_share_v2_keys :: "string \<rightharpoonup> nat"
  share_v2_rate :: "string \<rightharpoonup> nat list"
  waiting :: "reply_channel \<Rightarrow> string set"

definition set_local_signer :: "local_signer \<Rightarrow> p2p_node \<Rightarrow> p2p_node" where
  "set_local_signer signer n =
     n\<lparr>local_signer_opt := Some (signer\<lparr>session_key := canonical_session_key (session_key signer)\<rparr>)\<rparr>"

definition set_escrow_address :: "string \<Rightarrow> p2p_node \<Rightarrow> p2p_node" where
  "set_escrow_address escrow n = n\<lparr>escrow_xrpl_address := Some escrow\<rparr>"

definition set_cosigner_config :: "node_cosigner_config \<Rightarrow> p2p_node \<Rightarrow> p2p_node" where
  "set_cosigner_config cfg n = n\<lparr>cosigner_config := Some cfg\<rparr>"

definition set_allowed_signing_peers :: "string list \<Rightarrow> p2p_node \<Rightarrow> p2p_node" where
  "set_allowed_signing_peers peers n = n\<lparr>allowed_signing_peers := (if peers = [] then None else Some (set peers))\<rparr>"

text \<open>\<open>retain\<close> of the entries younger than the time to live, then the check and the insertion.\<close>

definition mark_fresh :: "nat \<Rightarrow> nat \<Rightarrow> string \<Rightarrow> (string \<rightharpoonup> nat) \<Rightarrow> bool \<times> (string \<rightharpoonup> nat)" where
  "mark_fresh ttl now key recent =
     (let kept = (\<lambda>k. case recent k of Some seen \<Rightarrow> if now - seen < ttl then Some seen else None | None \<Rightarrow> None)
      in if kept key \<noteq> None then (False, kept) else (True, kept(key \<mapsto> now)))"

definition check_rate :: "nat \<Rightarrow> nat \<Rightarrow> nat \<Rightarrow> string \<Rightarrow> (string \<rightharpoonup> nat list) \<Rightarrow> bool \<times> (string \<rightharpoonup> nat list)" where
  "check_rate window max_per_window now peer rates =
     (let q = prune window now (case rates peer of Some q \<Rightarrow> q | None \<Rightarrow> [])
      in if max_per_window \<le> length q then (False, rates(peer \<mapsto> q)) else (True, rates(peer \<mapsto> q @ [now])))"

definition mark_signing_request_fresh :: "nat \<Rightarrow> string \<Rightarrow> p2p_node \<Rightarrow> bool \<times> p2p_node" where
  "mark_signing_request_fresh now request_id n =
     (let (ok, m) = mark_fresh SIGNING_REPLAY_TTL now request_id (recent_signing_requests n)
      in (ok, n\<lparr>recent_signing_requests := m\<rparr>))"

definition check_signing_rate :: "nat \<Rightarrow> string \<Rightarrow> p2p_node \<Rightarrow> bool \<times> p2p_node" where
  "check_signing_rate now peer n =
     (let (ok, m) = check_rate SIGNING_RATE_WINDOW SIGNING_RATE_MAX_PER_WINDOW now peer (signing_request_rate n)
      in (ok, n\<lparr>signing_request_rate := m\<rparr>))"

definition mark_dkg_step_fresh :: "nat \<Rightarrow> string \<Rightarrow> p2p_node \<Rightarrow> bool \<times> p2p_node" where
  "mark_dkg_step_fresh now key n =
     (let (ok, m) = mark_fresh DKG_STEP_REPLAY_TTL now key (recent_dkg_step_keys n)
      in (ok, n\<lparr>recent_dkg_step_keys := m\<rparr>))"

definition check_dkg_step_rate :: "nat \<Rightarrow> string \<Rightarrow> p2p_node \<Rightarrow> bool \<times> p2p_node" where
  "check_dkg_step_rate now peer n =
     (let (ok, m) = check_rate DKG_STEP_RATE_WINDOW DKG_STEP_RATE_MAX_PER_WINDOW now peer (dkg_step_rate n)
      in (ok, n\<lparr>dkg_step_rate := m\<rparr>))"

definition mark_share_v2_fresh :: "nat \<Rightarrow> string \<Rightarrow> p2p_node \<Rightarrow> bool \<times> p2p_node" where
  "mark_share_v2_fresh now key n =
     (let (ok, m) = mark_fresh SHARE_V2_REPLAY_TTL now key (recent_share_v2_keys n)
      in (ok, n\<lparr>recent_share_v2_keys := m\<rparr>))"

definition check_share_v2_rate :: "nat \<Rightarrow> string \<Rightarrow> p2p_node \<Rightarrow> bool \<times> p2p_node" where
  "check_share_v2_rate now peer n =
     (let (ok, m) = check_rate SHARE_V2_RATE_WINDOW SHARE_V2_RATE_MAX_PER_WINDOW now peer (share_v2_rate n)
      in (ok, n\<lparr>share_v2_rate := m\<rparr>))"

text \<open>The three gates in the order every arm of the run loop applies them.\<close>

definition admit_request :: "nat \<Rightarrow> string \<Rightarrow> string \<Rightarrow> p2p_node \<Rightarrow> bool \<times> p2p_node" where
  "admit_request now propagation_source request_id n =
     (if (case allowed_signing_peers n of None \<Rightarrow> False | Some allow \<Rightarrow> propagation_source \<notin> allow) then (False, n)
      else let (ok, n) = check_signing_rate now propagation_source n
           in if \<not> ok then (False, n) else mark_signing_request_fresh now request_id n)"

end
