(* ===== verification/SigningHandlers.thy ===== *)
theory SigningHandlers
  imports SigningPolicy
begin

text \<open>
  The handlers of the signing topic and the arms of the run loop that call them
  (\<^verbatim>\<open>orchestrator/src/p2p.rs\<close>), with the reply a node publishes, what it sends to a waiting channel
  and the membership tuple it retains. A publish that fails is only logged and left out.
\<close>

datatype signing_error =
    PolicyRejected policy_error
  | TxNotAnObject
  | SerialiseFailed string
  | NoWithdrawalClaim
  | NoQuorumBundle
  | TypeNotRouted string
  | EnclaveNoAnswer string
  | EnclaveBody string
  | EnclaveRefused json
  | CosignRefused unl_error
  | RecoveryFailed
  | CosignFigures string
  | UnlRecordUnread unl_error
  | ApplyNotLoopback
  | ApplyField string
  | ApplyPrepare prepare_error
  | ApplyFailedOn apply_error
  | SpvApplyFailed string
  | PublishFailed

record withdrawal_claim =
  claim_user_id :: string
  claim_amount_fp8 :: string

text \<open>
  The world of a handler: libraries, the enclave behind the loopback client, the own XRPL
  endpoint, the recovery of a public key from \<open>r || s\<close> (giving the key and the DER form), the
  loopback test on a URL, the clock of the host in milliseconds.
\<close>

record 's signing_env =
  en_lib :: xrpl_lib
  en_codec :: tx_codec
  en_post :: "'s http_post"
  en_get :: "string \<Rightarrow> 's \<Rightarrow> http_reply \<times> 's"
  en_post_text :: "string \<Rightarrow> json \<Rightarrow> 's \<Rightarrow> (string + string) \<times> 's"
  en_from_str :: "string \<Rightarrow> json option"
  en_server_info :: "string \<Rightarrow> http_reply"
  en_recover :: "bytes \<Rightarrow> nat \<Rightarrow> bytes \<Rightarrow> (bytes \<times> bytes) option"
  en_loopback :: "string \<Rightarrow> bool"
  en_host_ms :: nat

type_synonym reply_msg = "signing_error signing_message"

definition ascii_upper :: "char \<Rightarrow> char" where
  "ascii_upper c = (if CHR ''a'' \<le> c \<and> c \<le> CHR ''z'' then char_of (of_char c - 32 :: nat) else c)"

definition sign_error :: "local_signer \<Rightarrow> string \<Rightarrow> signing_error \<Rightarrow> reply_msg" where
  "sign_error l request_id e = Response request_id (ls_xrpl_address l) None None (Some e)"

text \<open>
  The call of a signing route and the DER form of what it returns. A missing or unreadable half of
  the signature counts as no bytes.
\<close>

definition signature_half :: "xrpl_lib \<Rightarrow> json \<Rightarrow> string \<Rightarrow> bytes" where
  "signature_half L body k =
     (case hex_dec L (case json_as_str (json_index (json_index body ''signature'') k) of Some h \<Rightarrow> h | None \<Rightarrow> []) of
        Some b \<Rightarrow> b | None \<Rightarrow> [])"

definition enclave_sign :: "'s signing_env \<Rightarrow> string \<Rightarrow> json \<Rightarrow> 's \<Rightarrow> (signing_error + bytes) \<times> 's" where
  "enclave_sign E url body s =
     (case en_post E url body s of
        (NoAnswer e, s) \<Rightarrow> (Err (EnclaveNoAnswer e), s)
      | (BadBody ok e, s) \<Rightarrow> (Err (EnclaveBody e), s)
      | (Body ok b, s) \<Rightarrow>
          if \<not> status_is ''success'' b then (Err (EnclaveRefused b), s)
          else (Ok (der_encode_signature (signature_half (en_lib E) b ''r'') (signature_half (en_lib E) b ''s'')), s))"

definition signed_response :: "'s signing_env \<Rightarrow> local_signer \<Rightarrow> string \<Rightarrow> string \<Rightarrow> (signing_error + bytes) \<times> 's \<Rightarrow> reply_msg \<times> 's" where
  "signed_response E l request_id pubkey r =
     (case r of
        (Inl e, s) \<Rightarrow> (sign_error l request_id e, s)
      | (Inr der, s) \<Rightarrow>
          (Response request_id (ls_xrpl_address l) (Some (hex_enc_upper (en_lib E) der)) (Some pubkey) None, s))"

section \<open>Transactions\<close>

definition handle_signing_request ::
  "'s signing_env \<Rightarrow> local_signer \<Rightarrow> string option \<Rightarrow> string \<Rightarrow> json \<Rightarrow> string \<Rightarrow> string option \<Rightarrow> withdrawal_claim option
    \<Rightarrow> 's \<Rightarrow> reply_msg \<times> 's" where
  "handle_signing_request E l escrow request_id unsigned_tx signer_account_id_hex quorum_bundle claim s =
     (case validate_signing_policy (en_lib E) (en_codec E) l escrow unsigned_tx signer_account_id_hex of
        Inl e \<Rightarrow> (sign_error l request_id (PolicyRejected e), s)
      | Inr _ \<Rightarrow>
          (case json_as_object unsigned_tx of
             None \<Rightarrow> (sign_error l request_id TxNotAnObject, s)
           | Some tx \<Rightarrow>
               (case serialize_json_object (en_codec E) tx of
                  Inl e \<Rightarrow> (sign_error l request_id (SerialiseFailed e), s)
                | Inr blob \<Rightarrow>
                    (let tx_type = (case Option.bind (tx_get tx ''TransactionType'') json_as_str of Some t \<Rightarrow> t | None \<Rightarrow> []);
                         tx_blob = hex_enc (en_lib E) blob;
                         pubkey = map ascii_upper (compressed_pubkey l)
                     in if tx_type = ''Payment'' then
                          (case claim of
                             None \<Rightarrow> (sign_error l request_id NoWithdrawalClaim, s)
                           | Some c \<Rightarrow>
                               signed_response E l request_id pubkey
                                 (enclave_sign E (enclave_url l @ ''/pool/sign/withdrawal-payment'')
                                   (JObj [(''from'', JStr (ls_address l)), (''session_key'', JStr (session_key_hex l)),
                                          (''user_id'', JStr (claim_user_id c)), (''amount_fp8'', JStr (claim_amount_fp8 c)),
                                          (''tx_blob'', JStr tx_blob)]) s))
                        else if tx_type = ''SignerListSet'' then
                          (case quorum_bundle of
                             None \<Rightarrow> (sign_error l request_id NoQuorumBundle, s)
                           | Some bundle \<Rightarrow>
                               signed_response E l request_id pubkey
                                 (enclave_sign E (enclave_url l @ ''/pool/sign/governance-signerlistset'')
                                   (JObj [(''from'', JStr (ls_address l)), (''session_key'', JStr (session_key_hex l)),
                                          (''tx_blob'', JStr tx_blob), (''quorum_bundle'', JStr bundle)]) s))
                        else (sign_error l request_id (TypeNotRouted tx_type), s)))))"

section \<open>Delegations, epochs and measurements\<close>

definition handle_path_a_delegation_request ::
  "'s signing_env \<Rightarrow> local_signer \<Rightarrow> string \<Rightarrow> bytes \<Rightarrow> bytes \<Rightarrow> 's \<Rightarrow> reply_msg \<times> 's" where
  "handle_path_a_delegation_request E l request_id mrenclave_new ceremony_nonce s =
     signed_response E l request_id (compressed_pubkey l)
       (enclave_sign E (enclave_url l @ ''/pool/sign/patha-delegation'')
          (JObj [(''from'', JStr (ls_address l)), (''session_key'', JStr (session_key_hex l)),
                 (''mrenclave_new'', JStr (hex_enc (en_lib E) mrenclave_new)),
                 (''ceremony_nonce'', JStr (hex_enc (en_lib E) ceremony_nonce))]) s)"

definition handle_membership_epoch_request ::
  "'s signing_env \<Rightarrow> local_signer \<Rightarrow> string \<Rightarrow> bytes \<Rightarrow> nat \<Rightarrow> bytes \<Rightarrow> signer_entry list \<Rightarrow> nat \<Rightarrow> nat \<Rightarrow> bytes \<Rightarrow> bytes
    \<Rightarrow> 's \<Rightarrow> reply_msg \<times> 's" where
  "handle_membership_epoch_request E l request_id escrow proposed_epoch prev_epoch_hash new_signers new_quorum op
       new_member_mrenclave descriptor_sigs s =
     signed_response E l request_id (compressed_pubkey l)
       (enclave_sign E (enclave_url l @ ''/admin/signerlist/sign-consent'')
          (JObj [(''from'', JStr (ls_address l)), (''session_key'', JStr (session_key_hex l)),
                 (''escrow_account_id'', JStr (hex_enc (en_lib E) escrow)),
                 (''signers'', signers_json (en_lib E) new_signers),
                 (''quorum_threshold'', JNum (int new_quorum)),
                 (''proposed_epoch'', JNum (int proposed_epoch)),
                 (''prev_epoch_hash'', JStr (hex_enc (en_lib E) prev_epoch_hash)),
                 (''op'', JNum (int op)),
                 (''new_member_mrenclave'', JStr (hex_enc (en_lib E) new_member_mrenclave)),
                 (''descriptor_sigs'', JStr (hex_enc (en_lib E) descriptor_sigs))]) s)"

definition handle_mrenclave_governance_request ::
  "'s signing_env \<Rightarrow> local_signer \<Rightarrow> string \<Rightarrow> mrenclave_sign_kind \<Rightarrow> bytes \<Rightarrow> nat \<Rightarrow> nat \<Rightarrow> bytes \<Rightarrow> 's \<Rightarrow> reply_msg \<times> 's" where
  "handle_mrenclave_governance_request E l request_id knd mrenclave op proposed_epoch prev_allowlist_hash s =
     (let (path, body) = (case knd of
          Governance \<Rightarrow> (''/admin/mrenclaves/sign-governance'',
            JObj [(''from'', JStr (ls_address l)), (''session_key'', JStr (session_key_hex l)), (''op'', JNum (int op)),
                  (''mrenclave'', JStr (hex_enc (en_lib E) mrenclave)), (''proposed_epoch'', JNum (int proposed_epoch)),
                  (''prev_allowlist_hash'', JStr (hex_enc (en_lib E) prev_allowlist_hash))])
        | Repro \<Rightarrow> (''/admin/mrenclaves/sign-repro-proof'',
            JObj [(''from'', JStr (ls_address l)), (''session_key'', JStr (session_key_hex l)),
                  (''mrenclave'', JStr (hex_enc (en_lib E) mrenclave))]))
      in signed_response E l request_id (compressed_pubkey l) (enclave_sign E (enclave_url l @ path) body s))"

section \<open>Policy and baseline co-signatures\<close>

definition decode_fixed_hex :: "xrpl_lib \<Rightarrow> nat \<Rightarrow> string \<Rightarrow> bytes option" where
  "decode_fixed_hex L n s = do { v \<leftarrow> hex_dec L (strip_tokens [''0x''] s); if length v = n then Some v else None }"

definition recover_pubkey_and_der :: "'s signing_env \<Rightarrow> string \<Rightarrow> string \<Rightarrow> nat \<Rightarrow> bytes \<Rightarrow> (bytes \<times> bytes) option" where
  "recover_pubkey_and_der E r_hex s_hex v msg_hash = do {
     r \<leftarrow> decode_fixed_hex (en_lib E) 32 r_hex;
     s \<leftarrow> decode_fixed_hex (en_lib E) 32 s_hex;
     en_recover E (r @ s) (if 27 \<le> v then v - 27 else v) msg_hash }"

definition signature_text :: "json \<Rightarrow> string \<Rightarrow> string" where
  "signature_text body k =
     (case json_as_str (json_index (json_index body ''signature'') k) of Some h \<Rightarrow> h | None \<Rightarrow> [])"

definition signature_v :: "json \<Rightarrow> nat" where
  "signature_v body =
     (case json_as_u64 (json_index (json_index body ''signature'') ''v'') of Some v \<Rightarrow> v mod 256 | None \<Rightarrow> 0)"

definition recovered_response :: "'s signing_env \<Rightarrow> local_signer \<Rightarrow> string \<Rightarrow> json \<Rightarrow> bytes \<Rightarrow> reply_msg" where
  "recovered_response E l request_id body hash =
     (case recover_pubkey_and_der E (signature_text body ''r'') (signature_text body ''s'') (signature_v body) hash of
        None \<Rightarrow> sign_error l request_id RecoveryFailed
      | Some (pk, der) \<Rightarrow>
          Response request_id (ls_xrpl_address l) (Some (hex_enc_upper (en_lib E) der)) (Some (hex_enc (en_lib E) pk)) None)"

definition handle_unl_policy_request ::
  "'s signing_env \<Rightarrow> node_cosigner_config \<Rightarrow> local_signer \<Rightarrow> string \<Rightarrow> nat \<Rightarrow> bytes \<Rightarrow> nat \<Rightarrow> nat \<Rightarrow> nat \<Rightarrow> 's \<Rightarrow> reply_msg \<times> 's" where
  "handle_unl_policy_request E cfg l request_id proposed_epoch prev_unl_hash pinned quorum_num quorum_den s =
     (case cosigner_accepts (en_server_info E (xrpl_endpoint cfg)) pinned quorum_num quorum_den of
        Inl e \<Rightarrow> (sign_error l request_id (CosignRefused e), s)
      | Inr _ \<Rightarrow>
          (case en_post E (enclave_url l @ ''/admin/unl/sign-policy'')
              (JObj [(''account_id'', JStr (ls_address l)), (''session_key'', JStr (session_key_hex l)),
                     (''proposed_epoch'', JNum (int proposed_epoch)),
                     (''prev_unl_hash'', JStr (hex_enc (en_lib E) prev_unl_hash)),
                     (''pinned_ledger_seq'', JNum (int pinned)), (''quorum_num'', JNum (int quorum_num)),
                     (''quorum_den'', JNum (int quorum_den))]) s of
             (NoAnswer e, s) \<Rightarrow> (sign_error l request_id (EnclaveNoAnswer e), s)
           | (BadBody ok e, s) \<Rightarrow> (sign_error l request_id (EnclaveBody e), s)
           | (Body ok b, s) \<Rightarrow>
               if \<not> status_is ''success'' b then (sign_error l request_id (EnclaveRefused b), s)
               else (recovered_response E l request_id b
                       (unl_policy_message_hash (en_lib E) proposed_epoch prev_unl_hash pinned quorum_num quorum_den), s)))"

definition handle_unl_status_request :: "'s signing_env \<Rightarrow> local_signer \<Rightarrow> string \<Rightarrow> 's \<Rightarrow> reply_msg \<times> 's" where
  "handle_unl_status_request E l request_id s =
     (case en_get E (enclave_root_from_v1 (enclave_url l) @ ''/v1/admin/unl/status'') s of
        (reply, s) \<Rightarrow>
          (case read_record (en_lib E) reply of
             Inr r \<Rightarrow> (UnlStatusResponse request_id (ls_xrpl_address l) (unl_epoch r) (hex_enc (en_lib E) (unl_digest r))
                        (pinned_ledger_seq r) (live_validators r) None, s)
           | Inl e \<Rightarrow> (UnlStatusResponse request_id (ls_xrpl_address l) 0 [] 0 0 (Some (UnlRecordUnread e)), s)))"

definition SPV_BASELINE_DOMAIN :: bytes where "SPV_BASELINE_DOMAIN = bytes_of ''PERP_RESERVES_SPV_BASELINE_v1''"

definition spv_baseline_message_hash ::
  "xrpl_lib \<Rightarrow> nat \<Rightarrow> nat \<Rightarrow> bytes \<Rightarrow> int \<Rightarrow> int \<Rightarrow> bytes \<Rightarrow> bytes \<Rightarrow> bytes" where
  "spv_baseline_message_hash L shard_id ledger_seq lhash custody_rlusd custody_xrp rlusd_issuer excluded_senders_hash =
     sha256 L (SPV_BASELINE_DOMAIN @ le_bytes 4 shard_id @ le_bytes 8 ledger_seq @ lhash @ le_bytes_i64 custody_rlusd
       @ le_bytes_i64 custody_xrp @ rlusd_issuer @ excluded_senders_hash)"

definition spv_hash_from_cosign_reply :: "xrpl_lib \<Rightarrow> json \<Rightarrow> string + bytes" where
  "spv_hash_from_cosign_reply L reply =
     result_bind (require ''shard_id'' (json_as_u64 (json_index reply ''shard_id''))) (\<lambda>shard_id.
     result_bind (require ''ledger_seq'' (json_as_u64 (json_index reply ''ledger_seq''))) (\<lambda>ledger_seq.
     result_bind (require ''custody_xrp'' (json_as_i64 (json_index reply ''custody_xrp''))) (\<lambda>custody_xrp.
     result_bind (require ''custody_rlusd'' (json_as_i64 (json_index reply ''custody_rlusd''))) (\<lambda>custody_rlusd.
     result_bind (require ''ledger_hash'' (Option.bind (json_as_str (json_index reply ''ledger_hash'')) (decode_fixed_hex L 32))) (\<lambda>lhash.
     result_bind (require ''issuer'' (Option.bind (json_as_str (json_index reply ''issuer'')) (decode_fixed_hex L 20))) (\<lambda>issuer.
     result_bind (require ''excluded_hash'' (Option.bind (json_as_str (json_index reply ''excluded_hash'')) (decode_fixed_hex L 32))) (\<lambda>excluded.
     Ok (spv_baseline_message_hash L (shard_id mod 2 ^ 32) ledger_seq lhash custody_rlusd custody_xrp issuer excluded))))))))"

text \<open>The text of the reply is read from its first brace on.\<close>

definition handle_spv_baseline_request ::
  "'s signing_env \<Rightarrow> local_signer \<Rightarrow> string \<Rightarrow> string \<Rightarrow> string list \<Rightarrow> 's \<Rightarrow> reply_msg \<times> 's" where
  "handle_spv_baseline_request E l request_id proof_blob_hex excluded_hex s =
     (case en_post_text E (enclave_url l @ ''/perp/reserves-spv/cosign'')
         (JObj [(''account_id'', JStr (ls_address l)), (''session_key'', JStr (session_key_hex l)),
                (''proof_blob'', JStr proof_blob_hex), (''excluded_account_ids'', JArr (map JStr excluded_hex))]) s of
        (Inl e, s) \<Rightarrow> (sign_error l request_id (EnclaveNoAnswer e), s)
      | (Inr rtext, s) \<Rightarrow>
          (let json_slice = (if CHR ''{'' \<in> set rtext then dropWhile (\<lambda>c. c \<noteq> CHR ''{'') rtext else rtext)
           in case en_from_str E json_slice of
                None \<Rightarrow> (sign_error l request_id (EnclaveBody rtext), s)
              | Some b \<Rightarrow>
                  if \<not> status_is ''success'' b then (sign_error l request_id (EnclaveRefused b), s)
                  else (case spv_hash_from_cosign_reply (en_lib E) b of
                          Inl e \<Rightarrow> (sign_error l request_id (CosignFigures e), s)
                        | Inr hash \<Rightarrow> (recovered_response E l request_id b hash, s))))"

section \<open>Applying a broadcast\<close>

definition ack :: "local_signer \<Rightarrow> string \<Rightarrow> reply_msg" where
  "ack l request_id = Response request_id (ls_xrpl_address l) None None None"

definition apply_reply :: "local_signer \<Rightarrow> string \<Rightarrow> (apply_error + unit) \<times> 's \<Rightarrow> reply_msg \<times> 's" where
  "apply_reply l request_id r =
     (case r of
        (Inl e, s) \<Rightarrow> (sign_error l request_id (ApplyFailedOn e), s)
      | (Inr _, s) \<Rightarrow> (ack l request_id, s))"

text \<open>The fields of a seal or a bootstrap, decoded in the order of the code, as a statement and a bundle.\<close>

definition rebuild_statement ::
  "xrpl_lib \<Rightarrow> string \<Rightarrow> nat \<Rightarrow> string \<Rightarrow> membership_signer_wire list \<Rightarrow> nat \<Rightarrow> string
    \<Rightarrow> signing_error + membership_epoch_statement \<times> bytes" where
  "rebuild_statement L escrow_hex epoch prev_hex signers quorum bundle_hex =
     result_bind (require (ApplyField ''escrow_hex'') (decode_20 L escrow_hex)) (\<lambda>escrow.
     result_bind (require (ApplyField ''prev_epoch_hash_hex'') (decode_32 L prev_hex)) (\<lambda>prev.
     result_bind (require (ApplyField ''signer account_id_hex'') (decode_signers L signers)) (\<lambda>entries.
     result_bind (require (ApplyField ''quorum_bundle_hex'') (hex_dec L bundle_hex)) (\<lambda>bundle.
     result_bind (map_sum ApplyPrepare id
       (prepare_statement L escrow (u64_saturating_sub epoch 1) prev entries quorum MEMBERSHIP_DESC_OP_SET zero32 [])) (\<lambda>st.
     Ok (st, bundle))))))"

definition policy_reply :: "http_reply \<times> 's \<Rightarrow> (apply_error + unit) \<times> 's" where
  "policy_reply r =
     (case r of
        (NoAnswer e, s) \<Rightarrow> (Err (HttpFailed e), s)
      | (BadBody ok e, s) \<Rightarrow> (Err (PolicyRefused JNull), s)
      | (Body ok b, s) \<Rightarrow> (if ok \<and> status_is ''success'' b then Ok () else Err (PolicyRefused b), s))"

definition admin_base :: "string \<Rightarrow> string" where
  "admin_base url = trim_end (rev (strip_tokens [rev ''/v1''] (rev (trim_end url))))"

text \<open>One definition per payload; \<open>base\<close> is the admin root of the own enclave.\<close>

definition apply_seal_here ::
  "'s signing_env \<Rightarrow> string \<Rightarrow> local_signer \<Rightarrow> string \<Rightarrow> string \<Rightarrow> nat \<Rightarrow> string \<Rightarrow> membership_signer_wire list \<Rightarrow> nat \<Rightarrow> string
    \<Rightarrow> 's \<Rightarrow> reply_msg \<times> 's" where
  "apply_seal_here E base l request_id escrow_hex proposed_epoch prev_hex new_signers new_quorum bundle_hex s =
     (case rebuild_statement (en_lib E) escrow_hex proposed_epoch prev_hex new_signers new_quorum bundle_hex of
        Inl e \<Rightarrow> (sign_error l request_id e, s)
      | Inr (st, bundle) \<Rightarrow> apply_reply l request_id (seal_on_node (en_lib E) (en_post E) base st bundle s))"

definition apply_bootstrap_here ::
  "'s signing_env \<Rightarrow> string \<Rightarrow> local_signer \<Rightarrow> string \<Rightarrow> string \<Rightarrow> nat \<Rightarrow> string \<Rightarrow> membership_signer_wire list \<Rightarrow> nat \<Rightarrow> string
    \<Rightarrow> 's \<Rightarrow> reply_msg \<times> 's" where
  "apply_bootstrap_here E base l request_id escrow_hex epoch prev_hex signers quorum bundle_hex s =
     (case rebuild_statement (en_lib E) escrow_hex epoch prev_hex signers quorum bundle_hex of
        Inl e \<Rightarrow> (sign_error l request_id e, s)
      | Inr (st, bundle) \<Rightarrow> apply_reply l request_id (bootstrap_on_node (en_lib E) (en_post E) base st bundle s))"

definition apply_govern_here ::
  "'s signing_env \<Rightarrow> string \<Rightarrow> local_signer \<Rightarrow> string \<Rightarrow> nat \<Rightarrow> string \<Rightarrow> string \<Rightarrow> nat \<Rightarrow> string \<Rightarrow> string \<Rightarrow> string \<Rightarrow> string
    \<Rightarrow> 's \<Rightarrow> reply_msg \<times> 's" where
  "apply_govern_here E base l request_id op_code mrenclave_hex escrow_hex proposed_epoch prev_hex bundle_hex repro_hex sigs_hex s =
     (let L = en_lib E
      in case result_bind (require (ApplyField ''mrenclave_hex'') (decode_32 L mrenclave_hex)) (\<lambda>mrenclave.
              result_bind (require (ApplyField ''escrow_hex'') (decode_20 L escrow_hex)) (\<lambda>escrow.
              result_bind (require (ApplyField ''prev_allowlist_hash_hex'') (decode_32 L prev_hex)) (\<lambda>prev.
              result_bind (require (ApplyField ''quorum_bundle'') (hex_dec L bundle_hex)) (\<lambda>bundle.
              result_bind (require (ApplyField ''repro_bundle'') (hex_dec L repro_hex)) (\<lambda>repro.
              result_bind (require (ApplyField ''descriptor_sigs'') (hex_dec L sigs_hex)) (\<lambda>sigs.
              Ok (\<lparr>go_op = op_code, go_mrenclave = mrenclave, go_escrow = escrow, go_proposed_epoch = proposed_epoch,
                   go_prev_allowlist_hash = prev\<rparr>, bundle, repro, sigs))))))) of
           Inl e \<Rightarrow> (sign_error l request_id e, s)
         | Inr (gop, bundle, repro, sigs) \<Rightarrow>
             apply_reply l request_id (govern_on_node L (en_post E) base gop bundle repro sigs s))"

definition apply_confirm_here ::
  "'s signing_env \<Rightarrow> string \<Rightarrow> local_signer \<Rightarrow> string \<Rightarrow> string \<Rightarrow> string \<Rightarrow> string \<Rightarrow> nat \<Rightarrow> 's \<Rightarrow> reply_msg \<times> 's" where
  "apply_confirm_here E base l request_id escrow_hex blob_hex tx_hash_hex ledger_index s =
     (let L = en_lib E
      in case result_bind (require (ApplyField ''escrow_hex'') (decode_20 L escrow_hex)) (\<lambda>escrow.
              result_bind (require (ApplyField ''tx_hash_hex'') (decode_32 L tx_hash_hex)) (\<lambda>tx_hash.
              result_bind (require (ApplyField ''blob'') (hex_dec L blob_hex)) (\<lambda>blob.
              Ok (escrow, tx_hash, blob)))) of
           Inl e \<Rightarrow> (sign_error l request_id e, s)
         | Inr (escrow, tx_hash, blob) \<Rightarrow>
             apply_reply l request_id (record_confirmation L (en_post E) base escrow blob tx_hash ledger_index s))"

definition apply_unl_policy_here ::
  "'s signing_env \<Rightarrow> string \<Rightarrow> local_signer \<Rightarrow> string \<Rightarrow> string \<Rightarrow> nat \<Rightarrow> string \<Rightarrow> nat \<Rightarrow> nat \<Rightarrow> nat \<Rightarrow> string \<Rightarrow> string
    \<Rightarrow> 's \<Rightarrow> reply_msg \<times> 's" where
  "apply_unl_policy_here E base l request_id escrow_hex proposed_epoch prev_hex pinned quorum_num quorum_den bundle_hex sigs_hex s =
     apply_reply l request_id (policy_reply (en_post E (base @ ''/v1/admin/unl/govern-policy'')
       (JObj [(''escrow_account_id'', JStr escrow_hex), (''proposed_epoch'', JNum (int proposed_epoch)),
              (''prev_unl_hash'', JStr prev_hex), (''pinned_ledger_seq'', JNum (int pinned)),
              (''quorum_num'', JNum (int quorum_num)), (''quorum_den'', JNum (int quorum_den)),
              (''quorum_bundle'', JStr bundle_hex), (''descriptor_sigs'', JStr sigs_hex)]) s))"

definition handle_membership_apply ::
  "'s signing_env \<Rightarrow> local_signer \<Rightarrow> string \<Rightarrow> membership_apply_payload \<Rightarrow> 's \<Rightarrow> reply_msg \<times> 's" where
  "handle_membership_apply E l request_id payload s =
     (let base = admin_base (enclave_url l)
      in if \<not> en_loopback E base then (sign_error l request_id ApplyNotLoopback, s)
         else case payload of
           Seal escrow_hex proposed_epoch prev_hex new_signers new_quorum bundle_hex _ _ \<Rightarrow>
             apply_seal_here E base l request_id escrow_hex proposed_epoch prev_hex new_signers new_quorum bundle_hex s
         | Bootstrap escrow_hex epoch prev_hex signers quorum bundle_hex \<Rightarrow>
             apply_bootstrap_here E base l request_id escrow_hex epoch prev_hex signers quorum bundle_hex s
         | GovernMrenclave op_code mrenclave_hex escrow_hex proposed_epoch prev_hex bundle_hex repro_hex sigs_hex \<Rightarrow>
             apply_govern_here E base l request_id op_code mrenclave_hex escrow_hex proposed_epoch prev_hex bundle_hex repro_hex sigs_hex s
         | Confirm escrow_hex blob_hex tx_hash_hex ledger_index \<Rightarrow>
             apply_confirm_here E base l request_id escrow_hex blob_hex tx_hash_hex ledger_index s
         | UnlPolicy escrow_hex proposed_epoch prev_hex pinned quorum_num quorum_den bundle_hex sigs_hex \<Rightarrow>
             apply_unl_policy_here E base l request_id escrow_hex proposed_epoch prev_hex pinned quorum_num quorum_den bundle_hex sigs_hex s)"

text \<open>\<open>PerpClient::new\<close> and \<open>reserves_spv_apply\<close>, which posts and fails on any status but a success.\<close>

definition handle_spv_baseline_apply ::
  "'s signing_env \<Rightarrow> local_signer \<Rightarrow> string \<Rightarrow> string \<Rightarrow> string \<Rightarrow> string list \<Rightarrow> string list \<Rightarrow> 's \<Rightarrow> reply_msg \<times> 's" where
  "handle_spv_baseline_apply E l request_id proof_blob_hex bundle_hex fingerprints excluded_hex s =
     (if \<not> en_loopback E (enclave_url l) then (sign_error l request_id ApplyNotLoopback, s)
      else case en_post E (trim_end (enclave_url l) @ ''/perp/reserves-spv/apply'')
          (JObj [(''proof_blob'', JStr (strip_tokens [''0x''] proof_blob_hex)), (''host_timestamp_ms'', JNum (int (en_host_ms E))),
                 (''quorum_bundle'', JStr (strip_tokens [''0x''] bundle_hex)),
                 (''source_fingerprints'', JArr (map JStr fingerprints)),
                 (''excluded_account_ids'', JArr (map JStr excluded_hex))]) s of
        (Body True b, s) \<Rightarrow> (ack l request_id, s)
      | (Body False b, s) \<Rightarrow> (sign_error l request_id (SpvApplyFailed ''HTTP status''), s)
      | (BadBody ok e, s) \<Rightarrow> (sign_error l request_id (SpvApplyFailed e), s)
      | (NoAnswer e, s) \<Rightarrow> (sign_error l request_id (SpvApplyFailed e), s))"

section \<open>Retention\<close>

record current_membership_bundle =
  mb_escrow_hex :: string
  mb_authority_epoch :: nat
  mb_confirmed_epoch :: nat
  mb_prev_epoch_hash_hex :: string
  mb_authority_signers_hex :: string
  mb_authority_signer_count :: nat
  mb_authority_quorum :: nat
  mb_attesting_signers_hex :: string
  mb_attesting_signer_count :: nat
  mb_attesting_quorum :: nat
  mb_quorum_bundle_hex :: string

definition persist_retention :: "xrpl_lib \<Rightarrow> membership_apply_payload \<Rightarrow> current_membership_bundle option" where
  "persist_retention L payload =
     (case payload of
        Seal escrow_hex proposed_epoch prev_hex new_signers new_quorum bundle_hex attesting att_quorum \<Rightarrow>
          Some \<lparr>mb_escrow_hex = escrow_hex, mb_authority_epoch = proposed_epoch, mb_confirmed_epoch = proposed_epoch,
            mb_prev_epoch_hash_hex = prev_hex, mb_authority_signers_hex = pack_membership_signers L new_signers,
            mb_authority_signer_count = length new_signers mod 2 ^ 32, mb_authority_quorum = new_quorum,
            mb_attesting_signers_hex = pack_membership_signers L attesting,
            mb_attesting_signer_count = length attesting mod 2 ^ 32, mb_attesting_quorum = att_quorum,
            mb_quorum_bundle_hex = bundle_hex\<rparr>
      | Bootstrap escrow_hex epoch prev_hex signers quorum bundle_hex \<Rightarrow>
          Some \<lparr>mb_escrow_hex = escrow_hex, mb_authority_epoch = epoch, mb_confirmed_epoch = epoch,
            mb_prev_epoch_hash_hex = prev_hex, mb_authority_signers_hex = pack_membership_signers L signers,
            mb_authority_signer_count = length signers mod 2 ^ 32, mb_authority_quorum = quorum,
            mb_attesting_signers_hex = pack_membership_signers L signers,
            mb_attesting_signer_count = length signers mod 2 ^ 32, mb_attesting_quorum = quorum,
            mb_quorum_bundle_hex = bundle_hex\<rparr>
      | _ \<Rightarrow> None)"

end
