(* ===== verification/SigningLoop.thy ===== *)
theory SigningLoop
  imports SigningHandlers
begin

text \<open>
  The arms of \<open>P2PNode::run\<close> that concern the signing topic (\<^verbatim>\<open>orchestrator/src/p2p.rs\<close>): a message from a
  peer, a request of the own orchestrator that is signed locally and broadcast, and the periodic
  cleanup. The state is the node and the enclave; an outcome says what is published, what is sent
  to a waiting collector, and which membership tuple is retained.
\<close>

record signing_outcome =
  out_publish :: "reply_msg option"
  out_forward :: "(reply_channel \<times> reply_msg) list"
  out_retain :: "current_membership_bundle option"

definition silent :: signing_outcome where
  "silent = \<lparr>out_publish = None, out_forward = [], out_retain = None\<rparr>"

definition publish_signing :: "reply_msg \<Rightarrow> signing_outcome" where
  "publish_signing m = silent\<lparr>out_publish := Some m\<rparr>"

section \<open>Replies\<close>

text \<open>A reply goes to the channel its request id names by prefix, if that channel waits for the id.\<close>

definition route_response :: "p2p_node \<Rightarrow> string \<Rightarrow> reply_channel option" where
  "route_response n rid =
     (let wait = (\<lambda>c. if rid \<in> waiting n c then Some c else None)
      in if starts_with ''pa-delegation-'' rid then wait DelegationChannel
         else if starts_with ''beta1-membership-'' rid then wait MembershipChannel
         else if starts_with ''mrenclave-gov-'' rid then wait GovernanceChannel
         else if starts_with ''beta-apply-'' rid then
           (if rid \<in> waiting n ApplyChannel then Some ApplyChannel else wait SpvApplyChannel)
         else if starts_with ''unl-policy-'' rid then wait UnlPolicyChannel
         else if starts_with ''reserves-spv-'' rid then wait SpvBaselineChannel
         else wait SigningChannel)"

definition unwait :: "reply_channel \<Rightarrow> string \<Rightarrow> p2p_node \<Rightarrow> p2p_node" where
  "unwait c rid n = n\<lparr>waiting := (waiting n)(c := waiting n c - {rid})\<rparr>"

definition wait_for :: "reply_channel \<Rightarrow> string \<Rightarrow> p2p_node \<Rightarrow> p2p_node" where
  "wait_for c rid n = n\<lparr>waiting := (waiting n)(c := insert rid (waiting n c))\<rparr>"

definition on_response :: "reply_msg \<Rightarrow> string \<Rightarrow> p2p_node \<Rightarrow> signing_outcome \<times> p2p_node" where
  "on_response m rid n =
     (case route_response n rid of
        None \<Rightarrow> (silent, n)
      | Some c \<Rightarrow> (silent\<lparr>out_forward := [(c, m)]\<rparr>, if c = SigningChannel then unwait c rid n else n))"

section \<open>Messages of peers\<close>

definition claim_of :: "string option \<Rightarrow> string option \<Rightarrow> withdrawal_claim option" where
  "claim_of user_id amount_fp8 =
     (case (user_id, amount_fp8) of
        (Some u, Some a) \<Rightarrow> Some \<lparr>claim_user_id = u, claim_amount_fp8 = a\<rparr>
      | _ \<Rightarrow> None)"

definition gated ::
  "nat \<Rightarrow> string \<Rightarrow> string \<Rightarrow> p2p_node \<Rightarrow> 's \<Rightarrow> ('s \<Rightarrow> signing_outcome \<times> 's) \<Rightarrow> signing_outcome \<times> p2p_node \<times> 's" where
  "gated now src rid n s k =
     (let (ok, n) = admit_request now src rid n
      in if \<not> ok then (silent, n, s) else let (out, s) = k s in (out, n, s))"

definition published :: "reply_msg \<times> 's \<Rightarrow> signing_outcome \<times> 's" where
  "published r = (publish_signing (fst r), snd r)"

definition is_ack :: "reply_msg \<Rightarrow> bool" where
  "is_ack m = (case m of Response _ _ _ _ e \<Rightarrow> e = None | _ \<Rightarrow> False)"

definition applied :: "xrpl_lib \<Rightarrow> bool \<Rightarrow> membership_apply_payload \<Rightarrow> reply_msg \<Rightarrow> current_membership_bundle option" where
  "applied L db payload m = (if is_ack m \<and> db then persist_retention L payload else None)"

text \<open>One definition per arm of the match on an incoming message.\<close>

definition on_signing_request ::
  "'s signing_env \<Rightarrow> nat \<Rightarrow> string \<Rightarrow> string \<Rightarrow> json \<Rightarrow> string \<Rightarrow> string \<Rightarrow> string option \<Rightarrow> string option \<Rightarrow> string option
    \<Rightarrow> p2p_node \<Rightarrow> 's \<Rightarrow> signing_outcome \<times> p2p_node \<times> 's" where
  "on_signing_request E now src rid tx acct_hex signer bundle user amount n s =
     (case local_signer_opt n of
        None \<Rightarrow> (silent, n, s)
      | Some l \<Rightarrow>
          if ls_xrpl_address l \<noteq> signer then (silent, n, s)
          else gated now src rid n s (\<lambda>s.
            published (handle_signing_request E l (escrow_xrpl_address n) rid tx acct_hex bundle (claim_of user amount) s)))"

definition on_delegation_request ::
  "'s signing_env \<Rightarrow> nat \<Rightarrow> string \<Rightarrow> string \<Rightarrow> string \<Rightarrow> string \<Rightarrow> p2p_node \<Rightarrow> 's \<Rightarrow> signing_outcome \<times> p2p_node \<times> 's" where
  "on_delegation_request E now src rid mre_hex nonce_hex n s =
     (case local_signer_opt n of
        None \<Rightarrow> (silent, n, s)
      | Some l \<Rightarrow> gated now src rid n s (\<lambda>s.
          case decode_32 (en_lib E) mre_hex of
            None \<Rightarrow> (silent, s)
          | Some mre \<Rightarrow>
              (case decode_32 (en_lib E) nonce_hex of
                 None \<Rightarrow> (silent, s)
               | Some nonce \<Rightarrow> published (handle_path_a_delegation_request E l rid mre nonce s))))"

definition on_membership_epoch_request ::
  "'s signing_env \<Rightarrow> nat \<Rightarrow> string \<Rightarrow> string \<Rightarrow> string \<Rightarrow> nat \<Rightarrow> string \<Rightarrow> membership_signer_wire list \<Rightarrow> nat \<Rightarrow> nat \<Rightarrow> string \<Rightarrow> string
    \<Rightarrow> p2p_node \<Rightarrow> 's \<Rightarrow> signing_outcome \<times> p2p_node \<times> 's" where
  "on_membership_epoch_request E now src rid escrow_hex epoch prev_hex signers quorum op member_hex sigs_hex n s =
     (case local_signer_opt n of
        None \<Rightarrow> (silent, n, s)
      | Some l \<Rightarrow> gated now src rid n s (\<lambda>s.
          case (decode_20 (en_lib E) escrow_hex, decode_32 (en_lib E) prev_hex, decode_signers (en_lib E) signers) of
            (Some escrow, Some prev, Some entries) \<Rightarrow>
              published (handle_membership_epoch_request E l rid escrow epoch prev entries quorum op
                (case decode_32 (en_lib E) member_hex of Some m \<Rightarrow> m | None \<Rightarrow> zero32)
                (case hex_dec (en_lib E) sigs_hex of Some b \<Rightarrow> b | None \<Rightarrow> []) s)
          | _ \<Rightarrow> (silent, s)))"

definition on_mrenclave_governance_request ::
  "'s signing_env \<Rightarrow> nat \<Rightarrow> string \<Rightarrow> string \<Rightarrow> mrenclave_sign_kind \<Rightarrow> string \<Rightarrow> nat \<Rightarrow> nat \<Rightarrow> string
    \<Rightarrow> p2p_node \<Rightarrow> 's \<Rightarrow> signing_outcome \<times> p2p_node \<times> 's" where
  "on_mrenclave_governance_request E now src rid knd mre_hex op epoch prev_hex n s =
     (case local_signer_opt n of
        None \<Rightarrow> (silent, n, s)
      | Some l \<Rightarrow> gated now src rid n s (\<lambda>s.
          case (decode_32 (en_lib E) mre_hex, decode_32 (en_lib E) prev_hex) of
            (Some mre, Some prev) \<Rightarrow> published (handle_mrenclave_governance_request E l rid knd mre op epoch prev s)
          | _ \<Rightarrow> (silent, s)))"

definition on_unl_policy_request ::
  "'s signing_env \<Rightarrow> nat \<Rightarrow> string \<Rightarrow> string \<Rightarrow> nat \<Rightarrow> string \<Rightarrow> nat \<Rightarrow> nat \<Rightarrow> nat
    \<Rightarrow> p2p_node \<Rightarrow> 's \<Rightarrow> signing_outcome \<times> p2p_node \<times> 's" where
  "on_unl_policy_request E now src rid epoch prev_hex pinned num den n s =
     (case (cosigner_config n, local_signer_opt n) of
        (Some cfg, Some l) \<Rightarrow> gated now src rid n s (\<lambda>s.
          case decode_32 (en_lib E) prev_hex of
            None \<Rightarrow> (silent, s)
          | Some prev \<Rightarrow> published (handle_unl_policy_request E cfg l rid epoch prev pinned num den s))
      | _ \<Rightarrow> (silent, n, s))"

definition on_unl_status_request ::
  "'s signing_env \<Rightarrow> nat \<Rightarrow> string \<Rightarrow> string \<Rightarrow> p2p_node \<Rightarrow> 's \<Rightarrow> signing_outcome \<times> p2p_node \<times> 's" where
  "on_unl_status_request E now src rid n s =
     (case local_signer_opt n of
        None \<Rightarrow> (silent, n, s)
      | Some l \<Rightarrow> gated now src rid n s (\<lambda>s. published (handle_unl_status_request E l rid s)))"

definition on_unl_status_response :: "reply_msg \<Rightarrow> string \<Rightarrow> p2p_node \<Rightarrow> signing_outcome" where
  "on_unl_status_response msg rid n =
     (if rid \<in> waiting n UnlStatusChannel then silent\<lparr>out_forward := [(UnlStatusChannel, msg)]\<rparr> else silent)"

definition on_spv_baseline_request ::
  "'s signing_env \<Rightarrow> nat \<Rightarrow> string \<Rightarrow> string \<Rightarrow> string \<Rightarrow> string list \<Rightarrow> p2p_node \<Rightarrow> 's \<Rightarrow> signing_outcome \<times> p2p_node \<times> 's" where
  "on_spv_baseline_request E now src rid blob_hex excluded n s =
     (case local_signer_opt n of
        None \<Rightarrow> (silent, n, s)
      | Some l \<Rightarrow> gated now src rid n s (\<lambda>s. published (handle_spv_baseline_request E l rid blob_hex excluded s)))"

definition on_membership_apply ::
  "'s signing_env \<Rightarrow> bool \<Rightarrow> nat \<Rightarrow> string \<Rightarrow> string \<Rightarrow> membership_apply_payload \<Rightarrow> p2p_node \<Rightarrow> 's
    \<Rightarrow> signing_outcome \<times> p2p_node \<times> 's" where
  "on_membership_apply E db now src rid payload n s =
     (case local_signer_opt n of
        None \<Rightarrow> (silent, n, s)
      | Some l \<Rightarrow> gated now src rid n s (\<lambda>s.
          let (r, s) = handle_membership_apply E l rid payload s
          in (publish_signing r\<lparr>out_retain := applied (en_lib E) db payload r\<rparr>, s)))"

definition on_spv_baseline_apply ::
  "'s signing_env \<Rightarrow> nat \<Rightarrow> string \<Rightarrow> string \<Rightarrow> string \<Rightarrow> string \<Rightarrow> string list \<Rightarrow> string list
    \<Rightarrow> p2p_node \<Rightarrow> 's \<Rightarrow> signing_outcome \<times> p2p_node \<times> 's" where
  "on_spv_baseline_apply E now src rid blob_hex bundle_hex fps excluded n s =
     (case local_signer_opt n of
        None \<Rightarrow> (silent, n, s)
      | Some l \<Rightarrow> gated now src rid n s (\<lambda>s.
          published (handle_spv_baseline_apply E l rid blob_hex bundle_hex fps excluded s)))"

definition on_signing_message ::
  "'s signing_env \<Rightarrow> bool \<Rightarrow> nat \<Rightarrow> string \<Rightarrow> reply_msg \<Rightarrow> p2p_node \<Rightarrow> 's \<Rightarrow> signing_outcome \<times> p2p_node \<times> 's" where
  "on_signing_message E db now src msg n s =
     (case msg of
        Request rid _ tx acct_hex signer bundle user amount \<Rightarrow>
          on_signing_request E now src rid tx acct_hex signer bundle user amount n s
      | Response rid _ _ _ _ \<Rightarrow> (case on_response msg rid n of (out, n) \<Rightarrow> (out, n, s))
      | PathADelegationRequest rid _ mre_hex nonce_hex _ _ \<Rightarrow> on_delegation_request E now src rid mre_hex nonce_hex n s
      | MembershipEpochRequest rid _ escrow_hex epoch prev_hex signers quorum op member_hex sigs_hex \<Rightarrow>
          on_membership_epoch_request E now src rid escrow_hex epoch prev_hex signers quorum op member_hex sigs_hex n s
      | MrenclaveGovernanceRequest rid _ knd mre_hex op epoch prev_hex \<Rightarrow>
          on_mrenclave_governance_request E now src rid knd mre_hex op epoch prev_hex n s
      | UnlPolicyRequest rid _ epoch prev_hex pinned num den \<Rightarrow>
          on_unl_policy_request E now src rid epoch prev_hex pinned num den n s
      | UnlStatusRequest rid _ \<Rightarrow> on_unl_status_request E now src rid n s
      | UnlStatusResponse rid _ _ _ _ _ _ \<Rightarrow> (on_unl_status_response msg rid n, n, s)
      | SpvBaselineRequest rid _ blob_hex excluded \<Rightarrow> on_spv_baseline_request E now src rid blob_hex excluded n s
      | MembershipApply rid _ payload \<Rightarrow> on_membership_apply E db now src rid payload n s
      | SpvBaselineApply rid _ blob_hex bundle_hex fps excluded \<Rightarrow>
          on_spv_baseline_apply E now src rid blob_hex bundle_hex fps excluded n s)"

lemmas message_arms = on_signing_message_def on_signing_request_def on_delegation_request_def on_membership_epoch_request_def
  on_mrenclave_governance_request_def on_unl_policy_request_def on_unl_status_request_def on_spv_baseline_request_def
  on_membership_apply_def on_spv_baseline_apply_def

section \<open>Requests of the own orchestrator\<close>

text \<open>
  Every arm answers for the own signer first, then broadcasts. \<open>sent\<close> says whether the publish
  succeeded; if it did not, the collector gets an error reply instead of waiting.
\<close>

datatype relay =
    SigningRelay string json string string "string option" "string option" "string option"
  | PathADelegationRelay string bytes bytes
  | MembershipEpochRelay string membership_epoch_statement
  | MrenclaveGovernanceRelay string mrenclave_sign_kind bytes nat nat bytes
  | UnlPolicyRelay string nat bytes nat nat nat
  | UnlStatusRelay string
  | SpvBaselineRelay string string "string list"
  | MembershipApplyRelay string membership_apply_payload
  | SpvBaselineApplyRelay string string string "string list" "string list"

fun relay_channel :: "relay \<Rightarrow> reply_channel" where
  "relay_channel (SigningRelay _ _ _ _ _ _ _) = SigningChannel"
| "relay_channel (PathADelegationRelay _ _ _) = DelegationChannel"
| "relay_channel (MembershipEpochRelay _ _) = MembershipChannel"
| "relay_channel (MrenclaveGovernanceRelay _ _ _ _ _ _) = GovernanceChannel"
| "relay_channel (UnlPolicyRelay _ _ _ _ _ _) = UnlPolicyChannel"
| "relay_channel (UnlStatusRelay _) = UnlStatusChannel"
| "relay_channel (SpvBaselineRelay _ _ _) = SpvBaselineChannel"
| "relay_channel (MembershipApplyRelay _ _) = ApplyChannel"
| "relay_channel (SpvBaselineApplyRelay _ _ _ _ _) = SpvApplyChannel"

fun relay_id :: "relay \<Rightarrow> string" where
  "relay_id (SigningRelay rid _ _ _ _ _ _) = rid"
| "relay_id (PathADelegationRelay rid _ _) = rid"
| "relay_id (MembershipEpochRelay rid _) = rid"
| "relay_id (MrenclaveGovernanceRelay rid _ _ _ _ _) = rid"
| "relay_id (UnlPolicyRelay rid _ _ _ _ _) = rid"
| "relay_id (UnlStatusRelay rid) = rid"
| "relay_id (SpvBaselineRelay rid _ _) = rid"
| "relay_id (MembershipApplyRelay rid _) = rid"
| "relay_id (SpvBaselineApplyRelay rid _ _ _ _) = rid"

fun relay_message :: "xrpl_lib \<Rightarrow> string \<Rightarrow> relay \<Rightarrow> reply_msg" where
  "relay_message L me (SigningRelay rid tx acct_hex signer bundle user amount) = Request rid me tx acct_hex signer bundle user amount"
| "relay_message L me (PathADelegationRelay rid mre nonce) = PathADelegationRequest rid me (hex_enc L mre) (hex_enc L nonce) [] []"
| "relay_message L me (MembershipEpochRelay rid st) =
     MembershipEpochRequest rid me (hex_enc L (st_escrow st)) (st_proposed_epoch st) (hex_enc L (st_prev_epoch_hash st))
       (map (to_wire L) (st_new_signers st)) (st_new_quorum st) (st_op st) (hex_enc L (st_new_member_mrenclave st))
       (hex_enc L (st_descriptor_sigs st))"
| "relay_message L me (MrenclaveGovernanceRelay rid knd mre op epoch prev) =
     MrenclaveGovernanceRequest rid me knd (hex_enc L mre) op epoch (hex_enc L prev)"
| "relay_message L me (UnlPolicyRelay rid epoch prev pinned num den) = UnlPolicyRequest rid me epoch (hex_enc L prev) pinned num den"
| "relay_message L me (UnlStatusRelay rid) = UnlStatusRequest rid me"
| "relay_message L me (SpvBaselineRelay rid blob excluded) = SpvBaselineRequest rid me blob excluded"
| "relay_message L me (MembershipApplyRelay rid payload) = MembershipApply rid me payload"
| "relay_message L me (SpvBaselineApplyRelay rid blob bundle fps excluded) = SpvBaselineApply rid me blob bundle fps excluded"

text \<open>What the own signer answers; a transaction addressed to another signer is not answered here.\<close>

fun relay_local :: "'s signing_env \<Rightarrow> p2p_node \<Rightarrow> local_signer \<Rightarrow> relay \<Rightarrow> 's \<Rightarrow> reply_msg option \<times> 's" where
  "relay_local E n l (SigningRelay rid tx acct_hex signer bundle user amount) s =
     (if ls_xrpl_address l = signer
      then apfst Some (handle_signing_request E l (escrow_xrpl_address n) rid tx acct_hex bundle (claim_of user amount) s)
      else (None, s))"
| "relay_local E n l (PathADelegationRelay rid mre nonce) s = apfst Some (handle_path_a_delegation_request E l rid mre nonce s)"
| "relay_local E n l (MembershipEpochRelay rid st) s =
     apfst Some (handle_membership_epoch_request E l rid (st_escrow st) (st_proposed_epoch st) (st_prev_epoch_hash st)
       (st_new_signers st) (st_new_quorum st) (st_op st) (st_new_member_mrenclave st) (st_descriptor_sigs st) s)"
| "relay_local E n l (MrenclaveGovernanceRelay rid knd mre op epoch prev) s =
     apfst Some (handle_mrenclave_governance_request E l rid knd mre op epoch prev s)"
| "relay_local E n l (UnlPolicyRelay rid epoch prev pinned num den) s =
     (case cosigner_config n of
        None \<Rightarrow> (None, s)
      | Some cfg \<Rightarrow> apfst Some (handle_unl_policy_request E cfg l rid epoch prev pinned num den s))"
| "relay_local E n l (UnlStatusRelay rid) s = apfst Some (handle_unl_status_request E l rid s)"
| "relay_local E n l (SpvBaselineRelay rid blob excluded) s = apfst Some (handle_spv_baseline_request E l rid blob excluded s)"
| "relay_local E n l (MembershipApplyRelay rid payload) s = apfst Some (handle_membership_apply E l rid payload s)"
| "relay_local E n l (SpvBaselineApplyRelay rid blob bundle fps excluded) s =
     apfst Some (handle_spv_baseline_apply E l rid blob bundle fps excluded s)"

fun relay_retain :: "xrpl_lib \<Rightarrow> bool \<Rightarrow> relay \<Rightarrow> reply_msg option \<Rightarrow> current_membership_bundle option" where
  "relay_retain L db (MembershipApplyRelay rid payload) (Some m) = applied L db payload m"
| "relay_retain L db r m = None"

fun relay_failed :: "relay \<Rightarrow> reply_msg" where
  "relay_failed (SigningRelay rid _ _ _ _ _ _) = Response [] [] None None (Some PublishFailed)"
| "relay_failed (UnlStatusRelay rid) = UnlStatusResponse rid [] 0 [] 0 0 (Some PublishFailed)"
| "relay_failed r = Response (relay_id r) [] None None (Some PublishFailed)"

definition answers_alone :: "relay \<Rightarrow> reply_msg option \<Rightarrow> bool" where
  "answers_alone r m = (m \<noteq> None \<and> relay_channel r = SigningChannel)"

definition on_relay ::
  "'s signing_env \<Rightarrow> bool \<Rightarrow> string \<Rightarrow> bool \<Rightarrow> relay \<Rightarrow> p2p_node \<Rightarrow> 's \<Rightarrow> signing_outcome \<times> p2p_node \<times> 's" where
  "on_relay E db me sent r n s =
     (let (m, s) = (case local_signer_opt n of Some l \<Rightarrow> relay_local E n l r s | None \<Rightarrow> (None, s));
          own = (case m of Some x \<Rightarrow> [(relay_channel r, x)] | None \<Rightarrow> []);
          keep = relay_retain (en_lib E) db r m
      in if answers_alone r m then (silent\<lparr>out_forward := own\<rparr>, n, s)
         else if sent
           then (\<lparr>out_publish = Some (relay_message (en_lib E) me r), out_forward = own, out_retain = keep\<rparr>,
                 wait_for (relay_channel r) (relay_id r) n, s)
           else (\<lparr>out_publish = None, out_forward = own @ [(relay_channel r, relay_failed r)], out_retain = keep\<rparr>, n, s))"

section \<open>Cleanup\<close>

text \<open>Six of the nine maps drop the ids whose collector is gone.\<close>

definition signing_cleanup :: "(reply_channel \<Rightarrow> string set) \<Rightarrow> p2p_node \<Rightarrow> p2p_node" where
  "signing_cleanup closed n =
     n\<lparr>waiting := (\<lambda>c. if c \<in> {SigningChannel, DelegationChannel, MembershipChannel, GovernanceChannel, ApplyChannel, SpvApplyChannel}
                       then waiting n c - closed c else waiting n c)\<rparr>"

end
