(* ===== verification/Signing_Gates.thy ===== *)
theory Signing_Gates
  imports Signing_Props "HOL-Library.Sublist"
begin

text \<open>
  The gates of the signing topic over a whole run: a sequence of requests at times that never go
  back. The per-peer rate is the limiter of \<^verbatim>\<open>rate_limit.rs\<close> written a second time, so its window
  carries over; the replay guard keeps a served request id for its time to live.
\<close>

type_synonym gate_call = "nat \<times> string \<times> string"

fun serve :: "gate_call list \<Rightarrow> p2p_node \<Rightarrow> bool list" where
  "serve [] n = []"
| "serve ((now, src, rid) # tr) n =
     fst (admit_request now src rid n) # serve tr (snd (admit_request now src rid n))"

lemma length_serve [simp]: "length (serve tr n) = length tr"
  by (induction tr n rule: serve.induct) simp_all

lemma serve_drop: "\<exists>n'. drop i (serve tr n) = serve (drop i tr) n'"
proof (induction tr n arbitrary: i rule: serve.induct)
  case (2 now src rid tr n)
  then show ?case by (cases i) (auto intro: exI [of _ n])
qed simp

section \<open>The replay guard\<close>

lemma admit_recent:
  assumes "recent_signing_requests n rid = Some seen" "now - seen < SIGNING_REPLAY_TTL"
  shows "recent_signing_requests (snd (admit_request now src r n)) rid = Some seen"
  using assms
  by (auto simp: admit_request_def check_signing_rate_def mark_signing_request_fresh_def mark_fresh_def case_prod_beta Let_def
      split: option.splits)

lemma admit_records:
  "fst (admit_request now src rid n) \<Longrightarrow> recent_signing_requests (snd (admit_request now src rid n)) rid = Some now"
  by (auto simp: admit_request_def check_signing_rate_def mark_signing_request_fresh_def mark_fresh_def case_prod_beta Let_def
      split: option.splits if_splits)

lemma served_again:
  assumes "recent_signing_requests n rid = Some seen" "sorted (map fst tr)" "j < length tr" "serve tr n ! j"
    "snd (snd (tr ! j)) = rid"
  shows "seen + SIGNING_REPLAY_TTL \<le> fst (tr ! j)"
  using assms
proof (induction tr n arbitrary: j rule: serve.induct)
  case (2 now src r tr n)
  show ?case
  proof (cases "now - seen < SIGNING_REPLAY_TTL")
    case True
    then have kept: "recent_signing_requests (snd (admit_request now src r n)) rid = Some seen"
      using admit_recent 2(2) by blast
    show ?thesis
    proof (cases j)
      case 0
      with 2(5,6) have "gates_open now src rid n" by (simp add: admit_request_iff)
      with 2(2) True show ?thesis by (simp add: gates_open_def)
    next
      case (Suc i)
      with 2(1) [of i] kept 2(3-6) show ?thesis by simp
    qed
  next
    case False
    then have "seen + SIGNING_REPLAY_TTL \<le> now" by (simp add: SIGNING_REPLAY_TTL_def)
    moreover have "now \<le> fst (((now, src, r) # tr) ! j)" using 2(3,4) by (cases j) auto
    ultimately show ?thesis by simp
  qed
qed simp

section \<open>The rate gate is the limiter\<close>

definition limiter_of :: "p2p_node \<Rightarrow> rate_limiter" where
  "limiter_of n = \<lparr>rl_window = SIGNING_RATE_WINDOW, rl_max_per_window = SIGNING_RATE_MAX_PER_WINDOW,
     rl_inner = signing_request_rate n\<rparr>"

lemma check_signing_rate_limiter:
  "check_signing_rate now peer n =
     (let (ok, r) = check_and_record_at (limiter_of n) peer now in (ok, n\<lparr>signing_request_rate := rl_inner r\<rparr>))"
  by (simp add: check_signing_rate_def check_rate_def check_and_record_at_def limiter_of_def Let_def)

lemma check_and_record_cong:
  assumes "rl_window r = rl_window r'" "rl_max_per_window r = rl_max_per_window r'" "rl_inner r key = rl_inner r' key"
  shows "fst (check_and_record_at r key t) = fst (check_and_record_at r' key t)"
    "rl_inner (snd (check_and_record_at r key t)) key = rl_inner (snd (check_and_record_at r' key t)) key"
    "rl_window (snd (check_and_record_at r key t)) = rl_window r"
    "rl_max_per_window (snd (check_and_record_at r key t)) = rl_max_per_window r"
  using assms by (simp_all add: check_and_record_at_def Let_def)

lemma admissions_cong:
  assumes "rl_window r = rl_window r'" "rl_max_per_window r = rl_max_per_window r'" "rl_inner r key = rl_inner r' key"
  shows "fst (admissions r key ts) = fst (admissions r' key ts)"
  using assms
proof (induction ts arbitrary: r r')
  case (Cons t ts)
  note c = check_and_record_cong [OF Cons.prems, of t] check_and_record_cong [of r' r', OF refl refl refl, of key t]
  have "fst (admissions (snd (check_and_record_at r key t)) key ts) = fst (admissions (snd (check_and_record_at r' key t)) key ts)"
    using c Cons.prems by (intro Cons.IH) simp_all
  with c(1) show ?case by (simp add: case_prod_beta Let_def)
qed simp

lemma sorted_sub: "subseq xs ys \<Longrightarrow> sorted ys \<Longrightarrow> sorted xs"
  by (induction rule: list_emb.induct) (auto dest: list_emb_set)

lemma admissions_subseq: "subseq (fst (admissions r key ts)) ts"
  by (induction ts arbitrary: r) (auto simp: case_prod_beta Let_def)

lemma sorted_split: "sorted ts \<Longrightarrow> filter (\<lambda>x. x < t) ts @ filter (\<lambda>x. t \<le> x) ts = (ts :: nat list)"
proof (induction ts)
  case (Cons a ts)
  have "filter (\<lambda>x. x < t) ts = []" if "t \<le> a" using Cons.prems that by (auto simp: filter_empty_conv)
  then show ?case using Cons by (cases "a < t") auto
qed simp

lemma spaced_window:
  assumes "spaced w m ts" "sorted ts"
  shows "length (filter (\<lambda>x. t \<le> x \<and> x < t + w) ts) \<le> m"
proof (rule ccontr)
  let ?f = "filter (\<lambda>x. t \<le> x \<and> x < t + w) ts" and ?k = "length (filter (\<lambda>x. x < t) ts)"
  have late: "filter (\<lambda>x. t \<le> x) ts = ?f @ filter (\<lambda>x. t + w \<le> x) (filter (\<lambda>x. t \<le> x) ts)"
    using sorted_split [of "filter (\<lambda>x. t \<le> x) ts" "t + w"] assms(2) by (simp add: sorted_wrt_filter conj_commute)
  assume "\<not> length ?f \<le> m"
  then have m: "m < length ?f" by simp
  have ts: "ts = filter (\<lambda>x. x < t) ts @ ?f @ filter (\<lambda>x. t + w \<le> x) (filter (\<lambda>x. t \<le> x) ts)"
    unfolding late [symmetric] using sorted_split [OF assms(2), of t] by simp
  have at: "ts ! (?k + i) = ?f ! i" if "i < length ?f" for i
    using that by (subst ts) (simp add: nth_append)
  have "?k + m < length ts" using m by (subst ts) simp
  then have "ts ! ?k + w \<le> ts ! (?k + m)" using assms(1) unfolding spaced_def by blast
  moreover have "?f ! 0 \<in> set ?f" "?f ! m \<in> set ?f" using m by (intro nth_mem; linarith)+
  moreover have "ts ! ?k = ?f ! 0" "ts ! (?k + m) = ?f ! m" 
    using at [of m] m at [OF le_less_trans [OF le0 m]] by simp_all
  ultimately show False by auto
qed

section \<open>The requests of one peer\<close>

fun served_times :: "string \<Rightarrow> gate_call list \<Rightarrow> p2p_node \<Rightarrow> nat list" where
  "served_times p [] n = []"
| "served_times p ((now, src, rid) # tr) n =
     (if fst (admit_request now src rid n) \<and> src = p then [now] else []) @ served_times p tr (snd (admit_request now src rid n))"

definition asked :: "string \<Rightarrow> gate_call list \<Rightarrow> nat list" where
  "asked p tr = map fst (filter (\<lambda>c. fst (snd c) = p) tr)"

lemma admit_limiter:
  "limiter_of (snd (admit_request now src rid n)) =
     (if (\<exists>allow. allowed_signing_peers n = Some allow \<and> src \<notin> allow) then limiter_of n
      else snd (check_and_record_at (limiter_of n) src now))"
  "fst (admit_request now src rid n) \<Longrightarrow>
     (\<forall>allow. allowed_signing_peers n = Some allow \<longrightarrow> src \<in> allow) \<and> fst (check_and_record_at (limiter_of n) src now)"
  by (auto simp: admit_request_def check_signing_rate_limiter mark_signing_request_fresh_def case_prod_beta Let_def
      limiter_of_def check_and_record_at_def split: option.splits if_splits)

lemma served_subseq:
  assumes "\<forall>allow. allowed_signing_peers n = Some allow \<longrightarrow> p \<in> allow"
  shows "subseq (served_times p tr n) (fst (admissions (limiter_of n) p (asked p tr)))"
  using assms
proof (induction p tr n rule: served_times.induct)
  case (2 p now src rid tr n)
  let ?n = "snd (admit_request now src rid n)"
  have IH: "subseq (served_times p tr ?n) (fst (admissions (limiter_of ?n) p (asked p tr)))"
    using 2 by (simp add: admit_request_keeps)
  show ?case
  proof (cases "src = p")
    case True
    then have "limiter_of ?n = snd (check_and_record_at (limiter_of n) p now)" using 2(2) by (auto simp: admit_limiter(1))
    then show ?thesis using IH True admit_limiter(2) [of now src rid n]
      by (auto simp: asked_def case_prod_beta Let_def)
  next
    case False
    have "fst (admissions (limiter_of ?n) p (asked p tr)) = fst (admissions (limiter_of n) p (asked p tr))"
      using False by (intro admissions_cong) (auto simp: admit_limiter(1) check_and_record_at_def Let_def)
    then show ?thesis using IH False by (simp add: asked_def)
  qed
qed simp

lemma served_blocked:
  "allowed_signing_peers n = Some allow \<Longrightarrow> p \<notin> allow \<Longrightarrow> served_times p tr n = []"
proof (induction p tr n rule: served_times.induct)
  case (2 p now src rid tr n)
  then show ?case using admit_limiter(2) [of now src rid n]
    by (auto simp: admit_request_keeps)
qed simp

section \<open>Properties\<close>

text \<open>
  A request id is served at most once in ten minutes: if a run of requests, at times that never
  go back, serves the same id twice, the second time is at least 600 seconds after the first.
\<close>

theorem no_replay_within_ttl:
  assumes "sorted (map fst tr)" "i < j" "j < length tr" "serve tr n ! i" "serve tr n ! j"
    "snd (snd (tr ! i)) = snd (snd (tr ! j))"
  shows "fst (tr ! i) + 600 \<le> fst (tr ! j)"
proof -
  obtain now src rid where c: "tr ! i = (now, src, rid)" by (cases "tr ! i")
  have d: "drop i tr = (now, src, rid) # drop (Suc i) tr" using assms(2,3) c by (metis Cons_nth_drop_Suc less_trans)
  obtain m where m: "drop i (serve tr n) = serve (drop i tr) m" using serve_drop by blast
  let ?m = "snd (admit_request now src rid m)"
  have run: "drop i (serve tr n) = fst (admit_request now src rid m) # serve (drop (Suc i) tr) ?m"
    unfolding m d by simp
  have "drop i (serve tr n) ! 0 = serve tr n ! i" "drop i (serve tr n) ! (j - i) = serve tr n ! j"
    using assms(2,3) by simp_all
  with run assms(2,4,5) have ok: "fst (admit_request now src rid m)" "serve (drop (Suc i) tr) ?m ! (j - Suc i)"
    by (simp_all add: nth_Cons')
  have at: "drop (Suc i) tr ! (j - Suc i) = tr ! j" using assms(2,3) by simp
  have "now + SIGNING_REPLAY_TTL \<le> fst (drop (Suc i) tr ! (j - Suc i))"
    using admit_records [OF ok(1)] assms ok(2) c at
    by (intro served_again [of ?m rid]) (simp_all add: drop_map [symmetric] sorted_wrt_drop)
  then show ?thesis using c at by (simp add: SIGNING_REPLAY_TTL_def)
qed

theorem no_replay_within_ttl_witness:
  "serve [(5, ''p'', ''a''), (9, ''p'', ''a''), (700, ''p'', ''a'')] sample_node = [True, False, True] \<and> (5::nat) + 600 \<le> 700"
proof -
  have e: "serve [(5, ''p'', ''a''), (9, ''p'', ''a''), (700, ''p'', ''a'')] sample_node = [True, False, True]"
    by (simp add: admit_request_def check_signing_rate_def case_prod_beta check_rate_def prune_def mark_signing_request_fresh_def mark_fresh_def
        Let_def sample_node_def SIGNING_REPLAY_TTL_def SIGNING_RATE_WINDOW_def SIGNING_RATE_MAX_PER_WINDOW_def)
  from no_replay_within_ttl [of "[(5, ''p'', ''a''), (9, ''p'', ''a''), (700, ''p'', ''a'')]" 0 2 sample_node]
  show ?thesis by (simp add: e del: serve.simps)
qed

text \<open>
  However many requests arrive, at most 30 requests of one peer are served in any 60 seconds.
  The gate is the limiter of \<^verbatim>\<open>rate_limit.rs\<close> at that window, and what is served is part of what the
  limiter admits.
\<close>

theorem served_per_minute:
  assumes "sorted (map fst tr)" "signing_request_rate n = Map.empty"
  shows "length (filter (\<lambda>x. t \<le> x \<and> x < t + 60) (served_times p tr n)) \<le> 30
    \<and> check_signing_rate now p n = (let (ok, r) = check_and_record_at (rate_limiter_new 60 30) p now
          in (ok, n\<lparr>signing_request_rate := rl_inner r\<rparr>))"
proof
  have fresh: "limiter_of n = rate_limiter_new 60 30"
    using assms(2) by (simp add: limiter_of_def rate_limiter_new_def SIGNING_RATE_WINDOW_def SIGNING_RATE_MAX_PER_WINDOW_def)
  show "check_signing_rate now p n = (let (ok, r) = check_and_record_at (rate_limiter_new 60 30) p now
      in (ok, n\<lparr>signing_request_rate := rl_inner r\<rparr>))"
    by (simp add: check_signing_rate_limiter fresh)
  show "length (filter (\<lambda>x. t \<le> x \<and> x < t + 60) (served_times p tr n)) \<le> 30"
  proof (cases "\<forall>allow. allowed_signing_peers n = Some allow \<longrightarrow> p \<in> allow")
    case True
    let ?as = "fst (admissions (rate_limiter_new 60 30) p (asked p tr))"
    have "sorted (asked p tr)" using assms(1) unfolding asked_def by (simp add: sorted_map sorted_wrt_filter)
    then have "sorted ?as" using sorted_sub [OF admissions_subseq] by blast
    moreover have "spaced 60 30 ([] @ ?as)"
      using admissions_spaced [of 0 "asked p tr" "rate_limiter_new 60 30" "[]" p] \<open>sorted (asked p tr)\<close>
      by (simp add: explains_def spaced_def rate_limiter_new_def)
    ultimately have "length (filter (\<lambda>x. t \<le> x \<and> x < t + 60) ?as) \<le> 30" by (intro spaced_window) simp_all
    moreover have "length (filter (\<lambda>x. t \<le> x \<and> x < t + 60) (served_times p tr n)) \<le> length (filter (\<lambda>x. t \<le> x \<and> x < t + 60) ?as)"
      using served_subseq [OF True, of tr] fresh by (metis list_emb_length subseq_filter)
    ultimately show ?thesis by simp
  qed (auto simp: served_blocked)
qed

theorem served_per_minute_witness:
  "length (filter (\<lambda>x. 0 \<le> x \<and> x < 0 + 60) (served_times ''p'' [(5, ''p'', ''a''), (9, ''p'', ''b'')] sample_node)) \<le> 30"
  using served_per_minute [of "[(5, ''p'', ''a''), (9, ''p'', ''b'')]" sample_node 0 "''p''" 0]
  by (simp add: sample_node_def)

end
