(* ===== verification/Signing_Cluster.thy ===== *)
theory Signing_Cluster
  imports Signing_Gates
begin

text \<open>
  Driver and co-signers together: how the projection of a sealed epoch fares at the policy of the
  peers, what a node does with the payload a driver broadcasts and what it retains of it, and the
  ways a reply is taken for more than it says.
\<close>

section \<open>The projection at the policy\<close>

lemma parse_u64_nat_to_dec: "n < 2 ^ 64 \<Longrightarrow> parse_u64 (nat_to_dec n) = Some n"
proof -
  assume n: "n < 2 ^ 64"
  obtain c r where c: "nat_to_dec n = c # r" by (cases "nat_to_dec n") simp_all
  moreover have "is_ascii_digit c" "list_all is_ascii_digit r" using nat_to_dec_digits [of n] c by simp_all
  ultimately show ?thesis using n dec_val_nat_to_dec [of n] by (auto simp: parse_u64_def is_ascii_digit_def)
qed

lemma entry_accepted_json:
  assumes "lib_ok L" "entry_wf s"
  shows "entry_accepted L (signer_entry_json L s) acct \<longleftrightarrow> weight s = 1 \<and> acct = account_id_to_r_address L (account_id s)"
  using assms by (auto simp: entry_accepted_def signer_entry_json_def entry_wf_def)

lemma entries_accepted_json:
  assumes "lib_ok L" "\<forall>s\<in>set ss. entry_wf s"
  shows "list_all2 (entry_accepted L) (map (signer_entry_json L) ss) accts \<longleftrightarrow>
    (\<forall>s\<in>set ss. weight s = 1) \<and> accts = map (\<lambda>s. account_id_to_r_address L (account_id s)) ss"
  using assms(2)
proof (induction ss arbitrary: accts)
  case (Cons s ss)
  then show ?case using assms(1) by (cases accts) (auto simp: entry_accepted_json)
qed simp

lemma distinct_addresses:
  assumes "lib_ok L" "\<forall>s\<in>set ss. entry_wf s"
  shows "distinct (map (\<lambda>s. account_id_to_r_address L (account_id s)) ss) \<longleftrightarrow> distinct (map account_id ss)"
proof -
  have "inj_on (account_id_to_r_address L) (account_id ` set ss)"
    using assms by (auto simp: inj_on_def entry_wf_def account_id_to_r_address_inj)
  then show ?thesis using distinct_map [of "account_id_to_r_address L" "map account_id ss"]
    by (auto simp: comp_def distinct_map)
qed

abbreviation projection_tx :: "xrpl_lib \<Rightarrow> bytes \<Rightarrow> nat \<Rightarrow> nat \<Rightarrow> signer_entry list \<Rightarrow> nat \<Rightarrow> tx_obj" where
  "projection_tx L escrow sequence fee_drops signers quorum \<equiv>
     the (json_as_object (render_signerlist_set L escrow sequence fee_drops signers quorum))"

lemma projection_allowed:
  assumes "lib_ok L" "\<forall>s\<in>set signers. entry_wf s" "sequence < 2 ^ 64" "fee_drops < 2 ^ 64"
  shows "tx_allowed L (projection_tx L escrow sequence fee_drops signers quorum) (account_id_to_r_address L escrow) \<longleftrightarrow>
    12000 \<le> fee_drops \<and> 3 \<le> length signers \<and> length signers \<le> 8 \<and> (\<forall>s\<in>set signers. weight s = 1)
    \<and> distinct (map account_id signers) \<and> 2 \<le> quorum \<and> quorum \<le> length signers"
proof -
  let ?ss = "sorted_signers signers"
  have wf: "\<forall>s\<in>set ?ss. entry_wf s" using assms(2) by simp
  have d: "distinct (map account_id ?ss) \<longleftrightarrow> distinct (map account_id signers)"
    by (rule distinct_accounts_cong) simp
  show ?thesis
    using assms(3,4) unfolding tx_allowed_def signerlist_ok_def
    by (simp add: render_signerlist_set_def ALLOWED_TOP_LEVEL_def parse_u64_nat_to_dec entries_accepted_json [OF assms(1) wf]
        distinct_addresses [OF assms(1) wf] d)
qed

text \<open>
  C21. The rendered signer list of an epoch gets a signing hash from a peer exactly if the peer is
  the addressed signer, the fee is at least 12000 drops, there are three to eight signers, every weight
  is one, no account repeats and the quorum is between two and the number of signers. A weighted or
  smaller set that the membership rules accept is refused.
\<close>

theorem projection_accepted_iff:
  assumes "lib_ok L" "\<forall>s\<in>set signers. entry_wf s" "sequence < 2 ^ 64" "fee_drops < 2 ^ 64"
  shows "validate_signing_policy L C l (Some (account_id_to_r_address L escrow))
      (render_signerlist_set L escrow sequence fee_drops signers quorum) acct_hex = Ok h \<longleftrightarrow>
    12000 \<le> fee_drops \<and> 3 \<le> length signers \<and> length signers \<le> 8 \<and> (\<forall>s\<in>set signers. weight s = 1)
    \<and> distinct (map account_id signers) \<and> 2 \<le> quorum \<and> quorum \<le> length signers
    \<and> (\<exists>acct. addressed_to L l acct_hex acct
        \<and> multi_signing_hash C (the (json_as_object (render_signerlist_set L escrow sequence fee_drops signers quorum))) acct = Ok h)"
proof -
  have o: "render_signerlist_set L escrow sequence fee_drops signers quorum = JObj (projection_tx L escrow sequence fee_drops signers quorum)"
    by (simp add: render_signerlist_set_def)
  show ?thesis
    unfolding validate_signing_policy_iff using projection_allowed [OF assms, of escrow quorum] o by auto
qed

theorem projection_accepted_iff_witness:
  "(\<exists>st. prepare_statement sample_lib sample_id 7 zero32 [sample_signer 1, sample_signer 2] 2 MEMBERSHIP_DESC_OP_SET zero32 [] = Ok st)
   \<and> validate_signing_policy sample_lib (en_codec sample_env) sample_local (Some (account_id_to_r_address sample_lib sample_id))
       (render_signerlist_set sample_lib sample_id 1 12000 [sample_signer 1, sample_signer 2] 2) (hex_enc sample_lib sample_id) \<noteq> Ok sample_id
   \<and> validate_signing_policy sample_lib (en_codec sample_env) sample_local (Some (account_id_to_r_address sample_lib sample_id))
       (render_signerlist_set sample_lib sample_id 1 12000 [sample_signer 1, sample_signer 2, sample_signer 3] 2)
       (hex_enc sample_lib sample_id) = Ok sample_id"
proof (intro conjI)
  show "\<exists>st. prepare_statement sample_lib sample_id 7 zero32 [sample_signer 1, sample_signer 2] 2 MEMBERSHIP_DESC_OP_SET zero32 [] = Ok st"
    by (simp add: prepare_statement_def MAX_SIGNERS_def u64_add_def Let_def)
  have c: "multi_signing_hash (en_codec sample_env) tx acct = Ok acct" for tx acct by (simp add: sample_env_def)
  show "validate_signing_policy sample_lib (en_codec sample_env) sample_local (Some (account_id_to_r_address sample_lib sample_id))
      (render_signerlist_set sample_lib sample_id 1 12000 [sample_signer 1, sample_signer 2] 2) (hex_enc sample_lib sample_id) \<noteq> Ok sample_id"
    by (simp add: projection_accepted_iff)
  show "validate_signing_policy sample_lib (en_codec sample_env) sample_local (Some (account_id_to_r_address sample_lib sample_id))
      (render_signerlist_set sample_lib sample_id 1 12000 [sample_signer 1, sample_signer 2, sample_signer 3] 2)
      (hex_enc sample_lib sample_id) = Ok sample_id"
    using sample_account_eq_iff [of 1 2] sample_account_eq_iff [of 1 3] sample_account_eq_iff [of 2 3] sample_addressed
    by (auto simp: projection_accepted_iff c simp del: sample_addressed)
qed

section \<open>From the driver's statement to the enclave of a peer\<close>

lemma prepare_statement_rebuild:
  assumes "prepare_statement L escrow current_epoch digest signers quorum op mre sigs = Ok st"
  shows "prepare_statement L escrow current_epoch digest signers quorum op' mre' sigs'
    = Ok (st\<lparr>st_op := op', st_new_member_mrenclave := mre', st_descriptor_sigs := sigs'\<rparr>)"
  using assms by (auto simp: prepare_statement_def Let_def result_bind_Ok_iff split: if_splits)

lemma prepare_statement_fields:
  assumes "prepare_statement L escrow current_epoch digest signers quorum op mre sigs = Ok st"
  shows "st_escrow st = escrow" "st_proposed_epoch st = u64_add current_epoch 1" "st_prev_epoch_hash st = digest"
    "st_new_signers st = signers" "st_new_quorum st = quorum"
  using assms by (auto simp: prepare_statement_def Let_def result_bind_Ok_iff split: if_splits)

definition prepared :: "xrpl_lib \<Rightarrow> membership_epoch_statement \<Rightarrow> bool" where
  "prepared L st \<longleftrightarrow> (\<exists>current_epoch op mre sigs.
     prepare_statement L (st_escrow st) current_epoch (st_prev_epoch_hash st) (st_new_signers st) (st_new_quorum st) op mre sigs = Ok st
     \<and> current_epoch + 1 < 2 ^ 64)
     \<and> length (st_escrow st) = 20 \<and> length (st_prev_epoch_hash st) = 32 \<and> (\<forall>s\<in>set (st_new_signers st). entry_wf s)"

lemma prepared_epoch: "prepared L st \<Longrightarrow> 0 < st_proposed_epoch st"
  by (auto simp: prepared_def dest!: prepare_statement_fields(2) simp: u64_add_def)

lemma rebuild_prepared:
  assumes "lib_ok L" "prepared L st"
  shows "\<exists>st'. rebuild_statement L (hex_enc L (st_escrow st)) (st_proposed_epoch st) (hex_enc L (st_prev_epoch_hash st))
      (map (to_wire L) (st_new_signers st)) (st_new_quorum st) (hex_enc L bundle) = Ok (st', bundle)
    \<and> build_seal_request L st' bundle = build_seal_request L st bundle
    \<and> build_bootstrap_attested_request L st' bundle = build_bootstrap_attested_request L st bundle"
proof -
  from assms(2) obtain cur op mre sigs where
    p: "prepare_statement L (st_escrow st) cur (st_prev_epoch_hash st) (st_new_signers st) (st_new_quorum st) op mre sigs = Ok st"
    "cur + 1 < 2 ^ 64" and wf: "length (st_escrow st) = 20" "length (st_prev_epoch_hash st) = 32" "\<forall>s\<in>set (st_new_signers st). entry_wf s"
    unfolding prepared_def by blast
  have "u64_saturating_sub (st_proposed_epoch st) 1 = cur"
    using prepare_statement_fields(2) [OF p(1)] p(2) by (simp add: u64_add_def u64_saturating_sub_def)
  then show ?thesis using assms(1) wf prepare_statement_rebuild [OF p(1)]
    by (simp add: rebuild_statement_def require_def build_seal_request_def build_bootstrap_attested_request_def)
qed

lemma apply_seal_here_prepared:
  assumes "lib_ok (en_lib E)" "prepared (en_lib E) st"
  shows "handle_membership_apply E l rid (seal_payload (en_lib E) ap st bundle) s =
    (if en_loopback E (admin_base (enclave_url l))
     then apply_reply l rid (post_route (en_post E) (trim_end (admin_base (enclave_url l)) @ SEAL_EPOCH_PATH)
            (build_seal_request (en_lib E) st bundle) (refused \<circ> parse_seal_response) s)
     else (sign_error l rid ApplyNotLoopback, s))"
  using rebuild_prepared [OF assms, of "bundle"]
  by (auto simp: handle_membership_apply_def Let_def seal_payload_def apply_seal_here_def seal_on_node_def)

lemma apply_reply_ack:
  "is_ack (fst (apply_reply l rid r)) \<longleftrightarrow> fst r = Ok ()" "snd (apply_reply l rid r) = snd r"
  by (auto simp: apply_reply_def is_ack_def ack_def sign_error_def split: prod.splits sum.splits)

lemma post_route_Ok:
  "fst (post_route post url req (refused \<circ> parse_seal_response) s) = Ok () \<longleftrightarrow>
    (\<exists>ok b. fst (post url req s) = Body ok b \<and> status_is ''ok'' b)"
  by (auto simp: post_route_def refused_def parse_seal_response_def split: prod.splits http_reply.splits if_splits)

lemma post_route_state: "snd (post_route post url req parse s) = snd (post url req s)"
  by (auto simp: post_route_def split: prod.splits http_reply.splits)

text \<open>
  C19. A seal that a driver broadcasts reaches the enclave of a peer as exactly the request the driver
  built: if the gates of the peer are open and its enclave is on the loopback, the peer posts the
  driver's own statement and bundle, and it retains a membership tuple exactly if its enclave
  answered ok. The retained tuple reads back as the new signer set, its quorum and epoch, and the set
  that attested it.
\<close>

theorem seal_reaches_peer_and_is_retained:
  assumes "lib_ok (en_lib E)" "prepared (en_lib E) st" "\<forall>a\<in>set attesting. entry_wf a"
    and "local_signer_opt n = Some l" "gates_open now src rid n" "en_loopback E (admin_base (enclave_url l))"
    and "on_signing_message E True now src (MembershipApply rid peer
          (seal_payload (en_lib E) (with_attesting ap (map (to_wire (en_lib E)) attesting) att_quorum) st bundle)) n s = (out, n', s')"
  shows "s' = snd (en_post E (trim_end (admin_base (enclave_url l)) @ SEAL_EPOCH_PATH) (build_seal_request (en_lib E) st bundle) s)
    \<and> (out_retain out \<noteq> None \<longleftrightarrow> (\<exists>ok b. fst (en_post E (trim_end (admin_base (enclave_url l)) @ SEAL_EPOCH_PATH)
          (build_seal_request (en_lib E) st bundle) s) = Body ok b \<and> status_is ''ok'' b))
    \<and> (\<forall>t. out_retain out = Some t \<longrightarrow>
        decode_signers (en_lib E) (unpack_membership_signers (en_lib E) (mb_authority_signers_hex t)) = Some (st_new_signers st)
        \<and> mb_authority_quorum t = st_new_quorum st \<and> mb_authority_epoch t = st_proposed_epoch st
        \<and> decode_signers (en_lib E) (unpack_membership_signers (en_lib E) (mb_attesting_signers_hex t)) = Some attesting
        \<and> mb_attesting_quorum t = att_quorum \<and> hex_dec (en_lib E) (mb_quorum_bundle_hex t) = Some bundle)"
proof -
  let ?L = "en_lib E" and ?url = "trim_end (admin_base (enclave_url l)) @ SEAL_EPOCH_PATH"
  let ?ap = "with_attesting ap (map (to_wire ?L) attesting) att_quorum" and ?req = "build_seal_request ?L st bundle"
  let ?h = "apply_reply l rid (post_route (en_post E) ?url ?req (refused \<circ> parse_seal_response) s)"
  have out: "s' = snd ?h" "out_retain out = applied ?L True (seal_payload ?L ?ap st bundle) (fst ?h)"
    using assms(4-7) by (auto simp: message_arms gated_eq apply_seal_here_prepared [OF assms(1,2)] case_prod_beta Let_def)
  have wf: "\<forall>s\<in>set (st_new_signers st). entry_wf s" using assms(2) by (simp add: prepared_def)
  have "out_retain out \<noteq> None \<longleftrightarrow> (\<exists>ok b. fst (en_post E ?url ?req s) = Body ok b \<and> status_is ''ok'' b)"
    unfolding out(2) applied_def post_route_Ok [symmetric]
    by (simp add: persist_retention_def seal_payload_def apply_reply_ack(1))
  moreover have "s' = snd (en_post E ?url ?req s)" using out(1) by (simp add: apply_reply_ack post_route_state)
  ultimately show ?thesis
    using assms(1,3) wf unfolding out(2) applied_def
    by (auto simp: persist_retention_def seal_payload_def with_attesting_def unpack_pack split: if_splits)
qed

definition sample_st :: membership_epoch_statement where
  "sample_st = projr (prepare_statement sample_lib sample_id 7 zero32 [sample_signer 1, sample_signer 2] 2 MEMBERSHIP_DESC_OP_SET zero32 [])"

lemma sample_prepared [simp]: "prepared sample_lib sample_st"
proof -
  let ?p = "prepare_statement sample_lib sample_id 7 zero32 [sample_signer 1, sample_signer 2] 2 MEMBERSHIP_DESC_OP_SET zero32 []"
  have "\<exists>st. ?p = Ok st" by (simp add: prepare_statement_def MAX_SIGNERS_def u64_add_def Let_def)
  then have p: "?p = Ok sample_st" by (auto simp: sample_st_def)
  have "length zero32 = 32" by (simp add: zero32_def)
  moreover have "\<exists>cur op mre sigs. prepare_statement sample_lib (st_escrow sample_st) cur (st_prev_epoch_hash sample_st)
      (st_new_signers sample_st) (st_new_quorum sample_st) op mre sigs = Ok sample_st \<and> cur + 1 < 2 ^ 64"
    using p unfolding prepare_statement_fields [OF p] by (intro exI conjI, assumption) simp
  ultimately show ?thesis unfolding prepared_def by (simp add: prepare_statement_fields [OF p] sample_id_def)
qed

definition sealing_env :: "nat signing_env" where
  "sealing_env = sample_env\<lparr>en_post := (\<lambda>url body s. (Body True (JObj [(''status'', JStr ''ok'')]), Suc s))\<rparr>"

theorem seal_reaches_peer_and_is_retained_witness:
  "\<exists>out n' t. on_signing_message sealing_env True 5 ''p'' (MembershipApply ''beta-apply-1'' ''p''
      (seal_payload sample_lib (with_attesting (applier_new 3) (map (to_wire sample_lib) [sample_signer 4]) 1) sample_st [9])) sample_node 0
      = (out, n', 1) \<and> out_retain out = Some t
    \<and> decode_signers sample_lib (unpack_membership_signers sample_lib (mb_authority_signers_hex t)) = Some (st_new_signers sample_st)"
proof -
  have e: "en_lib sealing_env = sample_lib" "local_signer_opt sample_node = Some sample_local" "en_loopback sealing_env u"
    "en_post sealing_env = (\<lambda>url body s. (Body True (JObj [(''status'', JStr ''ok'')]), Suc s))" for u
    by (simp_all add: sealing_env_def sample_env_def sample_node_def)
  let ?r = "on_signing_message sealing_env True 5 ''p'' (MembershipApply ''beta-apply-1'' ''p''
      (seal_payload (en_lib sealing_env) (with_attesting (applier_new 3) (map (to_wire (en_lib sealing_env)) [sample_signer 4]) 1) sample_st [9]))
      sample_node 0"
  have "?r = (fst ?r, fst (snd ?r), snd (snd ?r))" by simp
  note facts = seal_reaches_peer_and_is_retained [OF _ _ _ _ _ _ this, of sample_local]
  have "snd (snd ?r) = 1 \<and> out_retain (fst ?r) \<noteq> None \<and> (\<forall>t. out_retain (fst ?r) = Some t \<longrightarrow>
      decode_signers sample_lib (unpack_membership_signers sample_lib (mb_authority_signers_hex t)) = Some (st_new_signers sample_st))"
    using facts by (simp add: e status_is_def json_index_def) blast
  then show ?thesis by (metis e(1) prod.collapse not_Some_eq)
qed

section \<open>Replies that say less than they are taken for\<close>

definition empty_signature_der :: bytes where
  "empty_signature_der = [0x30, 0x06, 0x02, 0x01, 0x00, 0x02, 0x01, 0x00]"

lemma der_of_nothing: "der_encode_signature [] [] = empty_signature_der"
  by (simp add: der_encode_signature_def encode_integer_def empty_signature_der_def)

text \<open>
  An enclave that answers a consent request with success but no signature is counted as a
  consent: the missing halves are read as no bytes, encoded as the pair of zeros, published without an
  error, and the collector takes the eight bytes into its bundle under the signer's key.
\<close>

theorem missing_signature_counts_as_consent:
  assumes "lib_ok (en_lib E)" "hex_dec (en_lib E) [] = Some []" "hex_dec (en_lib E) (compressed_pubkey l) = Some pk" "length pk = 33"
    and "\<And>url body s. fst (en_post E url body s) = Body ok b" "status_is ''success'' b" "json_index b ''signature'' = JNull"
  shows "parse_signing_response (en_lib E)
      (fst (handle_membership_epoch_request E l rid escrow epoch prev signers quorum op mre sigs s)) = Some (pk, empty_signature_der)"
proof -
  have h: "signature_half (en_lib E) b k = []" for k using assms(2,7) by (simp add: signature_half_def json_index_def)
  have "fst (enclave_sign E url body s) = Ok empty_signature_der" for url body
    using assms(5) [of url body s] assms(6) h by (auto simp: enclave_sign_def der_of_nothing split: prod.splits)
  then show ?thesis
    using assms(1,3,4) unfolding handle_membership_epoch_request_def signed_response_def
    by (auto simp: parse_signing_response_def case_prod_beta empty_signature_der_def)
qed

theorem missing_signature_counts_as_consent_witness:
  "parse_signing_response sample_lib (fst (handle_membership_epoch_request
      (sample_env\<lparr>en_post := (\<lambda>url body s. (Body True (JObj [(''status'', JStr ''success'')]), s))\<rparr>)
      (sample_local\<lparr>compressed_pubkey := hex_enc sample_lib (replicate 33 2)\<rparr>) ''r'' [] 1 [] [] 1 3 [] [] 0))
    = Some (replicate 33 2, empty_signature_der)"
  using missing_signature_counts_as_consent [of "sample_env\<lparr>en_post := (\<lambda>url body s. (Body True (JObj [(''status'', JStr ''success'')]), s))\<rparr>"
      "sample_local\<lparr>compressed_pubkey := hex_enc sample_lib (replicate 33 2)\<rparr>" "replicate 33 2" True
      "JObj [(''status'', JStr ''success'')]" "''r''" "[]" 1 "[]" "[]" 1 3 "[]" "[]" 0]
  by (simp add: sample_env_def status_is_def json_index_def) (simp add: sample_lib_def)

text \<open>
  The first reply to a pending transaction request decides, whoever sends it: a response with the
  pending id is handed to the waiting withdrawal whatever peer it comes from and whatever it carries,
  and from then on every reply under that id is dropped.
\<close>

theorem first_reply_decides:
  assumes "route_response n rid = Some SigningChannel"
  shows "on_signing_message E db now src (Response rid a d k e) n s
      = (silent\<lparr>out_forward := [(SigningChannel, Response rid a d k e)]\<rparr>, unwait SigningChannel rid n, s)
    \<and> on_signing_message E db now' src' (Response rid a' d' k' e') (unwait SigningChannel rid n) s
      = (silent, unwait SigningChannel rid n, s)"
proof -
  have "route_response (unwait SigningChannel rid n) rid = None"
    using assms by (auto simp: route_response_def unwait_def Let_def split: if_splits)
  then show ?thesis using assms by (simp add: on_signing_message_def on_response_def)
qed

theorem first_reply_decides_witness:
  "on_signing_message sample_env False 5 ''stranger'' (Response ''w1'' [] None None (Some PublishFailed))
      (wait_for SigningChannel ''w1'' sample_node) 0
    = (silent\<lparr>out_forward := [(SigningChannel, Response ''w1'' [] None None (Some PublishFailed))]\<rparr>,
       unwait SigningChannel ''w1'' (wait_for SigningChannel ''w1'' sample_node), 0)
   \<and> \<not> gates_open 5 ''stranger'' ''w1'' sample_node"
proof
  have "route_response (wait_for SigningChannel ''w1'' sample_node) ''w1'' = Some SigningChannel"
    by (simp add: route_response_def starts_with_def wait_for_def Let_def)
  from first_reply_decides [OF this, of sample_env False 5 "''stranger''" "[]" None None "Some PublishFailed" 0]
  show "on_signing_message sample_env False 5 ''stranger'' (Response ''w1'' [] None None (Some PublishFailed))
      (wait_for SigningChannel ''w1'' sample_node) 0
    = (silent\<lparr>out_forward := [(SigningChannel, Response ''w1'' [] None None (Some PublishFailed))]\<rparr>,
       unwait SigningChannel ''w1'' (wait_for SigningChannel ''w1'' sample_node), 0)" by blast
  show "\<not> gates_open 5 ''stranger'' ''w1'' sample_node" by (simp add: gates_open_def sample_node_def)
qed

section \<open>What the cleanup leaves\<close>

text \<open>Policy, status and baseline requests stay pending for ever, even after their collector is gone.\<close>

lemma cleanup_keeps_three_channels:
  assumes "c \<in> {UnlPolicyChannel, UnlStatusChannel, SpvBaselineChannel}"
  shows "waiting (signing_cleanup closed n) c = waiting n c"
  using assms by (auto simp: signing_cleanup_def)

lemma cleanup_drops_closed:
  "c \<notin> {UnlPolicyChannel, UnlStatusChannel, SpvBaselineChannel} \<Longrightarrow> waiting (signing_cleanup closed n) c = waiting n c - closed c"
  by (cases c) (auto simp: signing_cleanup_def)

section \<open>Repeated accounts\<close>

text \<open>
  The policy compares the texts of the signer accounts and ignores the version byte they decode
  with, so one account under three version bytes passes as three signers.
\<close>

lemma one_account_three_texts:
  assumes "lib_ok L" "length acc = 20"
  defines "texts \<equiv> map (\<lambda>v. base58check L (v # acc)) [0, 1, 2 :: byte]"
  shows "distinct texts" "\<forall>t\<in>set texts. decode_xrpl_address L t = Ok acc"
    "check_entries L 0 (map (\<lambda>t. JObj [(''SignerEntry'', JObj [(''Account'', JStr t), (''SignerWeight'', JNum 1)])]) texts) {} = Ok ()"
proof -
  have "base58check L (v # acc) = base58check L (w # acc) \<Longrightarrow> v = w" for v w
    using assms(1) unfolding base58check_def by (metis append_Cons lib_okD(3) list.inject option.inject)
  note differ = this [of 0 1] this [of 0 2] this [of 1 2]
  show d: "distinct texts" unfolding texts_def using differ by auto
  show a: "\<forall>t\<in>set texts. decode_xrpl_address L t = Ok acc" using assms by (simp add: texts_def decode_base58check)
  have "list_all2 (entry_accepted L)
      (map (\<lambda>t. JObj [(''SignerEntry'', JObj [(''Account'', JStr t), (''SignerWeight'', JNum 1)])]) texts) texts"
    using a by (auto simp: list_all2_conv_all_nth entry_accepted_def)
  with d show "check_entries L 0 (map (\<lambda>t. JObj [(''SignerEntry'', JObj [(''Account'', JStr t), (''SignerWeight'', JNum 1)])]) texts) {} = Ok ()"
    by (auto simp: check_entries_Ok)
qed

end
