(* ===== verification/WithdrawalFlow.thy ===== *)
theory WithdrawalFlow
  imports Withdrawal_Props Signing_Cluster
begin

text \<open>
  \<^verbatim>\<open>orchestrator/src/withdrawal.rs\<close> and the withdraw route of \<^verbatim>\<open>api.rs\<close>: a withdrawal is built as an
  unsigned payment, reserved in the local enclave, journalled, signed by a quorum of operators over
  the signing relay (or directly over HTTP) and submitted. The conversion of the requested amount
  through a floating-point number is a parameter; so are the enclaves, the relay and the XRPL node.
\<close>

section \<open>Configuration and requests\<close>

record withdraw_request =
  wr_user_id :: string
  wr_amount :: string
  wr_destination :: string
  wr_destination_tag :: "nat option"

record signer_config =
  sc_name :: string
  sc_enclave_url :: string
  sc_address :: string
  sc_session_key :: string
  sc_compressed_pubkey :: string
  sc_xrpl_address :: string
  sc_ecdh_pubkey :: "string option"

record signers_config =
  sg_signers :: "signer_config list"
  sg_quorum :: nat
  sg_escrow_address :: string
  sg_local_signer :: "signer_config option"

datatype sign_failure =
    SerialiseForSigning string
  | SignRequestFailed string
  | SignNotJson string
  | SignRefused json
  | MissingHalf string
  | BadHalf string
  | RelayChannelClosed
  | RelayTimeout
  | RelayDropped
  | RemoteSigner signing_error
  | UnexpectedReply

text \<open>What comes back from the relay of one signing request.\<close>

datatype relay_answer = ChannelClosed | TimedOut | ResponseDropped | Answered reply_msg

datatype submit_failure = SubmitUnreachable string | EngineResult string string

datatype withdraw_note =
    MarginRefused string
  | EnclaveFailed string
  | TooFewSignatures nat nat
  | SubmittedNote
  | SubmissionFailed submit_failure

record withdraw_result =
  wres_status :: string
  wres_amount :: string
  wres_destination :: string
  wres_tx_hash :: "string option"
  wres_message :: withdraw_note

datatype withdraw_error =
    LedgerUnread unl_error
  | LastLedgerOverflow
  | LastLedgerTooLarge
  | NoSigners
  | SerialiseFailure string
  | HttpClientFailed

record 's wd_world =
  ww_lib :: xrpl_lib
  ww_codec :: tx_codec
  ww_account_info :: "string \<Rightarrow> http_reply"
  ww_server_info :: http_reply
  ww_drops :: "string \<Rightarrow> nat"
  ww_withdraw :: "string \<Rightarrow> string \<Rightarrow> string \<Rightarrow> string \<Rightarrow> string \<Rightarrow> 's \<Rightarrow> (string + json) \<times> 's"
  ww_relay :: "(string \<Rightarrow> relay \<Rightarrow> 's \<Rightarrow> relay_answer \<times> 's) option"
  ww_request_id :: "string \<Rightarrow> string"
  ww_client :: bool
  ww_post :: "'s http_post"
  ww_submit :: "json \<Rightarrow> 's \<Rightarrow> http_reply \<times> 's"
  ww_now_ms :: nat

section \<open>Signatures of one signer\<close>

definition sign_with_enclave ::
  "'s wd_world \<Rightarrow> signer_config \<Rightarrow> tx_obj \<Rightarrow> string \<Rightarrow> nat \<Rightarrow> 's \<Rightarrow> (sign_failure + string \<times> string) \<times> 's" where
  "sign_with_enclave W signer tx uid amount_fp8 s =
     (case serialize_json_object (ww_codec W) tx of
        Inl e \<Rightarrow> (Err (SerialiseForSigning e), s)
      | Inr tx_bytes \<Rightarrow>
          (case ww_post W (sc_enclave_url signer @ ''/pool/sign/withdrawal-payment'')
              (JObj [(''from'', JStr (sc_address signer)), (''session_key'', JStr (sc_session_key signer)),
                     (''user_id'', JStr uid), (''amount_fp8'', JStr (nat_to_dec amount_fp8)),
                     (''tx_blob'', JStr (hex_enc (ww_lib W) tx_bytes))]) s of
             (NoAnswer e, s) \<Rightarrow> (Err (SignRequestFailed e), s)
           | (BadBody ok e, s) \<Rightarrow> (Err (SignNotJson e), s)
           | (Body ok resp, s) \<Rightarrow>
               (if \<not> status_is ''success'' resp then Err (SignRefused resp)
                else result_bind (require (MissingHalf ''r'') (json_as_str (json_index (json_index resp ''signature'') ''r''))) (\<lambda>r_hex.
                     result_bind (require (MissingHalf ''s'') (json_as_str (json_index (json_index resp ''signature'') ''s''))) (\<lambda>s_hex.
                     result_bind (require (BadHalf ''r'') (hex_dec (ww_lib W) r_hex)) (\<lambda>r.
                     result_bind (require (BadHalf ''s'') (hex_dec (ww_lib W) s_hex)) (\<lambda>sb.
                     Ok (hex_enc_upper (ww_lib W) (der_encode_signature r sb), map ascii_upper (sc_compressed_pubkey signer)))))), s)))"

definition read_relay_answer :: "relay_answer \<Rightarrow> sign_failure + string \<times> string" where
  "read_relay_answer a =
     (case a of
        ChannelClosed \<Rightarrow> Err RelayChannelClosed
      | TimedOut \<Rightarrow> Err RelayTimeout
      | ResponseDropped \<Rightarrow> Err RelayDropped
      | Answered (Response _ _ (Some der) (Some pubkey) None) \<Rightarrow> Ok (der, pubkey)
      | Answered (Response _ _ _ _ (Some e)) \<Rightarrow> Err (RemoteSigner e)
      | Answered _ \<Rightarrow> Err UnexpectedReply)"

definition sign_via_p2p ::
  "'s wd_world \<Rightarrow> (string \<Rightarrow> relay \<Rightarrow> 's \<Rightarrow> relay_answer \<times> 's) \<Rightarrow> signer_config \<Rightarrow> json \<Rightarrow> bytes \<Rightarrow> string \<Rightarrow> nat
    \<Rightarrow> 's \<Rightarrow> (sign_failure + string \<times> string) \<times> 's" where
  "sign_via_p2p W signing_tx signer unsigned_tx acct uid amount_fp8 s =
     (let rid = ww_request_id W (sc_xrpl_address signer);
          (answer, s) = signing_tx rid
            (SigningRelay rid unsigned_tx (hex_enc (ww_lib W) acct) (sc_xrpl_address signer) None (Some uid)
               (Some (nat_to_dec amount_fp8))) s
      in (read_relay_answer answer, s))"

section \<open>The XRPL node\<close>

definition fetch_account_sequence :: "http_reply \<Rightarrow> nat option" where
  "fetch_account_sequence reply =
     (case reply of
        Body ok resp \<Rightarrow> map_option (\<lambda>n. n mod 2 ^ 32)
          (json_as_u64 (json_index (json_index (json_index resp ''result'') ''account_data'') ''Sequence''))
      | _ \<Rightarrow> None)"

definition str_or :: "string \<Rightarrow> json \<Rightarrow> string" where
  "str_or d j = (case json_as_str j of Some x \<Rightarrow> x | None \<Rightarrow> d)"

definition read_submit_reply :: "http_reply \<Rightarrow> submit_failure + string" where
  "read_submit_reply reply =
     (case reply of
        NoAnswer e \<Rightarrow> Err (SubmitUnreachable e)
      | BadBody ok e \<Rightarrow> Err (SubmitUnreachable e)
      | Body ok resp \<Rightarrow>
          (let result = json_index resp ''result'';
               engine_result = str_or ''unknown'' (json_index result ''engine_result'')
           in if engine_result = ''tesSUCCESS'' \<or> starts_with ''tes'' engine_result
              then Ok (str_or (str_or ''unknown'' (json_index result ''hash'')) (json_index (json_index result ''tx_json'') ''hash''))
              else Err (EngineResult engine_result (str_or [] (json_index result ''engine_result_message'')))))"

section \<open>The flow\<close>

definition WITHDRAWAL_LAST_LEDGER_WINDOW :: nat where "WITHDRAWAL_LAST_LEDGER_WINDOW = 40"

definition withdrawal_last_ledger :: "http_reply \<Rightarrow> withdraw_error + nat" where
  "withdrawal_last_ledger server_info =
     result_bind (map_sum LedgerUnread id (own_validated_ledger server_info)) (\<lambda>validated.
       let last_ledger = validated + WITHDRAWAL_LAST_LEDGER_WINDOW
       in if 2 ^ 64 \<le> last_ledger then Err LastLedgerOverflow
          else if 2 ^ 32 \<le> last_ledger then Err LastLedgerTooLarge
          else Ok last_ledger)"

definition fp8_of_drops :: "nat \<Rightarrow> nat" where
  "fp8_of_drops drops = min (drops * 100) (2 ^ 64 - 1)"

definition withdrawal_payment :: "string \<Rightarrow> withdraw_request \<Rightarrow> nat \<Rightarrow> nat \<Rightarrow> nat \<Rightarrow> nat \<Rightarrow> tx_obj" where
  "withdrawal_payment esc req quorum sq last_ledger drops =
     [(''TransactionType'', JStr ''Payment''), (''Account'', JStr esc), (''Destination'', JStr (wr_destination req)),
      (''Amount'', JStr (nat_to_dec drops)), (''Fee'', JStr (nat_to_dec (u64_mul 12 (u64_add 1 quorum)))),
      (''Sequence'', JNum (int sq)), (''LastLedgerSequence'', JNum (int last_ledger)), (''SigningPubKey'', JStr [])]
     @ (case wr_destination_tag req of Some tag \<Rightarrow> [(''DestinationTag'', JNum (int tag))] | None \<Rightarrow> [])"

definition mk_journal_entry ::
  "'s wd_world \<Rightarrow> string \<Rightarrow> withdraw_request \<Rightarrow> nat \<Rightarrow> nat \<Rightarrow> nat \<Rightarrow> string option \<Rightarrow> pending_withdrawal" where
  "mk_journal_entry W esc req sq last_ledger drops hash =
     \<lparr>escrow = esc, sequence = sq, last_ledger_sequence = last_ledger, amount_drops = drops,
      pw_destination = wr_destination req, destination_tag = wr_destination_tag req, submitted_hash = hash,
      pw_user_id = wr_user_id req, reserved_at_ms = ww_now_ms W\<rparr>"

definition signer_json :: "signer_config \<Rightarrow> string \<times> string \<Rightarrow> json" where
  "signer_json signer sig =
     JObj [(''Signer'', JObj [(''Account'', JStr (sc_xrpl_address signer)), (''SigningPubKey'', JStr (snd sig)),
                              (''TxnSignature'', JStr (fst sig))])]"

definition sign_one ::
  "'s wd_world \<Rightarrow> signer_config \<Rightarrow> tx_obj \<Rightarrow> bytes \<Rightarrow> string \<Rightarrow> nat \<Rightarrow> 's \<Rightarrow> (sign_failure + string \<times> string) \<times> 's" where
  "sign_one W signer tx acct uid amount_fp8 s =
     (case ww_relay W of
        Some stx \<Rightarrow> sign_via_p2p W stx signer (JObj tx) acct uid amount_fp8 s
      | None \<Rightarrow> sign_with_enclave W signer tx uid amount_fp8 s)"

fun collect_signers ::
  "'s wd_world \<Rightarrow> tx_obj \<Rightarrow> string \<Rightarrow> nat \<Rightarrow> nat \<Rightarrow> signer_config list \<Rightarrow> json list \<Rightarrow> 's \<Rightarrow> json list \<times> 's" where
  "collect_signers W tx uid amount_fp8 quorum [] collected s = (collected, s)"
| "collect_signers W tx uid amount_fp8 quorum (signer # rest) collected s =
     (if quorum \<le> length collected then (collected, s)
      else case decode_xrpl_address (ww_lib W) (sc_xrpl_address signer) of
             Inl e \<Rightarrow> collect_signers W tx uid amount_fp8 quorum rest collected s
           | Inr acct \<Rightarrow>
               (case sign_one W signer tx acct uid amount_fp8 s of
                  (Inl e, s) \<Rightarrow> collect_signers W tx uid amount_fp8 quorum rest collected s
                | (Inr sig, s) \<Rightarrow> collect_signers W tx uid amount_fp8 quorum rest (collected @ [signer_json signer sig]) s))"

definition signer_sort_key :: "xrpl_lib \<Rightarrow> json \<Rightarrow> bytes" where
  "signer_sort_key L j =
     (case decode_xrpl_address L (str_or [] (json_index (json_index j ''Signer'') ''Account'')) of
        Inr acct \<Rightarrow> acct | Inl _ \<Rightarrow> replicate 20 0xff)"

definition sort_signers :: "xrpl_lib \<Rightarrow> json list \<Rightarrow> json list" where
  "sort_signers L js = sort_key (signer_sort_key L) js"

definition set_field :: "string \<Rightarrow> json \<Rightarrow> tx_obj \<Rightarrow> tx_obj" where
  "set_field k v tx = (if k \<in> fst ` set tx then map (\<lambda>m. if fst m = k then (k, v) else m) tx else tx @ [(k, v)])"

definition withdraw_outcome :: "withdraw_request \<Rightarrow> string \<Rightarrow> string option \<Rightarrow> withdraw_note \<Rightarrow> withdraw_result" where
  "withdraw_outcome req status hash note =
     \<lparr>wres_status = status, wres_amount = wr_amount req, wres_destination = wr_destination req, wres_tx_hash = hash, wres_message = note\<rparr>"

text \<open>The journal, if there is one, is an in-memory journal with its file; the two flags say whether each save succeeds.\<close>

definition record_if :: "(journal \<Rightarrow> string) \<Rightarrow> bool \<Rightarrow> pending_withdrawal \<Rightarrow> journal_handle option \<Rightarrow> journal_handle option" where
  "record_if to_string saved e j = map_option (handle_record to_string saved e) j"

definition submit_signed ::
  "'s wd_world \<Rightarrow> (journal \<Rightarrow> string) \<Rightarrow> bool \<Rightarrow> withdraw_request \<Rightarrow> tx_obj \<Rightarrow> (string option \<Rightarrow> pending_withdrawal) \<Rightarrow> json list
    \<Rightarrow> journal_handle option \<Rightarrow> 's \<Rightarrow> withdraw_result \<times> journal_handle option \<times> 's" where
  "submit_signed W to_string saved req tx entry collected j s =
     (case ww_submit W (JObj (set_field ''Signers'' (JArr (sort_signers (ww_lib W) collected)) tx)) s of
        (reply, s) \<Rightarrow>
          (case read_submit_reply reply of
             Inr hash \<Rightarrow> (withdraw_outcome req ''success'' (Some hash) SubmittedNote, record_if to_string saved (entry (Some hash)) j, s)
           | Inl e \<Rightarrow> (withdraw_outcome req ''signed_but_not_submitted'' None (SubmissionFailed e), j, s)))"

definition process_withdrawal ::
  "'s wd_world \<Rightarrow> (journal \<Rightarrow> string) \<Rightarrow> bool \<Rightarrow> bool \<Rightarrow> string \<Rightarrow> signers_config \<Rightarrow> withdraw_request
    \<Rightarrow> journal_handle option \<Rightarrow> 's \<Rightarrow> (withdraw_error + withdraw_result) \<times> journal_handle option \<times> 's" where
  "process_withdrawal W to_string saved1 saved2 esc cfg req j s =
     (let sq = (case fetch_account_sequence (ww_account_info W esc) of Some n \<Rightarrow> n | None \<Rightarrow> 1)
      in case withdrawal_last_ledger (ww_server_info W) of
           Inl e \<Rightarrow> (Err e, j, s)
         | Inr last_ledger \<Rightarrow>
             (let drops = ww_drops W (wr_amount req);
                  amount_fp8 = fp8_of_drops drops;
                  tx = withdrawal_payment esc req (sg_quorum cfg) sq last_ledger drops;
                  entry = mk_journal_entry W esc req sq last_ledger drops
              in case (case sg_local_signer cfg of Some l \<Rightarrow> Some l | None \<Rightarrow> (case sg_signers cfg of l # _ \<Rightarrow> Some l | [] \<Rightarrow> None)) of
                   None \<Rightarrow> (Err NoSigners, j, s)
                 | Some local \<Rightarrow>
                     (case serialize_json_object (ww_codec W) tx of
                        Inl e \<Rightarrow> (Err (SerialiseFailure e), j, s)
                      | Inr tx_bytes \<Rightarrow>
                          (case ww_withdraw W (wr_user_id req) (wr_amount req) (sc_address local)
                              (strip_tokens [''0x''] (sc_session_key local)) (hex_enc (ww_lib W) tx_bytes) s of
                             (Inl e, s) \<Rightarrow> (Ok (withdraw_outcome req ''error'' None (EnclaveFailed e)), j, s)
                           | (Inr resp, s) \<Rightarrow>
                               if \<not> status_is ''success'' resp
                               then (Ok (withdraw_outcome req ''error'' None
                                 (MarginRefused (str_or ''margin check failed'' (json_index resp ''message'')))), j, s)
                               else
                                 (let j = record_if to_string saved1 (entry None) j
                                  in if \<not> ww_client W then (Err HttpClientFailed, j, s)
                                     else case collect_signers W tx (wr_user_id req) amount_fp8 (sg_quorum cfg) (sg_signers cfg) [] s of
                                       (collected, s) \<Rightarrow>
                                         if length collected < sg_quorum cfg
                                         then (Ok (withdraw_outcome req ''error'' None (TooFewSignatures (length collected) (sg_quorum cfg))), j, s)
                                         else apfst Ok (submit_signed W to_string saved2 req tx entry collected j s))))))"

section \<open>The route\<close>

datatype withdraw_reply = BadDestination | NotConfigured | Processed "withdraw_error + withdraw_result"

definition withdraw_destination_ok :: "string \<Rightarrow> bool" where
  "withdraw_destination_ok d \<longleftrightarrow> starts_with ''r'' d \<and> 25 \<le> length d \<and> length d \<le> 35"

definition withdraw_route ::
  "'s wd_world \<Rightarrow> (journal \<Rightarrow> string) \<Rightarrow> bool \<Rightarrow> bool \<Rightarrow> string \<Rightarrow> signers_config option \<Rightarrow> withdraw_request
    \<Rightarrow> journal_handle option \<Rightarrow> 's \<Rightarrow> withdraw_reply \<times> journal_handle option \<times> 's" where
  "withdraw_route W to_string saved1 saved2 esc cfg req j s =
     (if \<not> withdraw_destination_ok (wr_destination req) then (BadDestination, j, s)
      else case cfg of
             None \<Rightarrow> (NotConfigured, j, s)
           | Some c \<Rightarrow> apfst Processed (process_withdrawal W to_string saved1 saved2 esc c req j s))"

end
