(* ===== verification/SignerList.thy ===== *)
theory SignerList
  imports WithdrawalFlow
begin

text \<open>
  \<^verbatim>\<open>orchestrator/src/signerlist_update.rs\<close> and \<^verbatim>\<open>membership_submit.rs\<close>: reading the signer list of the escrow,
  computing and building an update, collecting the signatures of the current signers over the
  relay, submitting, polling for validation, and sealing the new list in the local enclave; and
  the submitter the projection driver uses. The ledger node, the relay and the enclave are
  functions that carry the state of the world; sleeping between polls is left out. Transaction
  hashes are hexadecimal text, on which \<open>to_lowercase\<close> is the ASCII mapping.
\<close>

section \<open>The world\<close>

record 's slu_world =
  sl_lib :: xrpl_lib
  sl_account_objects :: "string \<Rightarrow> 's \<Rightarrow> http_reply \<times> 's"
  sl_account_info :: "string \<Rightarrow> 's \<Rightarrow> http_reply \<times> 's"
  sl_submit :: "json \<Rightarrow> 's \<Rightarrow> http_reply \<times> 's"
  sl_tx :: "string \<Rightarrow> 's \<Rightarrow> http_reply \<times> 's"
  sl_relay :: "string \<Rightarrow> relay \<Rightarrow> 's \<Rightarrow> relay_answer \<times> 's"
  sl_request_id :: "string \<Rightarrow> string"
  sl_client :: bool
  sl_get :: "string \<Rightarrow> 's \<Rightarrow> http_reply \<times> 's"
  sl_post :: "'s http_post"

datatype slu_error =
    NodeRequestFailed string
  | NodeReplyNotJson string
  | MissingField string
  | NoSignerList
  | NotInList string
  | AlreadyInList string
  | SizeOutsidePolicy nat
  | InvalidAddress string signer_error
  | QuorumOutsidePolicy nat nat
  | RelayClosed
  | SignaturesMissing nat nat
  | SubmitRejected submit_failure
  | NotValidated nat
  | EnclaveClientFailed
  | NotBootstrapped
  | InvalidEscrow signer_error
  | SealRejected json
  | BadHex string
  | HashLength nat

text \<open>\<open>.send().await?\<close> and \<open>.json().await?\<close>.\<close>

definition body_of :: "http_reply \<Rightarrow> slu_error + json" where
  "body_of reply =
     (case reply of NoAnswer e \<Rightarrow> Err (NodeRequestFailed e) | BadBody ok e \<Rightarrow> Err (NodeReplyNotJson e) | Body ok j \<Rightarrow> Ok j)"

section \<open>Computing an update\<close>

definition FEE_DROPS :: nat where "FEE_DROPS = 12000"

definition default_quorum :: "nat \<Rightarrow> nat" where
  "default_quorum n = (2 * n + 2) div 3"

text \<open>The \<open>BTreeSet\<close> of addresses is a set; it is read out in ascending order.\<close>

fun remove_all_in :: "string set \<Rightarrow> string list \<Rightarrow> slu_error + string set" where
  "remove_all_in A [] = Ok A"
| "remove_all_in A (r # rs) = (if r \<in> A then remove_all_in (A - {r}) rs else Err (NotInList r))"

fun insert_all_in :: "string set \<Rightarrow> string list \<Rightarrow> slu_error + string set" where
  "insert_all_in A [] = Ok A"
| "insert_all_in A (a # rest) = (if a \<in> A then Err (AlreadyInList a) else insert_all_in (insert a A) rest)"

fun check_addresses :: "xrpl_lib \<Rightarrow> string list \<Rightarrow> slu_error + unit" where
  "check_addresses L [] = Ok ()"
| "check_addresses L (a # rest) =
     (case decode_xrpl_address L a of Inl e \<Rightarrow> Err (InvalidAddress a e) | Inr _ \<Rightarrow> check_addresses L rest)"

definition compute_new_entries :: "xrpl_lib \<Rightarrow> string list \<Rightarrow> string list \<Rightarrow> string list \<Rightarrow> slu_error + string list" where
  "compute_new_entries L current add remove =
     result_bind (remove_all_in (set current) remove) (\<lambda>A.
     result_bind (insert_all_in A add) (\<lambda>A.
     let new_entries = sorted_list_of_set A
     in if \<not> (3 \<le> length new_entries \<and> length new_entries \<le> 8) then Err (SizeOutsidePolicy (length new_entries))
        else result_bind (check_addresses L new_entries) (\<lambda>_. Ok new_entries)))"

definition build_unsigned_tx :: "string \<Rightarrow> nat \<Rightarrow> nat \<Rightarrow> string list \<Rightarrow> tx_obj" where
  "build_unsigned_tx esc sq new_quorum new_entries =
     [(''TransactionType'', JStr ''SignerListSet''), (''Account'', JStr esc), (''Fee'', JStr (nat_to_dec FEE_DROPS)),
      (''Sequence'', JNum (int sq)), (''SigningPubKey'', JStr []), (''SignerQuorum'', JNum (int new_quorum)),
      (''SignerEntries'', JArr (map (\<lambda>a. JObj [(''SignerEntry'', JObj [(''Account'', JStr a), (''SignerWeight'', JNum 1)])]) new_entries))]"

section \<open>Reading the ledger\<close>

fun read_entries :: "json list \<Rightarrow> slu_error + (string \<times> nat) list" where
  "read_entries [] = Ok []"
| "read_entries (e # es) =
     result_bind (require (MissingField ''Account'') (json_as_str (json_index (json_index e ''SignerEntry'') ''Account''))) (\<lambda>acct.
     result_bind (require (MissingField ''SignerWeight'') (json_as_u64 (json_index (json_index e ''SignerEntry'') ''SignerWeight''))) (\<lambda>w.
     result_bind (read_entries es) (\<lambda>rest. Ok ((acct, w mod 2 ^ 32) # rest))))"

definition parse_signer_list_response :: "json \<Rightarrow> slu_error + (string \<times> nat) list \<times> nat" where
  "parse_signer_list_response resp =
     result_bind (require (MissingField ''account_objects'') (json_as_array (json_index (json_index resp ''result'') ''account_objects''))) (\<lambda>objects.
     result_bind (require NoSignerList (find (\<lambda>x. json_as_str (json_index x ''LedgerEntryType'') = Some ''SignerList'') objects)) (\<lambda>signer_list.
     result_bind (require (MissingField ''SignerEntries'') (json_as_array (json_index signer_list ''SignerEntries''))) (\<lambda>raw.
     result_bind (read_entries raw) (\<lambda>es.
     result_bind (require (MissingField ''SignerQuorum'') (json_as_u64 (json_index signer_list ''SignerQuorum''))) (\<lambda>q.
     Ok (es, q mod 2 ^ 32))))))"

definition fetch_current_signerlist :: "'s slu_world \<Rightarrow> string \<Rightarrow> 's \<Rightarrow> (slu_error + (string \<times> nat) list \<times> nat) \<times> 's" where
  "fetch_current_signerlist W esc s =
     (case sl_account_objects W esc s of (reply, s) \<Rightarrow> (result_bind (body_of reply) parse_signer_list_response, s))"

definition slu_account_sequence :: "'s slu_world \<Rightarrow> string \<Rightarrow> 's \<Rightarrow> (slu_error + nat) \<times> 's" where
  "slu_account_sequence W account s =
     (case sl_account_info W account s of
        (reply, s) \<Rightarrow> (result_bind (body_of reply) (\<lambda>resp.
          map_sum id (\<lambda>n. n mod 2 ^ 32)
            (require (MissingField ''Sequence'') (json_as_u64 (json_index (json_index (json_index resp ''result'') ''account_data'') ''Sequence'')))), s))"

definition slu_submit_multisigned :: "'s slu_world \<Rightarrow> json \<Rightarrow> 's \<Rightarrow> (slu_error + string) \<times> 's" where
  "slu_submit_multisigned W tx s =
     (case sl_submit W tx s of (reply, s) \<Rightarrow> (map_sum SubmitRejected id (read_submit_reply reply), s))"

section \<open>Polling\<close>

definition or_str :: "json \<Rightarrow> json \<Rightarrow> string option" where
  "or_str a b = (case json_as_str a of Some x \<Rightarrow> Some x | None \<Rightarrow> json_as_str b)"

text \<open>One answer: \<open>None\<close> when the transaction is not validated yet.\<close>

definition read_tx_reply :: "http_reply \<Rightarrow> slu_error + (string \<times> nat) option" where
  "read_tx_reply reply =
     result_bind (body_of reply) (\<lambda>resp.
       let result = json_index resp ''result''
       in if json_as_bool (json_index result ''validated'') = Some True
          then result_bind (require (MissingField ''tx blob'') (or_str (json_index result ''tx'') (json_index result ''tx_blob''))) (\<lambda>hexblob.
               result_bind (require (MissingField ''ledger_index'') (json_as_u64 (json_index result ''ledger_index''))) (\<lambda>ledger.
               Ok (Some (map ascii_lower hexblob, ledger))))
          else Ok None)"

fun poll_loop :: "'s slu_world \<Rightarrow> string \<Rightarrow> nat \<Rightarrow> nat \<Rightarrow> 's \<Rightarrow> (slu_error + string \<times> nat) \<times> 's" where
  "poll_loop W h max_attempts 0 s = (Err (NotValidated max_attempts), s)"
| "poll_loop W h max_attempts (Suc left) s =
     (case sl_tx W h s of
        (reply, s) \<Rightarrow>
          (case read_tx_reply reply of
             Inl e \<Rightarrow> (Err e, s)
           | Inr (Some r) \<Rightarrow> (Ok r, s)
           | Inr None \<Rightarrow> poll_loop W h max_attempts left s))"

definition poll_validated_tx_bounded :: "'s slu_world \<Rightarrow> string \<Rightarrow> nat \<Rightarrow> 's \<Rightarrow> (slu_error + string \<times> nat) \<times> 's" where
  "poll_validated_tx_bounded W h max_attempts s = poll_loop W h max_attempts max_attempts s"

definition poll_validated_tx :: "'s slu_world \<Rightarrow> string \<Rightarrow> 's \<Rightarrow> (slu_error + string \<times> nat) \<times> 's" where
  "poll_validated_tx W h s = poll_validated_tx_bounded W h 5 s"

section \<open>Collecting signatures\<close>

text \<open>
  The loop over the current signers: \<open>resolve\<close> gives the address and the account id of one, or skips
  it; \<open>stop\<close> is the number of signatures at which it stops early. A closed relay ends the whole
  operation, any other failure of one signer is passed over.
\<close>

fun collect_via_relay ::
  "'s slu_world \<Rightarrow> json \<Rightarrow> string option \<Rightarrow> ('a \<Rightarrow> (string \<times> string) option) \<Rightarrow> nat option \<Rightarrow> 'a list \<Rightarrow> json list \<Rightarrow> 's
    \<Rightarrow> (slu_error + json list) \<times> 's" where
  "collect_via_relay W tx bndl resolve stop [] collected s = (Ok collected, s)"
| "collect_via_relay W tx bndl resolve stop (x # rest) collected s =
     (if (case stop of Some q \<Rightarrow> q \<le> length collected | None \<Rightarrow> False) then (Ok collected, s)
      else case resolve x of
             None \<Rightarrow> collect_via_relay W tx bndl resolve stop rest collected s
           | Some (addr, acct_hex) \<Rightarrow>
               (let rid = sl_request_id W addr
                in case sl_relay W rid (SigningRelay rid tx acct_hex addr bndl None None) s of
                     (answer, s) \<Rightarrow>
                       (case read_relay_answer answer of
                          Inl RelayChannelClosed \<Rightarrow> (Err RelayClosed, s)
                        | Inl e \<Rightarrow> collect_via_relay W tx bndl resolve stop rest collected s
                        | Inr (der, pk) \<Rightarrow>
                            collect_via_relay W tx bndl resolve stop rest
                              (collected @ [JObj [(''Signer'', JObj [(''Account'', JStr addr), (''SigningPubKey'', JStr pk),
                                                                      (''TxnSignature'', JStr der)])]]) s)))"

definition resolve_signer :: "xrpl_lib \<Rightarrow> signers_config \<Rightarrow> string \<Rightarrow> (string \<times> string) option" where
  "resolve_signer L cfg current_addr =
     (case find (\<lambda>c. sc_xrpl_address c = current_addr) (sg_signers cfg) of
        None \<Rightarrow> None
      | Some signer \<Rightarrow>
          (case decode_xrpl_address L (sc_xrpl_address signer) of
             Inl _ \<Rightarrow> None
           | Inr acct \<Rightarrow> Some (sc_xrpl_address signer, hex_enc L acct)))"

text \<open>The signatures, if there are enough, sorted into the transaction.\<close>

definition assemble :: "xrpl_lib \<Rightarrow> nat \<Rightarrow> tx_obj \<Rightarrow> json list \<Rightarrow> slu_error + json" where
  "assemble L quorum tx collected =
     (if length collected < quorum then Err (SignaturesMissing (length collected) quorum)
      else Ok (JObj (set_field ''Signers'' (JArr (sort_signers L collected)) tx)))"

section \<open>Sealing in the local enclave\<close>

definition account_hex_or_empty :: "xrpl_lib \<Rightarrow> string \<Rightarrow> string" where
  "account_hex_or_empty L addr = (case decode_xrpl_address L addr of Inr acct \<Rightarrow> hex_enc L acct | Inl _ \<Rightarrow> [])"

definition seal_payload_json ::
  "xrpl_lib \<Rightarrow> string \<Rightarrow> nat \<Rightarrow> nat \<Rightarrow> string \<Rightarrow> string \<Rightarrow> string list \<Rightarrow> (string \<times> json) list" where
  "seal_payload_json L escrow_acct_hex quorum ledger h hexblob es =
     [(''escrow_account_id'', JStr escrow_acct_hex), (''quorum_threshold'', JNum (int quorum)),
      (''ledger_index'', JNum (int ledger)), (''tx_hash'', JStr (map ascii_lower h)), (''signed_xrpl_tx_blob'', JStr hexblob),
      (''signers'', JArr (map (\<lambda>a. JObj [(''account_id'', JStr (account_hex_or_empty L a)), (''weight'', JNum 1)]) es))]"

definition post_seal :: "'s slu_world \<Rightarrow> string \<Rightarrow> json \<Rightarrow> 's \<Rightarrow> (slu_error + unit) \<times> 's" where
  "post_seal W url payload s =
     (if \<not> sl_client W then (Err EnclaveClientFailed, s)
      else case sl_post W url payload s of
             (reply, s) \<Rightarrow> (result_bind (body_of reply) (\<lambda>resp.
                if json_as_str (json_index resp ''status'') \<noteq> Some ''ok'' then Err (SealRejected resp) else Ok ()), s))"

definition fetch_enclave_signerlist_version :: "'s slu_world \<Rightarrow> string \<Rightarrow> 's \<Rightarrow> (slu_error + nat) \<times> 's" where
  "fetch_enclave_signerlist_version W base s =
     (if \<not> sl_client W then (Err EnclaveClientFailed, s)
      else case sl_get W (base @ ''/admin/signerlist/status'') s of
             (reply, s) \<Rightarrow> (result_bind (body_of reply) (\<lambda>resp.
                if json_as_bool (json_index resp ''bootstrapped'') \<noteq> Some True then Err NotBootstrapped
                else require (MissingField ''signerlist_version'') (json_as_u64 (json_index resp ''signerlist_version''))), s))"

definition seal_signerlist_after_landed ::
  "'s slu_world \<Rightarrow> string \<Rightarrow> string \<Rightarrow> string \<Rightarrow> string list \<Rightarrow> nat \<Rightarrow> 's \<Rightarrow> (slu_error + nat) \<times> 's" where
  "seal_signerlist_after_landed W base esc h new_entries new_quorum s =
     (case poll_validated_tx W h s of
        (Inl e, s) \<Rightarrow> (Err e, s)
      | (Inr (hexblob, ledger), s) \<Rightarrow>
          (case fetch_enclave_signerlist_version W base s of
             (Inl e, s) \<Rightarrow> (Err e, s)
           | (Inr current_version, s) \<Rightarrow>
               (let proposed = u64_add current_version 1
                in case decode_xrpl_address (sl_lib W) esc of
                     Inl e \<Rightarrow> (Err (InvalidEscrow e), s)
                   | Inr acct \<Rightarrow>
                       (case post_seal W (base @ ''/admin/signerlist/seal-update'')
                           (JObj (seal_payload_json (sl_lib W) (hex_enc (sl_lib W) acct) new_quorum ledger h hexblob new_entries
                                  @ [(''proposed_version'', JNum (int proposed))])) s of
                          (r, s) \<Rightarrow> (map_sum id (\<lambda>_. proposed) r, s)))))"

definition seal_signerlist_initial_after_landed ::
  "'s slu_world \<Rightarrow> string \<Rightarrow> string \<Rightarrow> string \<Rightarrow> string list \<Rightarrow> nat \<Rightarrow> 's \<Rightarrow> (slu_error + unit) \<times> 's" where
  "seal_signerlist_initial_after_landed W base esc h es quorum s =
     (case poll_validated_tx W h s of
        (Inl e, s) \<Rightarrow> (Err e, s)
      | (Inr (hexblob, ledger), s) \<Rightarrow>
          (case decode_xrpl_address (sl_lib W) esc of
             Inl e \<Rightarrow> (Err (InvalidEscrow e), s)
           | Inr acct \<Rightarrow>
               post_seal W (base @ ''/admin/signerlist/seal-initial'')
                 (JObj (seal_payload_json (sl_lib W) (hex_enc (sl_lib W) acct) quorum ledger h hexblob es)) s))"

section \<open>The update driver\<close>

record slu_config =
  ad_escrow_address :: string
  ad_signers_config :: signers_config
  ad_enclave_url :: string

record slu_request =
  su_add :: "string list"
  su_remove :: "string list"
  su_quorum :: "nat option"
  su_dry_run :: bool

datatype seal_note = DryRun | Sealed nat | SealFailed slu_error

record slu_response =
  sr_status :: string
  sr_current_signer_list :: "string list"
  sr_current_quorum :: nat
  sr_new_signer_list :: "string list"
  sr_new_quorum :: nat
  sr_xrpl_tx_hash :: "string option"
  sr_unsigned_tx :: "json option"
  sr_message :: seal_note

text \<open>Steps 4 to 6 of both drivers: collect, assemble, submit.\<close>

definition sign_and_submit ::
  "'s slu_world \<Rightarrow> slu_config \<Rightarrow> tx_obj \<Rightarrow> nat \<Rightarrow> nat option \<Rightarrow> string list \<Rightarrow> 's \<Rightarrow> (slu_error + string) \<times> 's" where
  "sign_and_submit W cfg tx quorum stop current s =
     (case collect_via_relay W (JObj tx) None (resolve_signer (sl_lib W) (ad_signers_config cfg)) stop current [] s of
        (Inl e, s) \<Rightarrow> (Err e, s)
      | (Inr collected, s) \<Rightarrow>
          (case assemble (sl_lib W) quorum tx collected of
             Inl e \<Rightarrow> (Err e, s)
           | Inr full_tx \<Rightarrow> slu_submit_multisigned W full_tx s))"

definition drive :: "'s slu_world \<Rightarrow> slu_config \<Rightarrow> slu_request \<Rightarrow> 's \<Rightarrow> (slu_error + slu_response) \<times> 's" where
  "drive W cfg req s =
     (case fetch_current_signerlist W (ad_escrow_address cfg) s of
        (Inl e, s) \<Rightarrow> (Err e, s)
      | (Inr (current_pairs, current_quorum), s) \<Rightarrow>
          (let current = map fst current_pairs
           in case compute_new_entries (sl_lib W) current (su_add req) (su_remove req) of
                Inl e \<Rightarrow> (Err e, s)
              | Inr new_entries \<Rightarrow>
                  (let new_quorum = (case su_quorum req of Some q \<Rightarrow> q | None \<Rightarrow> default_quorum (length new_entries))
                   in if \<not> (2 \<le> new_quorum \<and> new_quorum \<le> length new_entries)
                      then (Err (QuorumOutsidePolicy new_quorum (length new_entries)), s)
                      else case slu_account_sequence W (ad_escrow_address cfg) s of
                             (Inl e, s) \<Rightarrow> (Err e, s)
                           | (Inr sq, s) \<Rightarrow>
                               (let tx = build_unsigned_tx (ad_escrow_address cfg) sq new_quorum new_entries;
                                    respond = (\<lambda>status hash unsigned note.
                                      \<lparr>sr_status = status, sr_current_signer_list = current, sr_current_quorum = current_quorum,
                                       sr_new_signer_list = new_entries, sr_new_quorum = new_quorum, sr_xrpl_tx_hash = hash,
                                       sr_unsigned_tx = unsigned, sr_message = note\<rparr>)
                                in if su_dry_run req then (Ok (respond ''dry_run'' None (Some (JObj tx)) DryRun), s)
                                   else case sign_and_submit W cfg tx current_quorum (Some current_quorum) current s of
                                          (Inl e, s) \<Rightarrow> (Err e, s)
                                        | (Inr h, s) \<Rightarrow>
                                            (case seal_signerlist_after_landed W (ad_enclave_url cfg) (ad_escrow_address cfg) h new_entries new_quorum s of
                                               (Inr version, s) \<Rightarrow> (Ok (respond ''success'' (Some h) None (Sealed version)), s)
                                             | (Inl e, s) \<Rightarrow> (Ok (respond ''success'' (Some h) None (SealFailed e)), s))))))"

record rotate_response =
  rr_status :: string
  rr_signer_list :: "string list"
  rr_quorum :: nat
  rr_xrpl_tx_hash :: "string option"
  rr_unsigned_tx :: "json option"
  rr_message :: seal_note

definition drive_bootstrap_rotate :: "'s slu_world \<Rightarrow> slu_config \<Rightarrow> bool \<Rightarrow> 's \<Rightarrow> (slu_error + rotate_response) \<times> 's" where
  "drive_bootstrap_rotate W cfg dry_run s =
     (case fetch_current_signerlist W (ad_escrow_address cfg) s of
        (Inl e, s) \<Rightarrow> (Err e, s)
      | (Inr (pairs, quorum), s) \<Rightarrow>
          (let es = map fst pairs
           in case slu_account_sequence W (ad_escrow_address cfg) s of
                (Inl e, s) \<Rightarrow> (Err e, s)
              | (Inr sq, s) \<Rightarrow>
                  (let tx = build_unsigned_tx (ad_escrow_address cfg) sq quorum es;
                       respond = (\<lambda>status hash unsigned note.
                         \<lparr>rr_status = status, rr_signer_list = es, rr_quorum = quorum, rr_xrpl_tx_hash = hash,
                          rr_unsigned_tx = unsigned, rr_message = note\<rparr>)
                   in if dry_run then (Ok (respond ''dry_run'' None (Some (JObj tx)) DryRun), s)
                      else case sign_and_submit W cfg tx quorum None es s of
                             (Inl e, s) \<Rightarrow> (Err e, s)
                           | (Inr h, s) \<Rightarrow>
                               (case seal_signerlist_initial_after_landed W (ad_enclave_url cfg) (ad_escrow_address cfg) h es quorum s of
                                  (Inr _, s) \<Rightarrow> (Ok (respond ''success'' (Some h) None (Sealed 1)), s)
                                | (Inl e, s) \<Rightarrow> (Ok (respond ''success'' (Some h) None (SealFailed e)), s)))))"

section \<open>The submitter of the projection\<close>

record projection_submitter =
  ps_current_signers :: "(string \<times> string) list"
  ps_quorum :: nat
  ps_poll_attempts :: nat
  ps_poll_interval_ms :: nat

definition submitter_new :: "(string \<times> string) list \<Rightarrow> nat \<Rightarrow> projection_submitter" where
  "submitter_new current_signers quorum =
     \<lparr>ps_current_signers = current_signers, ps_quorum = quorum, ps_poll_attempts = 20, ps_poll_interval_ms = 2000\<rparr>"

definition with_poll :: "nat \<Rightarrow> nat \<Rightarrow> projection_submitter \<Rightarrow> projection_submitter" where
  "with_poll attempts interval_ms p = p\<lparr>ps_poll_attempts := attempts, ps_poll_interval_ms := interval_ms\<rparr>"

text \<open>\<open>full_tx["Signers"] = ...\<close> on a value that is not an object panics; the driver renders an object.\<close>

definition collect_and_assemble ::
  "'s slu_world \<Rightarrow> projection_submitter \<Rightarrow> tx_obj \<Rightarrow> string \<Rightarrow> 's \<Rightarrow> (slu_error + json) \<times> 's" where
  "collect_and_assemble W p tx bundle_hex s =
     (case collect_via_relay W (JObj tx) (Some bundle_hex) Some (Some (ps_quorum p)) (ps_current_signers p) [] s of
        (Inl e, s) \<Rightarrow> (Err e, s)
      | (Inr collected, s) \<Rightarrow> (assemble (sl_lib W) (ps_quorum p) tx collected, s))"

definition confirmed_tx :: "xrpl_lib \<Rightarrow> string \<Rightarrow> string \<times> nat \<Rightarrow> slu_error + projection_confirmed_tx" where
  "confirmed_tx L h r =
     result_bind (require (BadHex ''validated tx blob'') (hex_dec L (fst r))) (\<lambda>tx_bytes.
     result_bind (require (BadHex ''tx_hash'') (hex_dec L h)) (\<lambda>hash_bytes.
     if length hash_bytes \<noteq> 32 then Err (HashLength (length hash_bytes))
     else Ok \<lparr>signed_tx_blob = tx_bytes, pc_tx_hash = hash_bytes, pc_ledger_index = snd r\<rparr>))"

definition sign_submit_confirm ::
  "'s slu_world \<Rightarrow> projection_submitter \<Rightarrow> tx_obj \<Rightarrow> string \<Rightarrow> 's \<Rightarrow> (slu_error + projection_confirmed_tx) \<times> 's" where
  "sign_submit_confirm W p tx bundle_hex s =
     (case collect_and_assemble W p tx bundle_hex s of
        (Inl e, s) \<Rightarrow> (Err e, s)
      | (Inr full_tx, s) \<Rightarrow>
          (case slu_submit_multisigned W full_tx s of
             (Inl e, s) \<Rightarrow> (Err e, s)
           | (Inr h, s) \<Rightarrow>
               (case poll_validated_tx_bounded W h (ps_poll_attempts p) s of
                  (Inl e, s) \<Rightarrow> (Err e, s)
                | (Inr r, s) \<Rightarrow> (confirmed_tx (sl_lib W) h r, s))))"

end
