(* ===== verification/WithdrawalFlow_Props.thy ===== *)
theory WithdrawalFlow_Props
  imports WithdrawalFlow
begin

text \<open>
  Properties of the withdrawal flow: what the enclave has reserved is in the journal whatever happens
  next, a withdrawal is reported as submitted only with a quorum of sorted signatures on the payment that
  was reserved, and the payment is one the co-signers' policy accepts.
\<close>

section \<open>The reservation\<close>

definition local_of :: "signers_config \<Rightarrow> signer_config option" where
  "local_of cfg = (case sg_local_signer cfg of Some l \<Rightarrow> Some l | None \<Rightarrow> (case sg_signers cfg of l # _ \<Rightarrow> Some l | [] \<Rightarrow> None))"

definition sequence_read :: "'s wd_world \<Rightarrow> string \<Rightarrow> nat" where
  "sequence_read W esc = (case fetch_account_sequence (ww_account_info W esc) of Some n \<Rightarrow> n | None \<Rightarrow> 1)"

definition payment_of :: "'s wd_world \<Rightarrow> string \<Rightarrow> signers_config \<Rightarrow> withdraw_request \<Rightarrow> nat \<Rightarrow> tx_obj" where
  "payment_of W esc cfg req ll = withdrawal_payment esc req (sg_quorum cfg) (sequence_read W esc) ll (ww_drops W (wr_amount req))"

text \<open>The enclave reserved the withdrawal: the last ledger of the payment and the state after the call.\<close>

definition reservation :: "'s wd_world \<Rightarrow> string \<Rightarrow> signers_config \<Rightarrow> withdraw_request \<Rightarrow> 's \<Rightarrow> (nat \<times> 's) option" where
  "reservation W esc cfg req s =
     (case withdrawal_last_ledger (ww_server_info W) of
        Inl e \<Rightarrow> None
      | Inr ll \<Rightarrow>
          (case local_of cfg of
             None \<Rightarrow> None
           | Some loc \<Rightarrow>
               (case serialize_json_object (ww_codec W) (payment_of W esc cfg req ll) of
                  Inl e \<Rightarrow> None
                | Inr tx_bytes \<Rightarrow>
                    (case ww_withdraw W (wr_user_id req) (wr_amount req) (sc_address loc)
                        (strip_tokens [''0x''] (sc_session_key loc)) (hex_enc (ww_lib W) tx_bytes) s of
                       (Inl e, s') \<Rightarrow> None
                     | (Inr resp, s') \<Rightarrow> if status_is ''success'' resp then Some (ll, s') else None))))"

lemma process_not_reserved:
  assumes "reservation W esc cfg req s = None" "process_withdrawal W to_string saved1 saved2 esc cfg req j s = (res, j', s')"
  shows "j' = j \<and> (\<forall>r. res = Ok r \<longrightarrow> wres_status r = ''error'')"
  using assms unfolding process_withdrawal_def reservation_def payment_of_def sequence_read_def local_of_def
  by (auto simp: Let_def withdraw_outcome_def split: sum.splits option.splits prod.splits if_splits list.splits)

lemma process_reserved:
  assumes "reservation W esc cfg req s = Some (ll, s1)"
  shows "process_withdrawal W to_string saved1 saved2 esc cfg req j s =
    (let tx = payment_of W esc cfg req ll; drops = ww_drops W (wr_amount req);
         entry = mk_journal_entry W esc req (sequence_read W esc) ll drops; j1 = record_if to_string saved1 (entry None) j
     in if \<not> ww_client W then (Err HttpClientFailed, j1, s1)
        else case collect_signers W tx (wr_user_id req) (fp8_of_drops drops) (sg_quorum cfg) (sg_signers cfg) [] s1 of
          (collected, s2) \<Rightarrow>
            if length collected < sg_quorum cfg
            then (Ok (withdraw_outcome req ''error'' None (TooFewSignatures (length collected) (sg_quorum cfg))), j1, s2)
            else apfst Ok (submit_signed W to_string saved2 req tx entry collected j1 s2))"
  using assms unfolding process_withdrawal_def reservation_def payment_of_def sequence_read_def local_of_def
  by (auto simp: Let_def split: sum.splits option.splits prod.splits if_splits list.splits)

lemma slot_mk [simp]: "slot_of (mk_journal_entry W esc req sq ll drops hash) = (esc, sq)"
  by (simp add: slot_of_def mk_journal_entry_def)

lemma journal_twice:
  assumes "slots_ok j" "slot_of e = slot_of e'"
  shows "journal_lookup (journal_upsert e' (journal_upsert e j)) = (journal_lookup j)(slot_of e' \<mapsto> e')"
  using assms by (simp add: wj.put_ok wj.lookup_put)

text \<open>
  C22. Whatever becomes of a withdrawal after the local enclave reserved it, the journal holds it: under
  the escrow and the sequence number the payment was built with, with its last ledger, amount,
  destination and owner, and no other slot is touched. A withdrawal the enclave did not reserve leaves
  the journal alone and is not reported as submitted. The sequence number is 1 when the ledger could not
  be asked.
\<close>

theorem reserved_withdrawal_is_journalled:
  assumes "slots_ok (held h)" "process_withdrawal W to_string saved1 saved2 esc cfg req (Some h) s = (res, j', s')"
  shows "case reservation W esc cfg req s of
      None \<Rightarrow> j' = Some h \<and> (\<forall>r. res = Ok r \<longrightarrow> wres_status r = ''error'')
    | Some (ll, s1) \<Rightarrow> \<exists>h' e. j' = Some h' \<and> journal_lookup (held h') = (journal_lookup (held h))(slot_of e \<mapsto> e)
        \<and> escrow e = esc \<and> sequence e = (case fetch_account_sequence (ww_account_info W esc) of Some n \<Rightarrow> n | None \<Rightarrow> 1)
        \<and> last_ledger_sequence e = ll \<and> amount_drops e = ww_drops W (wr_amount req) \<and> pw_destination e = wr_destination req
        \<and> pw_user_id e = wr_user_id req \<and> (submitted_hash e \<noteq> None \<longrightarrow> (\<exists>r. res = Ok r \<and> wres_tx_hash r = submitted_hash e))"
proof (cases "reservation W esc cfg req s")
  case None
  with process_not_reserved [OF None assms(2)] show ?thesis by simp
next
  case (Some p)
  obtain ll s1 where p: "p = (ll, s1)" by (cases p)
  let ?e = "mk_journal_entry W esc req (sequence_read W esc) ll (ww_drops W (wr_amount req))"
  have up: "journal_lookup (journal_upsert (?e hash) (held h)) = (journal_lookup (held h))(slot_of (?e hash) \<mapsto> ?e hash)" for hash
    by (rule wj.lookup_put [OF assms(1)])
  have twice: "journal_lookup (journal_upsert (?e hash) (journal_upsert (?e None) (held h)))
      = (journal_lookup (held h))(slot_of (?e hash) \<mapsto> ?e hash)" for hash
    by (rule journal_twice [OF assms(1)]) simp
  have "\<exists>h' hash. j' = Some h' \<and> journal_lookup (held h') = (journal_lookup (held h))(slot_of (?e hash) \<mapsto> ?e hash)
      \<and> (hash \<noteq> None \<longrightarrow> (\<exists>r. res = Ok r \<and> wres_tx_hash r = hash))"
    using assms(2) up [of None] twice unfolding process_reserved [OF Some [unfolded p]] Let_def record_if_def submit_signed_def
    by (auto simp: withdraw_outcome_def apfst_def split: if_splits prod.splits sum.splits)
  then obtain h' hash where h': "j' = Some h'" "journal_lookup (held h') = (journal_lookup (held h))(slot_of (?e hash) \<mapsto> ?e hash)"
    "hash \<noteq> None \<longrightarrow> (\<exists>r. res = Ok r \<and> wres_tx_hash r = hash)" by blast
  have f: "escrow (?e hash) = esc" "sequence (?e hash) = (case fetch_account_sequence (ww_account_info W esc) of Some n \<Rightarrow> n | None \<Rightarrow> 1)"
    "last_ledger_sequence (?e hash) = ll" "amount_drops (?e hash) = ww_drops W (wr_amount req)"
    "pw_destination (?e hash) = wr_destination req" "pw_user_id (?e hash) = wr_user_id req" "submitted_hash (?e hash) = hash"
    by (simp_all add: mk_journal_entry_def sequence_read_def)
  show ?thesis unfolding Some p option.case prod.case
    by (intro exI [of _ h'] exI [of _ "?e hash"] conjI f h') (simp add: f h'(3))
qed

section \<open>The signatures\<close>

lemma collect_signers_spec:
  assumes "collect_signers W tx uid a q signers col s = (col', s')"
  shows "\<exists>ps. col' = col @ map (\<lambda>(c, sig). signer_json c sig) ps \<and> subseq (map fst ps) signers
    \<and> (\<forall>c\<in>fst ` set ps. \<exists>acct. decode_xrpl_address (ww_lib W) (sc_xrpl_address c) = Ok acct)
    \<and> (length col \<le> q \<longrightarrow> length col' \<le> q)"
  using assms
proof (induction signers arbitrary: col s)
  case (Cons c signers)
  consider (enough) "q \<le> length col" | (skip) t where "\<not> q \<le> length col" "collect_signers W tx uid a q signers col t = (col', s')"
    | (take) t sig acct where "\<not> q \<le> length col" "decode_xrpl_address (ww_lib W) (sc_xrpl_address c) = Ok acct"
        "collect_signers W tx uid a q signers (col @ [signer_json c sig]) t = (col', s')"
    using Cons.prems by (auto split: if_splits sum.splits prod.splits)
  then show ?case
  proof cases
    case enough
    then show ?thesis using Cons.prems by auto
  next
    case skip
    from Cons.IH [OF skip(2)] obtain ps where "col' = col @ map (\<lambda>(c, sig). signer_json c sig) ps" "subseq (map fst ps) signers"
      "\<forall>c\<in>fst ` set ps. \<exists>acct. decode_xrpl_address (ww_lib W) (sc_xrpl_address c) = Ok acct" "length col \<le> q \<longrightarrow> length col' \<le> q" by blast
    then show ?thesis by (intro exI [of _ ps]) (auto intro: list_emb_Cons)
  next
    case take
    from Cons.IH [OF take(3)] obtain ps where "col' = (col @ [signer_json c sig]) @ map (\<lambda>(c, sig). signer_json c sig) ps"
      "subseq (map fst ps) signers" "\<forall>c\<in>fst ` set ps. \<exists>acct. decode_xrpl_address (ww_lib W) (sc_xrpl_address c) = Ok acct"
      "length (col @ [signer_json c sig]) \<le> q \<longrightarrow> length col' \<le> q" by blast
    with take show ?thesis by (intro exI [of _ "(c, sig) # ps"]) auto
  qed
qed simp

lemma signers_is_new: "set_field ''Signers'' v (payment_of W esc cfg req ll) = payment_of W esc cfg req ll @ [(''Signers'', v)]"
  by (auto simp: set_field_def payment_of_def withdrawal_payment_def split: option.splits)


section \<open>The policy of the co-signers\<close>

lemma payment_fields:
  "map_of (withdrawal_payment esc req q sq ll d) ''Account'' = Some (JStr esc)"
  "map_of (withdrawal_payment esc req q sq ll d) ''SigningPubKey'' = Some (JStr [])"
  "map_of (withdrawal_payment esc req q sq ll d) ''TransactionType'' = Some (JStr ''Payment'')"
  "map_of (withdrawal_payment esc req q sq ll d) ''Destination'' = Some (JStr (wr_destination req))"
  "map_of (withdrawal_payment esc req q sq ll d) ''Amount'' = Some (JStr (nat_to_dec d))"
  by (simp_all add: withdrawal_payment_def)

lemma payment_allowed:
  "tx_allowed L (withdrawal_payment esc req q sq ll d) e \<longleftrightarrow> e = esc \<and> (\<exists>r. wr_destination req = CHR ''r'' # r) \<and> wr_destination req \<noteq> esc"
  unfolding tx_allowed_def payment_ok_def payment_fields by auto

text \<open>
  A withdrawal that passed the route is one every co-signer of the same escrow signs, unless it
  pays the escrow itself: the payment meets the policy of a peer addressed by its own account id exactly
  if its destination is not the escrow and the codec hashes it.
\<close>

theorem withdrawal_meets_policy:
  assumes "lib_ok L" "withdraw_destination_ok (wr_destination req)" "addressed_to L l (hex_enc L acct) acct"
  shows "validate_signing_policy L C l (Some esc) (JObj (withdrawal_payment esc req q sq ll d)) (hex_enc L acct) = Ok h \<longleftrightarrow>
    wr_destination req \<noteq> esc \<and> multi_signing_hash C (withdrawal_payment esc req q sq ll d) acct = Ok h"
proof -
  have "\<exists>r. wr_destination req = CHR ''r'' # r"
    using assms(2) by (cases "wr_destination req") (auto simp: withdraw_destination_ok_def starts_with_def)
  moreover have "addressed_to L l (hex_enc L acct) a \<longleftrightarrow> a = acct" for a using assms(3) by (auto simp: addressed_to_def)
  ultimately show ?thesis unfolding validate_signing_policy_iff by (auto simp: payment_allowed)
qed

text \<open>A relay behind which every signer is a co-signer of the escrow with some enclave.\<close>

definition cosigner_relay :: "string \<Rightarrow> 's wd_world \<Rightarrow> bool" where
  "cosigner_relay esc W \<longleftrightarrow> (\<exists>stx. ww_relay W = Some stx \<and> (\<forall>rid tx hx addr b u a s. \<exists>(E :: nat signing_env) l t.
     fst (stx rid (SigningRelay rid tx hx addr b u a) s) = Answered (fst (handle_signing_request E l (Some esc) rid tx hx b (claim_of u a) t))))"

lemma refused_by_cosigner:
  assumes "\<not> tx_allowed (en_lib E) tx esc"
  shows "\<exists>e. read_relay_answer (Answered (fst (handle_signing_request E l (Some esc) rid (JObj tx) hx b cl t))) = Err e"
proof -
  obtain e where "validate_signing_policy (en_lib E) (en_codec E) l (Some esc) (JObj tx) hx = Err e"
    using assms validate_signing_policy_iff [of "en_lib E" "en_codec E" l "Some esc" "JObj tx" hx]
    by (cases "validate_signing_policy (en_lib E) (en_codec E) l (Some esc) (JObj tx) hx") auto
  then show ?thesis by (auto simp: handle_signing_request_def sign_error_def read_relay_answer_def)
qed

lemma collect_refused:
  assumes "cosigner_relay esc W" "\<And>L. \<not> tx_allowed L tx esc"
  shows "fst (collect_signers W tx uid a q signers [] s) = []"
proof (induction signers arbitrary: s)
  case (Cons c signers)
  have "\<exists>e. fst (sign_one W c tx acct uid a s) = Err e" for acct
  proof -
    obtain stx where stx: "ww_relay W = Some stx" using assms(1) by (auto simp: cosigner_relay_def)
    let ?rid = "ww_request_id W (sc_xrpl_address c)"
    obtain E :: "nat signing_env" and l t where
      "fst (stx ?rid (SigningRelay ?rid (JObj tx) (hex_enc (ww_lib W) acct) (sc_xrpl_address c) None (Some uid) (Some (nat_to_dec a))) s)
        = Answered (fst (handle_signing_request E l (Some esc) ?rid (JObj tx) (hex_enc (ww_lib W) acct) None (claim_of (Some uid) (Some (nat_to_dec a))) t))"
      using assms(1) stx unfolding cosigner_relay_def by fastforce
    then show ?thesis using refused_by_cosigner [OF assms(2), of E] by (auto simp: sign_one_def stx sign_via_p2p_def Let_def case_prod_beta)
  qed
  then show ?case using Cons.IH by (auto split: sum.splits prod.splits) (metis fst_conv sum.distinct(1))
qed simp

text \<open>
  A withdrawal to the escrow itself passes the route, is debited by the local enclave and journalled,
  and then no co-signer signs it: the caller is told that none of the required signatures was collected,
  and the debit stays until the reconcile loop unwinds it.
\<close>

theorem withdrawal_to_escrow_reserved_unsigned:
  assumes "wr_destination req = esc" "cosigner_relay esc W" "0 < sg_quorum cfg" "ww_client W"
    and "reservation W esc cfg req s = Some (ll, s1)" "slots_ok (held h)"
    and "process_withdrawal W to_string saved1 saved2 esc cfg req (Some h) s = (res, j', s')"
  shows "res = Ok (withdraw_outcome req ''error'' None (TooFewSignatures 0 (sg_quorum cfg)))
    \<and> (\<exists>h' e. j' = Some h' \<and> journal_lookup (held h') (slot_of e) = Some e \<and> escrow e = esc \<and> submitted_hash e = None)"
proof -
  have na: "\<not> tx_allowed L (payment_of W esc cfg req ll) esc" for L
    unfolding payment_of_def payment_allowed using assms(1) by simp
  let ?e = "mk_journal_entry W esc req (sequence_read W esc) ll (ww_drops W (wr_amount req)) None"
  have "res = Ok (withdraw_outcome req ''error'' None (TooFewSignatures 0 (sg_quorum cfg)))
      \<and> j' = Some (handle_record to_string saved1 ?e h)"
    using assms(3,4,7) collect_refused [OF assms(2) na] unfolding process_reserved [OF assms(5)] Let_def record_if_def
    by (auto split: prod.splits if_splits) (metis fst_conv list.size(3))+
  moreover have "journal_lookup (journal_upsert ?e (held h)) (slot_of ?e) = Some ?e" by (simp only: wj.lookup_put [OF assms(6)] fun_upd_same)
  moreover have "escrow ?e = esc" "submitted_hash ?e = None" by (simp_all add: mk_journal_entry_def)
  ultimately show ?thesis by (metis held_record)
qed

section \<open>A world to evaluate in\<close>

definition sample_signer_config :: signer_config where
  "sample_signer_config = \<lparr>sc_name = ''op1'', sc_enclave_url = ''http://localhost'', sc_address = ''0xab'', sc_session_key = ''11'',
     sc_compressed_pubkey = ''02'', sc_xrpl_address = account_id_to_r_address sample_lib sample_id, sc_ecdh_pubkey = None\<rparr>"

definition sample_signers :: signers_config where
  "sample_signers = \<lparr>sg_signers = [sample_signer_config], sg_quorum = 1, sg_escrow_address = ''rEscrow'', sg_local_signer = None\<rparr>"

definition sample_withdraw :: "string \<Rightarrow> withdraw_request" where
  "sample_withdraw d = \<lparr>wr_user_id = ''u'', wr_amount = ''1'', wr_destination = d, wr_destination_tag = None\<rparr>"

definition tes_reply :: http_reply where
  "tes_reply = Body True (JObj [(''result'', JObj [(''engine_result'', JStr ''tesSUCCESS''), (''hash'', JStr ''H'')])])"

text \<open>Every signer is a co-signer of the escrow, with the enclave of \<open>sample_env\<close>.\<close>

definition sample_world :: "nat wd_world" where
  "sample_world = \<lparr>ww_lib = sample_lib, ww_codec = en_codec sample_env,
     ww_account_info = (\<lambda>_. NoAnswer []),
     ww_server_info = Body True (JObj [(''result'', JObj [(''info'', JObj [(''validated_ledger'', JObj [(''seq'', JNum 100)])])])]),
     ww_drops = (\<lambda>_. 1000000), ww_withdraw = (\<lambda>u a f k b s. (Ok (JObj [(''status'', JStr ''success'')]), Suc s)),
     ww_relay = Some (\<lambda>rid r s. case r of SigningRelay i tx hx addr b u a \<Rightarrow>
         (Answered (fst (handle_signing_request sample_env sample_local (Some ''rEscrow'') i tx hx b (claim_of u a) 0)), s)
       | _ \<Rightarrow> (TimedOut, s)),
     ww_request_id = (\<lambda>_. ''0123456789abcdef''), ww_client = True, ww_post = (\<lambda>url body s. (NoAnswer [], s)),
     ww_submit = (\<lambda>tx s. (tes_reply, Suc s)), ww_now_ms = 5\<rparr>"

lemma sample_cosigners: "cosigner_relay ''rEscrow'' sample_world"
  unfolding cosigner_relay_def sample_world_def by auto

lemma sample_world_simps [simp]:
  "ww_lib sample_world = sample_lib" "ww_client sample_world" "ww_drops sample_world a = 1000000"
  "ww_account_info sample_world e = NoAnswer []" "ww_submit sample_world tx s = (tes_reply, Suc s)"
  "serialize_json_object (ww_codec sample_world) t = Ok []"
  by (simp_all add: sample_world_def sample_env_def)

lemma sample_reservation: "reservation sample_world e sample_signers (sample_withdraw d) 0 = Some (140, 1)"
proof -
  have "withdrawal_last_ledger (ww_server_info sample_world) = Ok 140"
    by (simp add: sample_world_def withdrawal_last_ledger_def own_validated_ledger_def json_index_def require_def
        WITHDRAWAL_LAST_LEDGER_WINDOW_def Let_def)
  moreover have "ww_withdraw sample_world u a f k b s = (Ok (JObj [(''status'', JStr ''success'')]), Suc s)" for u a f k b s
    by (simp add: sample_world_def)
  moreover have "local_of sample_signers = Some sample_signer_config" by (simp add: local_of_def sample_signers_def)
  ultimately show ?thesis by (simp add: reservation_def status_is_def json_index_def)
qed

abbreviation empty_journal :: journal_handle where
  "empty_journal \<equiv> \<lparr>held = journal_default, saved_file = None\<rparr>"

lemma empty_slots_ok [simp]: "slots_ok (held empty_journal)"
  by (simp add: slots_ok_def journal_default_def)

theorem reserved_withdrawal_is_journalled_witness:
  "\<exists>h' e. fst (snd (process_withdrawal sample_world (\<lambda>_. []) True True ''rEscrow'' sample_signers (sample_withdraw ''rUser'') (Some empty_journal) 0))
      = Some h' \<and> journal_lookup (held h') (''rEscrow'', 1) = Some e \<and> last_ledger_sequence e = 140 \<and> amount_drops e = 1000000"
proof -
  let ?r = "process_withdrawal sample_world (\<lambda>_. []) True True ''rEscrow'' sample_signers (sample_withdraw ''rUser'') (Some empty_journal) 0"
  have "?r = (fst ?r, fst (snd ?r), snd (snd ?r))" by simp
  from reserved_withdrawal_is_journalled [OF empty_slots_ok this] show ?thesis
    by (auto simp: sample_reservation fetch_account_sequence_def slot_of_def)
qed

theorem withdrawal_to_escrow_reserved_unsigned_witness:
  "fst (process_withdrawal sample_world (\<lambda>_. []) True True ''rEscrow'' sample_signers (sample_withdraw ''rEscrow'') (Some empty_journal) 0)
    = Ok (withdraw_outcome (sample_withdraw ''rEscrow'') ''error'' None (TooFewSignatures 0 1))"
proof -
  let ?r = "process_withdrawal sample_world (\<lambda>_. []) True True ''rEscrow'' sample_signers (sample_withdraw ''rEscrow'') (Some empty_journal) 0"
  have r: "?r = (fst ?r, fst (snd ?r), snd (snd ?r))" by simp
  have q: "sg_quorum sample_signers = 1" by (simp add: sample_signers_def)
  from withdrawal_to_escrow_reserved_unsigned [OF _ sample_cosigners _ _ sample_reservation empty_slots_ok r]
  show ?thesis by (simp add: sample_withdraw_def q)
qed

theorem withdrawal_meets_policy_witness:
  "validate_signing_policy sample_lib (en_codec sample_env) sample_local (Some ''rEscrow'')
     (JObj (withdrawal_payment ''rEscrow'' (sample_withdraw (CHR ''r'' # replicate 24 CHR ''a'')) 1 1 140 5)) (hex_enc sample_lib sample_id)
   = Ok sample_id"
proof -
  have "withdraw_destination_ok (wr_destination (sample_withdraw (CHR ''r'' # replicate 24 CHR ''a'')))"
    by (simp add: withdraw_destination_ok_def starts_with_def sample_withdraw_def)
  from withdrawal_meets_policy [OF sample_lib_ok this sample_addressed] show ?thesis
    by (simp add: sample_env_def sample_withdraw_def numeral_eq_Suc)
qed

lemma sample_process_success:
  "\<exists>r j' s'. process_withdrawal sample_world (\<lambda>_. []) True True ''rEscrow'' sample_signers (sample_withdraw ''rUser'') None 0 = (Ok r, j', s')
     \<and> wres_status r = ''success''"
proof -
  let ?tx = "payment_of sample_world ''rEscrow'' sample_signers (sample_withdraw ''rUser'') 140"
  have "tx_allowed sample_lib ?tx ''rEscrow''" unfolding payment_of_def payment_allowed by (simp add: sample_withdraw_def)
  then have v: "validate_signing_policy sample_lib (en_codec sample_env) sample_local (Some ''rEscrow'') (JObj ?tx) (hex_enc sample_lib sample_id)
      = Ok sample_id"
    unfolding validate_signing_policy_iff using sample_addressed by (auto simp: sample_env_def)
  have ty: "tx_get ?tx ''TransactionType'' = Some (JStr ''Payment'')" by (simp add: tx_get_def payment_of_def payment_fields)
  have e: "en_lib sample_env = sample_lib" "serialize_json_object (en_codec sample_env) tx = Ok []"
    "en_post sample_env url body s = (Body True sample_reply, Suc s)" for tx url body s
    by (simp_all add: sample_env_def)
  have "\<exists>sig. read_relay_answer (Answered (fst (handle_signing_request sample_env sample_local (Some ''rEscrow'') rid (JObj ?tx)
      (hex_enc sample_lib sample_id) None (claim_of (Some u) (Some a)) 0))) = Ok sig" for rid u a
    by (simp add: handle_signing_request_def v e ty claim_of_def enclave_sign_def sample_reply_def status_is_def json_index_def
        signed_response_def read_relay_answer_def)
  moreover have dec: "decode_xrpl_address sample_lib (sc_xrpl_address sample_signer_config) = Ok sample_id"
    by (simp add: sample_signer_config_def sample_id_def)
  moreover have "ww_relay sample_world = Some (\<lambda>rid r s. case r of SigningRelay i tx hx addr b u a \<Rightarrow>
      (Answered (fst (handle_signing_request sample_env sample_local (Some ''rEscrow'') i tx hx b (claim_of u a) 0)), s)
    | _ \<Rightarrow> (TimedOut, s))" by (simp add: sample_world_def)
  ultimately have sign: "\<exists>sig. sign_one sample_world sample_signer_config ?tx sample_id u a s = (Ok sig, s)" for u a s
    by (simp add: sign_one_def sign_via_p2p_def Let_def)
  have cfg: "sg_signers sample_signers = [sample_signer_config]" "sg_quorum sample_signers = 1" by (simp_all add: sample_signers_def)
  obtain c s2 where "collect_signers sample_world ?tx (wr_user_id (sample_withdraw ''rUser'')) (fp8_of_drops 1000000) 1 [sample_signer_config] [] 1
      = ([c], s2)" using sign [of "wr_user_id (sample_withdraw ''rUser'')" "fp8_of_drops 1000000" 1] dec by auto
  then show ?thesis
    unfolding process_reserved [OF sample_reservation] Let_def
    by (simp add: cfg submit_signed_def tes_reply_def read_submit_reply_def json_index_def str_or_def withdraw_outcome_def del: collect_signers.simps)
qed


end
