(* ===== verification/SignerList_Props.thy ===== *)
theory SignerList_Props
  imports SignerList WithdrawalFlow_Props
begin

text \<open>
  The update of the signer list: the computed list and its transaction, the bounded poll, the
  path without a quorum bundle that no peer signs, and what a confirmed projection rests on.
\<close>

section \<open>The new list\<close>

lemma remove_all_in_Ok: "remove_all_in A rs = Ok B \<longleftrightarrow> distinct rs \<and> set rs \<subseteq> A \<and> B = A - set rs"
  by (induction rs arbitrary: A) auto

lemma insert_all_in_Ok: "insert_all_in A ys = Ok B \<longleftrightarrow> distinct ys \<and> set ys \<inter> A = {} \<and> B = A \<union> set ys"
  by (induction ys arbitrary: A) auto

lemma check_addresses_Ok: "check_addresses L xs = Ok () \<longleftrightarrow> (\<forall>a\<in>set xs. \<exists>acct. decode_xrpl_address L a = Ok acct)"
  by (induction xs) (auto split: sum.splits)

lemma compute_new_entries_Ok:
  "compute_new_entries L current add remove = Ok es \<longleftrightarrow>
     distinct remove \<and> set remove \<subseteq> set current \<and> distinct add \<and> set add \<inter> (set current - set remove) = {}
     \<and> es = sorted_list_of_set ((set current - set remove) \<union> set add) \<and> 3 \<le> length es \<and> length es \<le> 8
     \<and> (\<forall>a\<in>set es. \<exists>acct. decode_xrpl_address L a = Ok acct)"
  unfolding compute_new_entries_def
  by (auto simp: result_bind_Ok_iff remove_all_in_Ok insert_all_in_Ok check_addresses_Ok Let_def if_Err_Ok_iff)

lemma update_allowed:
  assumes "3 \<le> length es" "length es \<le> 8" "\<forall>a\<in>set es. \<exists>acct. decode_xrpl_address L a = Ok acct"
    and "distinct es" "2 \<le> q" "q \<le> length es" "sq < 2 ^ 64"
  shows "tx_allowed L (build_unsigned_tx esc sq q es) esc"
proof -
  have "list_all2 (entry_accepted L) (map (\<lambda>a. JObj [(''SignerEntry'', JObj [(''Account'', JStr a), (''SignerWeight'', JNum 1)])]) es) es"
    using assms(3) by (induction es) (auto simp: entry_accepted_def)
  then show ?thesis
    using assms unfolding tx_allowed_def signerlist_ok_def
    by (simp add: build_unsigned_tx_def ALLOWED_TOP_LEVEL_def parse_u64_nat_to_dec FEE_DROPS_def) blast
qed

text \<open>
  An update adds and removes exactly the named operators: the new list is the old one
  without the removed and with the added, in ascending order, each address readable; and the
  transaction built from it with an admissible quorum passes the signing policy of every
  co-signer it is addressed to.
\<close>

theorem update_builds_what_peers_accept:
  assumes "compute_new_entries L current add remove = Ok es" "2 \<le> q" "q \<le> length es" "sq < 2 ^ 64"
  shows "set es = (set current - set remove) \<union> set add \<and> sorted es \<and> distinct es \<and> length es \<in> {3..8}
    \<and> (validate_signing_policy L C l (Some esc) (JObj (build_unsigned_tx esc sq q es)) acct_hex = Ok h \<longleftrightarrow>
        (\<exists>acct. addressed_to L l acct_hex acct \<and> multi_signing_hash C (build_unsigned_tx esc sq q es) acct = Ok h))"
proof -
  note es = assms(1) [unfolded compute_new_entries_Ok]
  then have d: "distinct es" "set es = (set current - set remove) \<union> set add" "sorted es" by auto
  have "tx_allowed L (build_unsigned_tx esc sq q es) esc" using es d(1) assms(2-4) by (intro update_allowed) auto
  with es d show ?thesis unfolding validate_signing_policy_iff by auto
qed

section \<open>The poll\<close>

text \<open>The node after \<open>n\<close> questions about a transaction.\<close>

definition asked_node :: "'s slu_world \<Rightarrow> string \<Rightarrow> nat \<Rightarrow> 's \<Rightarrow> 's" where
  "asked_node W h n s = ((\<lambda>s. snd (sl_tx W h s)) ^^ n) s"

definition nth_answer :: "'s slu_world \<Rightarrow> string \<Rightarrow> nat \<Rightarrow> 's \<Rightarrow> slu_error + (string \<times> nat) option" where
  "nth_answer W h n s = read_tx_reply (fst (sl_tx W h (asked_node W h n s)))"

lemma asked_node_simps [simp]:
  "asked_node W h 0 s = s" "asked_node W h n (snd (sl_tx W h s)) = asked_node W h (Suc n) s"
  by (simp_all add: asked_node_def funpow_Suc_right del: funpow.simps)

lemma nth_answer_Suc: "nth_answer W h n (snd (sl_tx W h s)) = nth_answer W h (Suc n) s"
  by (simp add: nth_answer_def)

lemma poll_loop_outcome:
  "\<exists>n\<le>k. snd (poll_loop W h m k s) = asked_node W h n s
     \<and> (n = k \<and> (\<forall>i<n. nth_answer W h i s = Ok None) \<and> fst (poll_loop W h m k s) = Err (NotValidated m)
        \<or> (\<exists>j. n = Suc j \<and> (\<forall>i<j. nth_answer W h i s = Ok None) \<and> nth_answer W h j s \<noteq> Ok None
            \<and> fst (poll_loop W h m k s) = map_sum id the (nth_answer W h j s)))"
  (is "\<exists>n\<le>k. ?P k s n")
proof (induction k arbitrary: s)
  case 0
  show ?case by simp
next
  case (Suc k)
  let ?s = "snd (sl_tx W h s)"
  have a0: "read_tx_reply (fst (sl_tx W h s)) = nth_answer W h 0 s" by (simp add: nth_answer_def)
  show ?case
  proof (cases "nth_answer W h 0 s = Ok None")
    case True
    then have step: "poll_loop W h m (Suc k) s = poll_loop W h m k ?s" by (simp add: case_prod_beta a0)
    obtain n where "n \<le> k" "?P k ?s n" using Suc.IH by blast
    then have "?P (Suc k) s (Suc n)"
      unfolding step asked_node_simps nth_answer_Suc using True by (auto simp: less_Suc_eq_0_disj)
    with \<open>n \<le> k\<close> show ?thesis by blast
  next
    case False
    then have "poll_loop W h m (Suc k) s = (map_sum id the (nth_answer W h 0 s), ?s)"
      by (auto simp: case_prod_beta a0 split: sum.splits option.splits)
    then have "?P (Suc k) s (Suc 0)" using False by (simp add: asked_node_def id_def del: poll_loop.simps)
    then show ?thesis by (meson Suc_le_mono le0)
  qed
qed

text \<open>
  The poll ends: it asks the node at most the given number of times, goes on only after an
  answer of \<open>not yet\<close>, gives up after exactly that many of them, and otherwise reports the answer
  it stopped at.
\<close>

theorem poll_ends_within_bound:
  "\<exists>n\<le>max_attempts. snd (poll_validated_tx_bounded W h max_attempts s) = asked_node W h n s
     \<and> (n = max_attempts \<and> (\<forall>i<n. nth_answer W h i s = Ok None)
          \<and> fst (poll_validated_tx_bounded W h max_attempts s) = Err (NotValidated max_attempts)
        \<or> (\<exists>j. n = Suc j \<and> (\<forall>i<j. nth_answer W h i s = Ok None) \<and> nth_answer W h j s \<noteq> Ok None
            \<and> fst (poll_validated_tx_bounded W h max_attempts s) = map_sum id the (nth_answer W h j s)))"
  unfolding poll_validated_tx_bounded_def by (rule poll_loop_outcome)

section \<open>Updates without a quorum bundle\<close>

text \<open>A relay behind which every signer is a co-signer of the escrow with some enclave.\<close>

definition answered_by_cosigners :: "string \<Rightarrow> 's slu_world \<Rightarrow> bool" where
  "answered_by_cosigners esc W \<longleftrightarrow> (\<forall>rid tx hx addr b u a s. \<exists>(E :: nat signing_env) l t.
     fst (sl_relay W rid (SigningRelay rid tx hx addr b u a) s) = Answered (fst (handle_signing_request E l (Some esc) rid tx hx b (claim_of u a) t)))"

lemma unbundled_refused:
  assumes "map_of tx ''TransactionType'' = Some (JStr ''SignerListSet'')"
  shows "\<exists>e. read_relay_answer (Answered (fst (handle_signing_request E l esc rid (JObj tx) hx None c t))) = Err (RemoteSigner e)"
  using assms by (auto simp: handle_signing_request_def sign_error_def read_relay_answer_def tx_get_def Let_def split: sum.splits)

lemma collect_unbundled:
  assumes "answered_by_cosigners esc W" "map_of tx ''TransactionType'' = Some (JStr ''SignerListSet'')"
  shows "fst (collect_via_relay W (JObj tx) None resolve stop xs acc s) = Ok acc"
proof (induction xs arbitrary: s)
  case (Cons x xs)
  have "\<exists>e. read_relay_answer (fst (sl_relay W rid (SigningRelay rid (JObj tx) hx addr None None None) s)) = Err (RemoteSigner e)" for rid hx addr
  proof -
    obtain E :: "nat signing_env" and l t where
      "fst (sl_relay W rid (SigningRelay rid (JObj tx) hx addr None None None) s)
        = Answered (fst (handle_signing_request E l (Some esc) rid (JObj tx) hx None (claim_of None None) t))"
      using assms(1) unfolding answered_by_cosigners_def by fastforce
    with unbundled_refused [OF assms(2), of E l "Some esc" rid hx "claim_of None None" t] show ?thesis by simp
  qed
  then obtain e where refused: "\<And>rid hx addr.
      read_relay_answer (fst (sl_relay W rid (SigningRelay rid (JObj tx) hx addr None None None) s)) = Err (RemoteSigner (e rid hx addr))"
    by metis
  show ?case
  proof (cases "resolve x")
    case None
    then show ?thesis using Cons.IH by simp
  next
    case (Some p)
    then show ?thesis using Cons.IH refused by (cases p) (simp add: Let_def case_prod_beta)
  qed
qed simp

lemma unbundled_not_submitted:
  assumes "answered_by_cosigners (ad_escrow_address cfg) W" "0 < quorum"
    and "map_of tx ''TransactionType'' = Some (JStr ''SignerListSet'')"
  shows "fst (sign_and_submit W cfg tx quorum stop current s) = Err (SignaturesMissing 0 quorum)"
  using collect_unbundled [OF assms(1,3), of "resolve_signer (sl_lib W) (ad_signers_config cfg)" stop current "[]" s] assms(2)
  by (auto simp: sign_and_submit_def assemble_def split: prod.splits)

text \<open>
  The operator-driven update cannot change the signer list of a ledger with a quorum: it carries
  no quorum bundle, no co-signer signs it, and it ends with an error or as a dry run; it never
  reports a submission.
\<close>

theorem unbundled_update_never_lands:
  assumes "answered_by_cosigners (ad_escrow_address cfg) W"
    and "\<forall>s es q s'. fetch_current_signerlist W (ad_escrow_address cfg) s = (Ok (es, q), s') \<longrightarrow> 0 < q"
  shows "(case fst (drive W cfg req s) of Err _ \<Rightarrow> True | Ok r \<Rightarrow> su_dry_run req \<and> sr_xrpl_tx_hash r = None)
    \<and> (case fst (drive_bootstrap_rotate W cfg dry s) of Err _ \<Rightarrow> True | Ok r \<Rightarrow> dry \<and> rr_xrpl_tx_hash r = None)"
proof -
  have ty: "map_of (build_unsigned_tx e sq q es) ''TransactionType'' = Some (JStr ''SignerListSet'')" for e sq q es
    by (simp add: build_unsigned_tx_def)
  have no: "fst (sign_and_submit W cfg (build_unsigned_tx e sq q es) q' stop cur s') = Err (SignaturesMissing 0 q')"
    if "0 < q'" for e sq q es q' stop cur s'
    using unbundled_not_submitted [OF assms(1) that ty] .
  show ?thesis
  proof (cases "fetch_current_signerlist W (ad_escrow_address cfg) s")
    case (Pair r s1)
    show ?thesis
    proof (cases r)
      case (Inl e)
      then show ?thesis using Pair by (simp add: drive_def drive_bootstrap_rotate_def)
    next
      case (Inr c)
      obtain es q where c: "c = (es, q)" by (cases c)
      with assms(2) Inr Pair have "0 < q" by blast
      note no = no [OF this]
      show ?thesis
        using Pair Inr c no unfolding drive_def drive_bootstrap_rotate_def Let_def
        by (auto split: sum.splits prod.splits) (metis fst_conv sum.distinct(1))+
    qed
  qed
qed

section \<open>A confirmed projection\<close>

definition relay_signer :: "(string \<times> string) \<times> string \<times> string \<Rightarrow> json" where
  "relay_signer p =
     JObj [(''Signer'', JObj [(''Account'', JStr (fst (fst p))), (''SigningPubKey'', JStr (snd (snd p))), (''TxnSignature'', JStr (fst (snd p)))])]"

lemma collect_via_relay_spec:
  assumes "collect_via_relay W tx b Some (Some q) xs acc s = (Ok out, s')"
  shows "\<exists>ps. out = acc @ map relay_signer ps \<and> subseq (map fst ps) xs \<and> length out \<le> max q (length acc)"
  using assms
proof (induction xs arbitrary: acc s)
  case Nil
  then show ?case by (intro exI [of _ "[]"]) auto
next
  case (Cons x xs)
  obtain addr hx where x: "x = (addr, hx)" by (cases x)
  let ?r = "sl_relay W (sl_request_id W addr) (SigningRelay (sl_request_id W addr) tx hx addr b None None) s"
  show ?case
  proof (cases "q \<le> length acc")
    case True
    with Cons.prems show ?thesis by (intro exI [of _ "[]"]) auto
  next
    case False
    show ?thesis
    proof (cases "read_relay_answer (fst ?r)")
      case (Inl e)
      with False Cons.prems x have "collect_via_relay W tx b Some (Some q) xs acc (snd ?r) = (Ok out, s')"
        by (cases e) (simp_all add: Let_def case_prod_beta)
      from Cons.IH [OF this] show ?thesis by auto
    next
      case (Inr sig)
      with False Cons.prems x have
        "collect_via_relay W tx b Some (Some q) xs (acc @ [relay_signer (x, sig)]) (snd ?r) = (Ok out, s')"
        by (cases sig) (simp add: Let_def case_prod_beta relay_signer_def)
      from Cons.IH [OF this] obtain ps where "out = (acc @ [relay_signer (x, sig)]) @ map relay_signer ps"
        "subseq (map fst ps) xs" "length out \<le> max q (Suc (length acc))" by auto
      with False show ?thesis by (intro exI [of _ "(x, sig) # ps"]) auto
    qed
  qed
qed

lemma collect_and_assemble_Ok:
  assumes "collect_and_assemble W p tx b s = (Ok full, s')" "''Signers'' \<notin> fst ` set tx"
  shows "\<exists>ps. subseq (map fst ps) (ps_current_signers p) \<and> length ps = ps_quorum p
    \<and> full = JObj (tx @ [(''Signers'', JArr (sort_key (signer_sort_key (sl_lib W)) (map relay_signer ps)))])"
proof -
  obtain out where c: "collect_via_relay W (JObj tx) (Some b) Some (Some (ps_quorum p)) (ps_current_signers p) [] s = (Ok out, s')"
    and a: "assemble (sl_lib W) (ps_quorum p) tx out = Ok full"
    using assms(1) unfolding collect_and_assemble_def by (auto split: prod.splits sum.splits)
  from collect_via_relay_spec [OF c] obtain ps where "out = map relay_signer ps" "subseq (map fst ps) (ps_current_signers p)"
    "length out \<le> ps_quorum p" by auto
  with a assms(2) show ?thesis
    by (intro exI [of _ ps]) (auto simp: assemble_def set_field_def sort_signers_def split: if_splits)
qed


section \<open>Witnesses\<close>

text \<open>
  A ledger whose escrow has one signer in its list, which validates a transaction at the third
  question, and two relays: one to the co-signers, one that signs everything.
\<close>

definition signing_relay :: "string \<Rightarrow> relay \<Rightarrow> nat \<Rightarrow> relay_answer \<times> nat" where
  "signing_relay rid r s = (Answered (Response rid [] (Some ''3045'') (Some ''02ab'') None), s)"

definition cosigning_relay :: "string \<Rightarrow> relay \<Rightarrow> nat \<Rightarrow> relay_answer \<times> nat" where
  "cosigning_relay rid r s =
     (case r of SigningRelay i tx hx addr b u a \<Rightarrow>
         (Answered (fst (handle_signing_request sample_env sample_local (Some ''rEscrow'') i tx hx b (claim_of u a) 0)), s)
       | _ \<Rightarrow> (TimedOut, s))"

definition sample_hash :: string where "sample_hash = replicate 32 (CHR ''h'')"

definition sample_slu :: "(string \<Rightarrow> relay \<Rightarrow> nat \<Rightarrow> relay_answer \<times> nat) \<Rightarrow> nat slu_world" where
  "sample_slu rl = \<lparr>sl_lib = sample_lib,
     sl_account_objects = (\<lambda>e s. (Body True (JObj [(''result'', JObj [(''account_objects'', JArr [JObj [
        (''LedgerEntryType'', JStr ''SignerList''), (''SignerQuorum'', JNum 1), (''SignerEntries'', JArr [JObj [(''SignerEntry'',
        JObj [(''Account'', JStr ''rA''), (''SignerWeight'', JNum 1)])]])]])])]), s)),
     sl_account_info = (\<lambda>e s. (NoAnswer [], s)),
     sl_submit = (\<lambda>tx s. (Body True (JObj [(''result'', JObj [(''engine_result'', JStr ''tesSUCCESS''), (''hash'', JStr sample_hash)])]), 0)),
     sl_tx = (\<lambda>h s. (Body True (JObj [(''result'', JObj [(''validated'', JBool (2 \<le> s)), (''tx_blob'', JStr ''ab''), (''ledger_index'', JNum 9)])]), Suc s)),
     sl_relay = rl, sl_request_id = (\<lambda>a. a), sl_client = True, sl_get = (\<lambda>u s. (NoAnswer [], s)), sl_post = (\<lambda>u j s. (NoAnswer [], s))\<rparr>"

lemma sample_asked: "asked_node (sample_slu rl) h n s = n + s"
  by (induction n arbitrary: s) (simp_all add: asked_node_def sample_slu_def)

lemma sample_answer: "nth_answer (sample_slu rl) h n 0 = Ok (if 2 \<le> n then Some (map ascii_lower ''ab'', 9) else None)"
  unfolding nth_answer_def sample_asked
  by (simp add: sample_slu_def read_tx_reply_def body_of_def json_index_def or_str_def require_def Let_def)

theorem poll_ends_within_bound_witness:
  "fst (poll_validated_tx_bounded (sample_slu signing_relay) ''H'' 2 0) = Err (NotValidated 2)"
  using poll_ends_within_bound [of 2 "sample_slu signing_relay" "''H''" 0] by (auto simp: sample_answer)

theorem unbundled_update_never_lands_witness:
  "case fst (drive_bootstrap_rotate (sample_slu cosigning_relay)
       \<lparr>ad_escrow_address = ''rEscrow'', ad_signers_config = sample_signers, ad_enclave_url = []\<rparr> False 0) of Err _ \<Rightarrow> True | Ok r \<Rightarrow> False"
proof -
  let ?W = "sample_slu cosigning_relay"
  have "answered_by_cosigners ''rEscrow'' ?W"
    unfolding answered_by_cosigners_def by (auto simp: sample_slu_def cosigning_relay_def)
  moreover have "fetch_current_signerlist ?W e s = (Ok ([(''rA'', 1)], 1), s)" for e s
    by (simp add: fetch_current_signerlist_def sample_slu_def parse_signer_list_response_def body_of_def json_index_def require_def)
  ultimately show ?thesis
    using unbundled_update_never_lands [of "\<lparr>ad_escrow_address = ''rEscrow'', ad_signers_config = sample_signers, ad_enclave_url = []\<rparr>" ?W _ 0 False]
    by (auto split: sum.splits)
qed


theorem update_builds_what_peers_accept_witness:
  "\<exists>es. compute_new_entries sample_lib (map (\<lambda>i. account_id_to_r_address sample_lib (account_id (sample_signer i))) [1, 2, 3]) [] [] = Ok es
     \<and> sorted es \<and> length es = 3"
proof -
  let ?cur = "map (\<lambda>i. account_id_to_r_address sample_lib (account_id (sample_signer i))) [1, 2, 3]"
  have d: "distinct ?cur" using sample_account_eq_iff [of 1 2] sample_account_eq_iff [of 1 3] sample_account_eq_iff [of 2 3] by (simp add: account_id_to_r_address_inj)
  let ?es = "sorted_list_of_set (set ?cur)"
  have "length ?es = card (set ?cur)" by (rule sorted_list_of_set.length_sorted_key_list_of_set)
  then have len: "length ?es = 3" unfolding distinct_card [OF d] length_map by simp
  have "set ?es = set ?cur" by (rule set_sorted_list_of_set) simp
  moreover have "\<forall>a\<in>set ?cur. \<exists>acct. decode_xrpl_address sample_lib a = Ok acct" by simp
  ultimately have es: "compute_new_entries sample_lib ?cur [] [] = Ok ?es"
    unfolding compute_new_entries_Ok using len by (simp del: list.map sorted_list_of_set_insert_remove list.set(2))
  have "2 \<le> length ?es" unfolding len by simp
  from update_builds_what_peers_accept [OF es order_refl this, of 0] have "sorted ?es" by simp
  with len es show ?thesis by blast
qed

end
