(* ===== verification/Roster.thy ===== *)
theory Roster
  imports Fp8 Bytes
begin

text \<open>
  The operator roster of \<^verbatim>\<open>orchestrator/src/operator_roster.rs\<close>: which operator may request which admin
  operation, and the loader that trusts a roster file only under a signature of the compiled-in
  governance key. The TOML parser, the base64 codec, the files of the node and the program
  \<^verbatim>\<open>ssh-keygen\<close> are parameters; every failure of the process calls is a branch.
\<close>

section \<open>The roster\<close>

datatype roster_error =
    RosterMissing string
  | RosterMalformed
  | RosterEmpty
  | WrongCluster string string
  | Rollback nat nat
  | SignatureUnverified string
  | SignatureInvalid

record operator_entry =
  oe_handle :: string
  oe_xrpl_address :: string
  oe_ops :: "string list"

record roster =
  ro_version :: nat
  ro_cluster_escrow :: string
  ro_operators :: "operator_entry list"
  ro_op_thresholds :: "(string \<times> nat) list"

definition can_op :: "roster \<Rightarrow> string \<Rightarrow> string \<Rightarrow> bool" where
  "can_op r addr op \<longleftrightarrow> list_ex (\<lambda>e. oe_xrpl_address e = addr \<and> list_ex (\<lambda>x. x = op) (oe_ops e)) (ro_operators r)"

definition allowlist_for :: "roster \<Rightarrow> string \<Rightarrow> string list" where
  "allowlist_for r op = map oe_xrpl_address (filter (\<lambda>e. can_op r (oe_xrpl_address e) op) (ro_operators r))"

definition check_invariants :: "roster \<Rightarrow> string \<Rightarrow> nat option \<Rightarrow> roster_error + unit" where
  "check_invariants r running_escrow version_in_force =
     (if ro_operators r = [] then Err RosterEmpty
      else if ro_cluster_escrow r \<noteq> running_escrow then Err (WrongCluster (ro_cluster_escrow r) running_escrow)
      else case version_in_force of
             None \<Rightarrow> Ok ()
           | Some in_force \<Rightarrow> if ro_version r \<le> in_force then Err (Rollback in_force (ro_version r)) else Ok ())"

definition op_for_admin_path :: "string \<Rightarrow> string" where
  "op_for_admin_path path =
     (let p = dropWhile (\<lambda>c. c = CHR ''/'') path
      in case strip_prefix ''admin/'' p of Some op \<Rightarrow> op | None \<Rightarrow> p)"

text \<open>The authority of the admin surfaces: a loaded roster, or none.\<close>

type_synonym roster_authority = "roster option"

definition allowlist_for_path :: "roster_authority \<Rightarrow> string \<Rightarrow> string list" where
  "allowlist_for_path authority admin_path =
     (case authority of None \<Rightarrow> [] | Some r \<Rightarrow> allowlist_for r (op_for_admin_path admin_path))"

section \<open>Public key lines\<close>

text \<open>\<open>split_whitespace\<close>.\<close>

fun until_ws :: "string \<Rightarrow> string \<times> string" where
  "until_ws [] = ([], [])"
| "until_ws (c # cs) =
     (if list_ex (\<lambda>w. starts_with w (c # cs)) ws_tokens then ([], c # cs)
      else let (a, b) = until_ws cs in (c # a, b))"

lemma until_ws_append: "until_ws s = (a, b) \<Longrightarrow> s = a @ b"
  by (induction s arbitrary: a b) (auto split: if_splits prod.splits)

lemma length_strip_tokens: "length (strip_tokens ws s) \<le> length s"
proof (induction ws s rule: strip_tokens.induct)
  case (1 ws s)
  show ?case
  proof (cases "find (\<lambda>w. w \<noteq> [] \<and> take (length w) s = w) ws")
    case None
    then show ?thesis by (simp add: strip_tokens.simps)
  next
    case (Some w)
    with "1.IH" [of w] show ?thesis by (subst strip_tokens.simps) simp
  qed
qed

function split_whitespace :: "string \<Rightarrow> string list" where
  "split_whitespace s =
     (let t = strip_tokens ws_tokens s
      in case until_ws t of
           ([], _) \<Rightarrow> []
         | (c # w, rest) \<Rightarrow> (c # w) # split_whitespace rest)"
  by pat_completeness auto
termination
proof (relation "measure length")
  fix s t a b c w
  assume a: "t = strip_tokens ws_tokens s" "(a, b) = until_ws t" "a = c # w"
  from until_ws_append [OF a(2) [symmetric]] a(3) have "length b < length t" by simp
  with a(1) length_strip_tokens [of ws_tokens s] show "(b, s) \<in> measure length" by simp
qed simp

declare split_whitespace.simps [simp del]

definition ROSTER_IDENTITY :: string where "ROSTER_IDENTITY = ''perp-cluster-operator''"
definition ROSTER_NAMESPACE :: string where "ROSTER_NAMESPACE = ''perp-roster''"

definition allowed_signers_line :: "string \<Rightarrow> string" where
  "allowed_signers_line pubkey_line =
     (let t = str_trim pubkey_line;
          first = (case split_whitespace t of [] \<Rightarrow> [] | w # _ \<Rightarrow> w)
      in if starts_with ''ssh-'' first \<or> starts_with ''ecdsa-'' first \<or> starts_with ''sk-'' first
         then ROSTER_IDENTITY @ '' '' @ t else t)"

definition BAKED_GOV_PUB :: bytes where
  "BAKED_GOV_PUB =
     [0xb4, 0x8b, 0xbc, 0x35, 0x33, 0x8d, 0xf4, 0x1a, 0x09, 0xeb, 0x32, 0x0d, 0x18, 0xce, 0xf8, 0xff,
      0x78, 0x89, 0xe4, 0x9b, 0x2e, 0x4b, 0xbf, 0x21, 0x29, 0x55, 0x4a, 0x6d, 0xa1, 0x19, 0x5e, 0x65]"

record base64 =
  b64_encode :: "bytes \<Rightarrow> string"
  b64_decode :: "string \<Rightarrow> bytes option"

definition ssh_blob :: "bytes \<Rightarrow> bytes" where
  "ssh_blob key =
     be_bytes 4 (length ''ssh-ed25519'') @ bytes_of ''ssh-ed25519'' @ be_bytes 4 32 @ key"

definition baked_operator_pub_line :: "base64 \<Rightarrow> string" where
  "baked_operator_pub_line B = ''ssh-ed25519 '' @ b64_encode B (ssh_blob BAKED_GOV_PUB)"

text \<open>The big-endian length at an offset, if four bytes are there.\<close>

definition read_u32_at :: "bytes \<Rightarrow> nat \<Rightarrow> nat option" where
  "read_u32_at b at = (if at + 4 \<le> length b then Some (of_le_bytes (rev (take 4 (drop at b)))) else None)"

definition read_ssh_blob :: "bytes \<Rightarrow> bytes option" where
  "read_ssh_blob blob =
     Option.bind (read_u32_at blob 0) (\<lambda>alen.
     let aend = 4 + alen
     in if length blob < aend \<or> take alen (drop 4 blob) \<noteq> bytes_of ''ssh-ed25519'' then None
        else Option.bind (read_u32_at blob aend) (\<lambda>klen.
          let kstart = aend + 4; kend = kstart + klen
          in if klen \<noteq> 32 \<or> kend \<noteq> length blob then None else Some (take klen (drop kstart blob))))"

definition ed25519_raw_from_ssh_pubkey :: "base64 \<Rightarrow> string \<Rightarrow> bytes option" where
  "ed25519_raw_from_ssh_pubkey B line =
     (let toks = split_whitespace line;
          rest = (case toks of
                    [] \<Rightarrow> None
                  | t # ts \<Rightarrow> if t = ''ssh-ed25519'' then Some ts
                              else (case ts of
                                      [] \<Rightarrow> None
                                    | u # us \<Rightarrow> if u = ''ssh-ed25519'' then Some us else None))
      in Option.bind rest (\<lambda>ts. case ts of
           [] \<Rightarrow> None
         | key # _ \<Rightarrow> Option.bind (b64_decode B key) read_ssh_blob))"

section \<open>Loading\<close>

text \<open>
  What the node gives the loader: its files, and what becomes of each process call. \<open>ks_verify\<close> is
  \<^verbatim>\<open>ssh-keygen -Y verify\<close> on the allowed signers line, the identity, the namespace, the signature
  file and the bytes on its standard input; \<open>None\<close> when the process does not complete, otherwise
  whether its exit status is success.
\<close>

record node_files =
  nf_read :: "string \<Rightarrow> bytes option"
  nf_read_to_string :: "string \<Rightarrow> string option"
  nf_from_utf8 :: "bytes \<Rightarrow> string option"
  nf_toml :: "string \<Rightarrow> roster option"
  nf_base64 :: base64
  ks_runtime_dir :: bool
  ks_tempfile :: bool
  ks_write_allowed :: bool
  ks_spawn :: bool
  ks_stdin :: bool
  ks_feed :: bool
  ks_verify :: "string \<Rightarrow> string \<Rightarrow> string \<Rightarrow> string \<Rightarrow> bytes \<Rightarrow> bool option"

definition verify_roster_signature :: "node_files \<Rightarrow> bytes \<Rightarrow> string \<Rightarrow> string \<Rightarrow> roster_error + unit" where
  "verify_roster_signature N roster_bytes sig_path pubkey =
     (if \<not> ks_runtime_dir N then Err (SignatureUnverified ''private runtime dir'')
      else if \<not> ks_tempfile N then Err (SignatureUnverified ''cannot materialize allowed_signers'')
      else if \<not> ks_write_allowed N then Err (SignatureUnverified ''cannot write allowed_signers'')
      else if \<not> ks_spawn N then Err (SignatureUnverified ''cannot spawn ssh-keygen'')
      else if \<not> ks_stdin N then Err (SignatureUnverified ''ssh-keygen stdin unavailable'')
      else if \<not> ks_feed N then Err (SignatureUnverified ''cannot write roster to ssh-keygen'')
      else case ks_verify N (allowed_signers_line pubkey) ROSTER_IDENTITY ROSTER_NAMESPACE sig_path roster_bytes of
             None \<Rightarrow> Err (SignatureUnverified ''ssh-keygen did not complete'')
           | Some success \<Rightarrow> if success then Ok () else Err SignatureInvalid)"

definition load_bytes_with_pubkey ::
  "node_files \<Rightarrow> bytes \<Rightarrow> string \<Rightarrow> string \<Rightarrow> string \<Rightarrow> nat option \<Rightarrow> roster_error + roster" where
  "load_bytes_with_pubkey N bs sig_path pubkey running_escrow version_in_force =
     result_bind (verify_roster_signature N bs sig_path pubkey) (\<lambda>_.
     case nf_from_utf8 N bs of
       None \<Rightarrow> Err RosterMalformed
     | Some txt \<Rightarrow>
         (case nf_toml N txt of
            None \<Rightarrow> Err RosterMalformed
          | Some r \<Rightarrow> result_bind (check_invariants r running_escrow version_in_force) (\<lambda>_. Ok r)))"

definition cross_check :: "node_files \<Rightarrow> string option \<Rightarrow> roster_error + unit" where
  "cross_check N cross_check_pub =
     (case cross_check_pub of
        None \<Rightarrow> Ok ()
      | Some p \<Rightarrow>
          (case nf_read_to_string N p of
             None \<Rightarrow> Err (SignatureUnverified ''--operator-pub unreadable'')
           | Some line \<Rightarrow>
               if ed25519_raw_from_ssh_pubkey (nf_base64 N) line = Some BAKED_GOV_PUB then Ok ()
               else Err (SignatureUnverified ''--operator-pub is not the compiled-in key'')))"

definition load_baked ::
  "node_files \<Rightarrow> string \<Rightarrow> string \<Rightarrow> string option \<Rightarrow> string \<Rightarrow> nat option \<Rightarrow> roster_error + roster" where
  "load_baked N roster_path sig_path cross_check_pub running_escrow version_in_force =
     result_bind (cross_check N cross_check_pub) (\<lambda>_.
     case nf_read N roster_path of
       None \<Rightarrow> Err (RosterMissing roster_path)
     | Some bs \<Rightarrow>
         load_bytes_with_pubkey N bs sig_path (baked_operator_pub_line (nf_base64 N)) running_escrow version_in_force)"

text \<open>
  The start of a node: the roster named on the command line, or the authority that serves
  nothing. The signature path of a roster path is a parameter.
\<close>

definition start_authority ::
  "node_files \<Rightarrow> (string \<Rightarrow> string) \<Rightarrow> string option \<Rightarrow> string option \<Rightarrow> string \<Rightarrow> roster_authority" where
  "start_authority N sig_path_of operator_roster operator_pub escrow_address =
     (case operator_roster of
        None \<Rightarrow> None
      | Some roster_path \<Rightarrow>
          (case load_baked N roster_path (sig_path_of roster_path) operator_pub escrow_address None of
             Ok r \<Rightarrow> Some r
           | Err _ \<Rightarrow> None))"

section \<open>Lemmas\<close>

lemma allowlist_for_iff: "addr \<in> set (allowlist_for r op) \<longleftrightarrow> can_op r addr op"
  by (auto simp: allowlist_for_def can_op_def list_ex_iff)

lemma allowlist_for_path_iff:
  "addr \<in> set (allowlist_for_path a p) \<longleftrightarrow> (\<exists>r. a = Some r \<and> can_op r addr (op_for_admin_path p))"
  by (auto simp: allowlist_for_path_def allowlist_for_iff split: option.splits)

lemma check_invariants_iff:
  "check_invariants r esc v = Ok () \<longleftrightarrow>
     ro_operators r \<noteq> [] \<and> ro_cluster_escrow r = esc \<and> (\<forall>n. v = Some n \<longrightarrow> n < ro_version r)"
  by (auto simp: check_invariants_def split: option.splits)

text \<open>The bytes of a file as the loader accepts them: signed under the key line, and a roster.\<close>

definition signed_roster :: "node_files \<Rightarrow> string \<Rightarrow> bytes \<Rightarrow> roster \<Rightarrow> bool" where
  "signed_roster N sig_path bs r \<longleftrightarrow>
     verify_roster_signature N bs sig_path (baked_operator_pub_line (nf_base64 N)) = Ok ()
     \<and> Option.bind (nf_from_utf8 N bs) (nf_toml N) = Some r"

lemma load_baked_iff:
  "load_baked N path sp x esc v = Ok r \<longleftrightarrow>
     cross_check N x = Ok () \<and> (\<exists>bs. nf_read N path = Some bs \<and> signed_roster N sp bs r)
     \<and> check_invariants r esc v = Ok ()"
  by (auto simp: load_baked_def load_bytes_with_pubkey_def signed_roster_def result_bind_Ok_iff
      split: option.splits)

lemma start_authority_iff:
  "start_authority N sp roster_path x esc = Some r \<longleftrightarrow>
     (\<exists>path. roster_path = Some path \<and> load_baked N path (sp path) x esc None = Ok r)"
  by (auto simp: start_authority_def split: option.splits sum.splits)

end
