(* ===== verification/Auth.thy ===== *)
theory Auth
  imports Replay Roster
begin

text \<open>
  Request authentication of \<^verbatim>\<open>orchestrator/src/auth.rs\<close> and the login route of \<^verbatim>\<open>api.rs\<close>: the signed
  request headers, the public and the admin canonical message, the session tokens, the
  middleware of the public API and the operator gate of the admin surfaces. A request carries
  its headers as a partial function to their text, its body as \<open>None\<close> when it cannot be read, and
  the clocks are arguments in seconds.
\<close>

section \<open>The signed request\<close>

datatype auth_error =
    MissingHeader string
  | InvalidTimestamp
  | RequestExpired nat
  | BadAddressFormat
  | BadPubkeyLength
  | BadPubkeyHex
  | HeaderMismatch string string
  | BadSignatureHex
  | BadSignature sig_error

definition MAX_TIMESTAMP_DRIFT_SECS :: nat where "MAX_TIMESTAMP_DRIFT_SECS = 30"

definition abs_diff :: "nat \<Rightarrow> nat \<Rightarrow> nat" where
  "abs_diff a b = (if a < b then b - a else a - b)"

datatype canonical_domain = PublicDomain | AdminDomain

definition is_get :: "string \<Rightarrow> bool" where
  "is_get meth \<longleftrightarrow> map ascii_lower meth = map ascii_lower ''GET''"

text \<open>The bytes that are hashed for the signature.\<close>

definition canonical_message :: "canonical_domain \<Rightarrow> string \<Rightarrow> bytes \<Rightarrow> string \<Rightarrow> string \<Rightarrow> bytes" where
  "canonical_message domain meth body_bytes uri_path timestamp =
     (if domain = AdminDomain
      then bytes_of ''xperp/v1/admin|'' @ bytes_of meth @ bytes_of ''|'' @ bytes_of uri_path @ bytes_of ''|''
             @ body_bytes @ bytes_of ''|''
      else if is_get meth then bytes_of uri_path
      else if body_bytes = [] then bytes_of ''xperp/v1/login|'' @ bytes_of uri_path @ bytes_of ''|''
      else body_bytes) @ bytes_of timestamp"

type_synonym header_map = "string \<Rightarrow> string option"

definition header :: "header_map \<Rightarrow> string \<Rightarrow> auth_error + string" where
  "header headers name = (case headers name of None \<Rightarrow> Err (MissingHeader name) | Some v \<Rightarrow> Ok v)"

definition check_drift :: "nat \<Rightarrow> string \<Rightarrow> auth_error + unit" where
  "check_drift now timestamp =
     (case parse_u64 timestamp of
        None \<Rightarrow> Err InvalidTimestamp
      | Some ts \<Rightarrow> let drift = abs_diff now ts
                  in if MAX_TIMESTAMP_DRIFT_SECS < drift then Err (RequestExpired drift) else Ok ())"

definition verify_request_with ::
  "crypto \<Rightarrow> nat \<Rightarrow> header_map \<Rightarrow> string \<Rightarrow> bytes \<Rightarrow> string \<Rightarrow> canonical_domain \<Rightarrow> auth_error + string" where
  "verify_request_with cr now headers meth body_bytes uri_path domain =
     result_bind (header headers ''x-xrpl-address'') (\<lambda>address.
     result_bind (header headers ''x-xrpl-publickey'') (\<lambda>pubkey_hex.
     result_bind (header headers ''x-xrpl-signature'') (\<lambda>sig_hex.
     result_bind (header headers ''x-xrpl-timestamp'') (\<lambda>timestamp.
     result_bind (check_drift now timestamp) (\<lambda>_.
     if \<not> starts_with ''r'' address \<or> length address < 25 \<or> 35 < length address then Err BadAddressFormat
     else if length pubkey_hex \<noteq> 66 then Err BadPubkeyLength
     else case hex_decode cr pubkey_hex of
            None \<Rightarrow> Err BadPubkeyHex
          | Some pubkey_bytes \<Rightarrow>
              let derived_address = xrpl_address cr pubkey_bytes
              in if derived_address \<noteq> address then Err (HeaderMismatch address derived_address)
                 else
                   let hash = cr_sha256 cr (canonical_message domain meth body_bytes uri_path timestamp)
                   in case hex_decode cr sig_hex of
                        None \<Rightarrow> Err BadSignatureHex
                      | Some sig_bytes \<Rightarrow>
                          (case verify_xrpl_sig cr pubkey_bytes sig_bytes hash of
                             Err e \<Rightarrow> Err (BadSignature e)
                           | Ok _ \<Rightarrow> Ok address))))))"

definition verify_request :: "crypto \<Rightarrow> nat \<Rightarrow> header_map \<Rightarrow> string \<Rightarrow> bytes \<Rightarrow> string \<Rightarrow> auth_error + string" where
  "verify_request cr now headers meth body_bytes uri_path =
     verify_request_with cr now headers meth body_bytes uri_path PublicDomain"

section \<open>Sessions\<close>

definition SESSION_TTL :: nat where "SESSION_TTL = 30 * 60"

record session =
  se_address :: string
  se_expires :: nat

type_synonym session_store = "string \<rightharpoonup> session"

text \<open>
  \<open>token\<close> is the fresh random identifier. The clock is read at \<open>now\<close> for the expiry and at \<open>later\<close>
  for the cleanup of the store.
\<close>

definition session_create :: "nat \<Rightarrow> nat \<Rightarrow> string \<Rightarrow> string \<Rightarrow> session_store \<Rightarrow> session_store" where
  "session_create now later token address sessions =
     (\<lambda>k. case sessions k of
            None \<Rightarrow> None
          | Some s \<Rightarrow> if later < se_expires s then Some s else None)
       (token \<mapsto> \<lparr>se_address = address, se_expires = now + SESSION_TTL\<rparr>)"

definition session_get :: "nat \<Rightarrow> string \<Rightarrow> session_store \<Rightarrow> string option" where
  "session_get now token sessions =
     (case sessions token of
        None \<Rightarrow> None
      | Some s \<Rightarrow> if now < se_expires s then Some (se_address s) else None)"

text \<open>The login route: a signature over the empty body opens a session.\<close>

definition auth_login ::
  "crypto \<Rightarrow> nat \<Rightarrow> nat \<Rightarrow> nat \<Rightarrow> string \<Rightarrow> header_map \<Rightarrow> session_store \<Rightarrow> (auth_error + string \<times> string) \<times> session_store" where
  "auth_login cr wall now later token headers sessions =
     (case verify_request cr wall headers ''POST'' [] ''/v1/auth/login'' of
        Err e \<Rightarrow> (Err e, sessions)
      | Ok address \<Rightarrow> (Ok (token, address), session_create now later token address sessions))"

section \<open>The middleware of the public API\<close>

record http_request =
  rq_method :: string
  rq_uri :: string
  rq_path :: string
  rq_query :: "string option"
  rq_headers :: header_map
  rq_body :: "bytes option"

datatype rejection =
    BodyUnreadable
  | BodyNotJson
  | BodyUserMismatch string string
  | QueryUserMismatch
  | SessionInvalid
  | AuthFailed auth_error

text \<open>What the middleware does: hand the request on with an authenticated user and a binding, or reply.\<close>

datatype auth_outcome = Next "string option" "order_signature_binding option" | Reject nat rejection

definition is_exempt :: "string \<Rightarrow> string \<Rightarrow> bool" where
  "is_exempt meth path \<longleftrightarrow>
     path = ''/v1/health'' \<or> path = ''/v1/system/status'' \<or> path = ''/v1/openapi.json''
     \<or> path = ''/v1/pool/status'' \<or> path = ''/v1/auth/login'' \<or> starts_with ''/v1/attestation/'' path
     \<or> (meth = ''GET'' \<and> (path = ''/v1/markets'' \<or> starts_with ''/v1/markets/'' path))"

definition body_user_id :: "json \<Rightarrow> string option" where
  "body_user_id body_json = Option.bind (json_get body_json ''user_id'') json_as_str"

fun split_on :: "char \<Rightarrow> string \<Rightarrow> string list" where
  "split_on c [] = [[]]"
| "split_on c (x # xs) =
     (if x = c then [] # split_on c xs
      else case split_on c xs of [] \<Rightarrow> [[x]] | w # ws \<Rightarrow> (x # w) # ws)"

definition query_user_ok :: "string \<Rightarrow> string option \<Rightarrow> string \<Rightarrow> bool" where
  "query_user_ok meth query user \<longleftrightarrow>
     (if meth = ''GET''
      then case query of
             None \<Rightarrow> True
           | Some q \<Rightarrow> list_all (\<lambda>pair. case strip_prefix ''user_id='' pair of None \<Rightarrow> True | Some v \<Rightarrow> v = user)
                         (split_on (CHR ''&'') q)
      else True)"

definition session_path :: "crypto \<Rightarrow> nat \<Rightarrow> session_store \<Rightarrow> http_request \<Rightarrow> string \<Rightarrow> auth_outcome" where
  "session_path cr now sessions rq token =
     (case session_get now token sessions of
        None \<Rightarrow> Reject 401 SessionInvalid
      | Some user \<Rightarrow>
          (case rq_body rq of
             None \<Rightarrow> Reject 400 BodyUnreadable
           | Some body_bytes \<Rightarrow>
               let body_user = (if body_bytes = [] then None else Option.bind (json_parse cr body_bytes) body_user_id)
               in case body_user of
                    Some u \<Rightarrow> if u \<noteq> user then Reject 403 (BodyUserMismatch u user)
                              else if query_user_ok (rq_method rq) (rq_query rq) user then Next (Some user) None
                              else Reject 403 QueryUserMismatch
                  | None \<Rightarrow> if query_user_ok (rq_method rq) (rq_query rq) user then Next (Some user) None
                            else Reject 403 QueryUserMismatch))"

definition header_or_empty :: "header_map \<Rightarrow> string \<Rightarrow> string" where
  "header_or_empty headers name = (case headers name of None \<Rightarrow> [] | Some v \<Rightarrow> v)"

definition mk_binding :: "(bytes \<Rightarrow> string) \<Rightarrow> string \<Rightarrow> bytes \<Rightarrow> header_map \<Rightarrow> string \<Rightarrow> order_signature_binding option" where
  "mk_binding hex_encode meth body_bytes headers user =
     (if body_bytes \<noteq> [] \<and> meth \<noteq> ''GET''
      then Some \<lparr>signed_body_hex = hex_encode body_bytes,
                 signature_hex = header_or_empty headers ''x-xrpl-signature'',
                 osb_timestamp = header_or_empty headers ''x-xrpl-timestamp'',
                 signer_address = user,
                 signer_pubkey_hex = header_or_empty headers ''x-xrpl-publickey''\<rparr>
      else None)"

definition signature_path :: "crypto \<Rightarrow> (bytes \<Rightarrow> string) \<Rightarrow> nat \<Rightarrow> http_request \<Rightarrow> auth_outcome" where
  "signature_path cr hex_encode wall rq =
     (case rq_body rq of
        None \<Rightarrow> Reject 400 BodyUnreadable
      | Some body_bytes \<Rightarrow>
          (case verify_request cr wall (rq_headers rq) (rq_method rq) body_bytes (rq_uri rq) of
             Err e \<Rightarrow> Reject 401 (AuthFailed e)
           | Ok user \<Rightarrow>
               let go = (if query_user_ok (rq_method rq) (rq_query rq) user
                         then Next (Some user) (mk_binding hex_encode (rq_method rq) body_bytes (rq_headers rq) user)
                         else Reject 403 QueryUserMismatch)
               in if body_bytes = [] then go
                  else case json_parse cr body_bytes of
                         None \<Rightarrow> Reject 400 BodyNotJson
                       | Some j \<Rightarrow>
                           (case body_user_id j of
                              Some u \<Rightarrow> if u \<noteq> user then Reject 403 (BodyUserMismatch u user) else go
                            | None \<Rightarrow> go)))"

definition auth_middleware ::
  "crypto \<Rightarrow> (bytes \<Rightarrow> string) \<Rightarrow> nat \<Rightarrow> nat \<Rightarrow> session_store \<Rightarrow> http_request \<Rightarrow> auth_outcome" where
  "auth_middleware cr hex_encode wall now sessions rq =
     (if is_exempt (rq_method rq) (rq_path rq) then Next None None
      else case Option.bind (rq_headers rq ''authorization'') (strip_prefix ''Bearer '') of
             Some token \<Rightarrow> session_path cr now sessions rq token
           | None \<Rightarrow> signature_path cr hex_encode wall rq)"

section \<open>The admin surfaces\<close>

text \<open>\<open>contains\<close>: the pattern starts at some position.\<close>

fun str_contains :: "string \<Rightarrow> string \<Rightarrow> bool" where
  "str_contains p [] = (p = [])"
| "str_contains p (c # cs) = (starts_with p (c # cs) \<or> str_contains p cs)"

definition is_admin_path :: "string \<Rightarrow> bool" where
  "is_admin_path uri_path \<longleftrightarrow> starts_with ''/admin/'' uri_path \<or> str_contains ''/v1/admin/'' uri_path"

datatype operator_refusal = EmptyAllowlist | NotAuthenticated auth_error | NotAnOperator string

definition refusal_code :: "operator_refusal \<Rightarrow> nat" where
  "refusal_code e = (case e of EmptyAllowlist \<Rightarrow> 403 | NotAuthenticated _ \<Rightarrow> 401 | NotAnOperator _ \<Rightarrow> 403)"

definition verify_operator_request ::
  "crypto \<Rightarrow> nat \<Rightarrow> header_map \<Rightarrow> string \<Rightarrow> bytes \<Rightarrow> string \<Rightarrow> string list \<Rightarrow> operator_refusal + string" where
  "verify_operator_request cr now headers meth body_bytes uri_path operators =
     (if operators = [] then Err EmptyAllowlist
      else case verify_request_with cr now headers meth body_bytes uri_path AdminDomain of
             Err e \<Rightarrow> Err (NotAuthenticated e)
           | Ok user \<Rightarrow> if list_ex (\<lambda>x. x = user) operators then Ok user else Err (NotAnOperator user))"

datatype operator_outcome = AdminNext bytes | AdminBodyUnreadable | AdminRefused nat operator_refusal

definition operator_only :: "crypto \<Rightarrow> nat \<Rightarrow> roster_authority \<Rightarrow> http_request \<Rightarrow> operator_outcome" where
  "operator_only cr now authority rq =
     (case rq_body rq of
        None \<Rightarrow> AdminBodyUnreadable
      | Some body_bytes \<Rightarrow>
          (case verify_operator_request cr now (rq_headers rq) (rq_method rq) body_bytes (rq_path rq)
                  (allowlist_for_path authority (rq_path rq)) of
             Err e \<Rightarrow> AdminRefused (refusal_code e) e
           | Ok _ \<Rightarrow> AdminNext body_bytes))"

end
