(* ===== verification/ReservesBaseline.thy ===== *)
theory ReservesBaseline
  imports Governance Auth
begin

text \<open>
  The baseline ceremony of \<^verbatim>\<open>orchestrator/src/reserves_baseline.rs\<close>: fingerprints of the sources, their
  diversity, the collector of co-signatures over one proof, and the driver that broadcasts the
  proof with its bundle and counts the nodes that seal. The message hash and the recovery of a
  signer are with the signing handlers. The proof fetch is a parameter; the relays are the
  replies that arrive, each with its time, or nothing when the run loop is gone.
\<close>

section \<open>Sources\<close>

definition trim_end_slashes :: "string \<Rightarrow> string" where
  "trim_end_slashes s = rev (dropWhile (\<lambda>c. c = CHR ''/'') (rev s))"

definition no_scheme :: "string \<Rightarrow> string" where
  "no_scheme lower =
     (case strip_prefix ''https://'' lower of Some r \<Rightarrow> r | None \<Rightarrow>
      (case strip_prefix ''http://'' lower of Some r \<Rightarrow> r | None \<Rightarrow>
       (case strip_prefix ''wss://'' lower of Some r \<Rightarrow> r | None \<Rightarrow>
        (case strip_prefix ''ws://'' lower of Some r \<Rightarrow> r | None \<Rightarrow> lower))))"

definition endpoint_host :: "string \<Rightarrow> string" where
  "endpoint_host url =
     (case split_on (CHR ''/'') (no_scheme (map ascii_lower (str_trim url))) of
        h # _ \<Rightarrow> trim_end_slashes h
      | [] \<Rightarrow> trim_end_slashes (no_scheme (map ascii_lower (str_trim url))))"

definition endpoint_fingerprint :: "xrpl_lib \<Rightarrow> string \<Rightarrow> string" where
  "endpoint_fingerprint L url = hex_enc L (take 8 (sha256 L (bytes_of (endpoint_host url))))"

datatype baseline_error =
    SharedEndpoints nat nat
  | FewSources nat nat nat
  | UnknownSigner string
  | ProofFetch string
  | BaselineCollect collect_error
  | FewCosignatures nat nat
  | ApplyRelayClosed

definition enforce_distinct_endpoints :: "xrpl_lib \<Rightarrow> string list \<Rightarrow> baseline_error + string list" where
  "enforce_distinct_endpoints L endpoints =
     (let fps = map (endpoint_fingerprint L) endpoints
      in if card (set fps) \<noteq> length endpoints then Err (SharedEndpoints (length endpoints) (card (set fps))) else Ok fps)"

definition assert_distinct_sources :: "string list \<Rightarrow> nat \<Rightarrow> baseline_error + nat" where
  "assert_distinct_sources fingerprints quorum =
     (if card (set fingerprints) < quorum then Err (FewSources (length fingerprints) (card (set fingerprints)) quorum)
      else Ok (card (set fingerprints)))"

record baseline_node =
  bn_pubkey_hex :: string
  bn_xrpl_endpoint :: string

fun source_fingerprints :: "xrpl_lib \<Rightarrow> baseline_node list \<Rightarrow> bytes list \<Rightarrow> baseline_error + string list" where
  "source_fingerprints L nodes [] = Ok []"
| "source_fingerprints L nodes (pk # pks) =
     (case find (\<lambda>n. map ascii_lower (bn_pubkey_hex n) = map ascii_lower (hex_enc L pk)) nodes of
        None \<Rightarrow> Err (UnknownSigner (hex_enc L pk))
      | Some n \<Rightarrow> map_sum id ((#) (endpoint_fingerprint L (bn_xrpl_endpoint n))) (source_fingerprints L nodes pks))"

text \<open>First occurrences, in order.\<close>

fun first_seen :: "'a list \<Rightarrow> 'a set \<Rightarrow> 'a list" where
  "first_seen [] seen = []"
| "first_seen (x # xs) seen = (if x \<in> seen then first_seen xs seen else x # first_seen xs (insert x seen))"

definition assert_bundle_diversity ::
  "xrpl_lib \<Rightarrow> bytes list \<Rightarrow> baseline_node list \<Rightarrow> nat \<Rightarrow> baseline_error + string list" where
  "assert_bundle_diversity L accepted nodes quorum =
     result_bind (source_fingerprints L nodes accepted) (\<lambda>fps.
     result_bind (assert_distinct_sources fps quorum) (\<lambda>_. Ok (first_seen fps {})))"

section \<open>The ceremony\<close>

definition spv_collect ::
  "xrpl_lib \<Rightarrow> nat \<Rightarrow> (nat \<times> 'e signing_message) list option \<Rightarrow> collect_error + bytes \<times> bytes list" where
  "spv_collect L deadline arrivals =
     (case arrivals of
        None \<Rightarrow> Err RelayClosed
      | Some ms \<Rightarrow>
          let entries = collect_loop (parse_governance_response L) deadline ms []
          in if entries = [] then Err ZeroConsents else Ok (quorum_bundle_build entries, map fst entries))"

record 'e seal_tally =
  st_sealed :: "string set"
  st_seen :: "string set"
  st_failures :: "(string \<times> 'e) list"

definition tally_reply :: "'e signing_message \<Rightarrow> 'e seal_tally \<Rightarrow> 'e seal_tally" where
  "tally_reply resp t =
     (case resp of
        Response _ addr _ _ err \<Rightarrow>
          let node = (if addr = [] then ''<unknown>'' else addr)
          in if node \<in> st_seen t then t
             else (case err of
                     None \<Rightarrow> t\<lparr>st_seen := insert node (st_seen t), st_sealed := insert node (st_sealed t)\<rparr>
                   | Some e \<Rightarrow> t\<lparr>st_seen := insert node (st_seen t), st_failures := st_failures t @ [(node, e)]\<rparr>)
      | _ \<Rightarrow> t)"

fun seal_loop :: "nat \<Rightarrow> nat \<Rightarrow> (nat \<times> 'e signing_message) list \<Rightarrow> 'e seal_tally \<Rightarrow> 'e seal_tally" where
  "seal_loop expected deadline [] t = t"
| "seal_loop expected deadline ((at, m) # ms) t =
     (if expected \<le> card (st_sealed t) then t
      else if deadline \<le> at then t
      else seal_loop expected deadline ms (tally_reply m t))"

record 'e baseline_summary =
  bs_status :: string
  bs_sealed_nodes :: nat
  bs_expected_nodes :: nat
  bs_distinct_cosigners :: nat
  bs_source_fingerprints :: "string list"
  bs_failures :: "(string \<times> 'e) list"

definition COSIGN_WINDOW :: nat where "COSIGN_WINDOW = 150"
definition APPLY_WINDOW :: nat where "APPLY_WINDOW = 150"

text \<open>
  The two broadcasts: the proof with the excluded accounts, and the proof with the bundle, the
  fingerprints and the excluded accounts.
\<close>

definition run_reserves_spv_baseline_ceremony ::
  "xrpl_lib \<Rightarrow> string + bytes \<Rightarrow> (string \<Rightarrow> string list \<Rightarrow> (nat \<times> 'e signing_message) list option)
    \<Rightarrow> (string \<Rightarrow> string \<Rightarrow> string list \<Rightarrow> string list \<Rightarrow> (nat \<times> 'e signing_message) list option)
    \<Rightarrow> baseline_node list \<Rightarrow> nat \<Rightarrow> string list \<Rightarrow> baseline_error + 'e baseline_summary" where
  "run_reserves_spv_baseline_ceremony L fetched cosign_relay apply_relay nodes cosign_quorum excluded =
     result_bind (enforce_distinct_endpoints L (map bn_xrpl_endpoint nodes)) (\<lambda>_.
     result_bind (map_sum ProofFetch id fetched) (\<lambda>proof.
     result_bind (map_sum BaselineCollect id (spv_collect L COSIGN_WINDOW (cosign_relay (hex_enc L proof) excluded))) (\<lambda>(bndl, pubkeys).
     if length pubkeys < cosign_quorum then Err (FewCosignatures (length pubkeys) cosign_quorum)
     else result_bind (assert_bundle_diversity L pubkeys nodes cosign_quorum) (\<lambda>fps.
       case apply_relay (hex_enc L proof) (hex_enc L bndl) fps excluded of
         None \<Rightarrow> Err ApplyRelayClosed
       | Some arrivals \<Rightarrow>
           let expected = max (length nodes) 1;
               t = seal_loop expected APPLY_WINDOW arrivals \<lparr>st_sealed = {}, st_seen = {}, st_failures = []\<rparr>;
               sealed_nodes = card (st_sealed t)
           in Ok \<lparr>bs_status = (if expected \<le> sealed_nodes then ''applied'' else ''partial''),
                  bs_sealed_nodes = sealed_nodes, bs_expected_nodes = expected, bs_distinct_cosigners = length fps,
                  bs_source_fingerprints = fps, bs_failures = st_failures t\<rparr>))))"

end
