(* ===== verification/ReservesBaseline_Props.thy ===== *)
theory ReservesBaseline_Props
  imports ReservesBaseline Governance_Props
begin

text \<open>What a reserves baseline rests on: distinct operators of the roster, and acknowledgements of the seal.\<close>

lemma first_seen_set: "set (first_seen xs seen) = set xs - seen \<and> distinct (first_seen xs seen)"
  by (induction xs arbitrary: seen) auto

lemma length_first_seen: "length (first_seen xs {}) = card (set xs)"
  using first_seen_set [of xs "{}"] distinct_card [of "first_seen xs {}"] by simp

lemma find_SomeD: "find P xs = Some x \<Longrightarrow> x \<in> set xs \<and> P x"
  by (auto simp: find_Some_iff in_set_conv_nth)

definition key_of :: "xrpl_lib \<Rightarrow> bytes \<Rightarrow> baseline_node \<Rightarrow> bool" where
  "key_of L pk n \<longleftrightarrow> map ascii_lower (bn_pubkey_hex n) = map ascii_lower (hex_enc L pk)"

lemma source_fingerprints_Ok:
  "source_fingerprints L nodes pks = Ok fps \<Longrightarrow>
     list_all2 (\<lambda>pk fp. \<exists>n\<in>set nodes. key_of L pk n \<and> fp = endpoint_fingerprint L (bn_xrpl_endpoint n)) pks fps"
proof (induction pks arbitrary: fps)
  case (Cons pk pks)
  then obtain n rest where n: "find (\<lambda>n. map ascii_lower (bn_pubkey_hex n) = map ascii_lower (hex_enc L pk)) nodes = Some n"
    "source_fingerprints L nodes pks = Ok rest" "fps = endpoint_fingerprint L (bn_xrpl_endpoint n) # rest"
    by (auto simp: map_sum_Ok_iff split: option.splits)
  from find_SomeD [OF n(1)] n(2,3) Cons.IH show ?case by (auto simp: key_of_def)
qed simp

text \<open>A node name is sealed by the replies if one of them, in time, has no error.\<close>

definition sealed_by :: "nat \<Rightarrow> (nat \<times> 'e signing_message) list \<Rightarrow> string \<Rightarrow> bool" where
  "sealed_by deadline ms x \<longleftrightarrow> (\<exists>at rid addr d p. (at, Response rid addr d p None) \<in> set ms \<and> at < deadline \<and> x = node_name addr)"

lemma sealed_by_Cons: "sealed_by deadline ms x \<Longrightarrow> sealed_by deadline (m # ms) x"
  by (fastforce simp: sealed_by_def)

lemma tally_reply_sealed:
  assumes "at < deadline" "finite (st_sealed t)"
  shows "finite (st_sealed (tally_reply m t)) \<and> st_sealed (tally_reply m t) \<subseteq> st_sealed t \<union> Collect (sealed_by deadline ((at, m) # ms))"
proof -
  have "sealed_by deadline ((at, Response rid addr d p None) # ms) (node_name addr)" for rid addr d p
    using assms(1) by (fastforce simp: sealed_by_def)
  then show ?thesis using assms(2)
    by (cases m) (auto simp: tally_reply_def node_name_def [symmetric] Let_def split: option.splits)
qed

lemma seal_loop_sealed:
  "finite (st_sealed t) \<Longrightarrow> finite (st_sealed (seal_loop k deadline ms t))
     \<and> st_sealed (seal_loop k deadline ms t) \<subseteq> st_sealed t \<union> Collect (sealed_by deadline ms)"
proof (induction k deadline ms t rule: seal_loop.induct)
  case (2 k deadline at m ms t)
  show ?case
  proof (cases "k \<le> card (st_sealed t) \<or> deadline \<le> at")
    case False
    then have "at < deadline" by simp
    note tally = tally_reply_sealed [OF this "2.prems", of m ms]
    from "2.IH" [OF _ _ conjunct1 [OF tally]] tally False show ?thesis
      using sealed_by_Cons [of deadline ms _ "(at, m)"] by auto
  qed (use "2.prems" in auto)
qed simp

text \<open>
  C28. A baseline that is reported was co-signed by enough distinct operators of the roster, each
  behind its own source: the keys of the bundle are distinct, all of them in the roster, they reach
  the quorum, and so do their distinct fingerprints, which are what is broadcast with the bundle. It
  is reported as applied only if as many differently named nodes as the roster has acknowledged
  the seal in time.
\<close>

theorem baseline_rests_on_roster:
  assumes "run_reserves_spv_baseline_ceremony L fetched cosign_relay apply_relay nodes cosign_quorum excluded = Ok sm"
  shows "\<exists>pf ms es ar. fetched = Ok pf \<and> cosign_relay (hex_enc L pf) excluded = Some ms
    \<and> es = collect_loop (parse_governance_response L) COSIGN_WINDOW ms [] \<and> distinct (map fst es) \<and> cosign_quorum \<le> length es
    \<and> (\<forall>pk\<in>fst ` set es. \<exists>n\<in>set nodes. key_of L pk n)
    \<and> distinct (bs_source_fingerprints sm) \<and> cosign_quorum \<le> length (bs_source_fingerprints sm)
    \<and> (\<forall>fp\<in>set (bs_source_fingerprints sm). \<exists>n\<in>set nodes. \<exists>pk\<in>fst ` set es. key_of L pk n \<and> fp = endpoint_fingerprint L (bn_xrpl_endpoint n))
    \<and> apply_relay (hex_enc L pf) (hex_enc L (quorum_bundle_build es)) (bs_source_fingerprints sm) excluded = Some ar
    \<and> (bs_status sm = ''applied'' \<longrightarrow> (\<exists>S. max (length nodes) 1 \<le> card S \<and> (\<forall>x\<in>S. sealed_by APPLY_WINDOW ar x)))"
proof -
  note run = assms [unfolded run_reserves_spv_baseline_ceremony_def]
  obtain pf bndl pks fps ar where r: "fetched = Ok pf"
    "spv_collect L COSIGN_WINDOW (cosign_relay (hex_enc L pf) excluded) = Ok (bndl, pks)" "cosign_quorum \<le> length pks"
    "assert_bundle_diversity L pks nodes cosign_quorum = Ok fps"
    "apply_relay (hex_enc L pf) (hex_enc L bndl) fps excluded = Some ar" "bs_source_fingerprints sm = fps"
    and st: "bs_status sm = ''applied'' \<longrightarrow> max (length nodes) 1
      \<le> card (st_sealed (seal_loop (max (length nodes) 1) APPLY_WINDOW ar \<lparr>st_sealed = {}, st_seen = {}, st_failures = []\<rparr>))"
    using run by (auto simp: result_bind_Ok_iff map_sum_Ok_iff case_option_Ok_iff Let_def split: if_splits option.splits)
  obtain ms where ms: "cosign_relay (hex_enc L pf) excluded = Some ms"
    and es: "bndl = quorum_bundle_build (collect_loop (parse_governance_response L) COSIGN_WINDOW ms [])"
      "pks = map fst (collect_loop (parse_governance_response L) COSIGN_WINDOW ms [])"
    using r(2) by (auto simp: spv_collect_def Let_def split: option.splits if_splits)
  obtain fps0 where f: "source_fingerprints L nodes pks = Ok fps0" "cosign_quorum \<le> card (set fps0)" "fps = first_seen fps0 {}"
    using r(4) by (auto simp: assert_bundle_diversity_def assert_distinct_sources_def result_bind_Ok_iff split: if_splits)
  note l = source_fingerprints_Ok [OF f(1)]
  have keys: "\<forall>pk\<in>set pks. \<exists>n\<in>set nodes. key_of L pk n" using l by (fastforce simp: list_all2_conv_all_nth in_set_conv_nth)
  have fpk: "\<forall>fp\<in>set fps. \<exists>n\<in>set nodes. \<exists>pk\<in>set pks. key_of L pk n \<and> fp = endpoint_fingerprint L (bn_xrpl_endpoint n)"
    using l first_seen_set [of fps0 "{}"] unfolding f(3) by (fastforce simp: list_all2_conv_all_nth in_set_conv_nth)
  have seal: "bs_status sm = ''applied'' \<longrightarrow> (\<exists>S. max (length nodes) 1 \<le> card S \<and> (\<forall>x\<in>S. sealed_by APPLY_WINDOW ar x))"
    using st seal_loop_sealed [of "\<lparr>st_sealed = {}, st_seen = {}, st_failures = []\<rparr>" "max (length nodes) 1" APPLY_WINDOW ar] by auto
  show ?thesis
    using r ms es keys fpk seal f first_seen_set [of fps0 "{}"] length_first_seen [of fps0]
      collect_loop_spec(1) [of "parse_governance_response L" COSIGN_WINDOW ms]
    by (intro exI [of _ pf] exI [of _ ms] exI [of _ "collect_loop (parse_governance_response L) COSIGN_WINDOW ms []"] exI [of _ ar]) simp
qed

text \<open>One operator whose node co-signs and seals.\<close>

definition sample_baseline_node :: baseline_node where
  "sample_baseline_node = \<lparr>bn_pubkey_hex = hex_enc sample_lib (replicate 33 2), bn_xrpl_endpoint = ''https://a''\<rparr>"

theorem baseline_rests_on_roster_witness:
  "\<exists>sm :: string baseline_summary. run_reserves_spv_baseline_ceremony sample_lib (Ok []) (\<lambda>_ _. Some [(1, sample_consent 2)])
      (\<lambda>_ _ _ _. Some [(1, sample_ack ''r1'')]) [sample_baseline_node] 1 [] = Ok sm
     \<and> (\<exists>S. 1 \<le> card S \<and> (\<forall>x\<in>S. sealed_by APPLY_WINDOW [(1, sample_ack ''r1'')] x))"
proof -
  let ?run = "run_reserves_spv_baseline_ceremony sample_lib (Ok []) (\<lambda>_ _. Some [(1, sample_consent 2)])
      (\<lambda>_ _ _ _. Some [(1, sample_ack ''r1'')]) [sample_baseline_node] 1 []"
  have p: "parse_governance_response sample_lib (sample_consent 2) = Some (replicate 33 2, replicate 8 1)"
    using sample_lib_ok by (simp add: parse_governance_response_def sample_consent_def)
  have "spv_collect sample_lib COSIGN_WINDOW (Some [(1, sample_consent 2)])
      = Ok (quorum_bundle_build [(replicate 33 2, replicate 8 1)], [replicate 33 2])"
    by (simp add: spv_collect_def COSIGN_WINDOW_def p push_entry_def)
  moreover have "\<exists>fps. assert_bundle_diversity sample_lib [replicate 33 2] [sample_baseline_node] 1 = Ok fps"
    by (simp add: assert_bundle_diversity_def assert_distinct_sources_def sample_baseline_node_def)
  moreover have "\<exists>fps. enforce_distinct_endpoints sample_lib [bn_xrpl_endpoint sample_baseline_node] = Ok fps"
    by (simp add: enforce_distinct_endpoints_def)
  moreover have "tally_reply (sample_ack ''r1'') \<lparr>st_sealed = {}, st_seen = {}, st_failures = []\<rparr>
      = \<lparr>st_sealed = {''r1''}, st_seen = {''r1''}, st_failures = []\<rparr>"
    by (simp add: tally_reply_def sample_ack_def Let_def)
  ultimately obtain sm where sm: "?run = Ok sm" "bs_status sm = ''applied''"
    by (auto simp: run_reserves_spv_baseline_ceremony_def APPLY_WINDOW_def Let_def)
  from baseline_rests_on_roster [OF sm(1)] sm show ?thesis by auto
qed

end
