(* ===== verification/Auth_Props.thy ===== *)
theory Auth_Props
  imports Auth
begin

text \<open>
  What the authentication layer promises: who a request that passes belongs to, how long a
  session lives, which request an admin signature is for, that a stored binding verifies again,
  and who reaches an admin surface.
\<close>

section \<open>A verified request\<close>

text \<open>The headers carry the address of a key and its signature over the canonical message, in time.\<close>

definition authentic ::
  "crypto \<Rightarrow> nat \<Rightarrow> header_map \<Rightarrow> string \<Rightarrow> bytes \<Rightarrow> string \<Rightarrow> canonical_domain \<Rightarrow> string \<Rightarrow> bool" where
  "authentic cr now headers meth body_bytes uri_path domain a \<longleftrightarrow>
     (\<exists>pk sg t ts key sb. headers ''x-xrpl-address'' = Some a \<and> headers ''x-xrpl-publickey'' = Some pk
        \<and> headers ''x-xrpl-signature'' = Some sg \<and> headers ''x-xrpl-timestamp'' = Some t
        \<and> parse_u64 t = Some ts \<and> ts \<le> now + MAX_TIMESTAMP_DRIFT_SECS \<and> now \<le> ts + MAX_TIMESTAMP_DRIFT_SECS
        \<and> starts_with ''r'' a \<and> length a \<in> {25..35} \<and> length pk = 66
        \<and> hex_decode cr pk = Some key \<and> xrpl_address cr key = a \<and> hex_decode cr sg = Some sb
        \<and> verify_xrpl_sig cr key sb (cr_sha256 cr (canonical_message domain meth body_bytes uri_path t)) = Ok ())"

lemma header_Ok: "header h n = Ok v \<longleftrightarrow> h n = Some v"
  by (simp add: header_def split: option.splits)

lemma check_drift_Ok:
  "check_drift now t = Ok u \<longleftrightarrow> (\<exists>ts. parse_u64 t = Some ts \<and> ts \<le> now + MAX_TIMESTAMP_DRIFT_SECS \<and> now \<le> ts + MAX_TIMESTAMP_DRIFT_SECS)"
  by (auto simp: check_drift_def abs_diff_def Let_def split: option.splits)

lemma verify_request_with_Ok:
  "verify_request_with cr now h m b u d = Ok a \<longleftrightarrow> authentic cr now h m b u d a"
  unfolding verify_request_with_def authentic_def
  by (simp add: header_Ok check_drift_Ok Let_def ok_iffs not_less)
    blast

section \<open>The middleware\<close>

lemma query_user_okD:
  "query_user_ok m q a \<Longrightarrow> m = ''GET'' \<Longrightarrow> q = Some s \<Longrightarrow> ''user_id='' @ v \<in> set (split_on (CHR ''&'') s) \<Longrightarrow> v = a"
  unfolding query_user_ok_def by (force simp: list_all_iff simp del: append_Cons)


section \<open>Sessions\<close>

lemma session_get_create_other:
  "k \<noteq> token \<Longrightarrow> l \<le> now \<Longrightarrow> session_get now token (session_create n l k a S) = session_get now token S"
  by (auto simp: session_get_def session_create_def split: option.splits)

text \<open>
  A token is good for exactly the session's half hour: whatever sessions are opened after it,
  with the cleanup each brings, it gives its address up to the expiry and nothing from then on.
\<close>

theorem session_lives_half_hour:
  assumes "\<forall>(n, l, k, a)\<in>set later_logins. k \<noteq> token \<and> l \<le> now"
  shows "session_get now token
      (fold (\<lambda>(n, l, k, a). session_create n l k a) later_logins (session_create t t' token address sessions))
    = (if now < t + SESSION_TTL then Some address else None)"
proof -
  have "session_get now token (fold (\<lambda>(n, l, k, a). session_create n l k a) later_logins S) = session_get now token S" for S
    using assms by (induction later_logins arbitrary: S) (auto simp: session_get_create_other)
  then show ?thesis by (simp add: session_get_def session_create_def)
qed

theorem session_lives_half_hour_witness:
  "session_get 1899 ''t1'' (fold (\<lambda>(n, l, k, a). session_create n l k a) [(1000, 1000, ''t2'', ''rBob'')]
     (session_create 100 100 ''t1'' ''rAlice'' Map.empty)) = Some ''rAlice''"
  using session_lives_half_hour [of "[(1000, 1000, ''t2'', ''rBob'')]" "''t1''" 1899 100 100 "''rAlice''" Map.empty]
  by (simp add: SESSION_TTL_def)

section \<open>Canonical messages\<close>

lemma bytes_of_append: "bytes_of (s @ t) = bytes_of s @ bytes_of t"
  by (simp add: bytes_of_def)

lemma of_char_byte_inj: "(of_char c :: byte) = of_char d \<Longrightarrow> c = d"
proof -
  assume "(of_char c :: byte) = of_char d"
  then have "(of_nat (of_char c) :: byte) = of_nat (of_char d)"
    by (simp only: of_nat_of_char)
  from arg_cong [OF this, of unat] have "(of_char c :: nat) = of_char d" by (simp add: nat_of_char_less_256)
  then show ?thesis by simp
qed

lemma bytes_of_inj: "bytes_of s = bytes_of t \<longleftrightarrow> s = t"
  using of_char_byte_inj by (auto simp: bytes_of_def inj_on_def intro: map_injective)

lemma split_at_first:
  assumes "x \<notin> set a" "x \<notin> set b" "a @ x # r = b @ x # s" shows "a = b \<and> r = s"
  using assms
proof (induction a arbitrary: b)
  case Nil
  then show ?case by (cases b) auto
next
  case (Cons y a)
  then show ?case by (cases b) auto
qed

lemma split_at_last:
  assumes "x \<notin> set r" "x \<notin> set s" "a @ x # r = b @ x # s" shows "a = b \<and> r = s"
proof -
  have "rev r @ x # rev a = rev s @ x # rev b" using arg_cong [OF assms(3), of rev] by simp
  from split_at_first [OF _ _ this] assms(1,2) show ?thesis by simp
qed

lemma bar_no_digit: "\<not> is_ascii_digit (CHR ''|'')"
  by (simp add: is_ascii_digit_def)

lemma parse_u64_no_bar:
  assumes "parse_u64 t = Some n" shows "CHR ''|'' \<notin> set t"
proof (cases t)
  case (Cons c cs)
  have "list_all is_ascii_digit (if c = CHR ''+'' then cs else c # cs)"
    using assms unfolding Cons parse_u64_def Let_def by (auto split: if_splits)
  then show ?thesis using bar_no_digit unfolding Cons list_all_iff by (auto split: if_splits)
qed simp

lemma admin_message_parts:
  "canonical_message AdminDomain m b u t
     = bytes_of ''xperp/v1/admin|'' @ bytes_of m @ 124 # bytes_of u @ 124 # b @ 124 # bytes_of t"
  by (simp add: canonical_message_def bytes_of_def)

lemma bar_bytes_of: "CHR ''|'' \<notin> set s \<Longrightarrow> 124 \<notin> set (bytes_of s)"
proof
  assume "CHR ''|'' \<notin> set s" "124 \<in> set (bytes_of s)"
  then obtain x where x: "x \<in> set s" "of_char x = (124 :: byte)" by (auto simp: bytes_of_def)
  have "x = CHR ''|''" using of_char_byte_inj [of x "CHR ''|''"] x(2) by simp
  with x(1) \<open>CHR ''|'' \<notin> set s\<close> show False by simp
qed

lemma admin_message_inj:
  assumes "CHR ''|'' \<notin> set t" "CHR ''|'' \<notin> set t'"
    and "CHR ''|'' \<notin> set m \<union> set u \<union> set m' \<union> set u'"
    and eq: "canonical_message AdminDomain m b u t = canonical_message AdminDomain m' b' u' t'"
  shows "m = m' \<and> u = u' \<and> b = b' \<and> t = t'"
proof -
  note nb = assms(1,2) [THEN bar_bytes_of]
  have nm: "124 \<notin> set (bytes_of m)" "124 \<notin> set (bytes_of m')"
    "124 \<notin> set (bytes_of u)" "124 \<notin> set (bytes_of u')"
    using assms(3) by (auto intro!: bar_bytes_of)
  from eq split_at_first [OF nm(1,2)] have "bytes_of m = bytes_of m'"
    and r1: "bytes_of u @ 124 # b @ 124 # bytes_of t
      = bytes_of u' @ 124 # b' @ 124 # bytes_of t'"
    unfolding admin_message_parts same_append_eq by blast+
  moreover from split_at_first [OF nm(3,4) r1] have "bytes_of u = bytes_of u'"
    and r2: "b @ 124 # bytes_of t = b' @ 124 # bytes_of t'" by blast+
  ultimately show ?thesis using split_at_last [OF nb r2] by (simp add: bytes_of_inj)
qed

lemma public_message_not_admin:
  assumes "is_get m' \<longrightarrow> starts_with ''/'' u'" "\<not> is_get m' \<and> b' \<noteq> [] \<longrightarrow> hd b' \<noteq> of_char (CHR ''x'')"
  shows "canonical_message AdminDomain m b u t \<noteq> canonical_message PublicDomain m' b' u' t'"
proof
  assume eq: "canonical_message AdminDomain m b u t = canonical_message PublicDomain m' b' u' t'"
  have h: "canonical_message AdminDomain m b u t ! 0 = of_char (CHR ''x'')"
    "canonical_message AdminDomain m b u t ! 9 = of_char (CHR ''a'')"
    by (simp_all add: admin_message_parts bytes_of_def numeral_eq_Suc)
  have ne: "(of_char (CHR ''x'') :: byte) \<noteq> of_char (CHR ''/'')" "(of_char (CHR ''a'') :: byte) \<noteq> of_char (CHR ''l'')"
    by simp_all
  consider "is_get m'" | "\<not> is_get m'" "b' = []" | "\<not> is_get m'" "b' \<noteq> []" by blast
  then show False
  proof cases
    case 1
    with assms(1) obtain r where "u' = ''/'' @ r" using starts_withE by blast
    with 1 h(1) ne(1) show False unfolding eq by (simp add: canonical_message_def bytes_of_def)
  next
    case 2
    with h(2) ne(2) show False unfolding eq by (simp add: canonical_message_def bytes_of_def numeral_eq_Suc)
  next
    case 3
    with assms(2) h(1) show False unfolding eq by (simp add: canonical_message_def hd_conv_nth nth_append)
  qed
qed

text \<open>
  The message an operator signs for an admin surface is for one request: over methods and
  routes without a bar it determines method, route, body and time, and no message of the public
  API equals it when paths start with a slash and bodies do not start with an \<open>x\<close> (no JSON text
  does).
\<close>

theorem admin_message_binds:
  assumes "parse_u64 t = Some n" "parse_u64 t' = Some n'"
    and "CHR ''|'' \<notin> set m \<union> set u \<union> set m' \<union> set u'"
    and "is_get m' \<longrightarrow> starts_with ''/'' u'" "\<not> is_get m' \<and> b' \<noteq> [] \<longrightarrow> hd b' \<noteq> of_char (CHR ''x'')"
  shows "(canonical_message AdminDomain m b u t = canonical_message AdminDomain m' b' u' t'
      \<longleftrightarrow> m = m' \<and> u = u' \<and> b = b' \<and> t = t')
    \<and> canonical_message AdminDomain m b u t \<noteq> canonical_message PublicDomain m' b' u' t'"
  using admin_message_inj [OF assms(1,2) [THEN parse_u64_no_bar] assms(3), of b b'] public_message_not_admin [OF assms(4,5), of m b u t]
  by auto

theorem admin_message_binds_witness:
  "canonical_message AdminDomain ''POST'' [1] ''/admin/safe/exec'' ''17'' \<noteq> canonical_message AdminDomain ''POST'' [1] ''/admin/frost/round'' ''17''"
proof -
  have "parse_u64 ''17'' = Some 17"
    by (simp add: parse_u64_def is_ascii_digit_def dec_val_def digit_val_def)
  from admin_message_binds [OF this this, of "''POST''" "''/admin/safe/exec''" "''POST''" "''/admin/frost/round''" "[1]" "[1]"]
  show ?thesis by (simp add: starts_with_def)
qed

lemma parse_u64_zero: "t \<noteq> [] \<Longrightarrow> hd t \<noteq> CHR ''+'' \<Longrightarrow> parse_u64 (CHR ''0'' # t) = parse_u64 t"
  by (cases t) (simp_all add: parse_u64_def is_ascii_digit_def dec_val_def digit_val_def)

text \<open>
  C26. The time is appended to the path of a \<open>GET\<close> without a separator, and a leading zero does not
  change it: a signature for a path that ends in \<open>0\<close> is accepted, at the same times and with the
  same result, for the path without it.
\<close>

theorem get_signature_crosses_paths:
  assumes "is_get m" "h ''x-xrpl-timestamp'' = Some t" "t \<noteq> []" "hd t \<noteq> CHR ''+''"
  shows "verify_request cr now h m b (u @ ''0'')
    = verify_request cr now (h(''x-xrpl-timestamp'' \<mapsto> CHR ''0'' # t)) m b u"
proof -
  have "canonical_message PublicDomain m b (u @ ''0'') t = canonical_message PublicDomain m b u (CHR ''0'' # t)"
    using assms(1) by (simp add: canonical_message_def bytes_of_def)
  moreover have "check_drift now (CHR ''0'' # t) = check_drift now t"
    using assms(3,4) by (simp add: check_drift_def parse_u64_zero)
  ultimately show ?thesis using assms(2) unfolding verify_request_def verify_request_with_def
    by (simp add: header_def Let_def cong: option.case_cong if_cong)
qed

section \<open>The stored binding\<close>

text \<open>
  The binding the middleware stores with an order verifies again without the clock: what a
  validator and a reload check is what the client signed.
\<close>

theorem stored_binding_reverifies:
  assumes "\<forall>b. hex_decode cr (enc b) = Some b" "is_get (rq_method rq) \<longrightarrow> rq_method rq = ''GET''"
    and "auth_middleware cr enc wall now sessions rq = Next user (Some bnd)"
  shows "verify_signature_only cr bnd = Ok () \<and> user = Some (signer_address bnd)
    \<and> (\<exists>b. rq_body rq = Some b \<and> b \<noteq> [] \<and> hex_decode cr (signed_body_hex bnd) = Some b)"
proof -
  from assms(3) have "signature_path cr enc wall rq = Next user (Some bnd)"
    by (auto simp: auth_middleware_def session_path_def Let_def split: if_splits option.splits)
  then obtain b a where b: "rq_body rq = Some b" "b \<noteq> []" "rq_method rq \<noteq> ''GET''" "user = Some a"
    and v: "authentic cr wall (rq_headers rq) (rq_method rq) b (rq_uri rq) PublicDomain a"
    and bnd: "mk_binding enc (rq_method rq) b (rq_headers rq) a = Some bnd"
    by (auto simp: signature_path_def Let_def verify_request_def verify_request_with_Ok mk_binding_def
        split: option.splits sum.splits if_splits)
  from v obtain pk sg t key sb where
    h: "rq_headers rq ''x-xrpl-publickey'' = Some pk" "rq_headers rq ''x-xrpl-signature'' = Some sg"
      "rq_headers rq ''x-xrpl-timestamp'' = Some t"
    and k: "hex_decode cr pk = Some key" "xrpl_address cr key = a" "hex_decode cr sg = Some sb"
      "verify_xrpl_sig cr key sb (cr_sha256 cr (canonical_message PublicDomain (rq_method rq) b (rq_uri rq) t)) = Ok ()"
    unfolding authentic_def by blast
  have "canonical_message PublicDomain (rq_method rq) b (rq_uri rq) t = b @ bytes_of t"
    using assms(2) b(2,3) by (auto simp: canonical_message_def)
  moreover have "bnd = \<lparr>signed_body_hex = enc b, signature_hex = sg, osb_timestamp = t, signer_address = a, signer_pubkey_hex = pk\<rparr>"
    using bnd h b(2,3) by (simp add: mk_binding_def header_or_empty_def)
  ultimately show ?thesis using k b assms(1) by (simp add: verify_signature_only_def Let_def)
qed

section \<open>The operator gate\<close>

text \<open>
  C25. An admin surface of a node serves a request exactly if the node was started with a roster
  file of its cluster that names operators and is signed under the compiled-in key, and the
  request carries a fresh admin signature of an operator whom that roster grants the operation of
  the route. In every other case nothing is served.
\<close>

theorem admin_surface_serves_iff:
  "operator_only cr now (start_authority N sig_path_of operator_roster operator_pub esc) rq = AdminNext b \<longleftrightarrow>
     rq_body rq = Some b \<and> cross_check N operator_pub = Ok () \<and>
     (\<exists>path bs r a. operator_roster = Some path \<and> nf_read N path = Some bs \<and> signed_roster N (sig_path_of path) bs r
        \<and> ro_operators r \<noteq> [] \<and> ro_cluster_escrow r = esc \<and> can_op r a (op_for_admin_path (rq_path rq))
        \<and> authentic cr now (rq_headers rq) (rq_method rq) b (rq_path rq) AdminDomain a)"
proof -
  have start: "start_authority N sig_path_of operator_roster operator_pub esc = Some r \<longleftrightarrow>
      (\<exists>path bs. operator_roster = Some path \<and> cross_check N operator_pub = Ok () \<and> nf_read N path = Some bs
        \<and> signed_roster N (sig_path_of path) bs r \<and> ro_operators r \<noteq> [] \<and> ro_cluster_escrow r = esc)" for r
    by (simp add: start_authority_iff load_baked_iff check_invariants_iff) blast
  have gate: "operator_only cr now au rq = AdminNext b \<longleftrightarrow> rq_body rq = Some b \<and> (\<exists>r a. au = Some r
      \<and> can_op r a (op_for_admin_path (rq_path rq)) \<and> authentic cr now (rq_headers rq) (rq_method rq) b (rq_path rq) AdminDomain a)" for au
  proof (cases "rq_body rq")
    case (Some c)
    have "operator_only cr now au rq = AdminNext b \<longleftrightarrow> b = c \<and>
        (\<exists>a. verify_operator_request cr now (rq_headers rq) (rq_method rq) c (rq_path rq) (allowlist_for_path au (rq_path rq)) = Ok a)"
      using Some by (auto simp: operator_only_def split: sum.splits)
    also have "\<dots> \<longleftrightarrow> b = c \<and> (\<exists>a\<in>set (allowlist_for_path au (rq_path rq)). authentic cr now (rq_headers rq) (rq_method rq) c (rq_path rq) AdminDomain a)"
      by (auto simp: verify_operator_request_def if_Err_Ok_iff case_result_Ok_iff verify_request_with_Ok list_ex_iff)
    finally show ?thesis unfolding Bex_def allowlist_for_path_iff Some option.inject by blast
  qed (simp add: operator_only_def)
  show ?thesis unfolding gate start by blast
qed

text \<open>
  The loader refuses a roster that is not newer than the one in force, but a start passes it
  no version in force: a node that ran on a newer roster comes up again on any older signed
  roster of its cluster.
\<close>

theorem start_accepts_older_roster:
  assumes "start_authority N sig_path_of (Some new_path) operator_pub esc = Some r_new"
    and "nf_read N old_path = Some bs" "signed_roster N (sig_path_of old_path) bs r_old"
    and "ro_operators r_old \<noteq> []" "ro_cluster_escrow r_old = esc" "ro_version r_old < ro_version r_new"
  shows "start_authority N sig_path_of (Some old_path) operator_pub esc = Some r_old
    \<and> load_baked N old_path (sig_path_of old_path) operator_pub esc (Some (ro_version r_new))
        = Err (Rollback (ro_version r_new) (ro_version r_old))"
proof -
  have x: "cross_check N operator_pub = Ok ()" using assms(1) by (auto simp: start_authority_iff load_baked_iff)
  then have "start_authority N sig_path_of (Some old_path) operator_pub esc = Some r_old"
    using assms(2-5) by (simp add: start_authority_iff load_baked_iff check_invariants_iff)
  moreover have "load_baked N old_path (sig_path_of old_path) operator_pub esc (Some (ro_version r_new))
      = Err (Rollback (ro_version r_new) (ro_version r_old))"
    using x assms(2-6) by (auto simp: load_baked_def load_bytes_with_pubkey_def signed_roster_def check_invariants_def
        bind_eq_Some_conv)
  ultimately show ?thesis ..
qed

section \<open>Key lines\<close>

definition graphic :: "char \<Rightarrow> bool" where
  "graphic c \<longleftrightarrow> 33 \<le> (of_char c :: nat) \<and> (of_char c :: nat) \<le> 126"

lemma ws_token_heads: "w \<in> set ws_tokens \<Longrightarrow> \<exists>c r. w = c # r \<and> \<not> graphic c"
  by (auto simp: ws_tokens_def graphic_def)

lemma no_ws_at_graphic: "graphic c \<Longrightarrow> \<not> list_ex (\<lambda>w. starts_with w (c # cs)) ws_tokens"
  using ws_token_heads by (fastforce simp: list_ex_iff starts_with_def)

lemma strip_tokens_graphic: "graphic c \<Longrightarrow> strip_tokens ws_tokens (c # cs) = c # cs"
proof -
  assume "graphic c"
  then have "find (\<lambda>w. w \<noteq> [] \<and> take (length w) (c # cs) = w) ws_tokens = None"
    using no_ws_at_graphic [of c cs] by (auto simp: find_None_iff list_ex_iff starts_with_def)
  then show ?thesis by (subst strip_tokens.simps) simp
qed

lemma char_of_32: "char_of (32 :: nat) = CHR '' ''"
proof -
  have "of_char (CHR '' '') = (32 :: nat)" by simp
  then have "char_of (32 :: nat) = char_of (of_char (CHR '' '') :: nat)" by (simp only:)
  also have "\<dots> = CHR '' ''" by (rule char_of_char)
  finally show ?thesis .
qed

lemma blank_token: "w \<in> set ws_tokens \<Longrightarrow> of_char (hd w) = (32 :: nat) \<Longrightarrow> w = '' ''" "'' '' \<in> set ws_tokens"
  by (auto simp: ws_tokens_def char_of_32)

lemma strip_tokens_blank: "strip_tokens ws_tokens (CHR '' '' # s) = strip_tokens ws_tokens s"
proof (cases "find (\<lambda>w. w \<noteq> [] \<and> take (length w) (CHR '' '' # s) = w) ws_tokens")
  case None
  with blank_token(2) show ?thesis by (auto simp: find_None_iff)
next
  case (Some w)
  then have "w \<in> set ws_tokens" "w \<noteq> []" "take (length w) (CHR '' '' # s) = w" by (auto simp: find_Some_iff in_set_conv_nth)
  moreover have "hd (take (length w) (CHR '' '' # s)) = CHR '' ''" using \<open>w \<noteq> []\<close> by (cases w) auto
  ultimately have "of_char (hd w) = (32 :: nat)" by simp
  with \<open>w \<in> set ws_tokens\<close> have "w = '' ''" by (rule blank_token(1))
  with Some show ?thesis by (subst strip_tokens.simps) simp
qed

lemma until_ws_word: "\<forall>c\<in>set w. graphic c \<Longrightarrow> until_ws (w @ CHR '' '' # s) = (w, CHR '' '' # s)"
  using no_ws_at_graphic blank_token(2) by (induction w) (auto simp: list_ex_iff starts_with_def intro!: bexI [of _ "'' ''"])

lemma until_ws_last: "\<forall>c\<in>set w. graphic c \<Longrightarrow> until_ws w = (w, [])"
  using no_ws_at_graphic by (induction w) auto

lemma split_whitespace_word:
  assumes "\<forall>c\<in>set w. graphic c" "w \<noteq> []"
  shows "split_whitespace (w @ CHR '' '' # s) = w # split_whitespace s"
proof -
  obtain c v where w: "w = c # v" using assms(2) by (cases w) auto
  have "split_whitespace (CHR '' '' # s) = split_whitespace s"
    by (subst (1 2) split_whitespace.simps) (simp add: strip_tokens_blank)
  with assms(1) until_ws_word [OF assms(1), of s] show ?thesis
    unfolding w by (subst split_whitespace.simps) (simp add: strip_tokens_graphic)
qed

lemma split_whitespace_last:
  assumes "\<forall>c\<in>set w. graphic c" "w \<noteq> []" shows "split_whitespace w = [w]"
proof -
  obtain c v where w: "w = c # v" using assms(2) by (cases w) auto
  have "split_whitespace [] = []" by (subst split_whitespace.simps) (simp add: strip_tokens.simps ws_tokens_def)
  with assms(1) until_ws_last [OF assms(1)] show ?thesis
    unfolding w by (subst split_whitespace.simps) (simp add: strip_tokens_graphic)
qed

lemma read_ssh_blob_blob: "length key = 32 \<Longrightarrow> read_ssh_blob (ssh_blob key) = Some key"
proof -
  assume key: "length key = 32"
  have four: "(4 :: nat) = Suc (Suc (Suc (Suc 0)))" by simp
  have "be_bytes 4 11 = [0, 0, 0, 11]" "be_bytes 4 32 = [0, 0, 0, 32]" unfolding be_bytes_def four by simp_all
  moreover have len: "length ''ssh-ed25519'' = 11" by simp
  ultimately have "ssh_blob key = [0, 0, 0, 11] @ bytes_of ''ssh-ed25519'' @ [0, 0, 0, 32] @ key"
    unfolding ssh_blob_def len by simp
  with key show ?thesis by (simp add: read_ssh_blob_def read_u32_at_def bytes_of_def Let_def)
qed

text \<open>
  A key file is read exactly as it is written: the line of a 32-byte key, with or without a
  principal in front, gives the key back, so the start accepts a key file exactly if it holds the
  compiled-in key.
\<close>

theorem key_line_read_back:
  assumes "\<forall>b. b64_decode B (b64_encode B b) = Some b"
    and "\<forall>b. b \<noteq> [] \<longrightarrow> b64_encode B b \<noteq> [] \<and> (\<forall>c\<in>set (b64_encode B b). graphic c)"
    and "length key = 32" "\<forall>c\<in>set p. graphic c" "p \<noteq> []" "p \<noteq> ''ssh-ed25519''"
  shows "ed25519_raw_from_ssh_pubkey B (''ssh-ed25519 '' @ b64_encode B (ssh_blob key)) = Some key
    \<and> ed25519_raw_from_ssh_pubkey B (p @ '' ssh-ed25519 '' @ b64_encode B (ssh_blob key)) = Some key"
proof -
  let ?k = "b64_encode B (ssh_blob key)"
  have k: "?k \<noteq> []" "\<forall>c\<in>set ?k. graphic c" using assms(2) by (auto simp: ssh_blob_def bytes_of_def)
  have "\<forall>c\<in>set ''ssh-ed25519''. graphic c" by (simp add: graphic_def)
  from split_whitespace_word [OF this, of ?k] split_whitespace_last [OF k(2,1)]
  have one: "split_whitespace (''ssh-ed25519 '' @ ?k) = [''ssh-ed25519'', ?k]" by simp
  from split_whitespace_word [OF assms(4,5), of "''ssh-ed25519 '' @ ?k"] one
  have "split_whitespace (p @ '' ssh-ed25519 '' @ ?k) = [p, ''ssh-ed25519'', ?k]" by simp
  with one show ?thesis
    unfolding ed25519_raw_from_ssh_pubkey_def Let_def using assms(1,3,6) by (simp add: read_ssh_blob_blob)
qed

section \<open>Witnesses\<close>

text \<open>A library in which every signature of a key with an even tag is good, and one request.\<close>

definition sample_address :: string where "sample_address = CHR ''r'' # replicate 24 (CHR ''a'')"

definition text_of :: "bytes \<Rightarrow> string" where "text_of b = map (\<lambda>x. char_of (unat x)) b"

definition sample_crypto :: crypto where
  "sample_crypto = \<lparr>hex_decode = (\<lambda>s. Some (bytes_of s)), cr_sha256 = id, cr_sha512 = id, cr_ripemd160 = id,
     bs58_xrpl = (\<lambda>_. sample_address), secp_key_ok = (\<lambda>_. True), der_ok = (\<lambda>_. True), secp_verify = (\<lambda>_ _ _. True),
     ed_key_ok = (\<lambda>_. False), ed_verify = (\<lambda>_ _ _. False),
     json_parse = (\<lambda>_. Some (JObj [(''user_id'', JStr sample_address)]))\<rparr>"

definition sample_headers :: header_map where
  "sample_headers = [''x-xrpl-address'' \<mapsto> sample_address,
     ''x-xrpl-publickey'' \<mapsto> char_of (2 :: nat) # replicate 65 (CHR ''a''),
     ''x-xrpl-signature'' \<mapsto> ''aa'', ''x-xrpl-timestamp'' \<mapsto> ''17'']"

definition sample_post :: http_request where
  "sample_post = \<lparr>rq_method = ''POST'', rq_uri = ''/v1/orders'', rq_path = ''/v1/orders'', rq_query = None,
     rq_headers = sample_headers, rq_body = Some [123]\<rparr>"

lemma of_char_byte: "n < 256 \<Longrightarrow> (of_char (char_of n) :: byte) = of_nat n"
  using of_nat_of_char [of "char_of n", where 'a = byte] by simp

lemma text_of_bytes: "bytes_of (text_of b) = b"
proof -
  have "unat x < 256" for x :: byte using unsigned_less [where 'a = nat, of x] by simp
  then show ?thesis by (simp add: bytes_of_def text_of_def of_char_byte comp_def)
qed

lemma parse_17: "parse_u64 ''17'' = Some 17"
  by (simp add: parse_u64_def is_ascii_digit_def dec_val_def digit_val_def)

lemma sample_authentic: "authentic sample_crypto 20 sample_headers m b u d sample_address"
  unfolding authentic_def
  by (rule exI [of _ "char_of (2 :: nat) # replicate 65 (CHR ''a'')"], rule exI [of _ "''aa''"], rule exI [of _ "''17''"], rule exI [of _ 17],
      rule exI [of _ "2 # replicate 65 (of_char (CHR ''a''))"], rule exI [of _ "bytes_of ''aa''"])
    (simp add: sample_headers_def sample_crypto_def sample_address_def parse_17 MAX_TIMESTAMP_DRIFT_SECS_def starts_with_def
      xrpl_address_def verify_xrpl_sig_def bytes_of_def of_char_byte)

lemma sample_passes:
  "auth_middleware sample_crypto text_of 20 0 Map.empty sample_post
     = Next (Some sample_address) (mk_binding text_of ''POST'' [123] sample_headers sample_address)"
proof -
  have "verify_request sample_crypto 20 sample_headers ''POST'' [123] ''/v1/orders'' = Ok sample_address"
    unfolding verify_request_def verify_request_with_Ok by (rule sample_authentic)
  moreover have "\<not> is_exempt ''POST'' ''/v1/orders''" by (simp add: is_exempt_def starts_with_def)
  moreover have "json_parse sample_crypto b = Some (JObj [(''user_id'', JStr sample_address)])" for b
    by (simp add: sample_crypto_def)
  moreover have "sample_headers ''authorization'' = None" by (simp add: sample_headers_def)
  ultimately show ?thesis
    by (simp add: auth_middleware_def sample_post_def signature_path_def query_user_ok_def body_user_id_def)
qed


theorem get_signature_crosses_paths_witness:
  "verify_request sample_crypto 20 sample_headers ''GET'' [] ''/v1/orders?limit=10''
     = verify_request sample_crypto 20 (sample_headers(''x-xrpl-timestamp'' \<mapsto> ''017'')) ''GET'' [] ''/v1/orders?limit=1''"
  using get_signature_crosses_paths [of "''GET''" sample_headers "''17''" sample_crypto 20 "[]" "''/v1/orders?limit=1''"]
  by (simp add: is_get_def sample_headers_def)

theorem stored_binding_reverifies_witness:
  "\<exists>bnd. auth_middleware sample_crypto text_of 20 0 Map.empty sample_post = Next (Some sample_address) (Some bnd)
     \<and> verify_signature_only sample_crypto bnd = Ok ()"
proof -
  obtain bnd where b: "mk_binding text_of ''POST'' [123] sample_headers sample_address = Some bnd" by (simp add: mk_binding_def)
  have "\<forall>b. hex_decode sample_crypto (text_of b) = Some b" by (simp add: sample_crypto_def text_of_bytes)
  from stored_binding_reverifies [OF this _ sample_passes [unfolded b]] sample_passes b show ?thesis
    by (simp add: sample_post_def is_get_def ascii_lower_def)
qed

definition sample_roster :: "nat \<Rightarrow> roster" where
  "sample_roster v = \<lparr>ro_version = v, ro_cluster_escrow = ''rEscrow'',
     ro_operators = [\<lparr>oe_handle = ''alice'', oe_xrpl_address = ''rAlice'', oe_ops = [''membership-change'']\<rparr>], ro_op_thresholds = []\<rparr>"

fun in_pairs :: "bytes \<Rightarrow> string" where
  "in_pairs [] = []"
| "in_pairs (x # b) = char_of (64 + unat x div 16) # char_of (64 + unat x mod 16) # in_pairs b"

fun of_pairs :: "string \<Rightarrow> bytes" where
  "of_pairs (c # d # s) = of_nat (16 * (of_char c - 64) + (of_char d - 64)) # of_pairs s"
| "of_pairs _ = []"

definition sample_base64 :: base64 where
  "sample_base64 = \<lparr>b64_encode = in_pairs, b64_decode = Some \<circ> of_pairs\<rparr>"

lemma byte_less: "unat (x :: byte) < 256"
  using unsigned_less [where 'a = nat, of x] by simp

lemma pair_digits: "unat (x :: byte) div 16 < 16"
  using byte_less [of x] by linarith

lemma of_pairs_in_pairs: "of_pairs (in_pairs b) = b"
proof (induction b)
  case (Cons x b)
  have "16 * ((64 + unat x div 16) mod 256 - 64) + ((64 + unat x mod 16) mod 256 - 64) = unat x"
    using pair_digits [of x] by simp
  then have "of_nat (16 * (of_char (char_of (64 + unat x div 16)) - 64) + (of_char (char_of (64 + unat x mod 16)) - 64)) = x"
    by (simp only: of_char_of) simp
  with Cons show ?case by (simp only: in_pairs.simps of_pairs.simps)
qed simp

lemma in_pairs_graphic: "c \<in> set (in_pairs b) \<Longrightarrow> graphic c"
proof (induction b)
  case (Cons x b)
  then show ?case using pair_digits [of x] by (auto simp: graphic_def)
qed simp

definition sample_files :: node_files where
  "sample_files = \<lparr>nf_read = (\<lambda>p. Some (bytes_of p)), nf_read_to_string = (\<lambda>_. None), nf_from_utf8 = (\<lambda>b. Some (text_of b)),
     nf_toml = (\<lambda>s. Some (sample_roster (if s = ''v1.toml'' then 1 else 2))), nf_base64 = sample_base64,
     ks_runtime_dir = True, ks_tempfile = True, ks_write_allowed = True, ks_spawn = True, ks_stdin = True, ks_feed = True,
     ks_verify = (\<lambda>_ _ _ _ _. Some True)\<rparr>"

lemma text_of_bytes_of: "text_of (bytes_of s) = s"
proof -
  have "unat (of_char c :: byte) = of_char c" for c
    using of_nat_of_char [of c, where 'a = byte] unat_byte [of "of_char c"] by simp
  then show ?thesis by (simp add: bytes_of_def text_of_def comp_def)
qed

lemma sample_start: "start_authority sample_files id (Some p) None ''rEscrow'' = Some (sample_roster (if p = ''v1.toml'' then 1 else 2))"
  by (simp add: start_authority_iff load_baked_iff cross_check_def signed_roster_def verify_roster_signature_def
      check_invariants_iff sample_files_def text_of_bytes_of sample_roster_def)

theorem start_accepts_older_roster_witness:
  "start_authority sample_files id (Some ''v2.toml'') None ''rEscrow'' = Some (sample_roster 2)
   \<and> start_authority sample_files id (Some ''v1.toml'') None ''rEscrow'' = Some (sample_roster 1)"
proof -
  have "nf_read sample_files ''v1.toml'' = Some (bytes_of ''v1.toml'')" by (simp add: sample_files_def)
  moreover have "signed_roster sample_files (id ''v1.toml'') (bytes_of ''v1.toml'') (sample_roster 1)"
    by (simp add: signed_roster_def verify_roster_signature_def sample_files_def text_of_bytes_of)
  ultimately show ?thesis
    using start_accepts_older_roster [of sample_files id "''v2.toml''" None "''rEscrow''" "sample_roster 2" "''v1.toml''" "bytes_of ''v1.toml''" "sample_roster 1"]
      sample_start [of "''v2.toml''"] by (simp add: sample_roster_def)
qed

theorem key_line_read_back_witness:
  "ed25519_raw_from_ssh_pubkey sample_base64 (''op ssh-ed25519 '' @ in_pairs (ssh_blob BAKED_GOV_PUB)) = Some BAKED_GOV_PUB"
proof -
  have "\<forall>b. b64_decode sample_base64 (b64_encode sample_base64 b) = Some b"
    by (simp add: sample_base64_def of_pairs_in_pairs)
  moreover have "\<forall>b. b \<noteq> [] \<longrightarrow> b64_encode sample_base64 b \<noteq> [] \<and> (\<forall>c\<in>set (b64_encode sample_base64 b). graphic c)"
    by (auto simp: sample_base64_def in_pairs_graphic neq_Nil_conv)
  moreover have "length BAKED_GOV_PUB = 32" by (simp add: BAKED_GOV_PUB_def)
  ultimately show ?thesis
    using key_line_read_back [of sample_base64 BAKED_GOV_PUB "''op''"] by (simp add: graphic_def sample_base64_def)
qed

end
