(* ===== verification/Frost.thy ===== *)
theory Frost
  imports Projection Auth
begin

text \<open>
  \<^verbatim>\<open>orchestrator/src/frost_round.rs\<close>: the driver of a FROST threshold signing round. A round gathers
  a public nonce from every participant, fixes the signer set in ascending order of the ids, gathers
  the partial signatures over that set, has them aggregated, and checks the signature against the
  group key. The enclaves behind HTTP, the hex codec, the check of a BIP340 signature (crate
  \<open>secp256k1\<close>) and the clock are arguments; \<open>'s\<close> is the state of the world outside. Log lines are left
  out, and an error keeps its innermost cause.
\<close>

section \<open>Contributions and signer sets\<close>

definition FROST_PUBNONCE_LEN :: nat where "FROST_PUBNONCE_LEN = 66"
definition FROST_PARTIAL_SIG_LEN :: nat where "FROST_PARTIAL_SIG_LEN = 32"
definition FROST_SIG_LEN :: nat where "FROST_SIG_LEN = 64"
definition MAX_SIGNERS_PER_ROUND :: nat where "MAX_SIGNERS_PER_ROUND = 16"

datatype frost_error =
    EmptySignerSet
  | TooManySigners nat
  | DuplicateSigner
  | RoundInFlight
  | TooFewParticipants nat nat
  | BelowThreshold nat nat
  | StrayPartial nat
  | PartialCount nat nat
  | EnclaveUnreachable string
  | EnclaveStatus
  | EnclaveBody string
  | FieldMissing string
  | FieldNotHex string
  | FieldLength string nat

record contribution =
  signer_id :: nat
  contribution_bytes :: bytes

record frost_signer_set =
  nonces :: "contribution list"

text \<open>\<open>windows(2).any(w[0] == w[1])\<close> on the ids.\<close>

fun adjacent_equal :: "nat list \<Rightarrow> bool" where
  "adjacent_equal (a # b # xs) = (a = b \<or> adjacent_equal (b # xs))"
| "adjacent_equal _ = False"

definition signer_set_new :: "contribution list \<Rightarrow> frost_error + frost_signer_set" where
  "signer_set_new ns =
     (if ns = [] then Err EmptySignerSet
      else if MAX_SIGNERS_PER_ROUND < length ns then Err (TooManySigners (length ns))
      else let sorted_ns = sort_key signer_id ns
           in if adjacent_equal (map signer_id sorted_ns) then Err DuplicateSigner
              else Ok \<lparr>nonces = sorted_ns\<rparr>)"

definition signer_set_len :: "frost_signer_set \<Rightarrow> nat" where
  "signer_set_len st = length (nonces st)"

definition signer_ids :: "frost_signer_set \<Rightarrow> nat list" where
  "signer_ids st = map signer_id (nonces st)"

definition pubnonces_hex :: "xrpl_lib \<Rightarrow> frost_signer_set \<Rightarrow> string list" where
  "pubnonces_hex L st = map (hex_enc L \<circ> contribution_bytes) (nonces st)"

definition set_contains :: "frost_signer_set \<Rightarrow> nat \<Rightarrow> bool" where
  "set_contains st i = list_ex (\<lambda>c. signer_id c = i) (nonces st)"

section \<open>Participants, gatherers and the aggregator\<close>

record 's participant =
  pt_signer_id :: nat
  pt_nonce_gen :: "bytes \<Rightarrow> 's \<Rightarrow> (frost_error + bytes) \<times> 's"
  pt_partial_sign :: "bytes \<Rightarrow> frost_signer_set \<Rightarrow> 's \<Rightarrow> (frost_error + bytes) \<times> 's"

record 's gatherer =
  expected_participants :: nat
  gather_nonces :: "bytes \<Rightarrow> 's \<Rightarrow> (frost_error + contribution list) \<times> 's"
  gather_partials :: "bytes \<Rightarrow> frost_signer_set \<Rightarrow> 's \<Rightarrow> (frost_error + contribution list) \<times> 's"

type_synonym 's sig_agg_fun =
  "bytes \<Rightarrow> frost_signer_set \<Rightarrow> contribution list \<Rightarrow> 's \<Rightarrow> (frost_error + bytes) \<times> 's"

text \<open>One pass of the sequential gatherer: each participant in turn, stopping at the first error.\<close>

fun ask_each ::
  "('s participant \<Rightarrow> 's \<Rightarrow> (frost_error + bytes) \<times> 's) \<Rightarrow> 's participant list \<Rightarrow> contribution list \<Rightarrow> 's
   \<Rightarrow> (frost_error + contribution list) \<times> 's" where
  "ask_each ask [] out s = (Ok out, s)"
| "ask_each ask (p # ps) out s =
     (case ask p s of
        (Err e, s1) \<Rightarrow> (Err e, s1)
      | (Ok b, s1) \<Rightarrow> ask_each ask ps (out @ [\<lparr>signer_id = pt_signer_id p, contribution_bytes = b\<rparr>]) s1)"

definition sequential_gatherer :: "'s participant list \<Rightarrow> 's gatherer" where
  "sequential_gatherer participants =
     \<lparr>expected_participants = length participants,
      gather_nonces = (\<lambda>msg32. ask_each (\<lambda>p. pt_nonce_gen p msg32) participants []),
      gather_partials = (\<lambda>msg32 st. ask_each (\<lambda>p. pt_partial_sign p msg32 st) participants [])\<rparr>"

section \<open>The round\<close>

record frost_round_outcome =
  fo_signature :: bytes
  fo_signer_ids :: "nat list"
  fo_elapsed :: nat
  fo_verified :: bool

text \<open>What the round makes of the two passes: the signer set, and the partial signatures in its order.\<close>

definition set_from_nonces :: "nat \<Rightarrow> contribution list \<Rightarrow> frost_error + frost_signer_set" where
  "set_from_nonces threshold ns =
     result_bind (signer_set_new ns) (\<lambda>st.
       if signer_set_len st < threshold then Err (BelowThreshold (signer_set_len st) threshold) else Ok st)"

definition order_partials :: "frost_signer_set \<Rightarrow> contribution list \<Rightarrow> frost_error + contribution list" where
  "order_partials st partials =
     (case find (\<lambda>c. \<not> set_contains st (signer_id c)) partials of
        Some c \<Rightarrow> Err (StrayPartial (signer_id c))
      | None \<Rightarrow>
          if length partials \<noteq> signer_set_len st then Err (PartialCount (length partials) (signer_set_len st))
          else Ok (sort_key signer_id partials))"

text \<open>
  \<open>verify\<close> is \<open>verify_bip340\<close>; \<open>clk\<close> reads the monotonic clock in milliseconds. \<open>round_body\<close> is what runs
  while the claim is held.
\<close>

definition round_body ::
  "(bytes \<Rightarrow> bytes \<Rightarrow> bytes \<Rightarrow> bool) \<Rightarrow> ('s \<Rightarrow> nat) \<Rightarrow> 's gatherer \<Rightarrow> 's sig_agg_fun \<Rightarrow> bytes \<Rightarrow> nat \<Rightarrow> bytes \<Rightarrow> 's
   \<Rightarrow> (frost_error + frost_round_outcome) \<times> 's" where
  "round_body verify clk G agg msg32 threshold group_pubkey_xonly s =
     (if expected_participants G < threshold
      then (Err (TooFewParticipants (expected_participants G) threshold), s)
      else case gather_nonces G msg32 s of
        (Err e, s1) \<Rightarrow> (Err e, s1)
      | (Ok ns, s1) \<Rightarrow>
          (case set_from_nonces threshold ns of
             Err e \<Rightarrow> (Err e, s1)
           | Ok st \<Rightarrow>
               (case gather_partials G msg32 st s1 of
                  (Err e, s2) \<Rightarrow> (Err e, s2)
                | (Ok ps, s2) \<Rightarrow>
                    (case order_partials st ps of
                       Err e \<Rightarrow> (Err e, s2)
                     | Ok partials \<Rightarrow>
                         (case agg msg32 st partials s2 of
                            (Err e, s3) \<Rightarrow> (Err e, s3)
                          | (Ok sig, s3) \<Rightarrow>
                              (Ok \<lparr>fo_signature = sig, fo_signer_ids = signer_ids st, fo_elapsed = clk s3 - clk s,
                                   fo_verified = verify msg32 sig group_pubkey_xonly\<rparr>, s3))))))"

text \<open>
  The flag \<open>ROUND_IN_FLIGHT\<close> of the process: \<open>try_acquire\<close> is its compare-and-exchange, \<open>drop_claim\<close> the
  destructor of the claim, which runs on every way out of the round.
\<close>

definition try_acquire :: "bool \<Rightarrow> unit option \<times> bool" where
  "try_acquire in_flight = (if in_flight then (None, in_flight) else (Some (), True))"

definition drop_claim :: "bool \<Rightarrow> bool" where
  "drop_claim in_flight = False"

definition run_round ::
  "(bytes \<Rightarrow> bytes \<Rightarrow> bytes \<Rightarrow> bool) \<Rightarrow> ('s \<Rightarrow> nat) \<Rightarrow> 's gatherer \<Rightarrow> 's sig_agg_fun \<Rightarrow> bytes \<Rightarrow> nat \<Rightarrow> bytes
   \<Rightarrow> bool \<times> 's \<Rightarrow> (frost_error + frost_round_outcome) \<times> (bool \<times> 's)" where
  "run_round verify clk G agg msg32 threshold group_pubkey_xonly w =
     (case try_acquire (fst w) of
        (None, f) \<Rightarrow> (Err RoundInFlight, (f, snd w))
      | (Some _, f) \<Rightarrow>
          (case round_body verify clk G agg msg32 threshold group_pubkey_xonly (snd w) of
             (r, s) \<Rightarrow> (r, (drop_claim f, s))))"

section \<open>The enclave over HTTP\<close>

fun trim_start_0x :: "string \<Rightarrow> string" where
  "trim_start_0x (a # b # s) = (if a = CHR ''0'' \<and> b = CHR ''x'' then trim_start_0x s else a # b # s)"
| "trim_start_0x s = s"

definition hex_field :: "xrpl_lib \<Rightarrow> json \<Rightarrow> string \<Rightarrow> nat \<Rightarrow> frost_error + bytes" where
  "hex_field L v field want =
     (case json_as_str (json_index v field) of
        None \<Rightarrow> Err (FieldMissing field)
      | Some t \<Rightarrow>
          (case hex_dec L (trim_start_0x t) of
             None \<Rightarrow> Err (FieldNotHex field)
           | Some b \<Rightarrow> if length b \<noteq> want then Err (FieldLength field (length b)) else Ok b))"

text \<open>\<open>post(..).json(..).send()?.error_for_status()?.json()?\<close>.\<close>

fun checked_body :: "http_reply \<Rightarrow> frost_error + json" where
  "checked_body (NoAnswer e) = Err (EnclaveUnreachable e)"
| "checked_body (BadBody ok e) = (if ok then Err (EnclaveBody e) else Err EnclaveStatus)"
| "checked_body (Body ok v) = (if ok then Ok v else Err EnclaveStatus)"

definition call_enclave ::
  "'s http_post \<Rightarrow> string \<Rightarrow> json \<Rightarrow> (json \<Rightarrow> frost_error + bytes) \<Rightarrow> 's \<Rightarrow> (frost_error + bytes) \<times> 's" where
  "call_enclave post url body field s =
     (case post url body s of (r, s1) \<Rightarrow> (result_bind (checked_body r) field, s1))"

definition nonce_gen_body :: "xrpl_lib \<Rightarrow> nat \<Rightarrow> bytes \<Rightarrow> json" where
  "nonce_gen_body L i msg32 = JObj [(''signer_id'', JNum (int i)), (''message'', JStr (hex_enc L msg32))]"

definition json_strs :: "string list \<Rightarrow> json" where "json_strs xs = JArr (map JStr xs)"
definition json_ids :: "nat list \<Rightarrow> json" where "json_ids xs = JArr (map (JNum \<circ> int) xs)"

definition partial_sign_body :: "xrpl_lib \<Rightarrow> nat \<Rightarrow> bytes \<Rightarrow> frost_signer_set \<Rightarrow> json" where
  "partial_sign_body L i msg32 st =
     JObj [(''signer_id'', JNum (int i)), (''message'', JStr (hex_enc L msg32)),
           (''pubnonces'', json_strs (pubnonces_hex L st)), (''signer_ids'', json_ids (signer_ids st))]"

definition sig_agg_body :: "xrpl_lib \<Rightarrow> bytes \<Rightarrow> frost_signer_set \<Rightarrow> contribution list \<Rightarrow> json" where
  "sig_agg_body L msg32 st partials =
     JObj [(''message'', JStr (hex_enc L msg32)),
           (''partial_sigs'', json_strs (map (hex_enc L \<circ> contribution_bytes) partials)),
           (''pubnonces'', json_strs (pubnonces_hex L st)), (''signer_ids'', json_ids (signer_ids st))]"

definition http_participant :: "xrpl_lib \<Rightarrow> 's http_post \<Rightarrow> string \<Rightarrow> nat \<Rightarrow> 's participant" where
  "http_participant L post base_url i =
     \<lparr>pt_signer_id = i,
      pt_nonce_gen = (\<lambda>msg32. call_enclave post (base_url @ ''/v1/pool/frost/nonce-gen'') (nonce_gen_body L i msg32)
        (\<lambda>v. hex_field L v ''pubnonce'' FROST_PUBNONCE_LEN)),
      pt_partial_sign = (\<lambda>msg32 st. call_enclave post (base_url @ ''/v1/pool/frost/partial-sign'')
        (partial_sign_body L i msg32 st) (\<lambda>v. hex_field L v ''partial_sig'' FROST_PARTIAL_SIG_LEN))\<rparr>"

definition http_sig_agg :: "xrpl_lib \<Rightarrow> 's http_post \<Rightarrow> string \<Rightarrow> 's sig_agg_fun" where
  "http_sig_agg L post base_url msg32 st partials =
     call_enclave post (base_url @ ''/v1/pool/frost/sig-agg'') (sig_agg_body L msg32 st partials)
       (\<lambda>v. hex_field L v (if json_get v ''signature'' \<noteq> None then ''signature'' else ''sig'') FROST_SIG_LEN)"

section \<open>The diagnostic route\<close>

record frost_round_request =
  fq_enclave_url :: string
  fq_message :: string
  fq_signer_ids :: "nat list"
  fq_threshold :: nat
  fq_group_pubkey :: string

record frost_round_response =
  fr_status :: string
  fr_signer_ids :: "nat list"
  fr_elapsed_ms :: nat
  fr_verified :: bool
  fr_signature :: "string option"

datatype frost_refusal = NotLoopback | BadHexArgument string | BadLengthArgument string | RoundRefused frost_error

definition refusal_status :: "frost_refusal \<Rightarrow> nat" where
  "refusal_status r = (case r of RoundRefused _ \<Rightarrow> 409 | _ \<Rightarrow> 400)"

definition arg32 :: "xrpl_lib \<Rightarrow> string \<Rightarrow> string \<Rightarrow> frost_refusal + bytes" where
  "arg32 L name t =
     (case hex_dec L (trim_start_0x t) of
        None \<Rightarrow> Err (BadHexArgument name)
      | Some b \<Rightarrow> if length b = 32 then Ok b else Err (BadLengthArgument name))"

definition looks_loopback :: "string \<Rightarrow> bool" where
  "looks_loopback url = (str_contains ''127.0.0.1'' url \<or> str_contains ''localhost'' url)"

definition round_response :: "xrpl_lib \<Rightarrow> frost_round_outcome \<Rightarrow> frost_round_response" where
  "round_response L out =
     \<lparr>fr_status = (if fo_verified out then ''verified'' else ''unverified''), fr_signer_ids = fo_signer_ids out,
      fr_elapsed_ms = fo_elapsed out mod 2 ^ 64, fr_verified = fo_verified out,
      fr_signature = Some (hex_enc L (fo_signature out))\<rparr>"

definition handle_frost_round ::
  "xrpl_lib \<Rightarrow> (bytes \<Rightarrow> bytes \<Rightarrow> bytes \<Rightarrow> bool) \<Rightarrow> ('s \<Rightarrow> nat) \<Rightarrow> 's http_post \<Rightarrow> frost_round_request \<Rightarrow> bool \<times> 's
   \<Rightarrow> (frost_refusal + frost_round_response) \<times> (bool \<times> 's)" where
  "handle_frost_round L verify clk post req w =
     (if \<not> looks_loopback (fq_enclave_url req) then (Err NotLoopback, w)
      else case arg32 L ''message'' (fq_message req) of
        Err e \<Rightarrow> (Err e, w)
      | Ok msg32 \<Rightarrow>
          (case arg32 L ''group_pubkey'' (fq_group_pubkey req) of
             Err e \<Rightarrow> (Err e, w)
           | Ok group32 \<Rightarrow>
               (case run_round verify clk
                       (sequential_gatherer (map (http_participant L post (fq_enclave_url req)) (fq_signer_ids req)))
                       (http_sig_agg L post (fq_enclave_url req)) msg32 (fq_threshold req) group32 w of
                  (Err e, w1) \<Rightarrow> (Err (RoundRefused e), w1)
                | (Ok out, w1) \<Rightarrow> (Ok (round_response L out), w1))))"

end
