(* ===== verification/Frost_Props.thy ===== *)
theory Frost_Props
  imports Frost
begin

text \<open>
  What a FROST round guarantees: the canonical order of the signer set, the contract of a gatherer
  (locale \<open>frost_gatherer\<close>, interpreted on the sequential gatherer over HTTP participants), and the
  serial order that the process-wide claim imposes on concurrent rounds.
\<close>

section \<open>Signer sets\<close>

lemma adjacent_equal_sorted: "sorted xs \<Longrightarrow> adjacent_equal xs \<longleftrightarrow> \<not> distinct xs"
  by (induction xs rule: adjacent_equal.induct) (auto simp: eq_iff)

lemma signer_set_new_Ok_iff:
  "signer_set_new ns = Ok st \<longleftrightarrow>
     nonces st = sort_key signer_id ns \<and> distinct (map signer_id ns) \<and> ns \<noteq> [] \<and> length ns \<le> 16"
proof -
  have "distinct (map signer_id (sort_key signer_id ns)) \<longleftrightarrow> distinct (map signer_id ns)"
    by (metis mset_eq_imp_distinct_iff mset_map mset_sort)
  then show ?thesis
    by (cases st) (auto simp: signer_set_new_def Let_def adjacent_equal_sorted MAX_SIGNERS_PER_ROUND_def)
qed

lemma map_sort_key_ids: "map f (sort_key f xs) = sort (map f xs)"
  by (simp add: properties_for_sort [symmetric])

lemma set_contains_iff: "set_contains st i \<longleftrightarrow> i \<in> set (signer_ids st)"
  by (auto simp: set_contains_def list_ex_iff signer_ids_def)

lemma set_from_nonces_Ok_iff:
  "set_from_nonces t ns = Ok st \<longleftrightarrow> signer_set_new ns = Ok st \<and> t \<le> length ns"
  by (auto simp: set_from_nonces_def ok_iffs signer_set_len_def signer_set_new_Ok_iff)

lemma order_partials_Ok_iff:
  "order_partials st ps = Ok qs \<longleftrightarrow>
     qs = sort_key signer_id ps \<and> signer_id ` set ps \<subseteq> set (signer_ids st) \<and> length ps = length (nonces st)"
  by (auto simp: order_partials_def find_None_iff set_contains_iff signer_set_len_def find_Some_iff image_subset_iff all_set_conv_all_nth
      split: option.splits)

section \<open>The contract of a gatherer\<close>

definition sized :: "nat \<Rightarrow> contribution list \<Rightarrow> bool" where
  "sized k cs \<longleftrightarrow> (\<forall>c\<in>set cs. length (contribution_bytes c) = k)"

text \<open>
  A gatherer for the participants \<open>members\<close> asks no more of them than it announces, and every
  contribution carries the id of a participant and bytes of the length of its kind.
\<close>

locale frost_gatherer =
  fixes G :: "'s gatherer" and members :: "nat list"
  assumes nonces_of_members:
      "gather_nonces G msg s = (Ok ns, s') \<Longrightarrow> map signer_id ns = members \<and> sized FROST_PUBNONCE_LEN ns"
    and partials_of_members:
      "gather_partials G msg st s = (Ok ps, s') \<Longrightarrow> map signer_id ps = members \<and> sized FROST_PARTIAL_SIG_LEN ps"
    and expected_members: "expected_participants G = length members"
begin

lemma round_canonical:
  assumes "round_body verify clk G agg msg t key s = (Ok out, s3)"
  shows "distinct members \<and> t \<le> length members \<and> 1 \<le> length members \<and> length members \<le> 16
     \<and> fo_signer_ids out = sort members
     \<and> (\<exists>st partials s2. signer_ids st = sort members \<and> map signer_id partials = sort members
          \<and> sized FROST_PUBNONCE_LEN (nonces st) \<and> sized FROST_PARTIAL_SIG_LEN partials
          \<and> agg msg st partials s2 = (Ok (fo_signature out), s3)
          \<and> fo_verified out = verify msg (fo_signature out) key)"
proof -
  obtain ns s1 st ps s2 qs sig where
    n: "gather_nonces G msg s = (Ok ns, s1)" and st: "set_from_nonces t ns = Ok st"
    and p: "gather_partials G msg st s1 = (Ok ps, s2)" and q: "order_partials st ps = Ok qs"
    and a: "agg msg st qs s2 = (Ok sig, s3)"
    and out: "fo_signature out = sig" "fo_signer_ids out = signer_ids st" "fo_verified out = verify msg sig key"
    using assms by (auto simp: round_body_def split: if_splits prod.splits sum.splits)
  note N = nonces_of_members [OF n] and P = partials_of_members [OF p]
  have "nonces st = sort_key signer_id ns" "distinct members" "ns \<noteq> []" "length ns \<le> 16" "t \<le> length ns"
    using st N by (auto simp: set_from_nonces_Ok_iff signer_set_new_Ok_iff)
  moreover have "length ns = length members" using N by (metis length_map)
  moreover have "signer_ids st = sort members" using calculation(1) N by (simp add: signer_ids_def map_sort_key_ids)
  moreover have "qs = sort_key signer_id ps" using q by (simp add: order_partials_Ok_iff)
  moreover have "map signer_id qs = sort members" using P \<open>qs = _\<close> by (simp add: map_sort_key_ids)
  moreover have "1 \<le> length members" using calculation(3,6) by (cases ns) auto
  moreover have "sized FROST_PUBNONCE_LEN (nonces st)" "sized FROST_PARTIAL_SIG_LEN qs"
    using calculation(1,8) N P by (simp_all add: sized_def)
  ultimately show ?thesis using a out by metis
qed

end

lemma ask_each_Ok:
  "ask_each ask ps out s = (Ok cs, s') \<Longrightarrow>
     \<exists>bs. cs = out @ map2 (\<lambda>p b. \<lparr>signer_id = pt_signer_id p, contribution_bytes = b\<rparr>) ps bs \<and> length bs = length ps
        \<and> (\<forall>b\<in>set bs. \<exists>p\<in>set ps. \<exists>s s'. ask p s = (Ok b, s'))"
proof (induction ps arbitrary: out s)
  case (Cons p ps)
  then obtain b s1 where b: "ask p s = (Ok b, s1)"
    and r: "ask_each ask ps (out @ [\<lparr>signer_id = pt_signer_id p, contribution_bytes = b\<rparr>]) s1 = (Ok cs, s')"
    by (auto split: prod.splits sum.splits)
  obtain bs where bs: "cs = (out @ [\<lparr>signer_id = pt_signer_id p, contribution_bytes = b\<rparr>]) @
        map2 (\<lambda>p b. \<lparr>signer_id = pt_signer_id p, contribution_bytes = b\<rparr>) ps bs" "length bs = length ps"
      "\<forall>b\<in>set bs. \<exists>p\<in>set ps. \<exists>s s'. ask p s = (Ok b, s')"
    using Cons.IH [OF r] by blast
  then show ?case using b by (intro exI [of _ "b # bs"]) auto
qed simp

lemma map2_ids: "length bs = length ps \<Longrightarrow>
  map signer_id (map2 (\<lambda>p b. \<lparr>signer_id = pt_signer_id p, contribution_bytes = b\<rparr>) ps bs) = map pt_signer_id ps"
  by (induction bs ps rule: list_induct2) auto

lemma call_enclave_field_length:
  "call_enclave post url body (\<lambda>v. hex_field L v (f v) k) s = (Ok b, s') \<Longrightarrow> length b = k"
  by (auto simp: call_enclave_def hex_field_def ok_iffs split: prod.splits)

lemma ask_each_members:
  assumes "ask_each ask ps [] s = (Ok cs, s')"
    and "\<And>p s b s'. p \<in> set ps \<Longrightarrow> ask p s = (Ok b, s') \<Longrightarrow> length b = k"
  shows "map signer_id cs = map pt_signer_id ps \<and> sized k cs"
proof -
  obtain bs where bs: "cs = map2 (\<lambda>p b. \<lparr>signer_id = pt_signer_id p, contribution_bytes = b\<rparr>) ps bs"
      "length bs = length ps" "\<forall>b\<in>set bs. \<exists>p\<in>set ps. \<exists>s s'. ask p s = (Ok b, s')"
    using ask_each_Ok [OF assms(1)] by auto
  then have "\<forall>b\<in>set bs. length b = k" using assms(2) by blast
  then show ?thesis using bs map2_ids [of bs ps] by (auto simp: sized_def dest: set_zip_rightD)
qed

interpretation http_round: frost_gatherer "sequential_gatherer (map (http_participant L post url) ids)" ids
  for L :: xrpl_lib and post :: "'s http_post" and url :: string and ids :: "nat list"
proof
  show "map signer_id ns = ids \<and> sized FROST_PUBNONCE_LEN ns"
    if "gather_nonces (sequential_gatherer (map (http_participant L post url) ids)) msg s = (Ok ns, s')" for msg s ns s'
  proof -
    have "map signer_id ns = map pt_signer_id (map (http_participant L post url) ids) \<and> sized FROST_PUBNONCE_LEN ns"
      using that unfolding sequential_gatherer_def gatherer.simps
      by (rule ask_each_members) (auto simp: http_participant_def dest: call_enclave_field_length)
    then show ?thesis by (simp add: http_participant_def comp_def)
  qed
  show "map signer_id ps = ids \<and> sized FROST_PARTIAL_SIG_LEN ps"
    if "gather_partials (sequential_gatherer (map (http_participant L post url) ids)) msg st s = (Ok ps, s')" for msg st s ps s'
  proof -
    have "map signer_id ps = map pt_signer_id (map (http_participant L post url) ids) \<and> sized FROST_PARTIAL_SIG_LEN ps"
      using that unfolding sequential_gatherer_def gatherer.simps
      by (rule ask_each_members) (auto simp: http_participant_def dest: call_enclave_field_length)
    then show ?thesis by (simp add: http_participant_def comp_def)
  qed
qed (simp add: sequential_gatherer_def)

section \<open>Properties\<close>

text \<open>
  C29. A round that the diagnostic route reports ran over the requested signers, which are distinct, at
  least the threshold and at most sixteen; nonces of 66 bytes and partial signatures of 32 bytes were
  aggregated in ascending order of the ids into a signature of 64 bytes, reported as verified exactly if
  it verifies under the given group key, and the claim was free before and is free after.
\<close>

theorem frost_round_canonical:
  assumes "handle_frost_round L verify clk post req (f, s) = (Ok resp, (g, s3))"
  shows "\<not> f \<and> \<not> g \<and> distinct (fq_signer_ids req) \<and> fq_threshold req \<le> length (fq_signer_ids req)
     \<and> 1 \<le> length (fq_signer_ids req) \<and> length (fq_signer_ids req) \<le> 16
     \<and> fr_signer_ids resp = sort (fq_signer_ids req)
     \<and> (\<exists>msg32 key st partials sig s2. hex_dec L (trim_start_0x (fq_message req)) = Some msg32
          \<and> hex_dec L (trim_start_0x (fq_group_pubkey req)) = Some key \<and> length msg32 = 32 \<and> length key = 32
          \<and> signer_ids st = sort (fq_signer_ids req) \<and> map signer_id partials = sort (fq_signer_ids req)
          \<and> sized 66 (nonces st) \<and> sized 32 partials
          \<and> http_sig_agg L post (fq_enclave_url req) msg32 st partials s2 = (Ok sig, s3) \<and> length sig = 64
          \<and> fr_signature resp = Some (hex_enc L sig) \<and> (fr_status resp = ''verified'' \<longleftrightarrow> verify msg32 sig key))"
proof -
  obtain msg32 key out where m: "arg32 L ''message'' (fq_message req) = Ok msg32"
      "arg32 L ''group_pubkey'' (fq_group_pubkey req) = Ok key" and f: "\<not> f" "\<not> g"
    and r: "round_body verify clk (sequential_gatherer (map (http_participant L post (fq_enclave_url req)) (fq_signer_ids req)))
        (http_sig_agg L post (fq_enclave_url req)) msg32 (fq_threshold req) key s = (Ok out, s3)"
    and resp: "resp = round_response L out"
    using assms by (auto simp: handle_frost_round_def run_round_def try_acquire_def drop_claim_def
        split: if_splits sum.splits prod.splits)
  obtain st partials s2 where
    c: "signer_ids st = sort (fq_signer_ids req)" "map signer_id partials = sort (fq_signer_ids req)"
      "sized 66 (nonces st)" "sized 32 partials"
      "http_sig_agg L post (fq_enclave_url req) msg32 st partials s2 = (Ok (fo_signature out), s3)"
      "fo_verified out = verify msg32 (fo_signature out) key"
    using http_round.round_canonical [OF r] by (auto simp: FROST_PUBNONCE_LEN_def FROST_PARTIAL_SIG_LEN_def)
  have "length (fo_signature out) = 64"
    using c(5) unfolding http_sig_agg_def FROST_SIG_LEN_def by (rule call_enclave_field_length)
  moreover have "hex_dec L (trim_start_0x (fq_message req)) = Some msg32" "length msg32 = 32"
      "hex_dec L (trim_start_0x (fq_group_pubkey req)) = Some key" "length key = 32"
    using m by (auto simp: arg32_def ok_iffs split: option.splits if_splits)
  moreover have "fr_signature resp = Some (hex_enc L (fo_signature out))" "fr_signer_ids resp = fo_signer_ids out"
      "fr_status resp = ''verified'' \<longleftrightarrow> fo_verified out"
    using resp by (simp_all add: round_response_def)
  ultimately show ?thesis using f c http_round.round_canonical [OF r] by metis
qed

text \<open>An enclave that answers every call with letters of the right number.\<close>

definition letter_enclave :: "unit http_post" where
  "letter_enclave url body s =
     (Body True (JObj [(''pubnonce'', JStr (replicate 66 CHR ''a'')), (''partial_sig'', JStr (replicate 32 CHR ''b'')),
        (''signature'', JStr (replicate 64 CHR ''c''))]), s)"

definition two_signers :: frost_round_request where
  "two_signers = \<lparr>fq_enclave_url = ''http://127.0.0.1:9088'', fq_message = replicate 32 CHR ''m'', fq_signer_ids = [2, 1],
     fq_threshold = 2, fq_group_pubkey = replicate 32 CHR ''k''\<rparr>"

lemma trim_start_0x_replicate: "c \<noteq> CHR ''0'' \<Longrightarrow> trim_start_0x (replicate n c) = replicate n c"
  by (cases n; cases "n - 1") auto

lemma two_signers_round:
  "handle_frost_round sample_lib (\<lambda>_ _ _. True) (\<lambda>_. 0) letter_enclave two_signers (False, ()) =
     (Ok \<lparr>fr_status = ''verified'', fr_signer_ids = [1, 2], fr_elapsed_ms = 0, fr_verified = True,
        fr_signature = Some (replicate 64 CHR ''c'')\<rparr>, (False, ()))"
proof -
  have url: "looks_loopback ''http://127.0.0.1:9088''" by (simp add: looks_loopback_def starts_with_def)
  have dec: "hex_dec sample_lib (replicate n c) = Some (replicate n (of_nat (of_char c)))" for n c
    by (simp add: sample_lib_def)
  have "char_of (99 :: nat) = CHR ''c''" by code_simp
  then have enc: "hex_enc sample_lib (replicate n (of_nat 99)) = replicate n CHR ''c''" for n by (simp add: sample_lib_def)
  have gen: "pt_nonce_gen (http_participant sample_lib letter_enclave u i) m s = (Ok (replicate 66 97), s)"
    "pt_partial_sign (http_participant sample_lib letter_enclave u i) m st s = (Ok (replicate 32 98), s)"
    "http_sig_agg sample_lib letter_enclave u m st ps s = (Ok (replicate 64 99), s)" for u i m s st ps
    by (simp_all add: http_participant_def http_sig_agg_def call_enclave_def letter_enclave_def hex_field_def json_index_def
        trim_start_0x_replicate dec FROST_PUBNONCE_LEN_def FROST_PARTIAL_SIG_LEN_def FROST_SIG_LEN_def)
  have ids: "pt_signer_id (http_participant sample_lib letter_enclave u i) = i" for u i by (simp add: http_participant_def)
  have arg: "arg32 sample_lib n (replicate 32 c) = Ok (replicate 32 (of_nat (of_char c)))" if "c \<noteq> CHR ''0''" for n c
    using that by (simp add: arg32_def dec trim_start_0x_replicate)
  show ?thesis
    using enc [of 64]
    by (simp add: handle_frost_round_def two_signers_def url arg run_round_def try_acquire_def round_body_def
        sequential_gatherer_def gen ids set_from_nonces_def signer_set_new_def MAX_SIGNERS_PER_ROUND_def signer_set_len_def
        order_partials_def set_contains_def round_response_def drop_claim_def signer_ids_def)
qed

theorem frost_round_canonical_witness:
  "\<exists>st a b sig. signer_ids st = [1, 2] \<and> sized 32 [a, b] \<and> signer_id a = 1 \<and> signer_id b = 2 \<and> length sig = 64
     \<and> replicate 64 CHR ''c'' = hex_enc sample_lib sig"
  using frost_round_canonical [OF two_signers_round] by (auto simp: two_signers_def)

text \<open>
  The check of the partial signatures compares ids with the set and counts them, but does not look for
  repetitions: two partial signatures of signer 1 pass for the set of the signers 1 and 2.
\<close>

lemma repeated_partial_passes:
  assumes "signer_ids st = [1, 2]" "signer_id a = 1" "signer_id b = 1"
  shows "order_partials st [a, b] = Ok [a, b]"
  using assms by (auto simp: order_partials_Ok_iff signer_ids_def dest: map_eq_imp_length_eq)

text \<open>The loopback test of the route is a search for a substring.\<close>

lemma foreign_host_looks_loopback: "looks_loopback ''http://127.0.0.1.example.org''"
  by code_simp

end
