(* ===== verification/Frost_Serial.thy ===== *)
theory Frost_Serial
  imports Frost_Props
begin

text \<open>
  Concurrent rounds of \<^verbatim>\<open>frost_round.rs\<close>. Each task of the process runs \<open>run_round\<close> over the sequential
  gatherer, and other tasks run whenever it waits for an enclave. A task is the point where it waits;
  a step takes the claim, finds it taken, gets one answer, or drops the claim. Every interleaving is a
  serial run of the rounds that got the claim.
\<close>

section \<open>Tasks\<close>

record 's job =
  jb_participants :: "'s participant list"
  jb_agg :: "'s sig_agg_fun"
  jb_msg :: bytes
  jb_threshold :: nat
  jb_key :: bytes

datatype 's task =
    Waiting
  | AskNonces "'s participant list" "contribution list" nat
  | AskPartials frost_signer_set "'s participant list" "contribution list" nat
  | AskSignature frost_signer_set "contribution list" nat
  | Ended "frost_error + frost_round_outcome"
  | Returned "frost_error + frost_round_outcome"

fun holding :: "'s task \<Rightarrow> bool" where
  "holding Waiting = False"
| "holding (Returned r) = False"
| "holding _ = True"

type_synonym 's round_env = "(bytes \<Rightarrow> bytes \<Rightarrow> bytes \<Rightarrow> bool) \<times> ('s \<Rightarrow> nat)"

definition to_signature :: "frost_signer_set \<Rightarrow> contribution list \<Rightarrow> nat \<Rightarrow> 's task" where
  "to_signature st cs t0 = (case order_partials st cs of Err e \<Rightarrow> Ended (Err e) | Ok qs \<Rightarrow> AskSignature st qs t0)"

definition to_partials :: "frost_signer_set \<Rightarrow> 's participant list \<Rightarrow> contribution list \<Rightarrow> nat \<Rightarrow> 's task" where
  "to_partials st ps out t0 = (if ps = [] then to_signature st out t0 else AskPartials st ps out t0)"

definition to_nonces :: "'s job \<Rightarrow> 's participant list \<Rightarrow> contribution list \<Rightarrow> nat \<Rightarrow> 's task" where
  "to_nonces j ps out t0 =
     (if ps = []
      then case set_from_nonces (jb_threshold j) out of
             Err e \<Rightarrow> Ended (Err e)
           | Ok st \<Rightarrow> to_partials st (jb_participants j) [] t0
      else AskNonces ps out t0)"

definition enter_round :: "'s round_env \<Rightarrow> 's job \<Rightarrow> 's \<Rightarrow> 's task" where
  "enter_round V j s =
     (if length (jb_participants j) < jb_threshold j
      then Ended (Err (TooFewParticipants (length (jb_participants j)) (jb_threshold j)))
      else to_nonces j (jb_participants j) [] (snd V s))"

definition outcome_of :: "'s round_env \<Rightarrow> 's job \<Rightarrow> frost_signer_set \<Rightarrow> nat \<Rightarrow> bytes \<Rightarrow> 's \<Rightarrow> frost_round_outcome" where
  "outcome_of V j st t0 sig s =
     \<lparr>fo_signature = sig, fo_signer_ids = signer_ids st, fo_elapsed = snd V s - t0,
      fo_verified = fst V (jb_msg j) sig (jb_key j)\<rparr>"

text \<open>One answer of an enclave.\<close>

fun resume :: "'s round_env \<Rightarrow> 's job \<Rightarrow> 's task \<Rightarrow> 's \<Rightarrow> 's task \<times> 's" where
  "resume V j (AskNonces (p # ps) out t0) s =
     (case pt_nonce_gen p (jb_msg j) s of
        (Err e, s1) \<Rightarrow> (Ended (Err e), s1)
      | (Ok b, s1) \<Rightarrow> (to_nonces j ps (out @ [\<lparr>signer_id = pt_signer_id p, contribution_bytes = b\<rparr>]) t0, s1))"
| "resume V j (AskPartials st (p # ps) out t0) s =
     (case pt_partial_sign p (jb_msg j) st s of
        (Err e, s1) \<Rightarrow> (Ended (Err e), s1)
      | (Ok b, s1) \<Rightarrow> (to_partials st ps (out @ [\<lparr>signer_id = pt_signer_id p, contribution_bytes = b\<rparr>]) t0, s1))"
| "resume V j (AskSignature st qs t0) s =
     (case jb_agg j (jb_msg j) st qs s of
        (Err e, s1) \<Rightarrow> (Ended (Err e), s1)
      | (Ok sig, s1) \<Rightarrow> (Ended (Ok (outcome_of V j st t0 sig s1)), s1))"
| "resume V j pc s = (pc, s)"

record 's process =
  in_flight :: bool
  tasks :: "nat \<Rightarrow> 's task"
  world :: 's

inductive frost_step :: "'s round_env \<Rightarrow> (nat \<Rightarrow> 's job) \<Rightarrow> 's process \<Rightarrow> 's process \<Rightarrow> bool" for V J where
  acquire: "tasks c i = Waiting \<Longrightarrow> try_acquire (in_flight c) = (Some (), f) \<Longrightarrow>
     frost_step V J c (c\<lparr>in_flight := f, tasks := (tasks c)(i := enter_round V (J i) (world c))\<rparr>)"
| refuse: "tasks c i = Waiting \<Longrightarrow> try_acquire (in_flight c) = (None, f) \<Longrightarrow>
     frost_step V J c (c\<lparr>in_flight := f, tasks := (tasks c)(i := Returned (Err RoundInFlight))\<rparr>)"
| answer: "holding (tasks c i) \<Longrightarrow> resume V (J i) (tasks c i) (world c) = (pc, s) \<Longrightarrow>
     frost_step V J c (c\<lparr>tasks := (tasks c)(i := pc), world := s\<rparr>)"
| drop: "tasks c i = Ended r \<Longrightarrow>
     frost_step V J c (c\<lparr>in_flight := drop_claim (in_flight c), tasks := (tasks c)(i := Returned r)\<rparr>)"

definition idle_process :: "'s \<Rightarrow> 's process" where
  "idle_process s = \<lparr>in_flight = False, tasks = (\<lambda>_. Waiting), world = s\<rparr>"

inductive frost_reachable :: "'s round_env \<Rightarrow> (nat \<Rightarrow> 's job) \<Rightarrow> 's \<Rightarrow> 's process \<Rightarrow> bool" for V J s0 where
  start: "frost_reachable V J s0 (idle_process s0)"
| step: "frost_reachable V J s0 c \<Longrightarrow> frost_step V J c c' \<Longrightarrow> frost_reachable V J s0 c'"

section \<open>At most one round is in flight\<close>

definition single_flight :: "'s process \<Rightarrow> bool" where
  "single_flight c \<longleftrightarrow> (\<forall>i k. holding (tasks c i) \<longrightarrow> holding (tasks c k) \<longrightarrow> i = k)
     \<and> (in_flight c \<longleftrightarrow> (\<exists>i. holding (tasks c i)))"

lemma try_acquire_simps [simp]:
  "try_acquire f = (Some (), g) \<longleftrightarrow> \<not> f \<and> g" "try_acquire f = (None, g) \<longleftrightarrow> f \<and> g"
  by (auto simp: try_acquire_def)

lemma holding_to [simp]:
  "holding (to_signature st cs t0)" "holding (to_partials st ps out t0)" "holding (to_nonces j ps out t0)"
  "holding (enter_round V j s)"
  by (auto simp: to_signature_def to_partials_def to_nonces_def enter_round_def split: sum.splits)

lemma holding_resume: "holding pc \<Longrightarrow> resume V j pc s = (pc', s') \<Longrightarrow> holding pc'"
  by (induction V j pc s rule: resume.induct) (auto split: prod.splits sum.splits)

lemma single_flight_step: "frost_step V J c c' \<Longrightarrow> single_flight c \<Longrightarrow> single_flight c'"
proof (induction rule: frost_step.induct)
  case (answer c i pc s)
  have "holding pc" by (rule holding_resume [OF answer(1,2)])
  then show ?case using answer by (auto simp: single_flight_def)
next
  case (drop c i r)
  then have "\<not> holding (tasks c k)" if "k \<noteq> i" for k using that by (metis holding.simps(6) single_flight_def)
  then show ?case by (auto simp: single_flight_def drop_claim_def)
next
  case (refuse c i f)
  then have "holding (tasks c k) \<Longrightarrow> k \<noteq> i" for k by auto
  then show ?case using refuse by (auto simp: single_flight_def)
qed (auto simp: single_flight_def)

section \<open>Every interleaving is serial\<close>

text \<open>What a task still has to do, run without interruption.\<close>

definition conclude ::
  "'s round_env \<Rightarrow> 's job \<Rightarrow> frost_signer_set \<Rightarrow> contribution list \<Rightarrow> nat \<Rightarrow> 's \<Rightarrow> (frost_error + frost_round_outcome) \<times> 's" where
  "conclude V j st qs t0 s =
     (case jb_agg j (jb_msg j) st qs s of
        (Err e, s1) \<Rightarrow> (Err e, s1)
      | (Ok sig, s1) \<Rightarrow> (Ok (outcome_of V j st t0 sig s1), s1))"

definition rest_partials where
  "rest_partials V j st ps out t0 s =
     (case ask_each (\<lambda>p. pt_partial_sign p (jb_msg j) st) ps out s of
        (Err e, s1) \<Rightarrow> (Err e, s1)
      | (Ok cs, s1) \<Rightarrow> (case order_partials st cs of Err e \<Rightarrow> (Err e, s1) | Ok qs \<Rightarrow> conclude V j st qs t0 s1))"

definition rest_nonces where
  "rest_nonces V j ps out t0 s =
     (case ask_each (\<lambda>p. pt_nonce_gen p (jb_msg j)) ps out s of
        (Err e, s1) \<Rightarrow> (Err e, s1)
      | (Ok ns, s1) \<Rightarrow>
          (case set_from_nonces (jb_threshold j) ns of
             Err e \<Rightarrow> (Err e, s1)
           | Ok st \<Rightarrow> rest_partials V j st (jb_participants j) [] t0 s1))"

fun finish :: "'s round_env \<Rightarrow> 's job \<Rightarrow> 's task \<Rightarrow> 's \<Rightarrow> (frost_error + frost_round_outcome) \<times> 's" where
  "finish V j Waiting s = (Err RoundInFlight, s)"
| "finish V j (AskNonces ps out t0) s = rest_nonces V j ps out t0 s"
| "finish V j (AskPartials st ps out t0) s = rest_partials V j st ps out t0 s"
| "finish V j (AskSignature st qs t0) s = conclude V j st qs t0 s"
| "finish V j (Ended r) s = (r, s)"
| "finish V j (Returned r) s = (r, s)"

lemma finish_to_signature:
  "finish V j (to_signature st cs t0) s =
     (case order_partials st cs of Err e \<Rightarrow> (Err e, s) | Ok qs \<Rightarrow> conclude V j st qs t0 s)"
  by (simp add: to_signature_def split: sum.splits)

lemma finish_to_partials: "finish V j (to_partials st ps out t0) s = rest_partials V j st ps out t0 s"
  by (simp add: to_partials_def finish_to_signature rest_partials_def)

lemma finish_to_nonces: "finish V j (to_nonces j ps out t0) s = rest_nonces V j ps out t0 s"
  by (simp add: to_nonces_def finish_to_partials rest_nonces_def split: sum.splits)

lemma finish_resume: "resume V j pc s = (pc', s') \<Longrightarrow> finish V j pc' s' = finish V j pc s"
  by (induction V j pc s rule: resume.induct)
    (auto simp: finish_to_nonces finish_to_partials rest_nonces_def rest_partials_def conclude_def
      split: prod.splits sum.splits)

definition job_body :: "'s round_env \<Rightarrow> 's job \<Rightarrow> 's \<Rightarrow> (frost_error + frost_round_outcome) \<times> 's" where
  "job_body V j = round_body (fst V) (snd V) (sequential_gatherer (jb_participants j)) (jb_agg j) (jb_msg j)
     (jb_threshold j) (jb_key j)"

lemma finish_enter_round: "finish V j (enter_round V j s) s = job_body V j s"
  by (simp add: enter_round_def finish_to_nonces job_body_def round_body_def sequential_gatherer_def rest_nonces_def
      rest_partials_def conclude_def outcome_of_def cong: sum.case_cong prod.case_cong)

text \<open>The rounds of the tasks \<open>is\<close> one after the other, each with the claim free.\<close>

fun serial_rounds ::
  "'s round_env \<Rightarrow> (nat \<Rightarrow> 's job) \<Rightarrow> nat list \<Rightarrow> 's \<Rightarrow> (nat \<times> (frost_error + frost_round_outcome)) list \<times> 's" where
  "serial_rounds V J [] s = ([], s)"
| "serial_rounds V J (i # is) s =
     (case run_round (fst V) (snd V) (sequential_gatherer (jb_participants (J i))) (jb_agg (J i)) (jb_msg (J i))
             (jb_threshold (J i)) (jb_key (J i)) (False, s) of
        (r, (f, s1)) \<Rightarrow> (case serial_rounds V J is s1 of (rs, s2) \<Rightarrow> ((i, r) # rs, s2)))"

lemma serial_rounds_Cons:
  "serial_rounds V J (i # is) s =
     (case job_body V (J i) s of (r, s1) \<Rightarrow> (case serial_rounds V J is s1 of (rs, s2) \<Rightarrow> ((i, r) # rs, s2)))"
  by (simp add: run_round_def try_acquire_def job_body_def split: prod.splits)

lemma serial_rounds_snoc:
  "serial_rounds V J is s = (rs, s1) \<Longrightarrow> job_body V (J i) s1 = (r, s2) \<Longrightarrow>
     serial_rounds V J (is @ [i]) s = (rs @ [(i, r)], s2)"
  by (induction "is" arbitrary: s rs) (auto simp: serial_rounds_Cons simp del: serial_rounds.simps(2) split: prod.splits)

lemma fst_serial_rounds: "serial_rounds V J is s = (rs, s1) \<Longrightarrow> map fst rs = is"
  by (induction "is" arbitrary: s rs) (auto split: prod.splits)

text \<open>
  \<open>serialized\<close>: the rounds that have ended ran serially up to the state \<open>s1\<close>; the round in flight, if any,
  finishes as it would have from \<open>s1\<close>.
\<close>

definition ended_as :: "'s task \<Rightarrow> (frost_error + frost_round_outcome) option \<Rightarrow> bool" where
  "ended_as pc x \<longleftrightarrow> (case x of
      Some r \<Rightarrow> pc = Returned r
    | None \<Rightarrow> pc = Waiting \<or> pc = Returned (Err RoundInFlight) \<or> holding pc)"

definition serialized :: "'s round_env \<Rightarrow> (nat \<Rightarrow> 's job) \<Rightarrow> 's \<Rightarrow> 's process \<Rightarrow> bool" where
  "serialized V J s0 c \<longleftrightarrow> single_flight c \<and> (\<exists>order rs s1. serial_rounds V J order s0 = (rs, s1) \<and> distinct order
     \<and> (\<forall>i. ended_as (tasks c i) (map_of rs i))
     \<and> (\<forall>i. holding (tasks c i) \<longrightarrow> finish V (J i) (tasks c i) (world c) = job_body V (J i) s1)
     \<and> (\<not> in_flight c \<longrightarrow> world c = s1))"

lemma serializedE:
  assumes "serialized V J s0 c"
  obtains order rs s1 where "single_flight c" "serial_rounds V J order s0 = (rs, s1)" "distinct order"
    "\<And>i. ended_as (tasks c i) (map_of rs i)"
    "\<And>i. holding (tasks c i) \<Longrightarrow> finish V (J i) (tasks c i) (world c) = job_body V (J i) s1"
    "\<not> in_flight c \<Longrightarrow> world c = s1"
  using assms unfolding serialized_def by blast

lemma serializedI:
  assumes "single_flight c" "serial_rounds V J order s0 = (rs, s1)" "distinct order"
    and "\<And>i. ended_as (tasks c i) (map_of rs i)"
    and "\<And>i. holding (tasks c i) \<Longrightarrow> finish V (J i) (tasks c i) (world c) = job_body V (J i) s1"
    and "\<not> in_flight c \<Longrightarrow> world c = s1"
  shows "serialized V J s0 c"
  using assms unfolding serialized_def by blast

lemma not_ended [dest]:
  "ended_as Waiting x \<Longrightarrow> x = None" "ended_as pc x \<Longrightarrow> holding pc \<Longrightarrow> x = None"
  by (auto simp: ended_as_def split: option.splits)

lemma ended_as_None [simp]:
  "ended_as (Returned (Err RoundInFlight)) None" "holding pc \<Longrightarrow> ended_as pc None"
  by (simp_all add: ended_as_def)

lemma serialized_step:
  assumes "frost_step V J c c'" "serialized V J s0 c"
  shows "serialized V J s0 c'"
  using assms(2)
proof (rule serializedE)
  fix order rs s1
  assume sf: "single_flight c" and ser: "serial_rounds V J order s0 = (rs, s1)" "distinct order"
    and ends: "\<And>i. ended_as (tasks c i) (map_of rs i)"
    and run: "\<And>i. holding (tasks c i) \<Longrightarrow> finish V (J i) (tasks c i) (world c) = job_body V (J i) s1"
    and at_rest: "\<not> in_flight c \<Longrightarrow> world c = s1"
  have sf': "single_flight c'" by (rule single_flight_step [OF assms(1) sf])
  from assms(1) show ?thesis
  proof cases
    case (acquire i f)
    have none: "map_of rs i = None" using ends [of i] acquire by auto
    have free: "\<not> holding (tasks c k)" for k using sf acquire by (auto simp: single_flight_def)
    show ?thesis
      by (rule serializedI [OF sf' ser])
        (use acquire none free ends at_rest finish_enter_round [of V "J i"] in \<open>auto split: if_splits\<close>)
  next
    case (refuse i f)
    have none: "map_of rs i = None" using ends [of i] refuse by auto
    show ?thesis by (rule serializedI [OF sf' ser]) (use refuse none ends run in \<open>auto split: if_splits\<close>)
  next
    case (answer i pc s)
    have h: "holding pc" by (rule holding_resume [OF answer(2,3)])
    have none: "map_of rs i = None" using ends [of i] answer by auto
    have others: "\<not> holding (tasks c k)" if "k \<noteq> i" for k using sf answer that by (auto simp: single_flight_def)
    have fin: "finish V (J i) pc s = job_body V (J i) s1"
      using run [OF answer(2)] finish_resume [OF answer(3)] by simp
    have "in_flight c" using sf answer by (auto simp: single_flight_def)
    then show ?thesis
      by (intro serializedI [OF sf' ser]) (use answer none h ends others fin in \<open>auto split: if_splits\<close>)
  next
    case (drop i r)
    have none: "map_of rs i = None" using ends [of i] drop by auto
    have others: "\<not> holding (tasks c k)" if "k \<noteq> i" for k using sf drop that by (metis holding.simps(6) single_flight_def)
    have "job_body V (J i) s1 = (r, world c)" using run [of i] drop by simp
    then have ser': "serial_rounds V J (order @ [i]) s0 = (rs @ [(i, r)], world c)" by (rule serial_rounds_snoc [OF ser(1)])
    have "i \<notin> set order" using none fst_serial_rounds [OF ser(1)] by (metis map_of_eq_None_iff set_map)
    then have d: "distinct (order @ [i])" using ser(2) by simp
    have "ended_as (tasks c' k) (map_of (rs @ [(i, r)]) k)" for k
      using ends [of k] drop none by (cases "k = i") (auto simp: map_add_def ended_as_def split: option.splits)
    then show ?thesis by (rule serializedI [OF sf' ser' d]) (use drop others in \<open>auto split: if_splits\<close>)
  qed
qed

lemma serialized_reachable: "frost_reachable V J s0 c \<Longrightarrow> serialized V J s0 c"
proof (induction rule: frost_reachable.induct)
  case start
  show ?case
    by (rule serializedI [where order = "[]" and rs = "[]" and ?s1.0 = s0])
      (auto simp: idle_process_def single_flight_def ended_as_def)
qed (rule serialized_step)

section \<open>Properties\<close>

text \<open>
  C30. At every moment of any interleaving at most one task of the process is inside a round, and the
  flag is set exactly while one is.
\<close>

theorem one_round_in_flight:
  assumes "frost_reachable V J s0 c"
  shows "(in_flight c \<longleftrightarrow> (\<exists>i. holding (tasks c i))) \<and> (\<forall>i k. holding (tasks c i) \<and> holding (tasks c k) \<longrightarrow> i = k)"
  using serialized_reachable [OF assms] unfolding serialized_def single_flight_def by blast

text \<open>
  C31. However the rounds of a process interleave at their enclave calls, once no round is in flight the
  enclaves are in the state, and every task has the result, of running the rounds that got the claim one
  after the other in some order; every other task that returned was refused.
\<close>

theorem rounds_serialize:
  assumes "frost_reachable V J s0 c" "\<not> in_flight c"
  shows "\<exists>order rs. distinct order \<and> serial_rounds V J order s0 = (rs, world c)
     \<and> (\<forall>i r. tasks c i = Returned r \<longrightarrow> map_of rs i = Some r \<or> i \<notin> set order \<and> r = Err RoundInFlight)
     \<and> (\<forall>i\<in>set order. \<exists>r. tasks c i = Returned r)"
  using serialized_reachable [OF assms(1)]
proof (rule serializedE)
  fix order rs s1
  assume ser: "serial_rounds V J order s0 = (rs, s1)" "distinct order"
    and ends: "\<And>i. ended_as (tasks c i) (map_of rs i)" and rest: "\<not> in_flight c \<Longrightarrow> world c = s1"
  have dom: "map_of rs i = None \<longleftrightarrow> i \<notin> set order" for i
    using fst_serial_rounds [OF ser(1)] by (metis map_of_eq_None_iff set_map)
  have "map_of rs i = Some r \<or> i \<notin> set order \<and> r = Err RoundInFlight" if "tasks c i = Returned r" for i r
    using ends [of i] that dom [of i] by (auto simp: ended_as_def split: option.splits)
  moreover have "\<exists>r. tasks c i = Returned r" if "i \<in> set order" for i
    using ends [of i] that dom [of i] by (auto simp: ended_as_def split: option.splits)
  ultimately show ?thesis using ser rest assms(2) by blast
qed

text \<open>Two tasks with no participants and a threshold of none: the first gets the claim, the second is refused.\<close>

definition empty_job :: "unit job" where
  "empty_job = \<lparr>jb_participants = [], jb_agg = (\<lambda>_ _ _ s. (Err EnclaveStatus, s)), jb_msg = [], jb_threshold = 0, jb_key = []\<rparr>"

definition quiet_env :: "unit round_env" where
  "quiet_env = ((\<lambda>_ _ _. False), (\<lambda>_. 0))"

definition refused_process :: "unit process" where
  "refused_process = \<lparr>in_flight = True, tasks = ((\<lambda>_. Waiting)(0 := Ended (Err EmptySignerSet)))(1 := Returned (Err RoundInFlight)),
     world = ()\<rparr>"

lemma refused_process_reachable: "frost_reachable quiet_env (\<lambda>_. empty_job) () refused_process"
proof -
  let ?J = "\<lambda>_ :: nat. empty_job"
  let ?c1 = "(idle_process ())\<lparr>in_flight := True, tasks := (tasks (idle_process ()))(0 := enter_round quiet_env (?J (0 :: nat)) (world (idle_process ())))\<rparr>"
  have e: "enter_round quiet_env empty_job () = Ended (Err EmptySignerSet)"
    by (simp add: enter_round_def empty_job_def to_nonces_def set_from_nonces_def signer_set_new_def)
  have "frost_step quiet_env ?J (idle_process ()) ?c1" by (rule frost_step.acquire) (simp_all add: idle_process_def)
  then have r1: "frost_reachable quiet_env ?J () ?c1" by (rule frost_reachable.step [OF frost_reachable.start])
  have "frost_step quiet_env ?J ?c1 (?c1\<lparr>in_flight := True, tasks := (tasks ?c1)(1 := Returned (Err RoundInFlight))\<rparr>)"
    by (rule frost_step.refuse) (simp_all add: idle_process_def)
  moreover have "?c1\<lparr>in_flight := True, tasks := (tasks ?c1)(1 := Returned (Err RoundInFlight))\<rparr> = refused_process"
    by (simp add: refused_process_def idle_process_def e)
  ultimately show ?thesis using frost_reachable.step [OF r1] by simp
qed

lemma returned_process_reachable:
  "frost_reachable quiet_env (\<lambda>_. empty_job) ()
     (refused_process\<lparr>in_flight := False, tasks := (tasks refused_process)(0 := Returned (Err EmptySignerSet))\<rparr>)"
proof -
  have "frost_step quiet_env (\<lambda>_. empty_job) refused_process
     (refused_process\<lparr>in_flight := drop_claim (in_flight refused_process), tasks := (tasks refused_process)(0 := Returned (Err EmptySignerSet))\<rparr>)"
    by (rule frost_step.drop) (simp add: refused_process_def)
  then show ?thesis using frost_reachable.step [OF refused_process_reachable] by (simp add: drop_claim_def)
qed

theorem one_round_in_flight_witness:
  "{i. holding (tasks refused_process i)} = {0} \<and> in_flight refused_process"
proof -
  have "holding (tasks refused_process 0)" "in_flight refused_process" by (simp_all add: refused_process_def)
  then show ?thesis using one_round_in_flight [OF refused_process_reachable] by blast
qed

theorem rounds_serialize_witness:
  "\<exists>order rs. distinct order \<and> serial_rounds quiet_env (\<lambda>_. empty_job) order () = (rs, ()) \<and> 0 \<in> set order \<and> (1 :: nat) \<notin> set order"
proof -
  obtain order rs where o: "distinct order" "serial_rounds quiet_env (\<lambda>_. empty_job) order () = (rs, ())"
    and r: "\<And>i r. tasks (refused_process\<lparr>in_flight := False, tasks := (tasks refused_process)(0 := Returned (Err EmptySignerSet))\<rparr>) i
        = Returned r \<Longrightarrow> map_of rs i = Some r \<or> i \<notin> set order \<and> r = Err RoundInFlight"
    using rounds_serialize [OF returned_process_reachable] by auto
  have b: "job_body quiet_env empty_job () = (Err EmptySignerSet, ())"
    by (simp add: job_body_def round_body_def sequential_gatherer_def empty_job_def set_from_nonces_def signer_set_new_def)
  have "serial_rounds quiet_env (\<lambda>_. empty_job) is () = (qs, ()) \<Longrightarrow> x \<in> set qs \<Longrightarrow> snd x = Err EmptySignerSet" for "is" qs x
    by (induction "is" arbitrary: qs) (auto simp: serial_rounds_Cons b simp del: serial_rounds.simps(2) split: prod.splits)
  then have e: "map_of rs i = Some q \<Longrightarrow> q = Err EmptySignerSet" for i q using o(2) map_of_SomeD by fastforce
  have "0 \<in> set order" using r [of 0] e o(2) fst_serial_rounds [OF o(2)] 
    by (force simp: refused_process_def dest!: map_of_SomeD)
  moreover have "1 \<notin> set order" using r [of 1] e by (auto simp: refused_process_def)
  ultimately show ?thesis using o by blast
qed

end
