(* ===== verification/Dkg.thy ===== *)
theory Dkg
  imports Prelude "HOL-Library.AList"
begin

text \<open>
  \<^verbatim>\<open>orchestrator/src/dkg_coordinate.rs\<close>: the coordination of a distributed key generation over the
  gossip mesh. Every node follows the steps of the active ceremony with its own enclave and
  acknowledges them; the node whose operator starts a ceremony also drives it from step to step.
  The enclave, the wall clock, the text of an error and what the other tasks of the node do while a
  task sleeps are fields of \<open>dkg_env\<close>. A \<open>HashMap\<close> is an association list updated by key, whose order
  is arbitrary; its length is below \<open>2 ^ 32\<close>, so the casts to \<open>u32\<close> keep it.
\<close>

section \<open>Messages and state\<close>

record share_envelope_v2 =
  se_ceremony_nonce :: string
  se_iv :: string
  se_ct :: string
  se_tag :: string
  se_sender_pubkey :: string
  se_keygen_cache :: string
  se_threshold :: nat
  se_n_participants :: nat

record dkg_share_envelope =
  ds_ceremony_nonce :: string
  ds_iv :: string
  ds_ct :: string
  ds_tag :: string
  ds_sender_pubkey :: string

datatype share_message =
  ShareDeliver (recipient_pubkey: string) (sm_shard_id: nat) (sm_group_id: string) (sm_signer_id: nat)
    (sm_envelope: share_envelope_v2)

datatype dkg_step_message =
    Round1Start string nat nat "(string \<times> nat) list"
  | Round1Done string nat string
  | Round15Start string
  | Round15Done string nat
  | Round2Start string "(nat \<times> string) list"
  | Round2Done string nat
  | FinalizeStart string
  | FinalizeDone string nat string
  | Abort string nat string

definition SENTINEL_GROUP_ID_ZEROS :: string where
  "SENTINEL_GROUP_ID_ZEROS = replicate 64 CHR ''0''"

definition CEREMONY_TIMEOUT_MS :: nat where "CEREMONY_TIMEOUT_MS = 180000"
definition STEP_POLL_INTERVAL_MS :: nat where "STEP_POLL_INTERVAL_MS = 500"
definition ROUND2_TIMEOUT_MS :: nat where "ROUND2_TIMEOUT_MS = 30000"
definition DRIVE_INTERVAL_MS :: nat where "DRIVE_INTERVAL_MS = 2000"

record active_ceremony =
  ceremony_id :: string
  ac_threshold :: nat
  n_participants :: nat
  pid_assignment :: "(string \<times> nat) list"
  my_pid :: nat
  vss_commitments :: "(nat \<times> string) list"
  round1_done :: "(nat \<times> unit) list"
  round15_done :: "(nat \<times> unit) list"
  round2_done :: "(nat \<times> unit) list"
  finalize_done :: "(nat \<times> string) list"
  imported_from_pid :: "(nat \<times> unit) list"

text \<open>The node: the active ceremony, its enclave, the two outgoing channels and the monotonic clock in milliseconds.\<close>

record 's dkg_node =
  active :: "active_ceremony option"
  enclave :: 's
  step_out :: "dkg_step_message list"
  share_out :: "share_message list"
  mono_ms :: nat

datatype dkg_error =
    NotInAssignment
  | UnknownCeremony
  | NoEcdhKey string
  | EnclaveFailed string
  | ChannelClosed
  | ClockBeforeEpoch
  | Round2Timeout nat nat
  | NoActiveCeremony
  | NoCommitment nat
  | OutOfFuel

record 's dkg_env =
  own_address :: string
  peer_keys :: "(string \<times> string) list"
  en_round1_generate :: "nat \<Rightarrow> nat \<Rightarrow> nat \<Rightarrow> 's \<Rightarrow> (dkg_error + string) \<times> 's"
  en_export_share :: "nat \<Rightarrow> string \<Rightarrow> nat \<Rightarrow> string \<Rightarrow> nat \<Rightarrow> 's \<Rightarrow> (dkg_error + dkg_share_envelope) \<times> 's"
  en_import_share :: "nat \<Rightarrow> string \<Rightarrow> nat \<Rightarrow> string \<Rightarrow> nat \<Rightarrow> dkg_share_envelope \<Rightarrow> string \<Rightarrow> 's \<Rightarrow> (dkg_error + unit) \<times> 's"
  en_frost_import :: "share_envelope_v2 \<Rightarrow> nat \<Rightarrow> string \<Rightarrow> nat \<Rightarrow> nat \<Rightarrow> 's \<Rightarrow> (dkg_error + bool) \<times> 's"
  en_finalize :: "'s \<Rightarrow> (dkg_error + string) \<times> 's"
  wall_secs :: "'s dkg_node \<Rightarrow> nat option"
  step_open :: bool
  share_open :: bool
  show_error :: "dkg_error \<Rightarrow> string"
  sleep :: "nat \<Rightarrow> 's dkg_node \<Rightarrow> 's dkg_node"

section \<open>The follower\<close>

definition send_step :: "'s dkg_env \<Rightarrow> dkg_step_message \<Rightarrow> 's dkg_node \<Rightarrow> (dkg_error + unit) \<times> 's dkg_node" where
  "send_step E msg nd =
     (if step_open E then (Ok (), nd\<lparr>step_out := step_out nd @ [msg]\<rparr>) else (Err ChannelClosed, nd))"

text \<open>\<open>active.as_mut().filter(|a| a.ceremony_id == id)\<close> followed by an update; and the same for reading.\<close>

definition on_ceremony :: "string \<Rightarrow> (active_ceremony \<Rightarrow> active_ceremony) \<Rightarrow> 's dkg_node \<Rightarrow> 's dkg_node" where
  "on_ceremony cid f nd =
     (case active nd of
        Some a \<Rightarrow> if ceremony_id a = cid then nd\<lparr>active := Some (f a)\<rparr> else nd
      | None \<Rightarrow> nd)"

definition this_ceremony :: "string \<Rightarrow> 's dkg_node \<Rightarrow> active_ceremony option" where
  "this_ceremony cid nd =
     (case active nd of Some a \<Rightarrow> if ceremony_id a = cid then Some a else None | None \<Rightarrow> None)"

definition round1_start ::
  "'s dkg_env \<Rightarrow> string \<Rightarrow> nat \<Rightarrow> nat \<Rightarrow> (string \<times> nat) list \<Rightarrow> 's dkg_node \<Rightarrow> (dkg_error + unit) \<times> 's dkg_node" where
  "round1_start E cid threshold n assignment nd =
     (case map_of assignment (own_address E) of
        None \<Rightarrow> (Err NotInAssignment, nd)
      | Some pid \<Rightarrow>
          (case en_round1_generate E pid threshold n (enclave nd) of
             (Err e, s1) \<Rightarrow> (Err e, nd\<lparr>enclave := s1\<rparr>)
           | (Ok vss, s1) \<Rightarrow>
               send_step E (Round1Done cid pid vss)
                 (nd\<lparr>enclave := s1,
                     active := Some \<lparr>ceremony_id = cid, ac_threshold = threshold, n_participants = n, pid_assignment = assignment,
                       my_pid = pid, vss_commitments = [(pid, vss)], round1_done = [(pid, ())], round15_done = [],
                       round2_done = [], finalize_done = [], imported_from_pid = []\<rparr>\<rparr>)))"

definition wrap_envelope :: "dkg_share_envelope \<Rightarrow> share_envelope_v2" where
  "wrap_envelope e =
     \<lparr>se_ceremony_nonce = ds_ceremony_nonce e, se_iv = ds_iv e, se_ct = ds_ct e, se_tag = ds_tag e,
      se_sender_pubkey = ds_sender_pubkey e, se_keygen_cache = '''', se_threshold = 0, se_n_participants = 0\<rparr>"

definition unwrap_envelope :: "share_envelope_v2 \<Rightarrow> dkg_share_envelope" where
  "unwrap_envelope e =
     \<lparr>ds_ceremony_nonce = se_ceremony_nonce e, ds_iv = se_iv e, ds_ct = se_ct e, ds_tag = se_tag e,
      ds_sender_pubkey = se_sender_pubkey e\<rparr>"

text \<open>The loop over the peers: one envelope exported and queued for each, stopping at the first error.\<close>

fun export_shares ::
  "'s dkg_env \<Rightarrow> nat \<Rightarrow> nat \<Rightarrow> (string \<times> nat) list \<Rightarrow> 's dkg_node \<Rightarrow> (dkg_error + unit) \<times> 's dkg_node" where
  "export_shares E pid now_ts [] nd = (Ok (), nd)"
| "export_shares E pid now_ts ((peer, peer_pid) # rest) nd =
     (if peer_pid = pid then export_shares E pid now_ts rest nd
      else case map_of (peer_keys E) peer of
        None \<Rightarrow> (Err (NoEcdhKey peer), nd)
      | Some ecdh \<Rightarrow>
          (case en_export_share E peer_pid ecdh 0 SENTINEL_GROUP_ID_ZEROS now_ts (enclave nd) of
             (Err e, s1) \<Rightarrow> (Err e, nd\<lparr>enclave := s1\<rparr>)
           | (Ok env, s1) \<Rightarrow>
               if share_open E
               then export_shares E pid now_ts rest
                      (nd\<lparr>enclave := s1, share_out := share_out nd @
                          [ShareDeliver ecdh 0 SENTINEL_GROUP_ID_ZEROS pid (wrap_envelope env)]\<rparr>)
               else (Err ChannelClosed, nd\<lparr>enclave := s1\<rparr>)))"

definition round15_start :: "'s dkg_env \<Rightarrow> string \<Rightarrow> 's dkg_node \<Rightarrow> (dkg_error + unit) \<times> 's dkg_node" where
  "round15_start E cid nd =
     (case this_ceremony cid nd of
        None \<Rightarrow> (Err UnknownCeremony, nd)
      | Some a \<Rightarrow>
          (case wall_secs E nd of
             None \<Rightarrow> (Err ClockBeforeEpoch, nd)
           | Some now_ts \<Rightarrow>
               (case export_shares E (my_pid a) now_ts (pid_assignment a) nd of
                  (Err e, nd1) \<Rightarrow> (Err e, nd1)
                | (Ok _, nd1) \<Rightarrow>
                    send_step E (Round15Done cid (my_pid a))
                      (on_ceremony cid (round15_done_update (AList.update (my_pid a) ())) nd1))))"

definition imported_count :: "'s dkg_node \<Rightarrow> nat" where
  "imported_count nd = (case active nd of Some a \<Rightarrow> length (imported_from_pid a) | None \<Rightarrow> 0)"

text \<open>
  The wait for the imports. The clock of the node is past the deadline after at most
  \<open>ROUND2_TIMEOUT_MS div STEP_POLL_INTERVAL_MS + 1\<close> sleeps, which is the fuel.
\<close>

fun wait_imports :: "nat \<Rightarrow> 's dkg_env \<Rightarrow> nat \<Rightarrow> nat \<Rightarrow> 's dkg_node \<Rightarrow> (dkg_error + unit) \<times> 's dkg_node" where
  "wait_imports fuel E want deadline nd =
     (if want \<le> imported_count nd then (Ok (), nd)
      else if deadline < mono_ms nd then (Err (Round2Timeout (imported_count nd) want), nd)
      else case fuel of
        0 \<Rightarrow> (Err OutOfFuel, nd)
      | Suc k \<Rightarrow> wait_imports k E want deadline (sleep E STEP_POLL_INTERVAL_MS nd))"

declare wait_imports.simps [simp del]

definition ROUND2_FUEL :: nat where "ROUND2_FUEL = ROUND2_TIMEOUT_MS div STEP_POLL_INTERVAL_MS + 1"

definition round2_start :: "'s dkg_env \<Rightarrow> string \<Rightarrow> 's dkg_node \<Rightarrow> (dkg_error + unit) \<times> 's dkg_node" where
  "round2_start E cid nd =
     (case this_ceremony cid nd of
        None \<Rightarrow> (Err UnknownCeremony, nd)
      | Some a \<Rightarrow>
          (case wait_imports ROUND2_FUEL E (n_participants a - 1) (mono_ms nd + ROUND2_TIMEOUT_MS) nd of
             (Err e, nd1) \<Rightarrow> (Err e, nd1)
           | (Ok _, nd1) \<Rightarrow>
               send_step E (Round2Done cid (my_pid a))
                 (on_ceremony cid (round2_done_update (AList.update (my_pid a) ())) nd1)))"

definition finalize_start :: "'s dkg_env \<Rightarrow> string \<Rightarrow> 's dkg_node \<Rightarrow> (dkg_error + unit) \<times> 's dkg_node" where
  "finalize_start E cid nd =
     (case this_ceremony cid nd of
        None \<Rightarrow> (Err UnknownCeremony, nd)
      | Some a \<Rightarrow>
          (case en_finalize E (enclave nd) of
             (Err e, s1) \<Rightarrow> (Err e, nd\<lparr>enclave := s1\<rparr>)
           | (Ok key, s1) \<Rightarrow>
               send_step E (FinalizeDone cid (my_pid a) key)
                 (on_ceremony cid (finalize_done_update (AList.update (my_pid a) key)) (nd\<lparr>enclave := s1\<rparr>))))"

fun handle_step_message :: "'s dkg_env \<Rightarrow> dkg_step_message \<Rightarrow> 's dkg_node \<Rightarrow> (dkg_error + unit) \<times> 's dkg_node" where
  "handle_step_message E (Round1Start cid threshold n assignment) nd = round1_start E cid threshold n assignment nd"
| "handle_step_message E (Round1Done cid pid vss) nd =
     (Ok (), on_ceremony cid (round1_done_update (AList.update pid ()) \<circ> vss_commitments_update (AList.update pid vss)) nd)"
| "handle_step_message E (Round15Start cid) nd = round15_start E cid nd"
| "handle_step_message E (Round15Done cid pid) nd = (Ok (), on_ceremony cid (round15_done_update (AList.update pid ())) nd)"
| "handle_step_message E (Round2Start cid vss) nd = round2_start E cid nd"
| "handle_step_message E (Round2Done cid pid) nd = (Ok (), on_ceremony cid (round2_done_update (AList.update pid ())) nd)"
| "handle_step_message E (FinalizeStart cid) nd = finalize_start E cid nd"
| "handle_step_message E (FinalizeDone cid pid key) nd =
     (Ok (), on_ceremony cid (finalize_done_update (AList.update pid key)) nd)"
| "handle_step_message E (Abort cid pid reason) nd =
     (Ok (), if this_ceremony cid nd \<noteq> None then nd\<lparr>active := None\<rparr> else nd)"

text \<open>\<open>run_follower\<close>: a step that fails is answered with an abort of the active ceremony.\<close>

definition follow_one :: "'s dkg_env \<Rightarrow> dkg_step_message \<Rightarrow> 's dkg_node \<Rightarrow> 's dkg_node" where
  "follow_one E msg nd =
     (case handle_step_message E msg nd of
        (Ok _, nd1) \<Rightarrow> nd1
      | (Err e, nd1) \<Rightarrow>
          (case active nd1 of
             None \<Rightarrow> nd1
           | Some a \<Rightarrow> snd (send_step E (Abort (ceremony_id a) (my_pid a) (show_error E e)) nd1)))"

definition run_follower :: "'s dkg_env \<Rightarrow> dkg_step_message list \<Rightarrow> 's dkg_node \<Rightarrow> 's dkg_node" where
  "run_follower E inbound nd = fold (follow_one E) inbound nd"

section \<open>Inbound shares\<close>

definition route_inbound_share_v2 :: "'s dkg_env \<Rightarrow> share_message \<Rightarrow> 's dkg_node \<Rightarrow> (dkg_error + unit) \<times> 's dkg_node" where
  "route_inbound_share_v2 E msg nd =
     (let now_ts = (case wall_secs E nd of Some t \<Rightarrow> t | None \<Rightarrow> 0); env = sm_envelope msg; pid = sm_signer_id msg
      in if sm_group_id msg = SENTINEL_GROUP_ID_ZEROS
         then case active nd of
             None \<Rightarrow> (Err NoActiveCeremony, nd)
           | Some a \<Rightarrow>
               (case map_of (vss_commitments a) pid of
                  None \<Rightarrow> (Err (NoCommitment pid), nd)
                | Some vss \<Rightarrow>
                    (case en_import_share E pid (se_sender_pubkey env) (sm_shard_id msg) (sm_group_id msg) now_ts
                            (unwrap_envelope env) vss (enclave nd) of
                       (Err e, s1) \<Rightarrow> (Err e, nd\<lparr>enclave := s1\<rparr>)
                     | (Ok _, s1) \<Rightarrow>
                         (Ok (), nd\<lparr>enclave := s1,
                                    active := Some (a\<lparr>imported_from_pid := AList.update pid () (imported_from_pid a)\<rparr>)\<rparr>)))
         else case en_frost_import E env (sm_shard_id msg) (sm_group_id msg) pid now_ts (enclave nd) of
             (r, s1) \<Rightarrow> (Ok (), nd\<lparr>enclave := s1\<rparr>))"

section \<open>The leader\<close>

record start_dkg_response =
  sr_ceremony_id :: string
  sr_status :: string
  sr_group_pubkey :: "string option"

definition build_pid_assignment :: "'s dkg_env \<Rightarrow> (string \<times> nat) list" where
  "build_pid_assignment E =
     (let addresses = sort (map fst (peer_keys E) @ [own_address E]) in zip addresses [0..<length addresses])"

definition validate_threshold :: "nat \<Rightarrow> nat \<Rightarrow> bool" where
  "validate_threshold threshold n = (\<not> (threshold < 2 \<or> n < threshold))"

definition publish_and_self_handle ::
  "'s dkg_env \<Rightarrow> dkg_step_message \<Rightarrow> 's dkg_node \<Rightarrow> (dkg_error + unit) \<times> 's dkg_node" where
  "publish_and_self_handle E msg nd =
     (case handle_step_message E msg nd of
        (Err e, nd1) \<Rightarrow> (Err e, nd1)
      | (Ok _, nd1) \<Rightarrow> send_step E msg nd1)"

definition finalize_report :: "string \<Rightarrow> active_ceremony \<Rightarrow> start_dkg_response" where
  "finalize_report cid a =
     (let keys = map snd (finalize_done a);
          canonical = (case keys of [] \<Rightarrow> '''' | k # _ \<Rightarrow> k);
          consistent = list_all (\<lambda>v. v = canonical) keys
      in \<lparr>sr_ceremony_id = cid, sr_status = (if consistent then ''success'' else ''diverged''),
          sr_group_pubkey = (if consistent then Some canonical else None)\<rparr>)"

text \<open>The flags \<open>sent_round15\<close>, \<open>sent_round2\<close> and \<open>sent_finalize\<close>.\<close>

record sent_flags =
  sent_round15 :: bool
  sent_round2 :: bool
  sent_finalize :: bool

definition next_step :: "string \<Rightarrow> nat \<Rightarrow> active_ceremony \<Rightarrow> sent_flags \<Rightarrow> (dkg_step_message \<times> sent_flags) option" where
  "next_step cid n a sent =
     (if length (round1_done a) = n \<and> \<not> sent_round15 sent then Some (Round15Start cid, sent\<lparr>sent_round15 := True\<rparr>)
      else if length (round15_done a) = n \<and> \<not> sent_round2 sent
        then Some (Round2Start cid (vss_commitments a), sent\<lparr>sent_round2 := True\<rparr>)
      else if length (round2_done a) = n \<and> \<not> sent_finalize sent then Some (FinalizeStart cid, sent\<lparr>sent_finalize := True\<rparr>)
      else None)"

text \<open>
  The loop of the driver, one iteration for each two seconds of sleep; \<open>None\<close> when the fuel runs out.
  The result of the step it starts is ignored.
\<close>

fun drive_loop ::
  "nat \<Rightarrow> 's dkg_env \<Rightarrow> string \<Rightarrow> nat \<Rightarrow> nat \<Rightarrow> sent_flags \<Rightarrow> 's dkg_node \<Rightarrow> (start_dkg_response \<times> 's dkg_node) option" where
  "drive_loop fuel E cid n deadline sent nd =
     (if deadline < mono_ms nd
      then Some (\<lparr>sr_ceremony_id = cid, sr_status = ''timeout'', sr_group_pubkey = None\<rparr>, nd)
      else case fuel of
        0 \<Rightarrow> None
      | Suc k \<Rightarrow>
          (let nd1 = sleep E DRIVE_INTERVAL_MS nd
           in case this_ceremony cid nd1 of
                None \<Rightarrow> drive_loop k E cid n deadline sent nd1
              | Some a \<Rightarrow>
                  if length (finalize_done a) = n then Some (finalize_report cid a, nd1\<lparr>active := None\<rparr>)
                  else (case next_step cid n a sent of
                          None \<Rightarrow> drive_loop k E cid n deadline sent nd1
                        | Some (msg, sent1) \<Rightarrow>
                            drive_loop k E cid n deadline sent1 (snd (publish_and_self_handle E msg nd1)))))"

declare drive_loop.simps [simp del]

definition nothing_sent :: sent_flags where
  "nothing_sent = \<lparr>sent_round15 = False, sent_round2 = False, sent_finalize = False\<rparr>"

definition DRIVE_FUEL :: nat where "DRIVE_FUEL = CEREMONY_TIMEOUT_MS div DRIVE_INTERVAL_MS + 1"

definition drive_ceremony :: "'s dkg_env \<Rightarrow> string \<Rightarrow> nat \<Rightarrow> 's dkg_node \<Rightarrow> (start_dkg_response \<times> 's dkg_node) option" where
  "drive_ceremony E cid n nd = drive_loop DRIVE_FUEL E cid n (mono_ms nd + CEREMONY_TIMEOUT_MS) nothing_sent nd"

datatype start_outcome = BadThreshold | Round1Failed dkg_error | Driven start_dkg_response

definition handle_start_dkg ::
  "'s dkg_env \<Rightarrow> string \<Rightarrow> nat \<Rightarrow> 's dkg_node \<Rightarrow> (start_outcome \<times> 's dkg_node) option" where
  "handle_start_dkg E cid threshold nd =
     (let assignment = build_pid_assignment E; n = length assignment
      in if \<not> validate_threshold threshold n then Some (BadThreshold, nd)
         else case publish_and_self_handle E (Round1Start cid threshold n assignment) nd of
             (Err e, nd1) \<Rightarrow> Some (Round1Failed e, nd1)
           | (Ok _, nd1) \<Rightarrow> map_option (\<lambda>(r, nd2). (Driven r, nd2)) (drive_ceremony E cid n nd1))"

end
