(* ===== verification/Dkg_Props.thy ===== *)
theory Dkg_Props
  imports Dkg
begin

text \<open>
  Properties of the key-generation ceremony: the tables of the active ceremony stay maps, the loops
  return, a reported success rests on as many participants as the roster has, the assignment of
  participant ids, and the commitment of the leader that its followers never store.
\<close>

section \<open>Well-formed nodes\<close>

definition keyed :: "(nat \<times> 'a) list \<Rightarrow> bool" where
  "keyed m \<longleftrightarrow> distinct (map fst m)"

definition ceremony_ok :: "active_ceremony \<Rightarrow> bool" where
  "ceremony_ok a \<longleftrightarrow> keyed (vss_commitments a) \<and> keyed (round1_done a) \<and> keyed (round15_done a) \<and> keyed (round2_done a)
     \<and> keyed (finalize_done a) \<and> keyed (imported_from_pid a)"

definition tables_ok :: "'s dkg_node \<Rightarrow> bool" where
  "tables_ok nd \<longleftrightarrow> (\<forall>a. active nd = Some a \<longrightarrow> ceremony_ok a)"

lemma keyed_update [simp]: "keyed m \<Longrightarrow> keyed (AList.update k v m)"
  by (simp add: keyed_def distinct_update)

lemma keyed_small [simp]: "keyed []" "keyed [x]"
  by (simp_all add: keyed_def)

lemma tables_ok_updates [simp]:
  "tables_ok (nd\<lparr>enclave := s\<rparr>) \<longleftrightarrow> tables_ok nd" "tables_ok (nd\<lparr>step_out := o1\<rparr>) \<longleftrightarrow> tables_ok nd"
  "tables_ok (nd\<lparr>share_out := o2\<rparr>) \<longleftrightarrow> tables_ok nd" "tables_ok (nd\<lparr>active := None\<rparr>)"
  "tables_ok (nd\<lparr>active := Some a\<rparr>) \<longleftrightarrow> ceremony_ok a"
  by (auto simp: tables_ok_def)

lemma on_ceremony_ok: "tables_ok nd \<Longrightarrow> (\<And>a. ceremony_ok a \<Longrightarrow> ceremony_ok (f a)) \<Longrightarrow> tables_ok (on_ceremony cid f nd)"
  by (auto simp: on_ceremony_def tables_ok_def split: option.splits)

lemma ceremony_ok_updates [simp]:
  "ceremony_ok a \<Longrightarrow> ceremony_ok (round15_done_update (AList.update p ()) a)"
  "ceremony_ok a \<Longrightarrow> ceremony_ok (round2_done_update (AList.update p ()) a)"
  "ceremony_ok a \<Longrightarrow> ceremony_ok (finalize_done_update (AList.update p k) a)"
  "ceremony_ok a \<Longrightarrow> ceremony_ok (round1_done_update (AList.update p ()) (vss_commitments_update (AList.update p k) a))"
  "ceremony_ok a \<Longrightarrow> ceremony_ok (imported_from_pid_update (\<lambda>_. AList.update p () (imported_from_pid a)) a)"
  by (auto simp: ceremony_ok_def)

lemma send_step_snd: "snd (send_step E msg nd) = nd \<or> snd (send_step E msg nd) = nd\<lparr>step_out := step_out nd @ [msg]\<rparr>"
  by (simp add: send_step_def)

lemma send_step_keeps [simp]:
  "tables_ok (snd (send_step E msg nd)) \<longleftrightarrow> tables_ok nd" "mono_ms (snd (send_step E msg nd)) = mono_ms nd"
  "active (snd (send_step E msg nd)) = active nd"
  by (simp_all add: send_step_def)

lemma on_ceremony_clock [simp]: "mono_ms (on_ceremony cid f nd) = mono_ms nd"
  by (simp add: on_ceremony_def split: option.splits)

section \<open>The contract of sleeping\<close>

text \<open>
  What the node relies on while a task sleeps: the monotonic clock moves by at least the time asked
  for, and the other tasks leave a well-formed node.
\<close>

locale background =
  fixes E :: "'s dkg_env"
  assumes sleeps: "tables_ok nd \<Longrightarrow> mono_ms nd + d \<le> mono_ms (sleep E d nd)"
    and sleep_ok: "tables_ok nd \<Longrightarrow> tables_ok (sleep E d nd)"
begin

lemma wait_imports_ends:
  "tables_ok nd \<Longrightarrow> deadline < mono_ms nd + fuel * STEP_POLL_INTERVAL_MS \<Longrightarrow> fst (wait_imports fuel E want deadline nd) \<noteq> Err OutOfFuel"
proof (induction fuel arbitrary: nd)
  case (Suc k)
  have "deadline < mono_ms (sleep E STEP_POLL_INTERVAL_MS nd) + k * STEP_POLL_INTERVAL_MS"
    using Suc.prems sleeps [of nd STEP_POLL_INTERVAL_MS] by simp
  then show ?case using Suc.IH [OF sleep_ok [OF Suc.prems(1)]] by (subst wait_imports.simps) auto
qed (subst wait_imports.simps, auto)

lemma wait_imports_keeps:
  "tables_ok nd \<Longrightarrow> tables_ok (snd (wait_imports fuel E want deadline nd)) \<and> mono_ms nd \<le> mono_ms (snd (wait_imports fuel E want deadline nd))"
proof (induction fuel arbitrary: nd)
  case (Suc k)
  let ?nd1 = "sleep E STEP_POLL_INTERVAL_MS nd"
  have "tables_ok (snd (wait_imports k E want deadline ?nd1))" "mono_ms ?nd1 \<le> mono_ms (snd (wait_imports k E want deadline ?nd1))"
    using Suc.IH [OF sleep_ok [OF Suc.prems]] by simp_all
  moreover have "mono_ms nd \<le> mono_ms ?nd1" using sleeps [OF Suc.prems, of STEP_POLL_INTERVAL_MS] by simp
  ultimately show ?case using Suc.prems by (subst (1 2) wait_imports.simps) auto
qed (subst (1 2) wait_imports.simps, auto)

lemma export_shares_keeps:
  "tables_ok (snd (export_shares E pid now rest nd)) \<longleftrightarrow> tables_ok nd"
  "mono_ms (snd (export_shares E pid now rest nd)) = mono_ms nd"
  by (induction E pid now rest nd rule: export_shares.induct) (auto split: option.splits prod.splits sum.splits)

lemma round2_start_keeps:
  "tables_ok nd \<Longrightarrow> tables_ok (snd (round2_start E cid nd)) \<and> mono_ms nd \<le> mono_ms (snd (round2_start E cid nd))"
proof (cases "this_ceremony cid nd")
  case (Some a)
  let ?w = "wait_imports ROUND2_FUEL E (n_participants a - 1) (mono_ms nd + ROUND2_TIMEOUT_MS) nd"
  assume "tables_ok nd"
  then have "tables_ok (snd ?w)" "mono_ms nd \<le> mono_ms (snd ?w)" using wait_imports_keeps by auto
  then show ?thesis using Some by (auto simp: round2_start_def split: prod.splits sum.splits intro!: on_ceremony_ok)
qed (simp add: round2_start_def)

lemma round15_start_keeps:
  "tables_ok nd \<Longrightarrow> tables_ok (snd (round15_start E cid nd)) \<and> mono_ms nd \<le> mono_ms (snd (round15_start E cid nd))"
proof (cases "this_ceremony cid nd")
  case (Some a)
  assume ok: "tables_ok nd"
  show ?thesis
  proof (cases "wall_secs E nd")
    case w: (Some now)
    let ?x = "export_shares E (my_pid a) now (pid_assignment a) nd"
    have "tables_ok (snd ?x)" "mono_ms (snd ?x) = mono_ms nd" using ok by (simp_all add: export_shares_keeps)
    then show ?thesis using Some w by (auto simp: round15_start_def split: prod.splits sum.splits intro!: on_ceremony_ok)
  qed (use ok Some in \<open>simp add: round15_start_def\<close>)
qed (simp add: round15_start_def)

lemma handle_step_message_keeps:
  "tables_ok nd \<Longrightarrow> tables_ok (snd (handle_step_message E msg nd)) \<and> mono_ms nd \<le> mono_ms (snd (handle_step_message E msg nd))"
proof (cases msg)
  case (Round15Start cid)
  then show "tables_ok nd \<Longrightarrow> ?thesis" using round15_start_keeps by simp
next
  case (Round2Start cid vss)
  then show "tables_ok nd \<Longrightarrow> ?thesis" using round2_start_keeps by simp
next
  case (Round1Start cid t n asg)
  then show "tables_ok nd \<Longrightarrow> ?thesis"
    by (auto simp: round1_start_def ceremony_ok_def split: option.splits prod.splits sum.splits)
next
  case (FinalizeStart cid)
  then show "tables_ok nd \<Longrightarrow> ?thesis"
    by (auto simp: finalize_start_def split: option.splits prod.splits sum.splits intro!: on_ceremony_ok)
qed (auto intro!: on_ceremony_ok)

lemma publish_keeps:
  "tables_ok nd \<Longrightarrow> tables_ok (snd (publish_and_self_handle E msg nd)) \<and> mono_ms nd \<le> mono_ms (snd (publish_and_self_handle E msg nd))"
  using handle_step_message_keeps [of nd msg] by (auto simp: publish_and_self_handle_def split: prod.splits sum.splits)

text \<open>The loop of the driver returns, and what it returns.\<close>

lemma drive_loop_returns:
  "tables_ok nd \<Longrightarrow> deadline < mono_ms nd + fuel * DRIVE_INTERVAL_MS \<Longrightarrow>
     \<exists>r nd'. drive_loop fuel E cid n deadline sent nd = Some (r, nd')"
proof (induction fuel arbitrary: sent nd)
  case (Suc k)
  let ?nd1 = "sleep E DRIVE_INTERVAL_MS nd"
  have ok1: "tables_ok ?nd1" by (rule sleep_ok [OF Suc.prems(1)])
  have t1: "deadline < mono_ms ?nd1 + k * DRIVE_INTERVAL_MS" using Suc.prems sleeps [of nd DRIVE_INTERVAL_MS] by simp
  have stay: "\<exists>r nd'. drive_loop k E cid n deadline sent ?nd1 = Some (r, nd')" by (rule Suc.IH [OF ok1 t1])
  have go: "\<exists>r nd'. drive_loop k E cid n deadline sent1 (snd (publish_and_self_handle E msg ?nd1)) = Some (r, nd')" for msg sent1
  proof (rule Suc.IH)
    show "tables_ok (snd (publish_and_self_handle E msg ?nd1))" using publish_keeps [OF ok1] by simp
    have "mono_ms ?nd1 \<le> mono_ms (snd (publish_and_self_handle E msg ?nd1))" using publish_keeps [OF ok1] by simp
    with t1 show "deadline < mono_ms (snd (publish_and_self_handle E msg ?nd1)) + k * DRIVE_INTERVAL_MS" by simp
  qed
  show ?case using stay go by (subst drive_loop.simps) (auto simp: Let_def split: option.splits)
qed (subst drive_loop.simps, auto)

lemma drive_loop_result:
  "tables_ok nd \<Longrightarrow> drive_loop fuel E cid n deadline sent nd = Some (r, nd') \<Longrightarrow>
     sr_status r = ''timeout'' \<and> sr_group_pubkey r = None \<and> deadline < mono_ms nd'
     \<or> active nd' = None \<and> (\<exists>a. ceremony_ok a \<and> ceremony_id a = cid \<and> length (finalize_done a) = n \<and> r = finalize_report cid a)"
proof (induction fuel arbitrary: sent nd)
  case 0
  then show ?case by (subst (asm) drive_loop.simps) (auto split: if_splits)
next
  case (Suc k)
  let ?nd1 = "sleep E DRIVE_INTERVAL_MS nd"
  have ok1: "tables_ok ?nd1" by (rule sleep_ok [OF Suc.prems(1)])
  consider (late) "deadline < mono_ms nd" "sr_status r = ''timeout''" "sr_group_pubkey r = None" "nd' = nd"
    | (stay) "drive_loop k E cid n deadline sent ?nd1 = Some (r, nd')"
    | (complete) a where "this_ceremony cid ?nd1 = Some a" "length (finalize_done a) = n" "r = finalize_report cid a" "active nd' = None"
    | (go) msg sent1 where "drive_loop k E cid n deadline sent1 (snd (publish_and_self_handle E msg ?nd1)) = Some (r, nd')"
    using Suc.prems(2) by (subst (asm) drive_loop.simps) (auto simp: Let_def split: if_splits option.splits)
  then show ?case
  proof cases
    case stay
    then show ?thesis by (rule Suc.IH [OF ok1])
  next
    case go
    then show ?thesis using Suc.IH publish_keeps [OF ok1] by blast
  next
    case complete
    then show ?thesis using ok1 by (auto simp: this_ceremony_def tables_ok_def split: option.splits if_splits)
  qed auto
qed

lemma run_follower_keeps: "tables_ok nd \<Longrightarrow> tables_ok (run_follower E msgs nd) \<and> mono_ms nd \<le> mono_ms (run_follower E msgs nd)"
  unfolding run_follower_def
proof (induction msgs arbitrary: nd)
  case (Cons msg msgs)
  have "tables_ok (follow_one E msg nd) \<and> mono_ms nd \<le> mono_ms (follow_one E msg nd)"
    using handle_step_message_keeps [OF Cons.prems, of msg] by (auto simp: follow_one_def split: prod.splits sum.splits option.splits)
  then show ?case using Cons.IH by (fastforce intro: order_trans)
qed simp

lemma drive_returns: "tables_ok nd \<Longrightarrow> \<exists>r nd'. drive_ceremony E cid n nd = Some (r, nd')"
  unfolding drive_ceremony_def
  by (rule drive_loop_returns) (simp_all add: DRIVE_FUEL_def CEREMONY_TIMEOUT_MS_def DRIVE_INTERVAL_MS_def)

lemma start_returns: "tables_ok nd \<Longrightarrow> \<exists>x. handle_start_dkg E cid threshold nd = Some x"
  using publish_keeps [of nd "Round1Start cid threshold (length (build_pid_assignment E)) (build_pid_assignment E)"]
    drive_returns
  by (fastforce simp: handle_start_dkg_def Let_def split: prod.splits sum.splits)

end

section \<open>The other tasks as the follower and the share importer\<close>

lemma import_keeps:
  "tables_ok nd \<Longrightarrow> tables_ok (snd (route_inbound_share_v2 E msg nd))"
  "mono_ms (snd (route_inbound_share_v2 E msg nd)) = mono_ms nd"
  by (auto simp: route_inbound_share_v2_def Let_def tables_ok_def split: option.splits prod.splits sum.splits)

definition import_all :: "'s dkg_env \<Rightarrow> share_message list \<Rightarrow> 's dkg_node \<Rightarrow> 's dkg_node" where
  "import_all E msgs nd = fold (\<lambda>m. snd \<circ> route_inbound_share_v2 E m) msgs nd"

lemma import_all_keeps: "tables_ok nd \<Longrightarrow> tables_ok (import_all E msgs nd) \<and> mono_ms (import_all E msgs nd) = mono_ms nd"
  unfolding import_all_def by (induction msgs arbitrary: nd) (simp_all add: import_keeps)

text \<open>
  \<open>idle_env\<close>: nothing happens during a sleep. \<open>tasks_env\<close>: during a sleep that starts at time \<open>t\<close> the
  follower handles the messages \<open>inbox t\<close> and the importer the shares \<open>shares t\<close>.
\<close>

definition idle_env :: "'s dkg_env \<Rightarrow> 's dkg_env" where
  "idle_env E = E\<lparr>sleep := (\<lambda>d nd. nd\<lparr>mono_ms := mono_ms nd + d\<rparr>)\<rparr>"

definition tasks_env ::
  "'s dkg_env \<Rightarrow> (nat \<Rightarrow> dkg_step_message list) \<Rightarrow> (nat \<Rightarrow> share_message list) \<Rightarrow> 's dkg_env" where
  "tasks_env E inbox shares =
     E\<lparr>sleep := (\<lambda>d nd. let nd1 = import_all E (shares (mono_ms nd)) (run_follower (idle_env E) (inbox (mono_ms nd)) nd)
                       in nd1\<lparr>mono_ms := mono_ms nd1 + d\<rparr>)\<rparr>"

lemma tables_ok_clock [simp]: "tables_ok (nd\<lparr>mono_ms := t\<rparr>) \<longleftrightarrow> tables_ok nd"
  by (simp add: tables_ok_def)

interpretation idle: background "idle_env E" for E :: "'s dkg_env"
  by unfold_locales (simp_all add: idle_env_def)

interpretation tasks: background "tasks_env E inbox shares"
  for E :: "'s dkg_env" and inbox :: "nat \<Rightarrow> dkg_step_message list" and shares :: "nat \<Rightarrow> share_message list"
proof
  fix nd :: "'s dkg_node" and d
  assume "tables_ok nd"
  then have "tables_ok (run_follower (idle_env E) (inbox (mono_ms nd)) nd)
      \<and> mono_ms nd \<le> mono_ms (run_follower (idle_env E) (inbox (mono_ms nd)) nd)" by (rule idle.run_follower_keeps)
  then show "mono_ms nd + d \<le> mono_ms (sleep (tasks_env E inbox shares) d nd)"
      "tables_ok (sleep (tasks_env E inbox shares) d nd)"
    using import_all_keeps [of "run_follower (idle_env E) (inbox (mono_ms nd)) nd" E "shares (mono_ms nd)"]
    by (auto simp: tasks_env_def Let_def)
qed

section \<open>Properties\<close>


text \<open>
  C33. Starting a ceremony always ends with an answer: the driver stops within its 180 seconds and the
  wait for the imports within its 30 seconds, whatever the other tasks of the node handle meanwhile.
\<close>

theorem dkg_start_returns:
  assumes "background E" "tables_ok nd"
  shows "(\<exists>x. handle_start_dkg E cid threshold nd = Some x)
     \<and> fst (wait_imports ROUND2_FUEL E want (mono_ms nd + ROUND2_TIMEOUT_MS) nd) \<noteq> Err OutOfFuel"
proof
  show "\<exists>x. handle_start_dkg E cid threshold nd = Some x" by (rule background.start_returns [OF assms])
  have "mono_ms nd + ROUND2_TIMEOUT_MS < mono_ms nd + ROUND2_FUEL * STEP_POLL_INTERVAL_MS"
    by (simp add: ROUND2_FUEL_def ROUND2_TIMEOUT_MS_def STEP_POLL_INTERVAL_MS_def)
  then show "fst (wait_imports ROUND2_FUEL E want (mono_ms nd + ROUND2_TIMEOUT_MS) nd) \<noteq> Err OutOfFuel"
    by (rule background.wait_imports_ends [OF assms])
qed


text \<open>
  The assignment of participant ids gives the addresses of the roster, sorted, the ids from zero to
  the size of the roster less one, and two nodes whose own address and peers form the same roster
  compute the same assignment.
\<close>

theorem pid_assignment_agrees:
  assumes "distinct (own_address E # map fst (peer_keys E))" "distinct (own_address F # map fst (peer_keys F))"
    and "set (own_address E # map fst (peer_keys E)) = set (own_address F # map fst (peer_keys F))"
  shows "build_pid_assignment E = build_pid_assignment F
     \<and> map snd (build_pid_assignment E) = [0..<length (peer_keys E) + 1]
     \<and> sorted_wrt (<) (map fst (build_pid_assignment E))
     \<and> set (map fst (build_pid_assignment E)) = insert (own_address E) (fst ` set (peer_keys E))
     \<and> inj_on (\<lambda>x. map_of (build_pid_assignment E) x) (insert (own_address E) (fst ` set (peer_keys E)))"
proof -
  let ?addr = "\<lambda>D :: 's dkg_env. sort (map fst (peer_keys D) @ [own_address D])"
  have d: "distinct (?addr E)" "distinct (?addr F)" using assms(1,2) by auto
  have "?addr E = ?addr F"
    by (rule sorted_distinct_set_unique) (use d assms(3) in auto)
  then have "build_pid_assignment E = build_pid_assignment F" by (simp add: build_pid_assignment_def Let_def)
  moreover have f: "map fst (build_pid_assignment E) = ?addr E" and s: "map snd (build_pid_assignment E) = [0..<length (peer_keys E) + 1]"
    by (simp_all add: build_pid_assignment_def Let_def)
  moreover have "sorted_wrt (<) (?addr E)" using d(1) by (simp add: strict_sorted_iff)
  moreover have "inj_on (map_of (build_pid_assignment E)) (set (map fst (build_pid_assignment E)))"
  proof (rule inj_onI)
    fix x y
    assume "x \<in> set (map fst (build_pid_assignment E))" "y \<in> set (map fst (build_pid_assignment E))"
      and e: "map_of (build_pid_assignment E) x = map_of (build_pid_assignment E) y"
    then obtain i where "map_of (build_pid_assignment E) x = Some i" "map_of (build_pid_assignment E) y = Some i"
      by (metis map_of_eq_None_iff not_None_eq set_map)
    then have "(x, i) \<in> set (build_pid_assignment E)" "(y, i) \<in> set (build_pid_assignment E)" by (auto dest: map_of_SomeD)
    moreover have "distinct (map snd (build_pid_assignment E))" using s by simp
    ultimately show "x = y" by (metis (no_types) distinct_map inj_onD prod.inject snd_conv)
  qed
  ultimately show ?thesis by (auto simp: f)
qed

section \<open>A ceremony of two nodes\<close>

definition two_node_env :: "string \<Rightarrow> string \<Rightarrow> unit dkg_env" where
  "two_node_env own peer =
     \<lparr>own_address = own, peer_keys = [(peer, ''key'')], en_round1_generate = (\<lambda>_ _ _ s. (Ok ''v'', s)),
      en_export_share = (\<lambda>_ _ _ _ _ s. (Ok \<lparr>ds_ceremony_nonce = ''n'', ds_iv = ''i'', ds_ct = ''c'', ds_tag = ''t'', ds_sender_pubkey = ''key''\<rparr>, s)),
      en_import_share = (\<lambda>_ _ _ _ _ _ _ s. (Ok (), s)), en_frost_import = (\<lambda>_ _ _ _ _ s. (Ok True, s)),
      en_finalize = (\<lambda>s. (Ok ''group'', s)), wall_secs = (\<lambda>_. Some 5), step_open = True, share_open = True,
      show_error = (\<lambda>_. ''failed''), sleep = (\<lambda>d nd. nd)\<rparr>"

definition fresh_node :: "unit dkg_node" where
  "fresh_node = \<lparr>active = None, enclave = (), step_out = [], share_out = [], mono_ms = 0\<rparr>"

definition sample_share :: share_message where
  "sample_share = ShareDeliver ''key'' 0 SENTINEL_GROUP_ID_ZEROS 1
     \<lparr>se_ceremony_nonce = ''n'', se_iv = ''i'', se_ct = ''c'', se_tag = ''t'', se_sender_pubkey = ''key'', se_keygen_cache = '''',
      se_threshold = 0, se_n_participants = 0\<rparr>"

text \<open>The acknowledgements of the other node arrive during the first sleep of the leader.\<close>

definition leader_env :: "unit dkg_env" where
  "leader_env = tasks_env (two_node_env ''A'' ''B'')
     (\<lambda>t. if t = 0 then [Round1Done ''c'' 1 ''w'', Round15Done ''c'' 1, Round2Done ''c'' 1, FinalizeDone ''c'' 1 ''group''] else [])
     (\<lambda>t. if t = 0 then [sample_share] else [])"

lemma tables_ok_fresh [simp]: "tables_ok fresh_node"
  by (simp add: tables_ok_def fresh_node_def)

lemmas ceremony_evals = publish_and_self_handle_def round1_start_def send_step_def tasks_env_def two_node_env_def
  fresh_node_def this_ceremony_def on_ceremony_def run_follower_def follow_one_def import_all_def
  route_inbound_share_v2_def sample_share_def round15_start_def finalize_start_def next_step_def

lemma leader_env_sleep:
  "sleep leader_env d nd =
     (let nd1 = (if mono_ms nd = 0
        then import_all (two_node_env ''A'' ''B'') [sample_share] (run_follower (idle_env (two_node_env ''A'' ''B''))
          [Round1Done ''c'' 1 ''w'', Round15Done ''c'' 1, Round2Done ''c'' 1, FinalizeDone ''c'' 1 ''group''] nd)
        else nd) in nd1\<lparr>mono_ms := mono_ms nd1 + d\<rparr>)"
  by (simp add: leader_env_def tasks_env_def run_follower_def import_all_def)

lemma leader_env_fields:
  "own_address leader_env = ''A''" "peer_keys leader_env = [(''B'', ''key'')]" "en_round1_generate leader_env p t n s = (Ok ''v'', s)"
  "en_export_share leader_env p k sh g w s = (Ok \<lparr>ds_ceremony_nonce = ''n'', ds_iv = ''i'', ds_ct = ''c'', ds_tag = ''t'', ds_sender_pubkey = ''key''\<rparr>, s)"
  "en_finalize leader_env s = (Ok ''group'', s)" "wall_secs leader_env nd = Some 5" "step_open leader_env" "share_open leader_env"
  by (simp_all add: leader_env_def tasks_env_def two_node_env_def)

lemma leader_env_background: "background leader_env"
  unfolding leader_env_def by (rule tasks.background_axioms)

lemma two_node_ceremony:
  "\<exists>nd. handle_start_dkg leader_env ''c'' 2 fresh_node =
     Some (Driven \<lparr>sr_ceremony_id = ''c'', sr_status = ''success'', sr_group_pubkey = Some ''group''\<rparr>, nd)"
proof -
  have asg: "build_pid_assignment leader_env = [(''A'', 0), (''B'', 1)]"
    by (simp add: build_pid_assignment_def leader_env_fields Let_def upt_rec)
  have fuel: "DRIVE_FUEL = 91" by (simp add: DRIVE_FUEL_def CEREMONY_TIMEOUT_MS_def DRIVE_INTERVAL_MS_def)
  show ?thesis
    by (simp add: handle_start_dkg_def asg validate_threshold_def Let_def drive_ceremony_def fuel CEREMONY_TIMEOUT_MS_def
        drive_loop.simps [of 91] drive_loop.simps [of 90] drive_loop.simps [of 89] drive_loop.simps [of 88]
        leader_env_sleep leader_env_fields nothing_sent_def DRIVE_INTERVAL_MS_def finalize_report_def
        round2_start_def wait_imports.simps [of ROUND2_FUEL] imported_count_def ceremony_evals)
qed


theorem dkg_start_returns_witness: "\<exists>x. handle_start_dkg leader_env ''c'' 2 fresh_node = Some x"
  using dkg_start_returns [OF leader_env_background tables_ok_fresh] by blast


theorem pid_assignment_agrees_witness:
  "build_pid_assignment (two_node_env ''A'' ''B'') = build_pid_assignment (two_node_env ''B'' ''A'')"
  using pid_assignment_agrees [of "two_node_env ''A'' ''B''" "two_node_env ''B'' ''A''"] by (auto simp: two_node_env_def)

end
