(* ===== verification/DkgNet.thy ===== *)
theory DkgNet
  imports Dkg_Props SigningPolicy
begin

text \<open>
  The arms of the run loop in \<^verbatim>\<open>orchestrator/src/p2p.rs\<close> that carry the key generation: ceremony steps
  and share envelopes pass a rate limit, a filter on the recipient and a replay guard before they reach
  the follower and the importer. With them, what the order of the leader's first two messages does to
  its followers. Times are in seconds; a message that does not parse or a closed channel ends in a log
  line and is left out.
\<close>

definition replay_key :: "dkg_step_message \<Rightarrow> string" where
  "replay_key msg = (case msg of
      Round1Start cid _ _ _ \<Rightarrow> cid @ '':R1Start''
    | Round1Done cid pid _ \<Rightarrow> cid @ '':R1Done:'' @ nat_to_dec pid
    | Round15Start cid \<Rightarrow> cid @ '':R15Start''
    | Round15Done cid pid \<Rightarrow> cid @ '':R15Done:'' @ nat_to_dec pid
    | Round2Start cid _ \<Rightarrow> cid @ '':R2Start''
    | Round2Done cid pid \<Rightarrow> cid @ '':R2Done:'' @ nat_to_dec pid
    | FinalizeStart cid \<Rightarrow> cid @ '':FinStart''
    | FinalizeDone cid pid _ \<Rightarrow> cid @ '':FinDone:'' @ nat_to_dec pid
    | Abort cid pid _ \<Rightarrow> cid @ '':Abort:'' @ nat_to_dec pid)"

text \<open>An arm gives the message it forwards, if any, and the node with its gates updated.\<close>

definition on_dkg_step :: "nat \<Rightarrow> string \<Rightarrow> dkg_step_message \<Rightarrow> p2p_node \<Rightarrow> dkg_step_message option \<times> p2p_node" where
  "on_dkg_step now source msg n =
     (case check_dkg_step_rate now source n of
        (False, n1) \<Rightarrow> (None, n1)
      | (True, n1) \<Rightarrow>
          (case mark_dkg_step_fresh now (replay_key msg) n1 of
             (False, n2) \<Rightarrow> (None, n2)
           | (True, n2) \<Rightarrow> (Some msg, n2)))"

definition on_share_v2 ::
  "string option \<Rightarrow> nat \<Rightarrow> string \<Rightarrow> share_message \<Rightarrow> p2p_node \<Rightarrow> share_message option \<times> p2p_node" where
  "on_share_v2 local_ecdh_pubkey now source msg n =
     (case check_share_v2_rate now source n of
        (False, n1) \<Rightarrow> (None, n1)
      | (True, n1) \<Rightarrow>
          if (case local_ecdh_pubkey of None \<Rightarrow> False | Some pk \<Rightarrow> map ascii_lower (recipient_pubkey msg) \<noteq> pk) then (None, n1)
          else (case mark_share_v2_fresh now
                       (sm_group_id msg @ '':'' @ nat_to_dec (sm_signer_id msg) @ '':'' @ se_ceremony_nonce (sm_envelope msg)) n1 of
                  (False, n2) \<Rightarrow> (None, n2)
                | (True, n2) \<Rightarrow> (Some msg, n2)))"

lemma step_admitted_once:
  assumes "fst (on_dkg_step now source msg n) \<noteq> None" "replay_key msg' = replay_key msg" "now \<le> later" "later - now < DKG_STEP_REPLAY_TTL"
  shows "fst (on_dkg_step later source' msg' (snd (on_dkg_step now source msg n))) = None"
  using assms
  by (auto simp: on_dkg_step_def check_dkg_step_rate_def mark_dkg_step_fresh_def mark_fresh_def Let_def
      split: prod.splits bool.splits if_splits)

section \<open>The leader's commitment\<close>

text \<open>\<open>tells p msg\<close>: the message could give a follower a commitment of participant \<open>p\<close>.\<close>

fun tells :: "nat \<Rightarrow> dkg_step_message \<Rightarrow> bool" where
  "tells p (Round1Start _ _ _ _) = True"
| "tells p (Round1Done _ pid _) = (pid = p)"
| "tells p _ = False"

definition unknown :: "nat \<Rightarrow> 's dkg_node \<Rightarrow> bool" where
  "unknown p nd \<longleftrightarrow> (\<forall>a. active nd = Some a \<longrightarrow> map_of (vss_commitments a) p = None)"

lemma unknown_updates [simp]:
  "unknown p (nd\<lparr>enclave := s\<rparr>) \<longleftrightarrow> unknown p nd" "unknown p (nd\<lparr>step_out := o1\<rparr>) \<longleftrightarrow> unknown p nd"
  "unknown p (nd\<lparr>share_out := o2\<rparr>) \<longleftrightarrow> unknown p nd" "unknown p (nd\<lparr>active := None\<rparr>)" "unknown p (nd\<lparr>mono_ms := t\<rparr>) \<longleftrightarrow> unknown p nd"
  "unknown p (snd (send_step E msg nd)) \<longleftrightarrow> unknown p nd"
  by (auto simp: unknown_def send_step_def)

lemma unknown_on_ceremony:
  "unknown p nd \<Longrightarrow> (\<And>a. map_of (vss_commitments a) p = None \<Longrightarrow> map_of (vss_commitments (f a)) p = None) \<Longrightarrow>
     unknown p (on_ceremony cid f nd)"
  by (auto simp: on_ceremony_def unknown_def split: option.splits)

lemma unknown_export: "unknown p (snd (export_shares E pid now rest nd)) \<longleftrightarrow> unknown p nd"
  by (induction E pid now rest nd rule: export_shares.induct) (auto split: option.splits prod.splits sum.splits)

lemma unknown_wait: "unknown p nd \<Longrightarrow> unknown p (snd (wait_imports fuel (idle_env F) want deadline nd))"
proof (induction fuel arbitrary: nd)
  case (Suc k)
  then show ?case by (subst wait_imports.simps) (auto simp: idle_env_def)
qed (subst wait_imports.simps, auto)

lemma unknown_round15: "unknown p nd \<Longrightarrow> unknown p (snd (round15_start E cid nd))"
  using unknown_export [of p E]
  by (auto simp: round15_start_def split: option.splits prod.splits sum.splits intro!: unknown_on_ceremony) (metis snd_conv)+

lemma unknown_round2: "unknown p nd \<Longrightarrow> unknown p (snd (round2_start (idle_env F) cid nd))"
  using unknown_wait [of p nd]
  by (auto simp: round2_start_def split: option.splits prod.splits sum.splits intro!: unknown_on_ceremony) (metis snd_conv)+

lemma unknown_handled: "unknown p nd \<Longrightarrow> \<not> tells p msg \<Longrightarrow> unknown p (snd (handle_step_message (idle_env F) msg nd))"
proof (cases msg)
  case (Round15Start cid)
  then show "unknown p nd \<Longrightarrow> ?thesis" by (simp add: unknown_round15)
next
  case (Round2Start cid v)
  then show "unknown p nd \<Longrightarrow> ?thesis" by (simp add: unknown_round2)
next
  case (FinalizeStart cid)
  then show "unknown p nd \<Longrightarrow> ?thesis"
    by (auto simp: finalize_start_def split: option.splits prod.splits sum.splits intro!: unknown_on_ceremony)
qed (auto simp: update_conv' intro!: unknown_on_ceremony)

lemma unknown_follow: "unknown p nd \<Longrightarrow> \<not> tells p msg \<Longrightarrow> unknown p (follow_one (idle_env F) msg nd)"
  using unknown_handled [of p nd msg F] by (auto simp: follow_one_def split: prod.splits sum.splits option.splits)

lemma unknown_run: "unknown p nd \<Longrightarrow> \<forall>m\<in>set msgs. \<not> tells p m \<Longrightarrow> unknown p (run_follower (idle_env F) msgs nd)"
  unfolding run_follower_def by (induction msgs arbitrary: nd) (simp_all add: unknown_follow)

lemma unknown_refused:
  "unknown p nd \<Longrightarrow> \<exists>e. route_inbound_share_v2 E (ShareDeliver r shard SENTINEL_GROUP_ID_ZEROS p env) nd = (Err e, nd)"
  by (cases "active nd") (auto simp: route_inbound_share_v2_def unknown_def)

lemma unknown_after_start:
  assumes "active nd = None" "map_of asg (own_address F) = Some fp" "fp \<noteq> lp"
  shows "unknown lp (follow_one (idle_env F) (Round1Start cid t n asg) (follow_one (idle_env F) (Round1Done cid lp vss) nd))"
proof -
  have "follow_one (idle_env F) (Round1Done cid lp vss) nd = nd" using assms(1) by (simp add: follow_one_def on_ceremony_def)
  moreover have "unknown lp (snd (round1_start (idle_env F) cid t n asg nd))"
    using assms by (auto simp: round1_start_def idle_env_def unknown_def send_step_def split: prod.splits sum.splits)
  ultimately show ?thesis by (auto simp: follow_one_def split: prod.splits sum.splits option.splits)
qed

text \<open>
  C35. The leader acknowledges round one before it announces the ceremony. A follower that takes the two
  messages in the order in which the leader sends them, and is told no commitment of the leader again,
  refuses the leader's share for the rest of the ceremony, also after the message that starts round two
  and carries the commitments of all participants.
\<close>

theorem leader_commitment_lost:
  assumes "publish_and_self_handle E (Round1Start cid threshold n asg) leader = (Ok (), leader')"
    and "map_of asg (own_address E) = Some lp" "map_of asg (own_address F) = Some fp" "fp \<noteq> lp"
    and "active follower = None" "\<forall>m\<in>set msgs. \<not> tells lp m"
  shows "\<exists>vss e. step_out leader' = step_out leader @ [Round1Done cid lp vss, Round1Start cid threshold n asg]
     \<and> (let nd = run_follower (idle_env F) (Round1Done cid lp vss # Round1Start cid threshold n asg # msgs) follower
        in route_inbound_share_v2 (idle_env F) (ShareDeliver r shard SENTINEL_GROUP_ID_ZEROS lp env) nd = (Err e, nd))"
proof -
  obtain vss where out: "step_out leader' = step_out leader @ [Round1Done cid lp vss, Round1Start cid threshold n asg]"
    using assms(1,2) by (auto simp: publish_and_self_handle_def round1_start_def send_step_def split: prod.splits sum.splits if_splits)
  have "unknown lp (run_follower (idle_env F) msgs
      (follow_one (idle_env F) (Round1Start cid threshold n asg) (follow_one (idle_env F) (Round1Done cid lp vss) follower)))"
    by (rule unknown_run [OF unknown_after_start [OF assms(5,3,4)] assms(6)])
  then obtain e where "let nd = run_follower (idle_env F) (Round1Done cid lp vss # Round1Start cid threshold n asg # msgs) follower
        in route_inbound_share_v2 (idle_env F) (ShareDeliver r shard SENTINEL_GROUP_ID_ZEROS lp env) nd = (Err e, nd)"
    using unknown_refused by (fastforce simp: run_follower_def Let_def)
  then show ?thesis using out by blast
qed

theorem leader_commitment_lost_witness:
  "\<exists>vss e. (let nd = run_follower (idle_env (two_node_env ''B'' ''A''))
        [Round1Done ''c'' 0 vss, Round1Start ''c'' 2 2 [(''A'', 0), (''B'', 1)], Round15Start ''c'', Round2Start ''c'' [(0, vss)]] fresh_node
      in route_inbound_share_v2 (idle_env (two_node_env ''B'' ''A'')) (ShareDeliver ''key'' 0 SENTINEL_GROUP_ID_ZEROS 0 (sm_envelope sample_share)) nd
         = (Err e, nd))"
proof -
  let ?L = "two_node_env ''A'' ''B''" and ?F = "two_node_env ''B'' ''A''" and ?asg = "[(''A'', 0), (''B'', 1)] :: (string \<times> nat) list"
  let ?l = "snd (publish_and_self_handle ?L (Round1Start ''c'' 2 2 ?asg) fresh_node)"
  have p: "publish_and_self_handle ?L (Round1Start ''c'' 2 2 ?asg) fresh_node = (Ok (), ?l)" by (simp add: ceremony_evals)
  have o: "step_out ?l = [Round1Done ''c'' 0 ''v'', Round1Start ''c'' 2 2 ?asg]" by (simp add: ceremony_evals)
  have "map_of ?asg (own_address ?L) = Some 0" "map_of ?asg (own_address ?F) = Some 1" "active fresh_node = None"
    by (simp_all add: two_node_env_def fresh_node_def)
  from leader_commitment_lost [OF p this(1,2) _ this(3), of "[Round15Start ''c'', Round2Start ''c'' [(0, ''v'')]]" "''key''" 0
      "sm_envelope sample_share"] o
  show ?thesis by (auto simp: fresh_node_def)
qed

end
