(* ===== verification/Bootstrap.thy ===== *)
theory Bootstrap
  imports SigningHandlers "HOL-Library.AList"
begin

text \<open>
  How a new node joins: \<^verbatim>\<open>orchestrator/src/bootstrap_http.rs\<close>, the requests and replies of the enclave
  routes that wrap and unwrap the membership bundle, and \<^verbatim>\<open>orchestrator/src/bootstrap_join.rs\<close>, the task
  that serves newcomers as a source and joins as a newcomer, with the peer-quote verifier of
  \<^verbatim>\<open>main.rs\<close> that feeds it. The enclave behind HTTP, the database and the wall clock are fields of
  \<open>join_env\<close>; times of the monotonic clock are milliseconds. One event of the loop is one step.
\<close>

section \<open>The enclave routes\<close>

definition BOOTSTRAP_BUNDLE_EXPORT_PATH :: string where
  "BOOTSTRAP_BUNDLE_EXPORT_PATH = ''/v1/admin/signerlist/bootstrap-bundle-export''"
definition BOOTSTRAP_BUNDLE_IMPORT_PATH :: string where
  "BOOTSTRAP_BUNDLE_IMPORT_PATH = ''/v1/admin/signerlist/bootstrap-bundle-import''"
definition EPOCH_DIGEST_PATH :: string where "EPOCH_DIGEST_PATH = ''/v1/admin/signerlist/epoch-digest''"
definition SYNC_STATE_PATH :: string where "SYNC_STATE_PATH = ''/v1/admin/signerlist/sync-state''"

record bootstrap_envelope =
  be_ceremony_nonce :: string
  be_iv :: string
  be_ct :: string
  be_tag :: string
  be_sender_pk :: string

record bootstrap_export_input =
  bx_newcomer_pk :: string
  bx_shard_id :: nat
  bx_group_id :: string
  bx_escrow :: string
  bx_prev_epoch_hash :: string
  bx_quorum_bundle :: string
  bx_now_ts :: nat
  bx_authority_signers :: "membership_signer_wire list"
  bx_authority_quorum :: nat
  bx_authority_epoch :: nat

record bootstrap_import_input =
  bi_sender_pk :: string
  bi_shard_id :: nat
  bi_group_id :: string
  bi_escrow :: string
  bi_prev_epoch_hash :: string
  bi_now_ts :: nat
  bi_authority_signers :: "membership_signer_wire list"
  bi_authority_quorum :: nat
  bi_authority_epoch :: nat
  bi_confirmed_epoch :: nat
  bi_attesting_signers :: "membership_signer_wire list"
  bi_attesting_quorum :: nat
  bi_envelope :: bootstrap_envelope

definition wire_signers_json :: "membership_signer_wire list \<Rightarrow> json" where
  "wire_signers_json ss =
     JArr (map (\<lambda>s. JObj [(''account_id'', JStr (account_id_hex s)), (''weight'', JNum (int (wire_weight s)))]) ss)"

definition build_export_request :: "bootstrap_export_input \<Rightarrow> json" where
  "build_export_request i =
     JObj [(''newcomer_pk'', JStr (bx_newcomer_pk i)), (''shard_id'', JNum (int (bx_shard_id i))),
           (''group_id'', JStr (bx_group_id i)), (''escrow_account_id'', JStr (bx_escrow i)),
           (''prev_epoch_hash'', JStr (bx_prev_epoch_hash i)), (''quorum_bundle'', JStr (bx_quorum_bundle i)),
           (''now_ts'', JNum (int (bx_now_ts i))), (''authority_signers'', wire_signers_json (bx_authority_signers i)),
           (''authority_quorum'', JNum (int (bx_authority_quorum i))), (''authority_epoch'', JNum (int (bx_authority_epoch i)))]"

datatype join_error = Rejected string int | ReplyMissing string | NoReply string | BodyUnreadable string

text \<open>\<open>code\<close> and \<open>message\<close> of a refusal, with their defaults.\<close>

definition rejected :: "json \<Rightarrow> join_error" where
  "rejected body =
     Rejected (case Option.bind (json_get body ''message'') json_as_str of Some t \<Rightarrow> t | None \<Rightarrow> ''unknown'')
       (case Option.bind (json_get body ''code'') json_as_i64 of Some c \<Rightarrow> c | None \<Rightarrow> 0)"

definition str_field :: "json \<Rightarrow> string \<Rightarrow> join_error + string" where
  "str_field body k = (case Option.bind (json_get body k) json_as_str of Some t \<Rightarrow> Ok t | None \<Rightarrow> Err (ReplyMissing k))"

definition parse_export_response :: "json \<Rightarrow> join_error + bootstrap_envelope" where
  "parse_export_response body =
     (if Option.bind (json_get body ''status'') json_as_str = Some ''ok''
      then result_bind (str_field body ''ceremony_nonce'') (\<lambda>cn.
           result_bind (str_field body ''iv'') (\<lambda>iv.
           result_bind (str_field body ''ct'') (\<lambda>ct.
           result_bind (str_field body ''tag'') (\<lambda>tg.
           result_bind (str_field body ''sender_pk'') (\<lambda>pk.
           Ok \<lparr>be_ceremony_nonce = cn, be_iv = iv, be_ct = ct, be_tag = tg, be_sender_pk = pk\<rparr>)))))
      else Err (rejected body))"

definition build_import_request :: "bootstrap_import_input \<Rightarrow> json" where
  "build_import_request i =
     JObj [(''sender_pk'', JStr (bi_sender_pk i)), (''shard_id'', JNum (int (bi_shard_id i))),
           (''group_id'', JStr (bi_group_id i)), (''escrow_account_id'', JStr (bi_escrow i)),
           (''prev_epoch_hash'', JStr (bi_prev_epoch_hash i)), (''now_ts'', JNum (int (bi_now_ts i))),
           (''authority_signers'', wire_signers_json (bi_authority_signers i)),
           (''authority_quorum'', JNum (int (bi_authority_quorum i))), (''authority_epoch'', JNum (int (bi_authority_epoch i))),
           (''confirmed_epoch'', JNum (int (bi_confirmed_epoch i))),
           (''attesting_signers'', wire_signers_json (bi_attesting_signers i)),
           (''attesting_quorum'', JNum (int (bi_attesting_quorum i))),
           (''ceremony_nonce'', JStr (be_ceremony_nonce (bi_envelope i))), (''iv'', JStr (be_iv (bi_envelope i))),
           (''ct'', JStr (be_ct (bi_envelope i))), (''tag'', JStr (be_tag (bi_envelope i)))]"

definition parse_import_response :: "json \<Rightarrow> join_error + nat" where
  "parse_import_response body =
     (if Option.bind (json_get body ''status'') json_as_str = Some ''ok''
      then case Option.bind (json_get body ''epoch'') json_as_u64 of Some e \<Rightarrow> Ok e | None \<Rightarrow> Err (ReplyMissing ''epoch'')
      else Err (rejected body))"

definition post_and_parse ::
  "'s http_post \<Rightarrow> string \<Rightarrow> json \<Rightarrow> (json \<Rightarrow> join_error + 'a) \<Rightarrow> 's \<Rightarrow> (join_error + 'a) \<times> 's" where
  "post_and_parse post url req parse s =
     (case post url req s of
        (NoAnswer e, s1) \<Rightarrow> (Err (NoReply e), s1)
      | (BadBody _ e, s1) \<Rightarrow> (Err (BodyUnreadable e), s1)
      | (Body _ b, s1) \<Rightarrow> (parse b, s1))"

definition bootstrap_bundle_export ::
  "'s http_post \<Rightarrow> string \<Rightarrow> bootstrap_export_input \<Rightarrow> 's \<Rightarrow> (join_error + bootstrap_envelope) \<times> 's" where
  "bootstrap_bundle_export post base input =
     post_and_parse post (trim_end base @ BOOTSTRAP_BUNDLE_EXPORT_PATH) (build_export_request input) parse_export_response"

definition bootstrap_bundle_import ::
  "'s http_post \<Rightarrow> string \<Rightarrow> bootstrap_import_input \<Rightarrow> 's \<Rightarrow> (join_error + nat) \<times> 's" where
  "bootstrap_bundle_import post base input =
     post_and_parse post (trim_end base @ BOOTSTRAP_BUNDLE_IMPORT_PATH) (build_import_request input) parse_import_response"

section \<open>Observed epochs and the election of a source\<close>

type_synonym observed_peer_epochs = "(string \<times> (nat \<times> nat)) list"

definition record_epoch :: "nat \<Rightarrow> string \<Rightarrow> nat \<Rightarrow> observed_peer_epochs \<Rightarrow> observed_peer_epochs" where
  "record_epoch now peer epoch m = AList.update peer (epoch, now) m"

definition fresh_epochs :: "nat \<Rightarrow> nat \<Rightarrow> observed_peer_epochs \<Rightarrow> nat list" where
  "fresh_epochs within now m = map fst (filter (\<lambda>(e, seen). now - seen \<le> within) (map snd m))"

definition max_fresh :: "nat \<Rightarrow> nat \<Rightarrow> observed_peer_epochs \<Rightarrow> nat option" where
  "max_fresh within now m = (case fresh_epochs within now m of [] \<Rightarrow> None | e # es \<Rightarrow> Some (fold max es e))"

definition fresh_peer_count :: "nat \<Rightarrow> nat \<Rightarrow> observed_peer_epochs \<Rightarrow> nat" where
  "fresh_peer_count within now m = length (fresh_epochs within now m)"

definition election_rank :: "string \<Rightarrow> membership_signer_wire list \<Rightarrow> nat option" where
  "election_rank my_account_id_hex authority =
     position (\<lambda>i. i = map ascii_lower my_account_id_hex)
       (remdups_adj (sort (map (map ascii_lower \<circ> account_id_hex) authority)))"

datatype epoch_verdict = EpochAccept | EpochReject nat nat | NoReference

definition epoch_gate :: "nat \<Rightarrow> nat option \<Rightarrow> epoch_verdict" where
  "epoch_gate deliver_epoch reference =
     (case reference of
        None \<Rightarrow> NoReference
      | Some r \<Rightarrow> if deliver_epoch = r then EpochAccept else EpochReject deliver_epoch r)"

definition PEER_EPOCH_TTL :: nat where "PEER_EPOCH_TTL = 300000"
definition REQUEST_INTERVAL :: nat where "REQUEST_INTERVAL = 30000"
definition ELECTION_JITTER :: nat where "ELECTION_JITTER = 3000"
definition MAX_REQUEST_RETRIES :: nat where "MAX_REQUEST_RETRIES = 20"
definition DRIFT_CHECK_INTERVAL :: nat where "DRIFT_CHECK_INTERVAL = 30000"
definition DRIFT_HALT_AFTER :: nat where "DRIFT_HALT_AFTER = 120000"

section \<open>The task\<close>

datatype bootstrap_message =
    JoinRequest (jr_requester: string) (jr_shard_id: nat) (jr_group_id: string)
  | JoinDeliver (jd_recipient: string) (jd_shard_id: nat) (jd_group_id: string) (jd_escrow: string)
      (jd_authority_signers: string) (jd_authority_signer_count: nat) (jd_authority_quorum: nat) (jd_authority_epoch: nat)
      (jd_confirmed_epoch: nat) (jd_prev_epoch_hash: string) (jd_attesting_signers: string)
      (jd_attesting_signer_count: nat) (jd_attesting_quorum: nat) (jd_envelope: bootstrap_envelope)

record 's join_env =
  je_lib :: xrpl_lib
  je_load :: "('s \<Rightarrow> current_membership_bundle option) option"
  je_get :: "string \<Rightarrow> 's \<Rightarrow> http_reply \<times> 's"
  je_post :: "'s http_post"
  je_verify_quote :: "string \<Rightarrow> string \<Rightarrow> nat \<Rightarrow> string \<Rightarrow> nat \<Rightarrow> 's \<Rightarrow> bool \<times> 's"
  je_unix :: "'s \<Rightarrow> nat"
  je_publish_open :: bool
  je_base :: string
  je_escrow :: string
  je_shard :: nat
  je_group :: string
  je_ecdh :: string
  je_account :: string

record 's join_state =
  js_world :: 's
  js_out :: "bootstrap_message list"
  js_observed :: observed_peer_epochs
  js_bootstrapped :: bool
  js_last_request :: "nat option"
  js_request_retries :: nat
  js_halted :: bool
  js_served :: "string set"
  js_pending :: "(string \<times> nat) list"
  js_last_drift_check :: "nat option"
  js_drift_since :: "nat option"
  js_drift_flagged :: bool

definition eq_ignore_case :: "string \<Rightarrow> string \<Rightarrow> bool" where
  "eq_ignore_case a b = (map ascii_lower a = map ascii_lower b)"

definition current_sealed_epoch :: "'s join_env \<Rightarrow> 's \<Rightarrow> nat option \<times> 's" where
  "current_sealed_epoch E s =
     (case je_get E (trim_end (je_base E) @ EPOCH_DIGEST_PATH) s of
        (Body _ b, s1) \<Rightarrow> (case parse_epoch_digest (je_lib E) b of Ok (e, d) \<Rightarrow> Some e | Err _ \<Rightarrow> None, s1)
      | (_, s1) \<Rightarrow> (None, s1))"

definition query_bootstrapped :: "'s join_env \<Rightarrow> 's \<Rightarrow> bool \<times> 's" where
  "query_bootstrapped E s = (case current_sealed_epoch E s of (e, s1) \<Rightarrow> (e \<noteq> None, s1))"

definition enclave_sync_state :: "'s join_env \<Rightarrow> 's \<Rightarrow> membership_sync_state option \<times> 's" where
  "enclave_sync_state E s =
     (case je_get E (trim_end (je_base E) @ SYNC_STATE_PATH) s of
        (Body _ b, s1) \<Rightarrow> (case parse_sync_state b of Ok st \<Rightarrow> st | Err _ \<Rightarrow> None, s1)
      | (_, s1) \<Rightarrow> (None, s1))"

definition source_prepare :: "'s join_env \<Rightarrow> 's \<Rightarrow> (current_membership_bundle \<times> nat) option \<times> 's" where
  "source_prepare E s =
     (case je_load E of
        None \<Rightarrow> (None, s)
      | Some load \<Rightarrow>
          (case enclave_sync_state E s of
             (None, s1) \<Rightarrow> (None, s1)
           | (Some sync, s1) \<Rightarrow>
               if \<not> in_sync sync then (None, s1)
               else case load s1 of
                   None \<Rightarrow> (None, s1)
                 | Some tuple \<Rightarrow>
                     if mb_authority_epoch tuple \<noteq> authority_epoch sync then (None, s1)
                     else (map_option (Pair tuple)
                             (election_rank (je_account E) (unpack_membership_signers (je_lib E) (mb_authority_signers_hex tuple))), s1)))"

definition export_input :: "'s join_env \<Rightarrow> string \<Rightarrow> current_membership_bundle \<Rightarrow> nat \<Rightarrow> bootstrap_export_input" where
  "export_input E requester tuple now_ts =
     \<lparr>bx_newcomer_pk = requester, bx_shard_id = je_shard E, bx_group_id = je_group E, bx_escrow = mb_escrow_hex tuple,
      bx_prev_epoch_hash = mb_prev_epoch_hash_hex tuple, bx_quorum_bundle = mb_quorum_bundle_hex tuple, bx_now_ts = now_ts,
      bx_authority_signers = unpack_membership_signers (je_lib E) (mb_authority_signers_hex tuple),
      bx_authority_quorum = mb_authority_quorum tuple, bx_authority_epoch = mb_authority_epoch tuple\<rparr>"

definition deliver_for :: "'s join_env \<Rightarrow> string \<Rightarrow> current_membership_bundle \<Rightarrow> bootstrap_envelope \<Rightarrow> bootstrap_message" where
  "deliver_for E requester tuple env =
     JoinDeliver requester (je_shard E) (je_group E) (mb_escrow_hex tuple) (mb_authority_signers_hex tuple)
       (mb_authority_signer_count tuple) (mb_authority_quorum tuple) (mb_authority_epoch tuple) (mb_confirmed_epoch tuple)
       (mb_prev_epoch_hash_hex tuple) (mb_attesting_signers_hex tuple) (mb_attesting_signer_count tuple)
       (mb_attesting_quorum tuple) env"

definition publish_join :: "'s join_env \<Rightarrow> bootstrap_message \<Rightarrow> 's join_state \<Rightarrow> 's join_state" where
  "publish_join E msg js = (if je_publish_open E then js\<lparr>js_out := js_out js @ [msg]\<rparr> else js)"

definition source_serve :: "'s join_env \<Rightarrow> string \<Rightarrow> current_membership_bundle \<Rightarrow> 's join_state \<Rightarrow> 's join_state" where
  "source_serve E requester tuple js =
     (case bootstrap_bundle_export (je_post E) (je_base E) (export_input E requester tuple (je_unix E (js_world js))) (js_world js) of
        (Err e, s1) \<Rightarrow> js\<lparr>js_world := s1\<rparr>
      | (Ok env, s1) \<Rightarrow> publish_join E (deliver_for E requester tuple env) (js\<lparr>js_world := s1\<rparr>))"

definition import_input :: "'s join_env \<Rightarrow> bootstrap_message \<Rightarrow> nat \<Rightarrow> bootstrap_import_input" where
  "import_input E d now_ts =
     \<lparr>bi_sender_pk = be_sender_pk (jd_envelope d), bi_shard_id = je_shard E, bi_group_id = je_group E, bi_escrow = jd_escrow d,
      bi_prev_epoch_hash = jd_prev_epoch_hash d, bi_now_ts = now_ts,
      bi_authority_signers = unpack_membership_signers (je_lib E) (jd_authority_signers d),
      bi_authority_quorum = jd_authority_quorum d, bi_authority_epoch = jd_authority_epoch d,
      bi_confirmed_epoch = jd_confirmed_epoch d,
      bi_attesting_signers = unpack_membership_signers (je_lib E) (jd_attesting_signers d),
      bi_attesting_quorum = jd_attesting_quorum d, bi_envelope = jd_envelope d\<rparr>"

definition newcomer_handle_deliver :: "'s join_env \<Rightarrow> nat \<Rightarrow> bootstrap_message \<Rightarrow> 's join_state \<Rightarrow> bool \<times> 's join_state" where
  "newcomer_handle_deliver E now d js =
     (if jd_shard_id d \<noteq> je_shard E \<or> \<not> eq_ignore_case (jd_group_id d) (je_group E) then (False, js)
      else if \<not> eq_ignore_case (jd_escrow d) (je_escrow E) then (False, js)
      else let reference = max_fresh PEER_EPOCH_TTL now (js_observed js)
           in if epoch_gate (jd_authority_epoch d) reference \<noteq> EpochAccept then (False, js)
              else case bootstrap_bundle_import (je_post E) (je_base E) (import_input E d (je_unix E (js_world js))) (js_world js) of
                  (Err e, s1) \<Rightarrow> (False, js\<lparr>js_world := s1\<rparr>)
                | (Ok sealed_epoch, s1) \<Rightarrow>
                    ((case reference of Some r \<Rightarrow> sealed_epoch = r | None \<Rightarrow> True), js\<lparr>js_world := s1\<rparr>))"

definition publish_request :: "'s join_env \<Rightarrow> 's join_state \<Rightarrow> 's join_state" where
  "publish_request E js = publish_join E (JoinRequest (je_ecdh E) (je_shard E) (je_group E)) js"

text \<open>The arm for a request: the primary serves at once, the others note when it is their turn.\<close>

definition on_join_request :: "'s join_env \<Rightarrow> nat \<Rightarrow> string \<Rightarrow> nat \<Rightarrow> string \<Rightarrow> 's join_state \<Rightarrow> 's join_state" where
  "on_join_request E now requester shard grp js =
     (if shard \<noteq> je_shard E \<or> \<not> eq_ignore_case grp (je_group E) \<or> eq_ignore_case requester (je_ecdh E) then js
      else if js_drift_flagged js then js
      else case source_prepare E (js_world js) of
          (None, s1) \<Rightarrow> js\<lparr>js_world := s1\<rparr>
        | (Some (tuple, rank), s1) \<Rightarrow>
            if rank = 0
            then (source_serve E requester tuple (js\<lparr>js_world := s1\<rparr>))\<lparr>js_served := insert requester (js_served js)\<rparr>
            else js\<lparr>js_world := s1, js_pending := (case map_of (js_pending js) requester of
                     Some _ \<Rightarrow> js_pending js
                   | None \<Rightarrow> AList.update requester (now + ELECTION_JITTER * rank) (js_pending js))\<rparr>)"

definition on_join_deliver :: "'s join_env \<Rightarrow> nat \<Rightarrow> bootstrap_message \<Rightarrow> 's join_state \<Rightarrow> 's join_state" where
  "on_join_deliver E now d js =
     (let js1 = js\<lparr>js_served := insert (jd_recipient d) (js_served js), js_pending := AList.delete (jd_recipient d) (js_pending js)\<rparr>
      in if eq_ignore_case (jd_recipient d) (je_ecdh E) \<and> \<not> js_bootstrapped js1
         then (case newcomer_handle_deliver E now d js1 of
                 (joined, js2) \<Rightarrow> if joined then js2\<lparr>js_bootstrapped := True\<rparr> else js2)
         else js1)"

text \<open>The three parts of the housekeeping tick.\<close>

fun serve_due :: "'s join_env \<Rightarrow> string list \<Rightarrow> 's join_state \<Rightarrow> 's join_state" where
  "serve_due E [] js = js"
| "serve_due E (requester # rest) js =
     (let js1 = js\<lparr>js_pending := AList.delete requester (js_pending js)\<rparr>
      in if requester \<in> js_served js1 \<or> js_drift_flagged js1 then serve_due E rest js1
         else (case source_prepare E (js_world js1) of
                 (None, s1) \<Rightarrow> serve_due E rest (js1\<lparr>js_world := s1\<rparr>)
               | (Some (tuple, rank), s1) \<Rightarrow>
                   serve_due E rest ((source_serve E requester tuple (js1\<lparr>js_world := s1\<rparr>))
                      \<lparr>js_served := insert requester (js_served js1)\<rparr>)))"

definition due_requests :: "nat \<Rightarrow> 's join_state \<Rightarrow> string list" where
  "due_requests now js = map fst (filter (\<lambda>(k, t). t \<le> now \<and> k \<notin> js_served js) (js_pending js))"

definition elapsed_since :: "nat option \<Rightarrow> nat \<Rightarrow> nat \<Rightarrow> bool" where
  "elapsed_since earlier now interval = (case earlier of None \<Rightarrow> True | Some t \<Rightarrow> interval \<le> now - t)"

definition newcomer_trigger :: "'s join_env \<Rightarrow> nat \<Rightarrow> 's join_state \<Rightarrow> 's join_state" where
  "newcomer_trigger E now js =
     (if js_bootstrapped js \<or> js_halted js then js
      else case query_bootstrapped E (js_world js) of
          (True, s1) \<Rightarrow> js\<lparr>js_world := s1, js_bootstrapped := True\<rparr>
        | (False, s1) \<Rightarrow>
            if 1 \<le> fresh_peer_count PEER_EPOCH_TTL now (js_observed js) \<and> elapsed_since (js_last_request js) now REQUEST_INTERVAL
            then (publish_request E (js\<lparr>js_world := s1\<rparr>))
                   \<lparr>js_last_request := Some now, js_request_retries := js_request_retries js + 1,
                    js_halted := (MAX_REQUEST_RETRIES \<le> js_request_retries js + 1)\<rparr>
            else js\<lparr>js_world := s1\<rparr>)"

definition drift_check :: "'s join_env \<Rightarrow> nat \<Rightarrow> 's join_state \<Rightarrow> 's join_state" where
  "drift_check E now js =
     (if js_bootstrapped js \<and> elapsed_since (js_last_drift_check js) now DRIFT_CHECK_INTERVAL
      then let js1 = js\<lparr>js_last_drift_check := Some now\<rparr>
           in case (max_fresh PEER_EPOCH_TTL now (js_observed js1), current_sealed_epoch E (js_world js1)) of
                (Some reference, (Some mine, s1)) \<Rightarrow>
                  if mine < reference
                  then let since = (case js_drift_since js1 of Some t \<Rightarrow> t | None \<Rightarrow> now)
                       in js1\<lparr>js_world := s1, js_drift_since := Some since,
                              js_drift_flagged := (js_drift_flagged js1 \<or> DRIFT_HALT_AFTER \<le> now - since)\<rparr>
                  else js1\<lparr>js_world := s1, js_drift_since := None, js_drift_flagged := False\<rparr>
              | (_, (_, s1)) \<Rightarrow> js1\<lparr>js_world := s1\<rparr>
      else js)"

definition on_housekeeping :: "'s join_env \<Rightarrow> nat \<Rightarrow> 's join_state \<Rightarrow> 's join_state" where
  "on_housekeeping E now js = drift_check E now (newcomer_trigger E now (serve_due E (due_requests now js) js))"

text \<open>The peer-quote verifier: only a quote that the enclave verifies gives an epoch.\<close>

definition on_peer_quote :: "'s join_env \<Rightarrow> nat \<Rightarrow> string \<Rightarrow> nat \<Rightarrow> string \<Rightarrow> string \<Rightarrow> nat \<Rightarrow> 's join_state \<Rightarrow> 's join_state" where
  "on_peer_quote E now peer shard grp quote epoch js =
     (case je_verify_quote E quote peer shard grp (je_unix E (js_world js)) (js_world js) of
        (ok, s1) \<Rightarrow>
          if ok then js\<lparr>js_world := s1, js_observed := record_epoch now peer epoch (js_observed js)\<rparr>
          else js\<lparr>js_world := s1\<rparr>)"

datatype join_event =
    EvMessage bootstrap_message
  | EvTick
  | EvQuote string nat string string nat

definition join_step :: "'s join_env \<Rightarrow> nat \<Rightarrow> join_event \<Rightarrow> 's join_state \<Rightarrow> 's join_state" where
  "join_step E now ev js =
     (case ev of
        EvMessage (JoinRequest requester shard grp) \<Rightarrow> on_join_request E now requester shard grp js
      | EvMessage d \<Rightarrow> on_join_deliver E now d js
      | EvTick \<Rightarrow> on_housekeeping E now js
      | EvQuote peer shard grp quote epoch \<Rightarrow> on_peer_quote E now peer shard grp quote epoch js)"

fun run_join_brain :: "'s join_env \<Rightarrow> (nat \<times> join_event) list \<Rightarrow> 's join_state \<Rightarrow> 's join_state" where
  "run_join_brain E [] js = js"
| "run_join_brain E ((now, ev) # evs) js = run_join_brain E evs (join_step E now ev js)"

definition join_start :: "'s join_env \<Rightarrow> 's \<Rightarrow> 's join_state" where
  "join_start E s =
     (case query_bootstrapped E s of
        (b, s1) \<Rightarrow> \<lparr>js_world = s1, js_out = [], js_observed = [], js_bootstrapped = b, js_last_request = None, js_request_retries = 0,
            js_halted = False, js_served = {}, js_pending = [], js_last_drift_check = None, js_drift_since = None,
            js_drift_flagged = False\<rparr>)"

end
