(* ===== verification/Bootstrap_Props.thy ===== *)
theory Bootstrap_Props
  imports Bootstrap
begin

text \<open>
  Properties of the join task: what makes a newcomer a member, what a source hands out and when, the
  election of the source, and the requests that are never answered again.
\<close>

section \<open>Observed epochs\<close>

lemma set_fresh_epochs: "e \<in> set (fresh_epochs w now m) \<longleftrightarrow> (\<exists>p seen. (p, (e, seen)) \<in> set m \<and> now - seen \<le> w)"
  by (force simp: fresh_epochs_def)

lemma max_fresh_Some_iff:
  "max_fresh w now m = Some r \<longleftrightarrow> r \<in> set (fresh_epochs w now m) \<and> (\<forall>e\<in>set (fresh_epochs w now m). e \<le> r)"
proof (cases "fresh_epochs w now m")
  case (Cons e es)
  have "fold max es e = Max (set (e # es))" by (rule Max.set_eq_fold [symmetric])
  moreover have "Max (set (e # es)) = r \<longleftrightarrow> r \<in> set (e # es) \<and> (\<forall>a\<in>set (e # es). a \<le> r)" by (rule Max_eq_iff) simp_all
  ultimately show ?thesis using Cons by (simp add: max_fresh_def)
qed (simp add: max_fresh_def)

section \<open>What the parts of a step leave alone\<close>

lemma publish_join_frame [simp]:
  "js_observed (publish_join E m js) = js_observed js" "js_bootstrapped (publish_join E m js) = js_bootstrapped js"
  "js_served (publish_join E m js) = js_served js" "js_drift_flagged (publish_join E m js) = js_drift_flagged js"
  "js_world (publish_join E m js) = js_world js" "js_pending (publish_join E m js) = js_pending js"
  by (simp_all add: publish_join_def)

lemma source_serve_frame [simp]:
  "js_observed (source_serve E r t js) = js_observed js" "js_bootstrapped (source_serve E r t js) = js_bootstrapped js"
  "js_served (source_serve E r t js) = js_served js" "js_drift_flagged (source_serve E r t js) = js_drift_flagged js"
  by (simp_all add: source_serve_def split: prod.splits sum.splits)

lemma serve_due_frame [simp]:
  "js_observed (serve_due E rs js) = js_observed js" "js_bootstrapped (serve_due E rs js) = js_bootstrapped js"
  "js_drift_flagged (serve_due E rs js) = js_drift_flagged js"
  by (induction E rs js rule: serve_due.induct) (auto simp: Let_def split: prod.splits option.splits if_splits)

lemma trigger_frame [simp]:
  "js_observed (newcomer_trigger E now js) = js_observed js" "js_served (newcomer_trigger E now js) = js_served js"
  "js_drift_flagged (newcomer_trigger E now js) = js_drift_flagged js"
  by (auto simp: newcomer_trigger_def publish_request_def split: prod.splits bool.splits)

lemma drift_check_frame [simp]:
  "js_observed (drift_check E now js) = js_observed js" "js_served (drift_check E now js) = js_served js"
  "js_bootstrapped (drift_check E now js) = js_bootstrapped js" "js_out (drift_check E now js) = js_out js"
  by (auto simp: drift_check_def Let_def split: prod.splits option.splits)

lemma handle_deliver_frame [simp]:
  "js_observed (snd (newcomer_handle_deliver E now d js)) = js_observed js"
  "js_served (snd (newcomer_handle_deliver E now d js)) = js_served js"
  "js_bootstrapped (snd (newcomer_handle_deliver E now d js)) = js_bootstrapped js"
  "js_out (snd (newcomer_handle_deliver E now d js)) = js_out js"
  by (auto simp: newcomer_handle_deliver_def Let_def split: prod.splits sum.splits)

lemma on_join_deliver_eq:
  "on_join_deliver E now d js =
     (let js1 = js\<lparr>js_served := insert (jd_recipient d) (js_served js), js_pending := AList.delete (jd_recipient d) (js_pending js)\<rparr>;
          r = newcomer_handle_deliver E now d js1
      in if eq_ignore_case (jd_recipient d) (je_ecdh E) \<and> \<not> js_bootstrapped js
         then (if fst r then (snd r)\<lparr>js_bootstrapped := True\<rparr> else snd r) else js1)"
  by (simp add: on_join_deliver_def Let_def split: prod.splits)

lemma join_step_cases:
  obtains (request) p sh g where "ev = EvMessage (JoinRequest p sh g)" "join_step E now ev js = on_join_request E now p sh g js"
  | (deliver) d where "ev = EvMessage d" "\<not> is_JoinRequest d" "join_step E now ev js = on_join_deliver E now d js"
  | (tick) "ev = EvTick" "join_step E now ev js = on_housekeeping E now js"
  | (quote) p sh g q e where "ev = EvQuote p sh g q e" "join_step E now ev js = on_peer_quote E now p sh g q e js"
proof (cases ev)
  case (EvMessage m)
  then show ?thesis using request deliver by (cases m) (auto simp: join_step_def)
qed (use tick quote in \<open>auto simp: join_step_def\<close>)

lemma alist_update_memD: "x \<in> set (AList.update k v m) \<Longrightarrow> x = (k, v) \<or> x \<in> set m"
  by (induction m) (auto split: if_splits)

lemma observed_step:
  assumes "x \<in> set (js_observed (join_step E now ev js))"
  shows "x \<in> set (js_observed js) \<or>
     (\<exists>p sh g q e s. ev = EvQuote p sh g q e \<and> x = (p, (e, now)) \<and> fst (je_verify_quote E q p sh g (je_unix E s) s))"
proof (cases rule: join_step_cases [of ev E now js])
  case (quote p sh g q e)
  then show ?thesis using assms
    by (auto simp: on_peer_quote_def record_epoch_def split: prod.splits if_splits dest!: alist_update_memD) (metis fst_conv)
next
  case (request p sh g)
  then show ?thesis using assms by (auto simp: on_join_request_def split: prod.splits option.splits if_splits)
next
  case (deliver d)
  then show ?thesis using assms by (auto simp: on_join_deliver_eq Let_def split: if_splits)
next
  case tick
  then show ?thesis using assms by (simp add: on_housekeeping_def)
qed

lemma run_join_brain_append: "run_join_brain E (xs @ ys) js = run_join_brain E ys (run_join_brain E xs js)"
  by (induction xs arbitrary: js) auto

lemma observed_from_quotes:
  "js_observed js = [] \<Longrightarrow> (p, (e, t)) \<in> set (js_observed (run_join_brain E evs js)) \<Longrightarrow>
     \<exists>sh g q s. (t, EvQuote p sh g q e) \<in> set evs \<and> fst (je_verify_quote E q p sh g (je_unix E s) s)"
proof (induction evs rule: rev_induct)
  case (snoc x evs)
  obtain now ev where x: "x = (now, ev)" by (cases x)
  let ?js = "run_join_brain E evs js"
  have "(p, (e, t)) \<in> set (js_observed (join_step E now ev ?js))" using snoc.prems(2) x by (simp add: run_join_brain_append)
  then consider "(p, (e, t)) \<in> set (js_observed ?js)"
    | sh g q s where "ev = EvQuote p sh g q e" "t = now" "fst (je_verify_quote E q p sh g (je_unix E s) s)"
    using observed_step by blast
  then show ?case
  proof cases
    case 1
    then show ?thesis using snoc.IH [OF snoc.prems(1)] by auto
  next
    case 2
    then show ?thesis using x by auto
  qed
qed simp

section \<open>Becoming a member\<close>

lemma handle_deliver_joins:
  assumes "fst (newcomer_handle_deliver E now d js)"
  shows "jd_shard_id d = je_shard E \<and> eq_ignore_case (jd_group_id d) (je_group E) \<and> eq_ignore_case (jd_escrow d) (je_escrow E)
     \<and> max_fresh PEER_EPOCH_TTL now (js_observed js) = Some (jd_authority_epoch d)
     \<and> (\<exists>s s1. bootstrap_bundle_import (je_post E) (je_base E) (import_input E d (je_unix E s)) s = (Ok (jd_authority_epoch d), s1))"
  using assms
  by (auto simp: newcomer_handle_deliver_def Let_def epoch_gate_def split: if_splits prod.splits sum.splits option.splits)

lemma step_joins:
  assumes "\<not> js_bootstrapped js" "js_bootstrapped (join_step E now ev js)"
  shows "(ev = EvTick \<and> (\<exists>s. fst (query_bootstrapped E s))) \<or>
     (\<exists>d js1. ev = EvMessage d \<and> eq_ignore_case (jd_recipient d) (je_ecdh E) \<and> js_observed js1 = js_observed js
        \<and> fst (newcomer_handle_deliver E now d js1))"
proof (cases rule: join_step_cases [of ev E now js])
  case tick
  then have "js_bootstrapped (newcomer_trigger E now (serve_due E (due_requests now js) js))"
    using assms(2) by (simp add: on_housekeeping_def)
  then have "\<exists>s. fst (query_bootstrapped E s)"
    using assms(1) by (auto simp: newcomer_trigger_def publish_request_def split: if_splits prod.splits bool.splits) (metis fst_conv)+
  then show ?thesis using tick by simp
next
  case (deliver d)
  then show ?thesis using assms
    by (auto simp: on_join_deliver_eq Let_def split: if_splits
        intro!: exI [of _ "js\<lparr>js_served := insert (jd_recipient d) (js_served js), js_pending := AList.delete (jd_recipient d) (js_pending js)\<rparr>"])
next
  case (request p sh g)
  then show ?thesis using assms by (auto simp: on_join_request_def split: prod.splits option.splits if_splits)
next
  case (quote p sh g q e)
  then show ?thesis using assms by (auto simp: on_peer_quote_def split: prod.splits if_splits)
qed


section \<open>Serving a newcomer\<close>

lemma source_prepare_Some:
  assumes "source_prepare E s = (Some (tuple, rank), s1)"
  shows "\<exists>load sync. je_load E = Some load \<and> load s1 = Some tuple \<and> fst (enclave_sync_state E s) = Some sync \<and> in_sync sync
     \<and> authority_epoch sync = mb_authority_epoch tuple
     \<and> election_rank (je_account E) (unpack_membership_signers (je_lib E) (mb_authority_signers_hex tuple)) = Some rank"
  using assms by (auto simp: source_prepare_def split: option.splits prod.splits if_splits)

definition served_from :: "'s join_env \<Rightarrow> bootstrap_message \<Rightarrow> bool" where
  "served_from E d \<longleftrightarrow> (\<exists>requester tuple env s s1 sync rank. d = deliver_for E requester tuple env
     \<and> fst (enclave_sync_state E s) = Some sync \<and> in_sync sync \<and> authority_epoch sync = mb_authority_epoch tuple
     \<and> (\<exists>load. je_load E = Some load \<and> load s1 = Some tuple)
     \<and> election_rank (je_account E) (unpack_membership_signers (je_lib E) (mb_authority_signers_hex tuple)) = Some rank)"

lemma source_serve_out:
  "x \<in> set (js_out (source_serve E r tuple js)) \<Longrightarrow> x \<in> set (js_out js) \<or> (\<exists>env. x = deliver_for E r tuple env)"
  by (auto simp: source_serve_def publish_join_def split: prod.splits sum.splits if_splits)

lemma prepared_serves:
  assumes "source_prepare E s = (Some (tuple, rank), s1)"
  shows "served_from E (deliver_for E r tuple env)"
  using source_prepare_Some [OF assms] unfolding served_from_def by metis

lemma serve_due_out:
  "x \<in> set (js_out (serve_due E rs js)) \<Longrightarrow> x \<in> set (js_out js) \<or> \<not> js_drift_flagged js \<and> served_from E x"
proof (induction E rs js rule: serve_due.induct)
  case (2 E requester rest js)
  let ?js1 = "js\<lparr>js_pending := AList.delete requester (js_pending js)\<rparr>"
  show ?case
  proof (cases "requester \<in> js_served ?js1 \<or> js_drift_flagged ?js1")
    case True
    then show ?thesis using "2.IH"(1) [OF refl True] "2.prems" by (simp add: Let_def)
  next
    case False
    then show ?thesis
      using "2.IH"(2) [OF refl False] "2.IH"(3) [OF refl False] "2.prems" source_serve_out prepared_serves
      by (fastforce simp: Let_def split: prod.splits option.splits)
  qed
qed simp

text \<open>
  C37. A delivery leaves the node only while it is not flagged as drifted and its enclave is in sync, and
  it carries the retained tuple of exactly the epoch the enclave has sealed, which names the own account
  among the authorities.
\<close>

theorem source_serves_current:
  assumes "d \<in> set (js_out (join_step E now ev js))" "d \<notin> set (js_out js)" "\<not> is_JoinRequest d"
  shows "\<not> js_drift_flagged js \<and> served_from E d"
proof (cases rule: join_step_cases [of ev E now js])
  case tick
  have "d \<in> set (js_out (serve_due E (due_requests now js) js))"
    using assms tick by (auto simp: on_housekeeping_def newcomer_trigger_def publish_request_def publish_join_def
        split: if_splits prod.splits bool.splits)
  then show ?thesis using serve_due_out assms(2) by blast
next
  case (deliver x)
  then show ?thesis using assms by (auto simp: on_join_deliver_eq Let_def split: if_splits)
next
  case (request p sh g)
  then show ?thesis using assms source_serve_out prepared_serves
    by (fastforce simp: on_join_request_def split: prod.splits option.splits if_splits)
next
  case (quote p sh g q e)
  then show ?thesis using assms by (auto simp: on_peer_quote_def split: prod.splits if_splits)
qed

text \<open>
  The statement a newcomer asks its enclave to import is the one the source had its enclave wrap:
  the escrow, the previous hash, the authorities, their quorum and their epoch agree field by field,
  and with equal settings so do the shard and the group.
\<close>

theorem imported_statement_is_exported:
  assumes "je_lib N = je_lib S" "je_shard N = je_shard S" "je_group N = je_group S"
  shows "map (json_get (build_import_request (import_input N (deliver_for S requester tuple env) t)))
       [''escrow_account_id'', ''prev_epoch_hash'', ''authority_signers'', ''authority_quorum'', ''authority_epoch'', ''shard_id'', ''group_id'']
     = map (json_get (build_export_request (export_input S requester tuple u)))
       [''escrow_account_id'', ''prev_epoch_hash'', ''authority_signers'', ''authority_quorum'', ''authority_epoch'', ''shard_id'', ''group_id'']
     \<and> None \<notin> set (map (json_get (build_export_request (export_input S requester tuple u)))
       [''escrow_account_id'', ''prev_epoch_hash'', ''authority_signers'', ''authority_quorum'', ''authority_epoch'', ''shard_id'', ''group_id''])"
  by (simp add: build_import_request_def build_export_request_def import_input_def export_input_def deliver_for_def assms)

section \<open>The election\<close>

lemma distinct_remdups_adj_sorted: "sorted xs \<Longrightarrow> distinct (remdups_adj xs)"
  by (induction xs rule: remdups_adj.induct) auto

lemma ascii_lower_idem: "ascii_lower (ascii_lower c) = ascii_lower c"
proof (cases "65 \<le> (of_char c :: nat) \<and> (of_char c :: nat) \<le> 90")
  case True
  then have "(of_char (ascii_lower c) :: nat) = of_char c + 32" by (simp add: ascii_lower_def)
  then show ?thesis using True by (simp add: ascii_lower_def [of "ascii_lower c"])
next
  case False
  then have "ascii_lower c = c" unfolding ascii_lower_def by (rule if_not_P)
  then show ?thesis by simp
qed

lemma position_Some_iff_nth:
  "distinct xs \<Longrightarrow> position (\<lambda>i. i = a) xs = Some r \<longleftrightarrow> r < length xs \<and> xs ! r = a"
proof (induction xs arbitrary: r)
  case (Cons x xs)
  then have ih: "position (\<lambda>i. i = a) xs = Some k \<longleftrightarrow> k < length xs \<and> xs ! k = a" for k by simp
  show ?case
  proof (cases "x = a")
    case True
    then have "\<not> (k < length xs \<and> xs ! k = a)" for k using Cons.prems nth_mem by force
    then show ?thesis using True by (cases r) auto
  next
    case False
    then show ?thesis using ih by (cases r) auto
  qed
qed simp

text \<open>
  The rank of an account is its place among the different accounts of the authority set: a member has
  a rank below their number, a stranger has none, different members have different ranks, and exactly
  one member has rank zero.
\<close>

theorem election_has_one_primary:
  fixes authority :: "membership_signer_wire list"
  defines "accounts \<equiv> (map ascii_lower \<circ> account_id_hex) ` set authority"
  shows "(election_rank a authority \<noteq> None \<longleftrightarrow> map ascii_lower a \<in> accounts)
     \<and> (\<forall>r. election_rank a authority = Some r \<longrightarrow> r < card accounts)
     \<and> (\<forall>r. election_rank a authority = Some r \<and> election_rank b authority = Some r \<longrightarrow> eq_ignore_case a b)
     \<and> (authority \<noteq> [] \<longrightarrow> (\<exists>!x. x \<in> accounts \<and> election_rank x authority = Some 0))"
proof -
  let ?ids = "remdups_adj (sort (map (map ascii_lower \<circ> account_id_hex) authority))"
  have d: "distinct ?ids" by (rule distinct_remdups_adj_sorted) simp
  have s: "set ?ids = accounts" by (simp add: accounts_def)
  have card: "length ?ids = card accounts" using d s by (metis distinct_card)
  have low: "map ascii_lower x = x" if "x \<in> accounts" for x
  proof -
    obtain m :: membership_signer_wire where "x = map ascii_lower (account_id_hex m)" using \<open>x \<in> accounts\<close> unfolding accounts_def comp_def by blast
    then show ?thesis by (simp only: map_map comp_def ascii_lower_idem)
  qed
  have some: "election_rank x authority = Some r \<longleftrightarrow> r < length ?ids \<and> ?ids ! r = map ascii_lower x" for x r
    unfolding election_rank_def by (rule position_Some_iff_nth [OF d])
  have none: "election_rank x authority \<noteq> None \<longleftrightarrow> map ascii_lower x \<in> accounts" for x
    unfolding election_rank_def position_None_iff s by blast
  have "\<exists>!x. x \<in> accounts \<and> election_rank x authority = Some 0" if "authority \<noteq> []"
  proof -
    have "?ids \<noteq> []" using that s by (metis accounts_def image_is_empty list.set(1) set_empty)
    then have "0 < length ?ids" by blast
    then have m: "?ids ! 0 \<in> accounts" using s nth_mem by metis
    show ?thesis
    proof (rule ex1I)
      show "?ids ! 0 \<in> accounts \<and> election_rank (?ids ! 0) authority = Some 0"
        unfolding some low [OF m] using m \<open>0 < length ?ids\<close> by blast
      fix x
      assume x: "x \<in> accounts \<and> election_rank x authority = Some 0"
      then have "?ids ! 0 = map ascii_lower x" unfolding some by blast
      then show "x = ?ids ! 0" using low x by metis
    qed
  qed
  moreover have "\<forall>r. election_rank a authority = Some r \<longrightarrow> r < card accounts" using some card by simp
  moreover have "\<forall>r. election_rank a authority = Some r \<and> election_rank b authority = Some r \<longrightarrow> eq_ignore_case a b"
    unfolding some eq_ignore_case_def by metis
  ultimately show ?thesis using none by blast
qed

section \<open>Requests that are not answered again\<close>

lemma serve_due_marks: "js_served js \<subseteq> js_served (serve_due E rs js)"
  by (induction E rs js rule: serve_due.induct) (fastforce simp: Let_def split: prod.splits option.splits if_splits)+

lemma join_step_served: "js_served js \<subseteq> js_served (join_step E now ev js)"
proof (cases rule: join_step_cases [of ev E now js])
  case tick
  then show ?thesis using serve_due_marks by (simp add: on_housekeeping_def)
next
  case (request p sh g)
  then show ?thesis by (auto simp: on_join_request_def split: prod.splits option.splits if_splits)
next
  case (deliver d)
  then show ?thesis by (auto simp: on_join_deliver_eq Let_def)
next
  case (quote p sh g q e)
  then show ?thesis by (auto simp: on_peer_quote_def split: prod.splits)
qed

lemma run_served: "js_served js \<subseteq> js_served (run_join_brain E evs js)"
proof (induction E evs js rule: run_join_brain.induct)
  case (2 E now ev evs js)
  then show ?case using join_step_served by (metis order_trans run_join_brain.simps(2))
qed simp

lemma serve_due_skips:
  "r \<in> js_served js \<Longrightarrow> x \<in> set (js_out (serve_due E rs js)) \<Longrightarrow> jd_recipient x = r \<Longrightarrow> x \<in> set (js_out js)"
proof (induction E rs js rule: serve_due.induct)
  case (2 E requester rest js)
  let ?js1 = "js\<lparr>js_pending := AList.delete requester (js_pending js)\<rparr>"
  show ?case
  proof (cases "requester \<in> js_served ?js1 \<or> js_drift_flagged ?js1")
    case True
    then show ?thesis using "2.IH"(1) [OF refl True] "2.prems" by (simp add: Let_def)
  next
    case False
    then have other: "requester \<noteq> r" using "2.prems"(1) by auto
    obtain p s1 where sp: "source_prepare E (js_world ?js1) = (p, s1)" by (cases "source_prepare E (js_world ?js1)")
    show ?thesis
    proof (cases p)
      case None
      then show ?thesis using "2.IH"(2) [OF refl False] sp False "2.prems" by (simp add: Let_def)
    next
      case (Some tr)
      obtain tuple rank where tr: "tr = (tuple, rank)" by (cases tr)
      have "x \<in> set (js_out ((source_serve E requester tuple (?js1\<lparr>js_world := s1\<rparr>))\<lparr>js_served := insert requester (js_served ?js1)\<rparr>))"
        using "2.IH"(3) [OF refl False] sp Some tr False "2.prems" by (simp add: Let_def)
      then have "x \<in> set (js_out ?js1) \<or> (\<exists>env. x = deliver_for E requester tuple env)" using source_serve_out by fastforce
      then show ?thesis using "2.prems"(3) other by (auto simp: deliver_for_def)
    qed
  qed
qed simp

lemma housekeeping_skips:
  assumes "r \<in> js_served js" "x \<in> set (js_out (on_housekeeping E now js))" "\<not> is_JoinRequest x" "jd_recipient x = r"
  shows "x \<in> set (js_out js)"
proof -
  have "x \<in> set (js_out (serve_due E (due_requests now js) js))"
    using assms(2,3) by (auto simp: on_housekeeping_def newcomer_trigger_def publish_request_def publish_join_def
        split: if_splits prod.splits bool.splits)
  then show ?thesis using serve_due_skips assms(1,4) by blast
qed

text \<open>
  A fallback source whose turn has come and whose enclave fails to wrap the bundle publishes
  nothing and counts the newcomer as served; from then on no housekeeping of the node, in any
  continuation, delivers anything to that newcomer.
\<close>

theorem failed_fallback_never_retried:
  assumes "due_requests now js = [r]" "\<not> js_drift_flagged js" "source_prepare E (js_world js) = (Some (tuple, rank), s1)"
    and "bootstrap_bundle_export (je_post E) (je_base E) (export_input E r tuple (je_unix E s1)) s1 = (Err e, s2)"
    and "js' = run_join_brain E evs (on_housekeeping E now js)"
    and "x \<in> set (js_out (on_housekeeping E later js'))" "\<not> is_JoinRequest x" "jd_recipient x = r"
  shows "(\<forall>y\<in>set (js_out (on_housekeeping E now js)). \<not> is_JoinRequest y \<longrightarrow> y \<in> set (js_out js)) \<and> x \<in> set (js_out js')"
proof
  have "r \<notin> js_served js" using assms(1) by (auto simp: due_requests_def filter_eq_Cons_iff map_eq_Cons_conv)
  then have sd: "serve_due E [r] js = js\<lparr>js_pending := AList.delete r (js_pending js), js_world := s2, js_served := insert r (js_served js)\<rparr>"
    using assms(2-4) by (simp add: Let_def source_serve_def)
  show "\<forall>y\<in>set (js_out (on_housekeeping E now js)). \<not> is_JoinRequest y \<longrightarrow> y \<in> set (js_out js)"
    unfolding on_housekeeping_def assms(1) sd
    by (auto simp: newcomer_trigger_def publish_request_def publish_join_def split: prod.splits bool.splits)
  have "r \<in> js_served (on_housekeeping E now js)" unfolding on_housekeeping_def assms(1) sd by simp
  then have "r \<in> js_served js'" using run_served assms(5) by blast
  then show "x \<in> set (js_out js')" by (rule housekeeping_skips [OF _ assms(6-8)])
qed

text \<open>
  A join whose sealed epoch is not the observed one is logged as failed and to be halted for the
  operator, but the node is a member, and a source, at the next tick at which its enclave answers.
\<close>

lemma failed_join_becomes_member:
  assumes "\<not> js_halted js" "js_served js = served" "due_requests now js = []" "fst (query_bootstrapped E (js_world js))"
  shows "js_bootstrapped (on_housekeeping E now js)"
  using assms by (auto simp: on_housekeeping_def newcomer_trigger_def split: prod.splits bool.splits)

section \<open>A small cluster\<close>

definition sample_bundle :: current_membership_bundle where
  "sample_bundle = \<lparr>mb_escrow_hex = ''e'', mb_authority_epoch = 5, mb_confirmed_epoch = 5, mb_prev_epoch_hash_hex = ''p'',
     mb_authority_signers_hex = replicate 24 CHR ''a'', mb_authority_signer_count = 1, mb_authority_quorum = 1,
     mb_attesting_signers_hex = '''', mb_attesting_signer_count = 0, mb_attesting_quorum = 1, mb_quorum_bundle_hex = ''q''\<rparr>"

text \<open>\<open>sealed\<close>: whether the enclave has a sealed epoch; \<open>wraps\<close>: whether it wraps and unwraps bundles.\<close>

definition join_sample_env :: "bool \<Rightarrow> bool \<Rightarrow> unit join_env" where
  "join_sample_env sealed wraps =
     \<lparr>je_lib = sample_lib, je_load = (if sealed then Some (\<lambda>_. Some sample_bundle) else None),
      je_get = (\<lambda>url s. (Body True (JObj [(''status'', JStr ''ok''), (''bootstrapped'', JBool sealed), (''authority_epoch'', JNum 5),
         (''projection_confirmed_epoch'', JNum 5), (''in_sync'', JBool True)]), s)),
      je_post = (\<lambda>url body s. (Body True (JObj (if wraps then [(''status'', JStr ''ok''), (''epoch'', JNum 5), (''ceremony_nonce'', JStr ''c''),
         (''iv'', JStr ''i''), (''ct'', JStr ''t''), (''tag'', JStr ''g''), (''sender_pk'', JStr ''s'')] else [])), s)),
      je_verify_quote = (\<lambda>_ _ _ _ _ s. (True, s)), je_unix = (\<lambda>_. 1000), je_publish_open = True, je_base = ''b'',
      je_escrow = ''e'', je_shard = 0, je_group = ''g'', je_ecdh = ''me'', je_account = replicate 20 CHR ''a''\<rparr>"

definition sample_envelope :: bootstrap_envelope where
  "sample_envelope = \<lparr>be_ceremony_nonce = ''c'', be_iv = ''i'', be_ct = ''t'', be_tag = ''g'', be_sender_pk = ''s''\<rparr>"

definition sample_deliver :: bootstrap_message where
  "sample_deliver = deliver_for (join_sample_env True True) ''me'' sample_bundle sample_envelope"

lemma sample_newcomer:
  "let js = run_join_brain (join_sample_env False True) [(0, EvQuote ''peer'' 0 ''g'' ''quote'' 5)] (join_start (join_sample_env False True) ())
   in \<not> js_bootstrapped js \<and> js_bootstrapped (join_step (join_sample_env False True) 1000 (EvMessage sample_deliver) js)"
  by (simp add: Let_def join_start_def query_bootstrapped_def current_sealed_epoch_def parse_epoch_digest_def status_is_def
      join_sample_env_def json_index_def join_step_def on_peer_quote_def record_epoch_def sample_deliver_def deliver_for_def
      on_join_deliver_eq eq_ignore_case_def newcomer_handle_deliver_def sample_bundle_def epoch_gate_def max_fresh_def
      fresh_epochs_def PEER_EPOCH_TTL_def bootstrap_bundle_import_def post_and_parse_def parse_import_response_def)


definition sample_joining :: "(string \<times> nat) list \<Rightarrow> unit join_state" where
  "sample_joining pending =
     \<lparr>js_world = (), js_out = [], js_observed = [], js_bootstrapped = True, js_last_request = None, js_request_retries = 0,
      js_halted = False, js_served = {}, js_pending = pending, js_last_drift_check = None, js_drift_since = None, js_drift_flagged = False\<rparr>"

lemma sample_prepare: "source_prepare (join_sample_env True w) () = (Some (sample_bundle, 0), ())"
proof -
  have a: "char_of (97 :: nat) = CHR ''a''" by code_simp
  have "\<exists>w. unpack_membership_signers sample_lib (replicate 24 CHR ''a'') = [\<lparr>account_id_hex = replicate 20 CHR ''a'', wire_weight = w\<rparr>]"
    by (simp add: unpack_membership_signers_def sample_lib_def chunks_exact_24.simps [of "replicate 24 x" for x]
        chunks_exact_24.simps [of "[]"] a)
  then obtain v where "unpack_membership_signers sample_lib (replicate 24 CHR ''a'') = [\<lparr>account_id_hex = replicate 20 CHR ''a'', wire_weight = v\<rparr>]"
    by blast
  moreover have "enclave_sync_state (join_sample_env True w) () = (Some \<lparr>authority_epoch = 5, projection_confirmed_epoch = 5, in_sync = True\<rparr>, ())"
    by (simp add: join_sample_env_def enclave_sync_state_def parse_sync_state_def status_is_def json_index_def require_def)
  moreover have "je_load (join_sample_env True w) = Some (\<lambda>_. Some sample_bundle)" "je_lib (join_sample_env True w) = sample_lib"
      "je_account (join_sample_env True w) = replicate 20 CHR ''a''" "mb_authority_epoch sample_bundle = 5"
      "mb_authority_signers_hex sample_bundle = replicate 24 CHR ''a''"
    by (simp_all add: join_sample_env_def sample_bundle_def)
  ultimately show ?thesis by (simp add: source_prepare_def election_rank_def)
qed

theorem source_serves_current_witness:
  "served_from (join_sample_env True True) (deliver_for (join_sample_env True True) ''new'' sample_bundle sample_envelope)"
proof (rule conjunct2 [OF source_serves_current [where now = 0 and ev = "EvMessage (JoinRequest ''new'' 0 ''g'')" and js = "sample_joining []"]])
  show "deliver_for (join_sample_env True True) ''new'' sample_bundle sample_envelope
      \<in> set (js_out (join_step (join_sample_env True True) 0 (EvMessage (JoinRequest ''new'' 0 ''g'')) (sample_joining [])))"
    using sample_prepare [of True]
    by (simp add: join_step_def on_join_request_def sample_joining_def join_sample_env_def eq_ignore_case_def ascii_lower_def
        source_serve_def bootstrap_bundle_export_def post_and_parse_def parse_export_response_def str_field_def publish_join_def sample_envelope_def)
qed (simp_all add: sample_joining_def deliver_for_def)

theorem imported_statement_is_exported_witness:
  "json_get (build_import_request (import_input (join_sample_env False True) sample_deliver 9)) ''authority_epoch''
     = json_get (build_export_request (export_input (join_sample_env True True) ''me'' sample_bundle 7)) ''authority_epoch''"
  using imported_statement_is_exported [of "join_sample_env False True" "join_sample_env True True" "''me''" sample_bundle sample_envelope 9 7]
  unfolding sample_deliver_def by (simp add: join_sample_env_def)

theorem election_has_one_primary_witness:
  "\<exists>!x. x \<in> (map ascii_lower \<circ> account_id_hex) ` set [\<lparr>account_id_hex = ''ab'', wire_weight = 1\<rparr>]
      \<and> election_rank x [\<lparr>account_id_hex = ''ab'', wire_weight = 1\<rparr>] = Some 0"
  by (rule election_has_one_primary [of "''ab''" "[\<lparr>account_id_hex = ''ab'', wire_weight = 1\<rparr>]", THEN conjunct2, THEN conjunct2, THEN conjunct2, THEN mp]) simp

theorem failed_fallback_never_retried_witness:
  "{x \<in> set (js_out (on_housekeeping (join_sample_env True False) 7
       (run_join_brain (join_sample_env True False) [] (on_housekeeping (join_sample_env True False) 5 (sample_joining [(''new'', 3)]))))).
     \<not> is_JoinRequest x \<and> jd_recipient x = ''new''}
   \<subseteq> set (js_out (on_housekeeping (join_sample_env True False) 5 (sample_joining [(''new'', 3)])))"
proof (rule subsetI, elim CollectE conjE)
  fix x
  let ?E = "join_sample_env True False" and ?js = "sample_joining [(''new'', 3)]"
  assume x: "x \<in> set (js_out (on_housekeeping ?E 7 (run_join_brain ?E [] (on_housekeeping ?E 5 ?js))))" "\<not> is_JoinRequest x" "jd_recipient x = ''new''"
  have p: "source_prepare ?E (js_world ?js) = (Some (sample_bundle, 0), ())" using sample_prepare by simp
  have d: "due_requests 5 ?js = [''new'']" "\<not> js_drift_flagged ?js" by (simp_all add: due_requests_def sample_joining_def)
  have e: "\<exists>e. bootstrap_bundle_export (je_post ?E) (je_base ?E) (export_input ?E ''new'' sample_bundle (je_unix ?E ())) () = (Err e, ())"
    by (simp add: bootstrap_bundle_export_def join_sample_env_def post_and_parse_def parse_export_response_def)
  then obtain e where e: "bootstrap_bundle_export (je_post ?E) (je_base ?E) (export_input ?E ''new'' sample_bundle (je_unix ?E ())) () = (Err e, ())" ..
  show "x \<in> set (js_out (on_housekeeping ?E 5 ?js))"
    using failed_fallback_never_retried [OF d p e refl x] by simp
qed

end
