(* ===== verification/PathACapacity.thy ===== *)
theory PathACapacity
  imports Auth
begin

text \<open>
  \<^verbatim>\<open>orchestrator/src/path_a_capacity.rs\<close>: the check that runs before the state of an enclave is migrated.
  It reads the sealed files of a node and compares their number and size with every limit of the
  migration. A directory is the list of its entries: name, whether it is a file, and its content.
  The rendered table is not modelled.
\<close>

definition EXPORT_CIPHER_BUF_BYTES :: nat where "EXPORT_CIPHER_BUF_BYTES = 16 * 1024 * 1024"
definition ENCLAVE_HEAP_MAX_BYTES :: nat where "ENCLAVE_HEAP_MAX_BYTES = 64 * 1024 * 1024"
definition MANIFEST_MAX_FILES :: nat where "MANIFEST_MAX_FILES = 512"
definition PERP_STATE_MAX_FILES_PER_SHARD :: nat where "PERP_STATE_MAX_FILES_PER_SHARD = 200"
definition HEAP_PEAK_FACTOR :: nat where "HEAP_PEAK_FACTOR = 3"
definition SEAL_OVERHEAD_BYTES :: nat where "SEAL_OVERHEAD_BYTES = 592"
definition PLAIN_TEXT_OFFSET :: nat where "PLAIN_TEXT_OFFSET = 512"
definition SEALED_PAYLOAD_SIZE_OFFSET :: nat where "SEALED_PAYLOAD_SIZE_OFFSET = 528"
definition SEAL_SECTION_STAMP_MAX :: nat where "SEAL_SECTION_STAMP_MAX = 64"
definition SEAL_HEADER_MIN :: nat where "SEAL_HEADER_MIN = 520"
definition SEAL_HEADER_MAX :: nat where "SEAL_HEADER_MAX = 640"

record capacity_check =
  cc_axis :: string
  cc_usage :: nat
  cc_limit :: nat
  cc_ok :: bool

definition capacity_check_new :: "string \<Rightarrow> nat \<Rightarrow> nat \<Rightarrow> capacity_check" where
  "capacity_check_new axis usage limit = \<lparr>cc_axis = axis, cc_usage = usage, cc_limit = limit, cc_ok = (usage \<le> limit)\<rparr>"

datatype meta_schema =
    LegacyB7 | LegacyB8 | LegacyB9 | LegacyB10 | LegacyB12 | LegacyB14 | LegacyB15 | LegacyB16 | LegacyB17 | LegacyB18
  | AlreadyB19 | UnknownSchema

record meta_schema_finding =
  mf_file :: string
  mf_payload_len :: "nat option"
  mf_schema :: meta_schema

record capacity_report =
  cr_total_sealed_bytes :: nat
  cr_total_files :: nat
  cr_est_payload_bytes :: nat
  cr_est_heap_peak_bytes :: nat
  cr_perp_files_by_shard :: "(nat, nat) btree"
  cr_checks :: "capacity_check list"
  cr_perp_meta_findings :: "meta_schema_finding list"

definition capacity_report_ok :: "capacity_report \<Rightarrow> bool" where
  "capacity_report_ok r = list_all cc_ok (cr_checks r)"

section \<open>File names and sealed headers\<close>

definition ends_with :: "string \<Rightarrow> string \<Rightarrow> bool" where
  "ends_with suffix s = starts_with (rev suffix) (rev s)"

definition perp_shard_of :: "string \<Rightarrow> nat option" where
  "perp_shard_of name =
     (case strip_prefix ''s'' name of
        None \<Rightarrow> None
      | Some rest \<Rightarrow>
          if \<not> str_contains ''_perp_'' name then None
          else (case parse_u64 (takeWhile is_ascii_digit rest) of
                  Some n \<Rightarrow> if n < 2 ^ 32 then Some n else None
                | None \<Rightarrow> None))"

definition read_u32_le :: "bytes \<Rightarrow> nat \<Rightarrow> nat" where
  "read_u32_le content off = of_le_bytes (take 4 (drop off content))"

definition read_sealed_payload_len :: "bytes \<Rightarrow> nat option" where
  "read_sealed_payload_len content =
     (let file_len = length content in
      if file_len < SEALED_PAYLOAD_SIZE_OFFSET + 4 then None
      else let plaintext_len = read_u32_le content PLAIN_TEXT_OFFSET;
               payload_size = read_u32_le content SEALED_PAYLOAD_SIZE_OFFSET
           in if payload_size < plaintext_len then None
              else if SEAL_SECTION_STAMP_MAX < payload_size - plaintext_len then None
              else if file_len < payload_size then None
              else if SEAL_HEADER_MIN \<le> file_len - payload_size \<and> file_len - payload_size \<le> SEAL_HEADER_MAX
                   then Some plaintext_len else None)"

definition classify_perp_meta :: "nat option \<Rightarrow> meta_schema" where
  "classify_perp_meta payload_len =
     (if payload_len = Some 88 then LegacyB7
      else if payload_len = Some 120 then LegacyB8
      else if payload_len = Some 128 then LegacyB9
      else if payload_len = Some 136 then LegacyB10
      else if payload_len = Some 144 then LegacyB12
      else if payload_len = Some 152 then LegacyB14
      else if payload_len = Some 160 then LegacyB15
      else if payload_len = Some 176 then LegacyB16
      else if payload_len = Some 184 then LegacyB17
      else if payload_len = Some 192 then LegacyB18
      else if payload_len = Some 200 then AlreadyB19
      else UnknownSchema)"

definition is_perp_meta_file :: "string \<Rightarrow> bool" where
  "is_perp_meta_file name = (starts_with ''s'' name \<and> ends_with ''_perp_meta.sealed'' name)"

section \<open>The assessment\<close>

type_synonym dir_entry = "string \<times> bool \<times> bytes"

definition is_sealed_input :: "dir_entry \<Rightarrow> bool" where
  "is_sealed_input e = (case e of (name, is_file, content) \<Rightarrow>
     is_file \<and> (ends_with ''.sealed'' name \<or> ends_with ''.account'' name))"

record dir_tally =
  tl_bytes :: nat
  tl_files :: nat
  tl_by_shard :: "(nat, nat) btree"
  tl_findings :: "meta_schema_finding list"

definition tally_entry :: "dir_entry \<Rightarrow> dir_tally \<Rightarrow> dir_tally" where
  "tally_entry e t =
     (if \<not> is_sealed_input e then t
      else case e of (name, _, content) \<Rightarrow>
        \<lparr>tl_bytes = u64_add (tl_bytes t) (length content), tl_files = u64_add (tl_files t) 1,
         tl_by_shard = (case perp_shard_of name of Some sh \<Rightarrow> bt_upsert sh 0 (\<lambda>n. u64_add n 1) (tl_by_shard t) | None \<Rightarrow> tl_by_shard t),
         tl_findings = (if is_perp_meta_file name
           then tl_findings t @ [\<lparr>mf_file = name, mf_payload_len = read_sealed_payload_len content,
                  mf_schema = classify_perp_meta (read_sealed_payload_len content)\<rparr>]
           else tl_findings t)\<rparr>)"

definition empty_tally :: dir_tally where
  "empty_tally = \<lparr>tl_bytes = 0, tl_files = 0, tl_by_shard = [], tl_findings = []\<rparr>"

definition u64_saturating_mul :: "nat \<Rightarrow> nat \<Rightarrow> nat" where
  "u64_saturating_mul a b = min (a * b) (2 ^ 64 - 1)"

definition estimate_payload :: "nat \<Rightarrow> nat \<Rightarrow> nat" where
  "estimate_payload total_sealed_bytes total_files =
     (let overhead = u64_saturating_mul total_files SEAL_OVERHEAD_BYTES
      in max (u64_saturating_sub total_sealed_bytes overhead)
           (if 0 < total_sealed_bytes \<and> total_sealed_bytes \<le> overhead then total_sealed_bytes else 0))"

definition assess_accounts_dir :: "dir_entry list option \<Rightarrow> string + capacity_report" where
  "assess_accounts_dir listing =
     (case listing of
        None \<Rightarrow> Err ''read accounts dir''
      | Some es \<Rightarrow>
          let t = fold tally_entry es empty_tally;
              findings = sort_key mf_file (tl_findings t);
              unmigratable = length (filter (\<lambda>f. mf_schema f = UnknownSchema) findings);
              payload = estimate_payload (tl_bytes t) (tl_files t);
              peak = u64_saturating_mul payload HEAP_PEAK_FACTOR;
              max_per_shard = fold max (bt_values (tl_by_shard t)) 0
          in Ok \<lparr>cr_total_sealed_bytes = tl_bytes t, cr_total_files = tl_files t, cr_est_payload_bytes = payload,
                 cr_est_heap_peak_bytes = peak, cr_perp_files_by_shard = tl_by_shard t,
                 cr_checks = [capacity_check_new ''export ciphertext buffer'' payload EXPORT_CIPHER_BUF_BYTES,
                   capacity_check_new ''enclave heap'' peak ENCLAVE_HEAP_MAX_BYTES,
                   capacity_check_new ''migration manifest'' (tl_files t) MANIFEST_MAX_FILES,
                   capacity_check_new ''perp-state files per shard'' max_per_shard PERP_STATE_MAX_FILES_PER_SHARD,
                   capacity_check_new ''non-migratable metas'' unmigratable 0],
                 cr_perp_meta_findings = findings\<rparr>)"

definition assess_and_gate :: "dir_entry list option \<Rightarrow> string + capacity_report" where
  "assess_and_gate listing =
     result_bind (assess_accounts_dir listing) (\<lambda>report.
       if capacity_report_ok report then Ok report else Err ''pre-flight capacity check FAILED'')"

end
