(* ===== verification/PathA.thy ===== *)
theory PathA
  imports PathACapacity Membership Projection
begin

text \<open>
  The migration of an enclave's state to a new enclave: the ceremony driver
  (\<^verbatim>\<open>orchestrator/src/path_a_ceremony.rs\<close>), its HTTP client (\<^verbatim>\<open>path_a_http_client.rs\<close>), the collector of
  delegation signatures (\<^verbatim>\<open>path_a_delegation.rs\<close>), the boot check and clean-up of a rehearsal
  (\<^verbatim>\<open>node_deploy.rs\<close>) and the admin route (\<^verbatim>\<open>path_a_migrate_admin.rs\<close>). What the node does to the
  outside is a list of effects; the enclaves, the peers, systemd and the file system are a
  \<open>pa_env\<close>, whose answers may depend on all effects so far.
\<close>

section \<open>Effects and calls\<close>

datatype pa_effect =
    Posted (ef_url: string) (ef_body: json)
  | DelegationAsked bytes bytes
  | Systemctl string string
  | FileRemoved string

type_synonym pa_log = "pa_effect list"

record 'e pa_env =
  pe_lib :: xrpl_lib
  pe_post :: "pa_log \<Rightarrow> string \<Rightarrow> json \<Rightarrow> http_reply"
  pe_relay :: "pa_log \<Rightarrow> bytes \<Rightarrow> bytes \<Rightarrow> bool \<times> (nat \<times> 'e signing_message) list"
  pe_nonce :: "pa_log \<Rightarrow> bytes"
  pe_systemctl :: "pa_log \<Rightarrow> string \<Rightarrow> string \<Rightarrow> bool"
  pe_dir :: "pa_log \<Rightarrow> string \<Rightarrow> (string \<times> bool) list option"
  pe_read :: "pa_log \<Rightarrow> string \<Rightarrow> string option"
  pe_remove :: "pa_log \<Rightarrow> string \<Rightarrow> bool"
  pe_version :: "pa_log \<Rightarrow> nat \<Rightarrow> (nat \<times> json option) list"
  pe_url_port :: "string \<Rightarrow> nat option option"
  pe_config :: "pa_log \<Rightarrow> string \<Rightarrow> json option"
  pe_client :: bool

text \<open>The \<open>?\<close> operator: go on with the value, or stop with the error; the effects stay.\<close>

definition and_then :: "('s \<Rightarrow> (string + 'a) \<times> 's) \<Rightarrow> ('a \<Rightarrow> 's \<Rightarrow> (string + 'b) \<times> 's) \<Rightarrow> 's \<Rightarrow> (string + 'b) \<times> 's" where
  "and_then f g s = (case f s of (Inl e, s1) \<Rightarrow> (Inl e, s1) | (Inr x, s1) \<Rightarrow> g x s1)"

definition pure :: "string + 'a \<Rightarrow> 's \<Rightarrow> (string + 'a) \<times> 's" where
  "pure r s = (r, s)"

section \<open>The interface of the enclaves\<close>

record export_result =
  ex_ciphertext :: bytes
  ex_ephemeral_pk :: bytes
  ex_tag :: bytes
  ex_la_report_old :: bytes

record 's enclave_api =
  get_target_info :: "string \<Rightarrow> 's \<Rightarrow> (string + bytes) \<times> 's"
  generate_keypair :: "string \<Rightarrow> bytes \<Rightarrow> bytes \<Rightarrow> bytes \<Rightarrow> 's \<Rightarrow> (string + bytes \<times> bytes) \<times> 's"
  collect_delegation_bundle :: "bytes \<Rightarrow> bytes \<Rightarrow> 's \<Rightarrow> (string + bytes) \<times> 's"
  export_state :: "string \<Rightarrow> bytes \<Rightarrow> bytes \<Rightarrow> bytes \<Rightarrow> bytes \<Rightarrow> bytes \<Rightarrow> bytes \<Rightarrow> bool \<Rightarrow> 's \<Rightarrow> (string + export_result) \<times> 's"
  import_state :: "string \<Rightarrow> bytes \<Rightarrow> bytes \<Rightarrow> bytes \<Rightarrow> bytes \<Rightarrow> bytes \<Rightarrow> bytes \<Rightarrow> 's \<Rightarrow> (string + bytes) \<times> 's"
  verify_import_confirmation :: "string \<Rightarrow> bytes \<Rightarrow> bytes \<Rightarrow> bytes \<Rightarrow> bytes \<Rightarrow> 's \<Rightarrow> (string + unit) \<times> 's"

section \<open>The HTTP client\<close>

record response_envelope =
  rv_status :: string
  rv_code :: "int option"
  rv_message :: "string option"

text \<open>Members with a default: absent or null is \<open>None\<close>, another type is a decoding error.\<close>

definition opt_str_member :: "json \<Rightarrow> string \<Rightarrow> string option option" where
  "opt_str_member j k =
     (case json_get j k of None \<Rightarrow> Some None | Some JNull \<Rightarrow> Some None | Some (JStr t) \<Rightarrow> Some (Some t) | Some _ \<Rightarrow> None)"

definition opt_i32_member :: "json \<Rightarrow> string \<Rightarrow> int option option" where
  "opt_i32_member j k =
     (case json_get j k of None \<Rightarrow> Some None | Some JNull \<Rightarrow> Some None
      | Some (JNum n) \<Rightarrow> (if - (2 ^ 31) \<le> n \<and> n < 2 ^ 31 then Some (Some n) else None) | Some _ \<Rightarrow> None)"

definition envelope_of :: "json \<Rightarrow> response_envelope option" where
  "envelope_of j =
     (case (Option.bind (json_get j ''status'') json_as_str, opt_i32_member j ''code'', opt_str_member j ''message'') of
        (Some st, Some c, Some msg) \<Rightarrow> Some \<lparr>rv_status = st, rv_code = c, rv_message = msg\<rparr>
      | _ \<Rightarrow> None)"

definition check_status :: "response_envelope \<Rightarrow> string \<Rightarrow> string + unit" where
  "check_status e route =
     (if rv_status e = ''ok'' then Ok ()
      else Err (''enclave '' @ route @ '' returned status='' @ rv_status e))"

definition decode_response :: "string list \<Rightarrow> json \<Rightarrow> string + response_envelope \<times> (string \<Rightarrow> string option)" where
  "decode_response names j =
     (case envelope_of j of
        Some e \<Rightarrow> if list_all (\<lambda>k. opt_str_member j k \<noteq> None) names
                 then Ok (e, \<lambda>k. case opt_str_member j k of Some v \<Rightarrow> v | None \<Rightarrow> None)
                 else Err ''decode JSON''
      | None \<Rightarrow> Err ''decode JSON'')"

definition require_field :: "string option \<Rightarrow> string \<Rightarrow> string + string" where
  "require_field f name = (case f of Some t \<Rightarrow> Ok t | None \<Rightarrow> Err (''response missing '' @ name))"

definition decode_hex_field :: "xrpl_lib \<Rightarrow> string \<Rightarrow> string \<Rightarrow> string + bytes" where
  "decode_hex_field L f name = (case hex_dec L f of Some b \<Rightarrow> Ok b | None \<Rightarrow> Err (name @ '' not valid hex''))"

definition hex_member :: "xrpl_lib \<Rightarrow> (string \<Rightarrow> string option) \<Rightarrow> string \<Rightarrow> string + bytes" where
  "hex_member L f name = result_bind (require_field (f name) name) (\<lambda>h. decode_hex_field L h name)"

definition ensure_len :: "nat \<Rightarrow> bytes \<Rightarrow> string + bytes" where
  "ensure_len n b = (if length b = n then Ok b else Err (''expected '' @ nat_to_dec n @ '' bytes''))"

text \<open>One request: send, decode the reply, check its status, read its members.\<close>

definition path_a_call ::
  "'e pa_env \<Rightarrow> string \<Rightarrow> string \<Rightarrow> json \<Rightarrow> string list \<Rightarrow> ((string \<Rightarrow> string option) \<Rightarrow> string + 'a) \<Rightarrow> pa_log \<Rightarrow> (string + 'a) \<times> pa_log" where
  "path_a_call E base route body names parse log =
     (let url = base @ ''/v1/path-a/'' @ route
      in (case pe_post E log url body of
            NoAnswer e \<Rightarrow> Err (''POST '' @ url)
          | BadBody _ e \<Rightarrow> Err ''decode JSON''
          | Body _ b \<Rightarrow> result_bind (decode_response names b) (\<lambda>(e, f).
              result_bind (check_status e route) (\<lambda>_. parse f)),
          log @ [Posted url body]))"

definition http_get_target_info :: "'e pa_env \<Rightarrow> string \<Rightarrow> pa_log \<Rightarrow> (string + bytes) \<times> pa_log" where
  "http_get_target_info E base =
     path_a_call E base ''target-info'' JNull [''target_info_hex'']
       (\<lambda>f. result_bind (hex_member (pe_lib E) f ''target_info_hex'') (ensure_len 512))"

definition http_generate_keypair ::
  "'e pa_env \<Rightarrow> string \<Rightarrow> bytes \<Rightarrow> bytes \<Rightarrow> bytes \<Rightarrow> pa_log \<Rightarrow> (string + bytes \<times> bytes) \<times> pa_log" where
  "http_generate_keypair E new_base expected_mrenclave_old nonce target_info_of_old =
     path_a_call E new_base ''generate-keypair''
       (JObj [(''expected_mrenclave_old_hex'', JStr (hex_enc (pe_lib E) expected_mrenclave_old)),
              (''ceremony_nonce_hex'', JStr (hex_enc (pe_lib E) nonce)),
              (''target_info_of_old_hex'', JStr (hex_enc (pe_lib E) target_info_of_old))])
       [''peer_pk_compressed_hex'', ''la_report_of_new_hex'']
       (\<lambda>f. result_bind (hex_member (pe_lib E) f ''peer_pk_compressed_hex'') (\<lambda>pk.
            result_bind (hex_member (pe_lib E) f ''la_report_of_new_hex'') (\<lambda>la.
            result_bind (ensure_len 33 pk) (\<lambda>_. result_bind (ensure_len 432 la) (\<lambda>_. Ok (pk, la))))))"

definition http_collect_delegation_bundle :: "bytes \<Rightarrow> bytes \<Rightarrow> pa_log \<Rightarrow> (string + bytes) \<times> pa_log" where
  "http_collect_delegation_bundle mrenclave_new nonce log =
     (Err ''collect_delegation_bundle not implemented in HttpEnclaveApi yet'', log)"

definition http_export_state ::
  "'e pa_env \<Rightarrow> string \<Rightarrow> bytes \<Rightarrow> bytes \<Rightarrow> bytes \<Rightarrow> bytes \<Rightarrow> bytes \<Rightarrow> bytes \<Rightarrow> bool \<Rightarrow> pa_log \<Rightarrow> (string + export_result) \<times> pa_log" where
  "http_export_state E old_base target_info_of_new la_report_of_new expected_mrenclave_new nonce peer_pk bundle dry_run =
     path_a_call E old_base ''export-state''
       (JObj [(''target_info_of_new_hex'', JStr (hex_enc (pe_lib E) target_info_of_new)),
              (''la_report_of_new_hex'', JStr (hex_enc (pe_lib E) la_report_of_new)),
              (''expected_mrenclave_new_hex'', JStr (hex_enc (pe_lib E) expected_mrenclave_new)),
              (''ceremony_nonce_hex'', JStr (hex_enc (pe_lib E) nonce)),
              (''peer_pk_compressed_hex'', JStr (hex_enc (pe_lib E) peer_pk)),
              (''delegation_bundle_hex'', JStr (hex_enc (pe_lib E) bundle)),
              (''dry_run'', JBool dry_run)])
       [''ciphertext_hex'', ''ephemeral_pk_hex'', ''tag_hex'', ''la_report_old_hex'']
       (\<lambda>f. result_bind (hex_member (pe_lib E) f ''ciphertext_hex'') (\<lambda>ct.
            result_bind (hex_member (pe_lib E) f ''ephemeral_pk_hex'') (\<lambda>pk.
            result_bind (hex_member (pe_lib E) f ''tag_hex'') (\<lambda>tg.
            result_bind (hex_member (pe_lib E) f ''la_report_old_hex'') (\<lambda>la.
            result_bind (ensure_len 33 pk) (\<lambda>_. result_bind (ensure_len 16 tg) (\<lambda>_. result_bind (ensure_len 432 la) (\<lambda>_.
            Ok \<lparr>ex_ciphertext = ct, ex_ephemeral_pk = pk, ex_tag = tg, ex_la_report_old = la\<rparr>))))))))"

definition http_import_state ::
  "'e pa_env \<Rightarrow> string \<Rightarrow> bytes \<Rightarrow> bytes \<Rightarrow> bytes \<Rightarrow> bytes \<Rightarrow> bytes \<Rightarrow> bytes \<Rightarrow> pa_log \<Rightarrow> (string + bytes) \<times> pa_log" where
  "http_import_state E new_base target_info_of_old la_report_of_old nonce ct ephemeral_pk tg =
     path_a_call E new_base ''import-state''
       (JObj [(''target_info_of_old_hex'', JStr (hex_enc (pe_lib E) target_info_of_old)),
              (''la_report_of_old_hex'', JStr (hex_enc (pe_lib E) la_report_of_old)),
              (''ceremony_nonce_hex'', JStr (hex_enc (pe_lib E) nonce)),
              (''ciphertext_hex'', JStr (hex_enc (pe_lib E) ct)),
              (''ephemeral_pk_hex'', JStr (hex_enc (pe_lib E) ephemeral_pk)),
              (''tag_hex'', JStr (hex_enc (pe_lib E) tg))])
       [''completion_la_report_hex'']
       (\<lambda>f. result_bind (hex_member (pe_lib E) f ''completion_la_report_hex'') (ensure_len 432))"

definition http_verify_import_confirmation ::
  "'e pa_env \<Rightarrow> string \<Rightarrow> bytes \<Rightarrow> bytes \<Rightarrow> bytes \<Rightarrow> bytes \<Rightarrow> pa_log \<Rightarrow> (string + unit) \<times> pa_log" where
  "http_verify_import_confirmation E old_base completion blob_hash nonce manifest_hash =
     path_a_call E old_base ''verify-confirmation''
       (JObj [(''completion_la_report_hex'', JStr (hex_enc (pe_lib E) completion)),
              (''expected_blob_hash_hex'', JStr (hex_enc (pe_lib E) blob_hash)),
              (''expected_ceremony_nonce_hex'', JStr (hex_enc (pe_lib E) nonce)),
              (''expected_manifest_hash_hex'', JStr (hex_enc (pe_lib E) manifest_hash))])
       [] (\<lambda>_. Ok ())"

definition http_enclave_api :: "'e pa_env \<Rightarrow> pa_log enclave_api" where
  "http_enclave_api E = \<lparr>get_target_info = http_get_target_info E, generate_keypair = http_generate_keypair E,
     collect_delegation_bundle = http_collect_delegation_bundle, export_state = http_export_state E,
     import_state = http_import_state E, verify_import_confirmation = http_verify_import_confirmation E\<rparr>"

section \<open>The delegation collector\<close>

definition DELEGATION_TIMEOUT :: nat where "DELEGATION_TIMEOUT = 30000"

definition parse_delegation_response :: "xrpl_lib \<Rightarrow> 'e signing_message \<Rightarrow> (bytes \<times> bytes) option" where
  "parse_delegation_response L msg =
     (case msg of
        Response _ _ der_signature pubkey err \<Rightarrow>
          if err \<noteq> None then None
          else (case (der_signature, pubkey) of
            (Some sig_hex, Some pk_hex) \<Rightarrow>
              (case (hex_dec L sig_hex, hex_dec L pk_hex) of
                 (Some sig, Some pk) \<Rightarrow>
                   if length pk \<noteq> 33 then None
                   else if length sig < 8 \<or> 72 < length sig then None else Some (pk, sig)
               | _ \<Rightarrow> None)
          | _ \<Rightarrow> None)
      | _ \<Rightarrow> None)"

definition build_delegation_bundle :: "(bytes \<times> bytes) list \<Rightarrow> bytes" where
  "build_delegation_bundle entries = quorum_bundle_build entries"

text \<open>The replies that arrive, with the time since the request was handed to the relay.\<close>

definition delegation_collect :: "'e pa_env \<Rightarrow> nat \<Rightarrow> bytes \<Rightarrow> bytes \<Rightarrow> pa_log \<Rightarrow> (string + bytes) \<times> pa_log" where
  "delegation_collect E timeout mrenclave_new nonce log =
     (case pe_relay E log mrenclave_new nonce of (relay_open, arrivals) \<Rightarrow>
        if \<not> relay_open then (Err ''send PathADelegationRelay to p2p run-loop'', log)
        else let entries = collect_loop (parse_delegation_response (pe_lib E)) timeout arrivals []
             in (if entries = [] then Err ''collected zero delegation responses'' else Ok (build_delegation_bundle entries),
                 log @ [DelegationAsked mrenclave_new nonce]))"

definition composed_enclave_api :: "'s enclave_api \<Rightarrow> (bytes \<Rightarrow> bytes \<Rightarrow> 's \<Rightarrow> (string + bytes) \<times> 's) \<Rightarrow> 's enclave_api" where
  "composed_enclave_api http delegation = http\<lparr>collect_delegation_bundle := delegation\<rparr>"

end
