(* ===== verification/PathADriver.thy ===== *)
theory PathADriver
  imports PathA
begin

text \<open>
  The ceremony driver of \<^verbatim>\<open>orchestrator/src/path_a_ceremony.rs\<close>, the slots, boot check and clean-up of
  \<^verbatim>\<open>node_deploy.rs\<close>, and the route of \<^verbatim>\<open>path_a_migrate_admin.rs\<close> that composes them.
\<close>

section \<open>The ceremony\<close>

datatype ceremony_state =
    Idle | PreparingHandshake | KeypairRequested | CollectingDelegation | ExportRequested | ImportRequested
  | ConfirmationRequested | Succeeded | DryRunComplete | Failed

record ceremony_params =
  expected_mrenclave_new :: string
  old_api_base :: string
  new_api_base :: string
  cp_dry_run :: bool

record ceremony_success =
  ceremony_nonce_hex :: string
  mrenclave_new_hex :: string
  manifest_hash_hex :: string
  cs_dry_run :: bool

definition decode_hex_32 :: "xrpl_lib \<Rightarrow> string \<Rightarrow> bytes option" where
  "decode_hex_32 L s =
     (if length s \<noteq> 64 then None
      else case hex_dec L s of Some b \<Rightarrow> if length b \<noteq> 32 then None else Some b | None \<Rightarrow> None)"

definition vec_to_array_33 :: "bytes \<Rightarrow> string + bytes" where
  "vec_to_array_33 v = (if length v \<noteq> 33 then Err ''expected 33 bytes'' else Ok v)"

definition vec_to_array_432 :: "bytes \<Rightarrow> string + bytes" where
  "vec_to_array_432 v = (if length v \<noteq> 432 then Err ''expected 432 bytes (sgx_report_t)'' else Ok v)"

definition vec_to_array_512 :: "bytes \<Rightarrow> string + bytes" where
  "vec_to_array_512 v = (if length v \<noteq> 512 then Err ''expected 512 bytes (sgx_target_info_t)'' else Ok v)"

definition mrenclave_from_target_info :: "bytes \<Rightarrow> bytes" where
  "mrenclave_from_target_info target_info = take 32 target_info"

text \<open>A driver step works on the state behind the interface and the phase.\<close>

definition enter :: "ceremony_state \<Rightarrow> 's \<times> ceremony_state \<Rightarrow> (string + unit) \<times> 's \<times> ceremony_state" where
  "enter ph s = (Ok (), fst s, ph)"

definition calling :: "('s \<Rightarrow> (string + 'a) \<times> 's) \<Rightarrow> 's \<times> ceremony_state \<Rightarrow> (string + 'a) \<times> 's \<times> ceremony_state" where
  "calling f s = (case f (fst s) of (r, w) \<Rightarrow> (r, w, snd s))"

definition run_inner ::
  "xrpl_lib \<Rightarrow> ('s \<Rightarrow> bytes) \<Rightarrow> 's enclave_api \<Rightarrow> ceremony_params \<Rightarrow> 's \<times> ceremony_state \<Rightarrow> (string + ceremony_success) \<times> 's \<times> ceremony_state" where
  "run_inner L nonce_of api p =
     and_then (enter PreparingHandshake) (\<lambda>_.
     and_then (pure (case decode_hex_32 L (expected_mrenclave_new p) of Some b \<Rightarrow> Ok b | None \<Rightarrow> Err ''expected_mrenclave_new not 64-char hex'')) (\<lambda>mrenclave_new.
     and_then (calling (\<lambda>w. (Ok (nonce_of w), w))) (\<lambda>nonce.
     and_then (calling (get_target_info api (old_api_base p))) (\<lambda>ti_old_vec.
     and_then (pure (vec_to_array_512 ti_old_vec)) (\<lambda>ti_old.
     and_then (calling (get_target_info api (new_api_base p))) (\<lambda>ti_new_vec.
     and_then (pure (vec_to_array_512 ti_new_vec)) (\<lambda>ti_new.
     and_then (enter KeypairRequested) (\<lambda>_.
     and_then (calling (generate_keypair api (new_api_base p) (mrenclave_from_target_info ti_old) nonce ti_old)) (\<lambda>(pk_vec, la_vec).
     and_then (pure (vec_to_array_33 pk_vec)) (\<lambda>peer_pk.
     and_then (pure (vec_to_array_432 la_vec)) (\<lambda>la_new.
     and_then (enter CollectingDelegation) (\<lambda>_.
     and_then (calling (collect_delegation_bundle api mrenclave_new nonce)) (\<lambda>bundle.
     and_then (enter ExportRequested) (\<lambda>_.
     and_then (calling (export_state api (old_api_base p) ti_new la_new mrenclave_new nonce peer_pk bundle (cp_dry_run p))) (\<lambda>ex.
     and_then (pure (if length (ex_ciphertext ex) < 44 then Err ''OLD export returned ciphertext shorter than wire-prefix (44 bytes)'' else Ok ())) (\<lambda>_.
       let manifest_hash = take 32 (ex_ciphertext ex);
           blob_hash = sha256 L (ex_ciphertext ex);
           success = \<lparr>ceremony_nonce_hex = hex_enc L nonce, mrenclave_new_hex = hex_enc L mrenclave_new,
                      manifest_hash_hex = hex_enc L manifest_hash, cs_dry_run = cp_dry_run p\<rparr>
       in and_then (enter ImportRequested) (\<lambda>_.
          and_then (calling (import_state api (new_api_base p) ti_old (ex_la_report_old ex) nonce (ex_ciphertext ex) (ex_ephemeral_pk ex) (ex_tag ex))) (\<lambda>completion_vec.
          and_then (pure (vec_to_array_432 completion_vec)) (\<lambda>completion.
            if cp_dry_run p then and_then (enter DryRunComplete) (\<lambda>_. pure (Ok success))
            else and_then (enter ConfirmationRequested) (\<lambda>_.
                 and_then (calling (verify_import_confirmation api (old_api_base p) completion blob_hash nonce manifest_hash)) (\<lambda>_.
                 and_then (enter Succeeded) (\<lambda>_. pure (Ok success)))))))))))))))))))))))"

definition run_ceremony ::
  "xrpl_lib \<Rightarrow> ('s \<Rightarrow> bytes) \<Rightarrow> 's enclave_api \<Rightarrow> ceremony_params \<Rightarrow> 's \<times> ceremony_state \<Rightarrow> (string + ceremony_success) \<times> 's \<times> ceremony_state" where
  "run_ceremony L nonce_of api p s =
     (case run_inner L nonce_of api p s of
        (Inl e, w, ph) \<Rightarrow> (Inl e, w, Failed)
      | (Inr x, w, ph) \<Rightarrow> (Inr x, w, ph))"

section \<open>Slots and ports\<close>

record enclave_slot =
  slot_unit :: string
  deploy_dir :: string

definition SLOTS :: "enclave_slot list" where
  "SLOTS = [\<lparr>slot_unit = ''perp-dex-enclave'', deploy_dir = ''/home/azureuser/perp''\<rparr>,
            \<lparr>slot_unit = ''perp-dex-enclave-next'', deploy_dir = ''/home/azureuser/perp-next''\<rparr>]"

definition port_of_base :: "'e pa_env \<Rightarrow> string \<Rightarrow> string + nat" where
  "port_of_base E base =
     (case pe_url_port E base of
        None \<Rightarrow> Err ''parse enclave base''
      | Some None \<Rightarrow> Err ''enclave base names no explicit port''
      | Some (Some port) \<Rightarrow> Ok port)"

text \<open>The parsed \<^verbatim>\<open>config.json\<close> of a slot, if it can be read.\<close>

definition port_from_config_json :: "json option \<Rightarrow> nat option" where
  "port_from_config_json j =
     Option.bind (Option.bind (Option.bind j (\<lambda>v. json_get v ''port'')) json_as_u64) (\<lambda>n. if n < 2 ^ 16 then Some n else None)"

definition resolve_slot_with :: "nat \<Rightarrow> (string \<Rightarrow> json option) \<Rightarrow> string + enclave_slot" where
  "resolve_slot_with port read_config =
     (case filter (\<lambda>slot. port_from_config_json (read_config (deploy_dir slot @ ''/config.json'')) = Some port) SLOTS of
        [one] \<Rightarrow> Ok one
      | [] \<Rightarrow> Err ''no enclave slot on this node is configured for the port''
      | _ \<Rightarrow> Err ''more than one enclave slot on this node is configured for the port'')"

definition check_migration_ports :: "nat \<Rightarrow> nat \<Rightarrow> nat \<Rightarrow> string + unit" where
  "check_migration_ports old_port new_port own_port =
     (if new_port = old_port then Err ''NEW and OLD are the same enclave''
      else if new_port = own_port then Err ''NEW is the enclave this orchestrator serves''
      else Ok ())"

section \<open>Booting on the migrated state\<close>

record boot_proof =
  sealed_files_before :: nat
  sealed_files_after :: nat
  came_back :: bool
  mrenclave_after :: "string option"
  post_migration_marker :: bool
  load_refusal :: "string option"
  missing_from_new :: "string list"
  extra_in_new :: "string list"

definition MAY_BE_ABSENT_FROM_NEW :: "string list" where
  "MAY_BE_ABSENT_FROM_NEW = [''recent_nonces.sealed'', ''path_a_retired.sealed'']"

definition ABSENT_BUT_MUST_BE_REESTABLISHED :: "string list" where
  "ABSENT_BUT_MUST_BE_REESTABLISHED = [''trusted_mrenclaves.sealed'']"

definition strip_suffix :: "string \<Rightarrow> string \<Rightarrow> string option" where
  "strip_suffix suffix s = (if ends_with suffix s then Some (take (length s - length suffix) s) else None)"

definition is_write_only_baseline_marker :: "string \<Rightarrow> bool" where
  "is_write_only_baseline_marker name =
     (case Option.bind (strip_prefix ''s'' name) (strip_suffix ''_perp_baseline.sealed'') of
        Some shard \<Rightarrow> shard \<noteq> [] \<and> list_all is_ascii_digit shard
      | None \<Rightarrow> False)"

definition boot_followups :: "boot_proof \<Rightarrow> string list" where
  "boot_followups p = filter (\<lambda>n. n \<in> set ABSENT_BUT_MUST_BE_REESTABLISHED) (missing_from_new p)"

definition judge_boot_proof :: "boot_proof \<Rightarrow> string + unit" where
  "judge_boot_proof p =
     (if sealed_files_before p \<le> 1 then Err ''nothing to boot ON''
      else if \<not> came_back p then Err ''NEW did NOT come back with the migrated set present''
      else if sealed_files_after p \<noteq> sealed_files_before p then Err ''the sealed set CHANGED across the boot''
      else if load_refusal p \<noteq> None then Err ''NEW came back BUT printed a refusal on this boot''
      else if filter (\<lambda>n. n \<notin> set ABSENT_BUT_MUST_BE_REESTABLISHED)
                (filter (\<lambda>n. \<not> is_write_only_baseline_marker n)
                  (filter (\<lambda>n. n \<notin> set MAY_BE_ABSENT_FROM_NEW) (missing_from_new p))) \<noteq> []
           then Err ''the migration did not carry a sealed file that OLD holds and nothing explains''
      else if \<not> post_migration_marker p then Err ''never said it verified the migration manifest''
      else Ok ())"

definition file_names :: "'e pa_env \<Rightarrow> pa_log \<Rightarrow> string \<Rightarrow> string list" where
  "file_names E log dir =
     (case pe_dir E log dir of
        Some listing \<Rightarrow> sort (filter (\<lambda>n. \<not> ends_with ''.new'' n \<and> \<not> ends_with ''.tmp'' n) (map fst (filter snd listing)))
      | None \<Rightarrow> [])"

definition count_files :: "'e pa_env \<Rightarrow> pa_log \<Rightarrow> string \<Rightarrow> nat" where
  "count_files E log dir = length (file_names E log dir)"

definition sudo_systemctl :: "'e pa_env \<Rightarrow> string \<Rightarrow> string \<Rightarrow> pa_log \<Rightarrow> (string + unit) \<times> pa_log" where
  "sudo_systemctl E verb u log =
     (if pe_systemctl E log verb u then Ok () else Err ''sudo systemctl failed'', log @ [Systemctl verb u])"

text \<open>The attempts are the elapsed time at the check and the parsed answer; the clock bounds them.\<close>

fun curl_version_with_retry :: "nat \<Rightarrow> (nat \<times> json option) list \<Rightarrow> string option" where
  "curl_version_with_retry budget [] = None"
| "curl_version_with_retry budget ((elapsed, answer) # attempts) =
     (if budget \<le> elapsed then None
      else case Option.bind answer (\<lambda>v. json_as_str (json_index v ''mrenclave'')) of
        Some mre \<Rightarrow> Some mre
      | None \<Rightarrow> curl_version_with_retry budget attempts)"

definition boot_new_on_migrated_state :: "'e pa_env \<Rightarrow> enclave_slot \<Rightarrow> nat \<Rightarrow> enclave_slot \<Rightarrow> pa_log \<Rightarrow> (string + boot_proof) \<times> pa_log" where
  "boot_new_on_migrated_state E new new_port old log =
     (let accounts_dir = deploy_dir new @ ''/accounts'';
          log_path = deploy_dir new @ ''/enclave.log'';
          before = count_files E log accounts_dir;
          log_offset = (case pe_read E log log_path of Some t \<Rightarrow> length t | None \<Rightarrow> 0)
      in and_then (sudo_systemctl E ''stop'' (slot_unit new)) (\<lambda>_.
         and_then (sudo_systemctl E ''start'' (slot_unit new)) (\<lambda>_ log1.
           let mre = curl_version_with_retry 60000 (pe_version E log1 new_port);
               fresh = (case pe_read E log1 log_path of Some t \<Rightarrow> drop log_offset t | None \<Rightarrow> []);
               old_names = file_names E log1 (deploy_dir old @ ''/accounts'');
               new_names = file_names E log1 accounts_dir
           in (Ok \<lparr>sealed_files_before = before, sealed_files_after = count_files E log1 accounts_dir,
                   came_back = (mre \<noteq> None), mrenclave_after = mre,
                   post_migration_marker = str_contains ''migration manifest verified'' fresh,
                   load_refusal = map_option str_trim (find (\<lambda>l. str_contains ''FATAL'' l \<or> str_contains ''perpLoadState failed'' l)
                     (split_on (CHR 0x0A) fresh)),
                   missing_from_new = filter (\<lambda>n. n \<notin> set new_names) old_names,
                   extra_in_new = filter (\<lambda>n. n \<notin> set old_names) new_names\<rparr>, log1))) log)"

fun remove_files :: "'e pa_env \<Rightarrow> string \<Rightarrow> (string \<times> bool) list \<Rightarrow> pa_log \<Rightarrow> (string + unit) \<times> pa_log" where
  "remove_files E dir [] log = (Ok (), log)"
| "remove_files E dir ((name, is_file) # es) log =
     (if \<not> is_file then remove_files E dir es log
      else if pe_remove E log (dir @ ''/'' @ name) then remove_files E dir es (log @ [FileRemoved (dir @ ''/'' @ name)])
      else (Err ''remove dry-run scratch file'', log))"

definition reset_new_side_after_dry_run :: "'e pa_env \<Rightarrow> enclave_slot \<Rightarrow> pa_log \<Rightarrow> (string + unit) \<times> pa_log" where
  "reset_new_side_after_dry_run E new =
     and_then (sudo_systemctl E ''stop'' (slot_unit new)) (\<lambda>_.
     and_then (\<lambda>log. case pe_dir E log (deploy_dir new @ ''/accounts'') of
                 Some listing \<Rightarrow> remove_files E (deploy_dir new @ ''/accounts'') listing log
               | None \<Rightarrow> (Ok (), log)) (\<lambda>_.
     sudo_systemctl E ''start'' (slot_unit new)))"

section \<open>The admin route\<close>

record migrate_state_request =
  rq_expected_mrenclave_new :: string
  rq_old_api_base :: "string option"
  rq_new_api_base :: "string option"
  rq_delegation_timeout_secs :: "nat option"
  rq_dry_run :: "bool option"

record migrate_admin =
  default_old_api_base :: string
  default_new_api_base :: string
  own_enclave_base :: string

record migrate_state_response =
  mr_status :: string
  mr_success :: ceremony_success
  mr_boot_proof :: "boot_proof option"
  mr_boot_failure :: "string option"
  mr_followups :: "string list"

datatype migrate_reply =
    MigrateReply migrate_state_response
  | MigrateError (me_code: nat) (me_message: string) (me_state: "string option")

fun state_label :: "ceremony_state \<Rightarrow> string" where
  "state_label Idle = ''idle''"
| "state_label PreparingHandshake = ''preparing_handshake''"
| "state_label KeypairRequested = ''keypair_requested''"
| "state_label CollectingDelegation = ''collecting_delegation''"
| "state_label ExportRequested = ''export_requested''"
| "state_label ImportRequested = ''import_requested''"
| "state_label ConfirmationRequested = ''confirmation_requested''"
| "state_label Succeeded = ''succeeded''"
| "state_label DryRunComplete = ''dry_run_complete''"
| "state_label Failed = ''failed''"

text \<open>The ports of the two bases, checked against the enclave the node serves.\<close>

definition migration_ports :: "'e pa_env \<Rightarrow> string \<Rightarrow> string \<Rightarrow> string \<Rightarrow> string + nat \<times> nat" where
  "migration_ports E old_base new_base own_base =
     result_bind (port_of_base E old_base) (\<lambda>old_port.
     result_bind (port_of_base E new_base) (\<lambda>new_port.
     result_bind (port_of_base E own_base) (\<lambda>own_port.
     result_bind (check_migration_ports old_port new_port own_port) (\<lambda>_. Ok (old_port, new_port)))))"

definition migration_slots :: "'e pa_env \<Rightarrow> pa_log \<Rightarrow> nat \<Rightarrow> nat \<Rightarrow> string + enclave_slot \<times> enclave_slot" where
  "migration_slots E log old_port new_port =
     result_bind (resolve_slot_with old_port (pe_config E log)) (\<lambda>old_slot.
     result_bind (resolve_slot_with new_port (pe_config E log)) (\<lambda>new_slot.
     if old_slot \<noteq> new_slot then Ok (old_slot, new_slot) else Err ''OLD and NEW resolve to the same slot''))"

text \<open>Step 5a and the clean-up, after a rehearsal that succeeded.\<close>

definition after_dry_run ::
  "'e pa_env \<Rightarrow> enclave_slot \<Rightarrow> enclave_slot \<Rightarrow> nat \<Rightarrow> pa_log \<Rightarrow> (string \<times> boot_proof option \<times> string option \<times> string list) \<times> pa_log" where
  "after_dry_run E old_slot new_slot new_port log =
     (case boot_new_on_migrated_state E new_slot new_port old_slot log of
        (Inl e, log1) \<Rightarrow> ((''dry-run-boot-not-run'', None, Some (''step 5a could not be run: '' @ e), []), log1)
      | (Inr proof_of_boot, log1) \<Rightarrow>
          (case judge_boot_proof proof_of_boot of
             Inl why \<Rightarrow> ((''dry-run-boot-failed'', Some proof_of_boot, Some why, []), log1)
           | Inr _ \<Rightarrow>
               (case reset_new_side_after_dry_run E new_slot log1 of
                  (Inr _, log2) \<Rightarrow> ((''dry-run-ok'', Some proof_of_boot, None, boot_followups proof_of_boot), log2)
                | (Inl _, log2) \<Rightarrow> ((''dry-run-ok-reset-failed'', Some proof_of_boot, None, boot_followups proof_of_boot), log2))))"

definition drive_migration ::
  "'e pa_env \<Rightarrow> nat \<Rightarrow> ceremony_params \<Rightarrow> (enclave_slot \<times> enclave_slot) option \<Rightarrow> nat \<Rightarrow> pa_log \<Rightarrow> migrate_reply \<times> pa_log" where
  "drive_migration E timeout params slots new_port log =
     (case run_ceremony (pe_lib E) (pe_nonce E) (composed_enclave_api (http_enclave_api E) (delegation_collect E timeout)) params (log, Idle) of
        (Inr success, log1, ph) \<Rightarrow>
          (case slots of
             Some (old_slot, new_slot) \<Rightarrow>
               if cs_dry_run success
               then (case after_dry_run E old_slot new_slot new_port log1 of ((st, bp, bf, fu), log2) \<Rightarrow>
                       (MigrateReply \<lparr>mr_status = st, mr_success = success, mr_boot_proof = bp, mr_boot_failure = bf, mr_followups = fu\<rparr>, log2))
               else (MigrateReply \<lparr>mr_status = ''ok'', mr_success = success, mr_boot_proof = None, mr_boot_failure = None, mr_followups = []\<rparr>, log1)
           | None \<Rightarrow>
               (MigrateReply \<lparr>mr_status = ''ok'', mr_success = success, mr_boot_proof = None, mr_boot_failure = None, mr_followups = []\<rparr>, log1))
      | (Inl e, log1, ph) \<Rightarrow> (MigrateError 400 e (Some (state_label ph)), log1))"

definition handle_migrate_state :: "'e pa_env \<Rightarrow> migrate_admin \<Rightarrow> migrate_state_request \<Rightarrow> pa_log \<Rightarrow> migrate_reply \<times> pa_log" where
  "handle_migrate_state E st rq log =
     (let old_base = (case rq_old_api_base rq of Some b \<Rightarrow> b | None \<Rightarrow> default_old_api_base st);
          new_base = (case rq_new_api_base rq of Some b \<Rightarrow> b | None \<Rightarrow> default_new_api_base st);
          dry_run = (case rq_dry_run rq of Some b \<Rightarrow> b | None \<Rightarrow> False);
          timeout = (case rq_delegation_timeout_secs rq of Some secs \<Rightarrow> secs * 1000 | None \<Rightarrow> DELEGATION_TIMEOUT);
          params = \<lparr>expected_mrenclave_new = rq_expected_mrenclave_new rq, old_api_base = old_base, new_api_base = new_base,
                    cp_dry_run = dry_run\<rparr>
      in case migration_ports E old_base new_base (own_enclave_base st) of
           Inl e \<Rightarrow> (MigrateError 400 e None, log)
         | Inr (old_port, new_port) \<Rightarrow>
             (case (if dry_run then map_sum id Some (migration_slots E log old_port new_port) else Ok None) of
                Inl e \<Rightarrow> (MigrateError 400 (''dry run needs both slots resolved: '' @ e) None, log)
              | Inr slots \<Rightarrow>
                  if \<not> pe_client E then (MigrateError 500 ''HttpEnclaveApi build failed'' None, log)
                  else drive_migration E timeout params slots new_port log))"

end
