(* ===== verification/PathACapacity_Props.thy ===== *)
theory PathACapacity_Props
  imports PathACapacity
begin

text \<open>What the capacity check admits, exactly, and where its estimate of the payload is too small.\<close>

definition sealed_inputs :: "dir_entry list \<Rightarrow> dir_entry list" where
  "sealed_inputs es = filter is_sealed_input es"

definition sealed_total :: "dir_entry list \<Rightarrow> nat" where
  "sealed_total es = sum_list (map (\<lambda>(name, f, content). length content) (sealed_inputs es))"

definition shard_files :: "dir_entry list \<Rightarrow> nat \<Rightarrow> nat" where
  "shard_files es sh = length (filter (\<lambda>(name, f, content). perp_shard_of name = Some sh) (sealed_inputs es))"

definition meta_ok :: "dir_entry \<Rightarrow> bool" where
  "meta_ok e = (case e of (name, f, content) \<Rightarrow> is_perp_meta_file name \<longrightarrow>
     (\<exists>l\<in>{88, 120, 128, 136, 144, 152, 160, 176, 184, 192, 200}. read_sealed_payload_len content = Some l))"

lemma classify_unknown_iff:
  "classify_perp_meta x = UnknownSchema \<longleftrightarrow> \<not> (\<exists>l\<in>{88, 120, 128, 136, 144, 152, 160, 176, 184, 192, 200}. x = Some l)"
  by (auto simp: classify_perp_meta_def)

lemma sealed_inputs_simps:
  "sealed_inputs [] = []" "sealed_inputs (e # es) = (if is_sealed_input e then e # sealed_inputs es else sealed_inputs es)"
  by (simp_all add: sealed_inputs_def)

lemma length_sealed_inputs: "length (sealed_inputs es) \<le> length es"
  by (simp add: sealed_inputs_def)

text \<open>The tally of a listing, added to the tally it starts from.\<close>

lemma tally_bytes:
  "tl_bytes t + sealed_total es < 2 ^ 64 \<Longrightarrow> tl_bytes (fold tally_entry es t) = tl_bytes t + sealed_total es"
proof (induction es arbitrary: t)
  case (Cons e es)
  obtain name f content where e: "e = (name, f, content)" by (cases e)
  show ?case
  proof (cases "is_sealed_input e")
    case True
    then have "tl_bytes t + length content + sealed_total es < 2 ^ 64" using Cons.prems e by (simp add: sealed_total_def sealed_inputs_simps)
    moreover from this have "tl_bytes (tally_entry e t) = tl_bytes t + length content" using True e by (simp add: tally_entry_def wrap_simps)
    ultimately show ?thesis using Cons.IH [of "tally_entry e t"] True e by (simp add: sealed_total_def sealed_inputs_simps)
  next
    case False
    then have "tally_entry e t = t" by (simp add: tally_entry_def)
    then show ?thesis using Cons.IH [of t] Cons.prems False by (simp add: sealed_total_def sealed_inputs_simps)
  qed
qed (simp add: sealed_total_def sealed_inputs_simps)

lemma tally_files:
  "tl_files t + length es < 2 ^ 64 \<Longrightarrow> tl_files (fold tally_entry es t) = tl_files t + length (sealed_inputs es)"
proof (induction es arbitrary: t)
  case (Cons e es)
  obtain name f content where e: "e = (name, f, content)" by (cases e)
  have "tl_files (tally_entry e t) = tl_files t + (if is_sealed_input e then 1 else 0)"
    using Cons.prems e by (auto simp: tally_entry_def u64_add_def)
  then show ?case using Cons.IH [of "tally_entry e t"] Cons.prems by (auto simp: sealed_inputs_simps)
qed (simp add: sealed_inputs_simps)

lemma tally_findings:
  "tl_findings (fold tally_entry es t) = tl_findings t @ map (\<lambda>(name, f, content).
     \<lparr>mf_file = name, mf_payload_len = read_sealed_payload_len content, mf_schema = classify_perp_meta (read_sealed_payload_len content)\<rparr>)
     (filter (\<lambda>(name, f, content). is_perp_meta_file name) (sealed_inputs es))"
  by (induction es arbitrary: t) (auto simp: sealed_inputs_simps tally_entry_def split: prod.splits)

definition shard_count :: "(nat, nat) btree \<Rightarrow> nat \<Rightarrow> nat" where
  "shard_count m sh = (case bt_get m sh of Some n \<Rightarrow> n | None \<Rightarrow> 0)"

lemma tally_entry_shards:
  assumes "bt_ok (tl_by_shard t)" "\<And>k. shard_count (tl_by_shard t) k + 1 < 2 ^ 64"
  shows "bt_ok (tl_by_shard (tally_entry e t))"
    "shard_count (tl_by_shard (tally_entry e t)) sh = shard_count (tl_by_shard t) sh + shard_files [e] sh"
proof -
  obtain name f content where e: "e = (name, f, content)" by (cases e)
  show "bt_ok (tl_by_shard (tally_entry e t))"
    using assms(1) by (auto simp: e tally_entry_def bt_upsert_ok split: option.splits)
  have "u64_add (shard_count (tl_by_shard t) k) 1 = shard_count (tl_by_shard t) k + 1" for k
    using assms(2) [of k] by (simp add: u64_add_def)
  then show "shard_count (tl_by_shard (tally_entry e t)) sh = shard_count (tl_by_shard t) sh + shard_files [e] sh"
    using assms(1)
    by (auto simp: e tally_entry_def shard_files_def sealed_inputs_simps shard_count_def bt_get_upsert split: option.splits)
qed

lemma shard_files_Cons: "shard_files (e # es) sh = shard_files [e] sh + shard_files es sh"
  by (simp add: shard_files_def sealed_inputs_simps)

lemma shard_files_one: "shard_files [e] sh \<le> 1"
  by (simp add: shard_files_def sealed_inputs_simps split: prod.splits)

lemma tally_shards:
  assumes "bt_ok (tl_by_shard t)" "\<And>k. shard_count (tl_by_shard t) k + length es < 2 ^ 64"
  shows "bt_ok (tl_by_shard (fold tally_entry es t))
    \<and> shard_count (tl_by_shard (fold tally_entry es t)) sh = shard_count (tl_by_shard t) sh + shard_files es sh"
  using assms
proof (induction es arbitrary: t)
  case (Cons e es)
  have room: "shard_count (tl_by_shard t) k + 1 < 2 ^ 64" for k using Cons.prems(2) [of k] by simp
  note step = tally_entry_shards [OF Cons.prems(1) room, of e]
  have "shard_count (tl_by_shard (tally_entry e t)) k + length es < 2 ^ 64" for k
    using Cons.prems(2) [of k] step(2) [of k] shard_files_one [of e k] by simp
  from Cons.IH [OF step(1) this] show ?case
    using step(2) [of sh] shard_files_Cons [of e es sh] by simp
qed (simp add: shard_files_def sealed_inputs_simps)

lemma fold_max_le: "fold max xs (a :: nat) \<le> b \<longleftrightarrow> a \<le> b \<and> (\<forall>x\<in>set xs. x \<le> b)"
  by (induction xs arbitrary: a) auto

lemma max_values_le:
  assumes "bt_ok m"
  shows "fold max (bt_values m) 0 \<le> b \<longleftrightarrow> (\<forall>sh. shard_count m sh \<le> (b :: nat))"
proof -
  have "distinct (map fst m)" using assms by (rule bt_ok_distinct)
  then have "x \<in> set (bt_values m) \<longleftrightarrow> (\<exists>sh. bt_get m sh = Some x)" for x
    by (force simp: bt_values_def bt_get_def dest: map_of_SomeD)
  then show ?thesis unfolding fold_max_le shard_count_def by (auto split: option.splits)
qed

lemma unmigratable_none:
  "length (filter (\<lambda>f. mf_schema f = UnknownSchema) (sort_key mf_file fs)) \<le> 0 \<longleftrightarrow> (\<forall>f\<in>set fs. mf_schema f \<noteq> UnknownSchema)"
  by (auto simp: filter_empty_conv)

lemma metas_ok_iff:
  "(\<forall>f\<in>set (tl_findings (fold tally_entry es empty_tally)). mf_schema f \<noteq> UnknownSchema)
     \<longleftrightarrow> (\<forall>e\<in>set (sealed_inputs es). meta_ok e)"
  unfolding tally_findings meta_ok_def by (auto simp: empty_tally_def classify_unknown_iff)

text \<open>
  C38. The capacity check passes exactly when every limit holds: the estimated payload fits
  the export buffer, three times the estimate fits the enclave heap, there are at most 512 files and
  at most 200 of one shard, and every meta file has a known plaintext length. The listing is assumed
  to be one whose files number and total size fit a 64-bit counter.
\<close>

theorem capacity_gate_iff:
  assumes "length es < 2 ^ 64" "sealed_total es < 2 ^ 64"
  shows "(\<exists>r. assess_and_gate (Some es) = Ok r) \<longleftrightarrow>
     estimate_payload (sealed_total es) (length (sealed_inputs es)) \<le> 16 * 1024 * 1024
     \<and> u64_saturating_mul (estimate_payload (sealed_total es) (length (sealed_inputs es))) 3 \<le> 64 * 1024 * 1024
     \<and> length (sealed_inputs es) \<le> 512
     \<and> (\<forall>sh. shard_files es sh \<le> 200)
     \<and> (\<forall>e\<in>set (sealed_inputs es). meta_ok e)"
proof -
  define t where "t = fold tally_entry es empty_tally"
  have b: "tl_bytes t = sealed_total es" using tally_bytes [of empty_tally es] assms(2) by (simp add: t_def empty_tally_def)
  have n: "tl_files t = length (sealed_inputs es)" using tally_files [of empty_tally es] assms(1) by (simp add: t_def empty_tally_def)
  have "bt_ok (tl_by_shard t) \<and> shard_count (tl_by_shard t) sh = shard_files es sh" for sh
    using tally_shards [of empty_tally es sh] assms(1) by (simp add: t_def empty_tally_def shard_count_def bt_get_def)
  then have s: "fold max (bt_values (tl_by_shard t)) 0 \<le> 200 \<longleftrightarrow> (\<forall>sh. shard_files es sh \<le> 200)"
    using max_values_le [of "tl_by_shard t" 200] by simp
  have u: "length (filter (\<lambda>f. mf_schema f = UnknownSchema) (sort_key mf_file (tl_findings t))) \<le> 0
      \<longleftrightarrow> (\<forall>e\<in>set (sealed_inputs es). meta_ok e)"
    unfolding unmigratable_none t_def metas_ok_iff ..
  show ?thesis
    unfolding s [symmetric] u [symmetric] b [symmetric] n [symmetric]
    by (simp add: assess_and_gate_def assess_accounts_dir_def Let_def t_def [symmetric] capacity_report_ok_def capacity_check_new_def
        EXPORT_CIPHER_BUF_BYTES_def ENCLAVE_HEAP_MAX_BYTES_def MANIFEST_MAX_FILES_def PERP_STATE_MAX_FILES_PER_SHARD_def
        HEAP_PEAK_FACTOR_def)
qed

theorem capacity_gate_iff_witness:
  "length [(''s0_perp_meta.sealed'', True, [] :: bytes)] < 2 ^ 64
   \<and> sealed_total [(''s0_perp_meta.sealed'', True, [] :: bytes)] < 2 ^ 64
   \<and> \<not> (\<exists>r. assess_and_gate (Some [(''s0_perp_meta.sealed'', True, [] :: bytes)]) = Ok r)"
proof -
  let ?es = "[(''s0_perp_meta.sealed'', True, [] :: bytes)]"
  have a: "length ?es < 2 ^ 64" "sealed_total ?es < 2 ^ 64" by (simp_all add: sealed_total_def sealed_inputs_def split: prod.splits)
  have sealed: "(''s0_perp_meta.sealed'', True, []) \<in> set (sealed_inputs ?es)"
    by (simp add: sealed_inputs_def is_sealed_input_def) code_simp
  have bad: "\<not> meta_ok (''s0_perp_meta.sealed'', True, [])"
  proof -
    have "is_perp_meta_file ''s0_perp_meta.sealed''" by code_simp
    then show ?thesis by (simp add: meta_ok_def read_sealed_payload_len_def SEALED_PAYLOAD_SIZE_OFFSET_def)
  qed
  show ?thesis using a sealed bad capacity_gate_iff [OF a] by blast
qed

text \<open>
  The estimate takes 592 bytes per file for the seal, more than the 560 of the sealed
  header and the stamp together: for a single sealed file with a smaller header the estimate is below
  the plaintext length that the header itself records.
\<close>

theorem capacity_underestimates:
  assumes "is_sealed_input (name, True, content)"
    and "read_sealed_payload_len content = Some pl" "592 < length content" "length content < pl + 592" "length content < 2 ^ 64"
  shows "\<exists>r. assess_accounts_dir (Some [(name, True, content)]) = Ok r \<and> cr_est_payload_bytes r < pl"
proof -
  have t: "tl_bytes (fold tally_entry [(name, True, content)] empty_tally) = length content"
    using tally_bytes [of empty_tally "[(name, True, content)]"] assms by (simp add: empty_tally_def sealed_total_def sealed_inputs_def)
  have n: "tl_files (fold tally_entry [(name, True, content)] empty_tally) = 1"
    using tally_files [of empty_tally "[(name, True, content)]"] assms(1) by (simp add: empty_tally_def sealed_inputs_def)
  have "estimate_payload (length content) 1 < pl"
    using assms by (simp add: estimate_payload_def u64_saturating_mul_def SEAL_OVERHEAD_BYTES_def u64_saturating_sub_def Let_def)
  then show ?thesis using t n by (simp add: assess_accounts_dir_def Let_def)
qed

definition short_header :: bytes where
  "short_header = replicate 512 0 @ [232, 3, 0, 0] @ replicate 12 0 @ [232, 3, 0, 0] @ replicate 1028 0"

theorem capacity_underestimates_witness:
  "\<exists>r. assess_accounts_dir (Some [(''a.account'', True, short_header)]) = Ok r \<and> cr_est_payload_bytes r < 1000"
proof (rule capacity_underestimates)
  show "is_sealed_input (''a.account'', True, short_header)" by (simp add: is_sealed_input_def ends_with_def) code_simp
  have u: "read_u32_le short_header 512 = 1000" "read_u32_le short_header 528 = 1000"
    by (simp_all add: read_u32_le_def short_header_def)
  show "read_sealed_payload_len short_header = Some 1000"
    unfolding read_sealed_payload_len_def PLAIN_TEXT_OFFSET_def SEALED_PAYLOAD_SIZE_OFFSET_def u
    by (simp add: short_header_def Let_def SEAL_SECTION_STAMP_MAX_def SEAL_HEADER_MIN_def SEAL_HEADER_MAX_def)
qed (simp_all add: short_header_def)

end
