(* ===== verification/PathA_Props.thy ===== *)
theory PathA_Props
  imports PathADriver PathACapacity_Props
begin

text \<open>
  What a migration does to the outside: a rehearsal never asks the old enclave to retire and acts on the
  slot of the new enclave only; a real run retires the old enclave only after the chain of calls.
\<close>

section \<open>Steps that keep a predicate of the state\<close>

definition keeps :: "('s \<Rightarrow> bool) \<Rightarrow> ('s \<Rightarrow> 'r \<times> 's) \<Rightarrow> bool" where
  "keeps Q f \<longleftrightarrow> (\<forall>s. Q s \<longrightarrow> Q (snd (f s)))"

lemma keepsD: "keeps Q f \<Longrightarrow> Q s \<Longrightarrow> Q (snd (f s))"
  by (simp add: keeps_def)

lemma keeps_and_then: "keeps Q f \<Longrightarrow> (\<And>x. keeps Q (g x)) \<Longrightarrow> keeps Q (and_then f g)"
  by (fastforce simp: keeps_def and_then_def split: prod.splits sum.splits)

lemma keeps_pure: "keeps Q (pure r)"
  by (simp add: keeps_def pure_def)

lemma keeps_enter: "keeps (\<lambda>s. Q (fst s)) (enter ph)"
  by (simp add: keeps_def enter_def)

lemma keeps_calling: "keeps Q f \<Longrightarrow> keeps (\<lambda>s. Q (fst s)) (calling f)"
  by (auto simp: keeps_def calling_def split: prod.splits)

lemma keeps_nonce: "keeps Q (\<lambda>w. (Ok (n w), w))"
  by (simp add: keeps_def)

lemma and_then_Ok: "and_then f g s = (Inr y, t) \<longleftrightarrow> (\<exists>x s1. f s = (Inr x, s1) \<and> g x s1 = (Inr y, t))"
  by (auto simp: and_then_def split: prod.splits sum.splits)

lemma calling_Ok: "calling f s = (Inr x, t) \<longleftrightarrow> f (fst s) = (Inr x, fst t) \<and> snd t = snd s"
  by (cases t) (auto simp: calling_def split: prod.splits)

lemma enter_Ok: "enter ph s = (Inr x, t) \<longleftrightarrow> t = (fst s, ph)"
  by (auto simp: enter_def)

lemma pure_Ok: "pure r s = (Inr x, t) \<longleftrightarrow> r = Inr x \<and> t = s"
  by (auto simp: pure_def)

lemmas steps_Ok = and_then_Ok calling_Ok enter_Ok pure_Ok

section \<open>The driver over any enclaves\<close>

text \<open>Calls other than the confirmation keep a predicate; then so does a rehearsal.\<close>

locale rehearsable =
  fixes api :: "'s enclave_api" and quiet :: "'s \<Rightarrow> bool"
  assumes target: "keeps quiet (get_target_info api b)"
    and keypair: "keeps quiet (generate_keypair api b m n t)"
    and delegation: "keeps quiet (collect_delegation_bundle api m n)"
    and exporting: "keeps quiet (export_state api b t l m n pk d dr)"
    and importing: "keeps quiet (import_state api b t l n ct pk tg)"
begin

lemmas calls = target keypair delegation exporting importing

lemma dry_run_keeps:
  assumes "cp_dry_run p"
  shows "keeps (\<lambda>s. quiet (fst s)) (run_inner L nonce_of api p)"
  unfolding run_inner_def using assms
  by (auto simp: Let_def split_beta intro!: keeps_and_then keeps_pure keeps_enter keeps_calling keeps_nonce calls)

lemma dry_run_ceremony_keeps:
  assumes "cp_dry_run p" "quiet w" "run_ceremony L nonce_of api p (w, ph) = (r, w', ph')"
  shows "quiet w'"
proof -
  have "quiet (fst (snd (run_inner L nonce_of api p (w, ph))))"
    using keepsD [OF dry_run_keeps [OF assms(1)], of "(w, ph)"] assms(2) by simp
  then show ?thesis using assms(3) by (auto simp: run_ceremony_def split: prod.splits sum.splits)
qed

end

lemma success_dry_run:
  assumes "run_ceremony L nonce_of api p s = (Inr x, t)"
  shows "cs_dry_run x = cp_dry_run p"
proof -
  obtain w ph where t: "t = (w, ph)" by (cases t)
  have "run_inner L nonce_of api p s = (Inr x, w, ph)"
    using assms t by (auto simp: run_ceremony_def split: prod.splits sum.splits)
  then show ?thesis by (auto simp: run_inner_def steps_Ok Let_def split_beta split: if_splits)
qed

section \<open>The client over HTTP\<close>

definition is_confirmation :: "pa_effect \<Rightarrow> bool" where
  "is_confirmation e \<longleftrightarrow> (\<exists>b body. e = Posted (b @ ''/v1/path-a/verify-confirmation'') body)"

definition acts_on_slot :: "enclave_slot \<Rightarrow> pa_effect \<Rightarrow> bool" where
  "acts_on_slot slot e = (case e of
     Systemctl verb u \<Rightarrow> u = slot_unit slot
   | FileRemoved path \<Rightarrow> starts_with (deploy_dir slot @ ''/accounts/'') path
   | _ \<Rightarrow> True)"

definition reversible :: "enclave_slot \<Rightarrow> pa_effect \<Rightarrow> bool" where
  "reversible slot e \<longleftrightarrow> \<not> is_confirmation e \<and> acts_on_slot slot e"

definition extends_reversibly :: "enclave_slot \<Rightarrow> pa_log \<Rightarrow> pa_log \<Rightarrow> bool" where
  "extends_reversibly slot log log' \<longleftrightarrow> (\<exists>new. log' = log @ new \<and> list_all (reversible slot) new)"

lemma extends_refl: "extends_reversibly slot log log"
  by (simp add: extends_reversibly_def)

lemma extends_snoc: "extends_reversibly slot log log' \<Longrightarrow> reversible slot e \<Longrightarrow> extends_reversibly slot log (log' @ [e])"
  by (auto simp: extends_reversibly_def)

lemma call_keeps:
  assumes "\<not> (\<exists>b. base @ ''/v1/path-a/'' @ route = b @ ''/v1/path-a/verify-confirmation'')"
  shows "keeps (extends_reversibly slot log) (path_a_call E base route body names parse)"
  using assms by (auto simp: keeps_def path_a_call_def Let_def reversible_def is_confirmation_def acts_on_slot_def intro!: extends_snoc)

lemma other_route: "last route \<noteq> CHR ''n'' \<Longrightarrow> route \<noteq> [] \<Longrightarrow>
    \<not> (\<exists>b. base @ ''/v1/path-a/'' @ route = b @ ''/v1/path-a/verify-confirmation'')"
proof
  assume route: "last route \<noteq> CHR ''n''" "route \<noteq> []"
  assume "\<exists>b. base @ ''/v1/path-a/'' @ route = b @ ''/v1/path-a/verify-confirmation''"
  then obtain b where "base @ ''/v1/path-a/'' @ route = b @ ''/v1/path-a/verify-confirmation''" by blast
  then have "last (base @ ''/v1/path-a/'' @ route) = last (b @ ''/v1/path-a/verify-confirmation'')" by (rule arg_cong)
  then show False using route by simp
qed

lemma collect_keeps: "keeps (extends_reversibly slot log) (delegation_collect E timeout m n)"
  by (auto simp: keeps_def delegation_collect_def Let_def reversible_def is_confirmation_def acts_on_slot_def
      split: prod.splits intro!: extends_snoc)

interpretation production: rehearsable "composed_enclave_api (http_enclave_api E) (delegation_collect E timeout)" "extends_reversibly slot log"
  for E timeout slot log
  by unfold_locales
    (simp_all add: composed_enclave_api_def http_enclave_api_def http_get_target_info_def http_generate_keypair_def
      http_export_state_def http_import_state_def call_keeps other_route collect_keeps)

section \<open>Boot check and clean-up\<close>

lemma systemctl_keeps: "keeps (extends_reversibly slot log) (sudo_systemctl E verb (slot_unit slot))"
  by (auto simp: keeps_def sudo_systemctl_def reversible_def is_confirmation_def acts_on_slot_def intro!: extends_snoc)

lemma remove_files_keeps: "keeps (extends_reversibly slot log) (remove_files E (deploy_dir slot @ ''/accounts'') listing)"
proof -
  have "extends_reversibly slot log l \<Longrightarrow> extends_reversibly slot log (snd (remove_files E (deploy_dir slot @ ''/accounts'') listing l))" for l
  proof (induction listing arbitrary: l)
    case (Cons f fs)
    have "reversible slot (FileRemoved (deploy_dir slot @ ''/accounts'' @ ''/'' @ fst f))"
      using starts_with_append [of "deploy_dir slot @ ''/accounts/''" "fst f"]
      by (simp add: reversible_def is_confirmation_def acts_on_slot_def)
    then show ?case using Cons by (cases f) (auto intro!: Cons.IH extends_snoc)
  qed simp
  then show ?thesis by (simp add: keeps_def)
qed

lemma keeps_return: "keeps Q (\<lambda>l. (Ok (f l), l))"
  by (simp add: keeps_def)

lemma boot_keeps: "keeps (extends_reversibly slot log) (boot_new_on_migrated_state E slot port old)"
  unfolding keeps_def boot_new_on_migrated_state_def Let_def
  by (intro allI impI, rule keepsD) (intro keeps_and_then systemctl_keeps keeps_return, assumption)

lemma reset_keeps: "keeps (extends_reversibly slot log) (reset_new_side_after_dry_run E slot)"
proof -
  have "keeps (extends_reversibly slot log) (\<lambda>l. case pe_dir E l (deploy_dir slot @ ''/accounts'') of
      Some listing \<Rightarrow> remove_files E (deploy_dir slot @ ''/accounts'') listing l | None \<Rightarrow> (Ok (), l))"
    using remove_files_keeps by (fastforce simp: keeps_def split: option.splits)
  then show ?thesis unfolding reset_new_side_after_dry_run_def
    by (intro keeps_and_then systemctl_keeps)
qed

lemma after_dry_run_keeps:
  assumes "extends_reversibly new log l" "after_dry_run E old new port l = (r, l')"
  shows "extends_reversibly new log l'"
proof -
  obtain b l1 where b: "boot_new_on_migrated_state E new port old l = (b, l1)" by fastforce
  have l1: "extends_reversibly new log l1" using keepsD [OF boot_keeps assms(1), of E port old] b by simp
  obtain c l2 where c: "reset_new_side_after_dry_run E new l1 = (c, l2)" by fastforce
  have "extends_reversibly new log l2" using keepsD [OF reset_keeps l1, of E] c by simp
  then show ?thesis using assms(2) b c l1 by (auto simp: after_dry_run_def split: sum.splits)
qed

section \<open>The route\<close>

lemma ports_ok:
  assumes "migration_ports E old_base new_base own_base = Inr (old_port, new_port)"
  shows "port_of_base E old_base = Ok old_port" "port_of_base E new_base = Ok new_port"
    "new_port \<noteq> old_port" "port_of_base E own_base \<noteq> Ok new_port"
  using assms by (auto simp: migration_ports_def result_bind_Ok_iff check_migration_ports_def split: if_splits)

lemma slots_ok:
  assumes "migration_slots E log old_port new_port = Inr (old_slot, new_slot)"
  shows "resolve_slot_with old_port (pe_config E log) = Ok old_slot" "resolve_slot_with new_port (pe_config E log) = Ok new_slot"
    "old_slot \<noteq> new_slot"
  using assms by (auto simp: migration_slots_def result_bind_Ok_iff split: if_splits)

lemma drive_keeps:
  assumes "cp_dry_run p" "drive_migration E timeout p (Some (old, new)) port log = (r, log')"
  shows "extends_reversibly new log log'"
proof -
  obtain x l1 ph where run: "run_ceremony (pe_lib E) (pe_nonce E)
      (composed_enclave_api (http_enclave_api E) (delegation_collect E timeout)) p (log, Idle) = (x, l1, ph)" by (metis prod_cases3)
  have l1: "extends_reversibly new log l1"
    by (rule production.dry_run_ceremony_keeps [OF assms(1) extends_refl run])
  show ?thesis
    using assms(2) run l1 after_dry_run_keeps [OF l1, of E old port]
    by (auto simp: drive_migration_def split: sum.splits if_splits prod.splits)
qed

text \<open>
  C39. A rehearsal is reversible. Whatever the enclaves and the node answer, a migration request
  with the rehearsal flag either does nothing at all, or has resolved the slot of the new enclave from
  a port that is neither that of the old enclave nor that of the enclave the node serves, never asks
  any enclave to verify the import, and stops, starts and removes files of the new slot only.
\<close>

theorem rehearsal_reversible:
  assumes "rq_dry_run rq = Some True" "handle_migrate_state E st rq log = (r, log')"
  shows "log' = log \<or> (\<exists>old_port new_port old_slot new_slot.
      port_of_base E (case rq_old_api_base rq of Some b \<Rightarrow> b | None \<Rightarrow> default_old_api_base st) = Ok old_port
      \<and> port_of_base E (case rq_new_api_base rq of Some b \<Rightarrow> b | None \<Rightarrow> default_new_api_base st) = Ok new_port
      \<and> new_port \<noteq> old_port \<and> port_of_base E (own_enclave_base st) \<noteq> Ok new_port
      \<and> resolve_slot_with old_port (pe_config E log) = Ok old_slot
      \<and> resolve_slot_with new_port (pe_config E log) = Ok new_slot \<and> old_slot \<noteq> new_slot
      \<and> extends_reversibly new_slot log log')"
proof -
  let ?old = "case rq_old_api_base rq of Some b \<Rightarrow> b | None \<Rightarrow> default_old_api_base st"
  let ?new = "case rq_new_api_base rq of Some b \<Rightarrow> b | None \<Rightarrow> default_new_api_base st"
  show ?thesis
  proof (cases "migration_ports E ?old ?new (own_enclave_base st)")
    case (Inl e)
    then show ?thesis using assms by (simp add: handle_migrate_state_def Let_def)
  next
    case (Inr ps)
    obtain old_port new_port where ps: "ps = (old_port, new_port)" by (cases ps)
    note ports = ports_ok [OF Inr [unfolded ps]]
    show ?thesis
    proof (cases "migration_slots E log old_port new_port")
      case (Inl e)
      then show ?thesis using assms Inr ps by (simp add: handle_migrate_state_def Let_def)
    next
      case slots: (Inr ss)
      obtain old_slot new_slot where ss: "ss = (old_slot, new_slot)" by (cases ss)
      note slot = slots_ok [OF slots [unfolded ss]]
      have "log' = log \<or> extends_reversibly new_slot log log'"
        using assms Inr ps slots ss
        by (auto simp: handle_migrate_state_def Let_def split: if_splits dest!: drive_keeps [rotated])
      then show ?thesis using ports slot by blast
    qed
  qed
qed

lemma real_run_chain:
  assumes "run_ceremony L nonce_of api p (w, ph) = (Inr x, w', ph')" "\<not> cp_dry_run p"
  shows "\<exists>mre n ti_old ti_new pk la bundle ex completion w1 w2 w3 w4.
      decode_hex_32 L (expected_mrenclave_new p) = Some mre \<and> n = nonce_of w
      \<and> collect_delegation_bundle api mre n w1 = (Ok bundle, w2)
      \<and> export_state api (old_api_base p) ti_new la mre n pk bundle False w2 = (Ok ex, w3)
      \<and> 44 \<le> length (ex_ciphertext ex)
      \<and> import_state api (new_api_base p) ti_old (ex_la_report_old ex) n (ex_ciphertext ex) (ex_ephemeral_pk ex) (ex_tag ex) w3 = (Ok completion, w4)
      \<and> verify_import_confirmation api (old_api_base p) completion (sha256 L (ex_ciphertext ex)) n (take 32 (ex_ciphertext ex)) w4 = (Ok (), w')"
proof -
  have "run_inner L nonce_of api p (w, ph) = (Inr x, w', ph')"
    using assms(1) by (auto simp: run_ceremony_def split: prod.splits sum.splits)
  then show ?thesis using assms(2)
    apply (clarsimp simp: run_inner_def steps_Ok Let_def vec_to_array_432_def split: if_splits option.splits)
    apply (intro exI conjI; (assumption | rule refl | simp))
    done
qed

lemma after_dry_run_status: "after_dry_run E old new port l = ((st, bp, bf, fu), l') \<Longrightarrow> st \<noteq> ''ok''"
  by (auto simp: after_dry_run_def split: sum.splits prod.splits)

text \<open>What the route ran when it replies with a success.\<close>

lemma handled_reply:
  assumes "handle_migrate_state E st rq log = (MigrateReply resp, log')"
  obtains p timeout x l1 ph where
    "expected_mrenclave_new p = rq_expected_mrenclave_new rq" "port_of_base E (new_api_base p) \<noteq> port_of_base E (old_api_base p)"
    "run_ceremony (pe_lib E) (pe_nonce E) (composed_enclave_api (http_enclave_api E) (delegation_collect E timeout)) p (log, Idle) = (Inr x, l1, ph)"
    "\<not> cp_dry_run p \<and> mr_status resp = ''ok'' \<and> log' = l1
     \<or> cp_dry_run p \<and> (\<exists>old new port. after_dry_run E old new port l1
          = ((mr_status resp, mr_boot_proof resp, mr_boot_failure resp, mr_followups resp), log'))"
proof -
  let ?old = "case rq_old_api_base rq of Some b \<Rightarrow> b | None \<Rightarrow> default_old_api_base st"
  let ?new = "case rq_new_api_base rq of Some b \<Rightarrow> b | None \<Rightarrow> default_new_api_base st"
  let ?dry = "case rq_dry_run rq of Some b \<Rightarrow> b | None \<Rightarrow> False"
  define p where "p = \<lparr>expected_mrenclave_new = rq_expected_mrenclave_new rq, old_api_base = ?old, new_api_base = ?new, cp_dry_run = ?dry\<rparr>"
  define timeout where "timeout = (case rq_delegation_timeout_secs rq of Some secs \<Rightarrow> secs * 1000 | None \<Rightarrow> DELEGATION_TIMEOUT)"
  obtain old_port new_port slots where ports: "migration_ports E ?old ?new (own_enclave_base st) = Inr (old_port, new_port)"
    and slots: "(if ?dry then map_sum id Some (migration_slots E log old_port new_port) else Ok None) = Inr slots"
    and drive: "drive_migration E timeout p slots new_port log = (MigrateReply resp, log')"
    using assms unfolding handle_migrate_state_def Let_def p_def timeout_def
    by (auto split: sum.splits prod.splits if_splits)
  obtain x l1 ph where run: "run_ceremony (pe_lib E) (pe_nonce E)
      (composed_enclave_api (http_enclave_api E) (delegation_collect E timeout)) p (log, Idle) = (Inr x, l1, ph)"
    using drive by (auto simp: drive_migration_def split: sum.splits prod.splits)
  have dry: "cs_dry_run x = ?dry" using success_dry_run [OF run] by (simp add: p_def)
  have "\<not> cp_dry_run p \<and> mr_status resp = ''ok'' \<and> log' = l1
     \<or> cp_dry_run p \<and> (\<exists>old new port. after_dry_run E old new port l1
          = ((mr_status resp, mr_boot_proof resp, mr_boot_failure resp, mr_followups resp), log'))"
  proof (cases ?dry)
    case True
    then obtain old new where "slots = Some (old, new)"
      using slots by (cases "migration_slots E log old_port new_port") auto
    then have "after_dry_run E old new new_port l1
        = ((mr_status resp, mr_boot_proof resp, mr_boot_failure resp, mr_followups resp), log')"
      using True drive run dry by (auto simp: drive_migration_def split: prod.splits)
    then show ?thesis using True by (simp add: p_def) blast
  next
    case False
    then have "slots = None" using slots by auto
    then show ?thesis using False drive run dry by (auto simp: drive_migration_def p_def)
  qed
  then show thesis using that [of p timeout x l1 ph] run ports_ok [OF ports] by (simp add: p_def)
qed


lemma judged_sound:
  assumes "judge_boot_proof p = Ok ()"
  shows "1 < sealed_files_before p" "sealed_files_after p = sealed_files_before p" "came_back p" "load_refusal p = None"
    "post_migration_marker p"
    "set (missing_from_new p) \<subseteq> {''recent_nonces.sealed'', ''path_a_retired.sealed'', ''trusted_mrenclaves.sealed''}
       \<union> {n. is_write_only_baseline_marker n}"
  using assms
  by (auto simp: judge_boot_proof_def MAY_BE_ABSENT_FROM_NEW_def ABSENT_BUT_MUST_BE_REESTABLISHED_def filter_empty_conv
      split: if_splits)

text \<open>
  A rehearsal passes only if the new enclave came back on more than one sealed file, left
  the set unchanged, printed no refusal, said that it verified the manifest, and lacks no file of the
  old enclave but the two that may be absent, the audit marker of a shard and the allowlist, which is
  then handed to the operator as a follow-up.
\<close>

theorem rehearsal_pass_booted:
  assumes "handle_migrate_state E st rq log = (MigrateReply resp, log')" "mr_status resp = ''dry-run-ok''"
  shows "\<exists>p. mr_boot_proof resp = Some p \<and> 1 < sealed_files_before p \<and> sealed_files_after p = sealed_files_before p
     \<and> came_back p \<and> load_refusal p = None \<and> post_migration_marker p
     \<and> set (missing_from_new p) \<subseteq> {''recent_nonces.sealed'', ''path_a_retired.sealed'', ''trusted_mrenclaves.sealed''}
          \<union> {n. is_write_only_baseline_marker n}
     \<and> (''trusted_mrenclaves.sealed'' \<in> set (missing_from_new p) \<longleftrightarrow> ''trusted_mrenclaves.sealed'' \<in> set (mr_followups resp))"
proof -
  from assms(1) obtain p timeout x l1 ph where h: "expected_mrenclave_new p = rq_expected_mrenclave_new rq"
    "port_of_base E (new_api_base p) \<noteq> port_of_base E (old_api_base p)"
    "run_ceremony (pe_lib E) (pe_nonce E) (composed_enclave_api (http_enclave_api E) (delegation_collect E timeout)) p (log, Idle) = (Inr x, l1, ph)"
    "\<not> cp_dry_run p \<and> mr_status resp = ''ok'' \<and> log' = l1
     \<or> cp_dry_run p \<and> (\<exists>old new port. after_dry_run E old new port l1
          = ((mr_status resp, mr_boot_proof resp, mr_boot_failure resp, mr_followups resp), log'))"
    by (rule handled_reply)
  then obtain old new port where "after_dry_run E old new port l1
      = ((''dry-run-ok'', mr_boot_proof resp, mr_boot_failure resp, mr_followups resp), log')" using assms(2) by auto
  then obtain bp where bp: "mr_boot_proof resp = Some bp" "judge_boot_proof bp = Ok ()" "mr_followups resp = boot_followups bp"
    by (simp add: after_dry_run_def split: sum.splits prod.splits) (metis old.unit.exhaust)
  then show ?thesis using judged_sound [OF bp(2)] by (auto simp: boot_followups_def ABSENT_BUT_MUST_BE_REESTABLISHED_def)
qed

text \<open>
  The route never tells in which phase a ceremony failed: a reply that carries a state
  always carries the same one.
\<close>

theorem failed_phase_lost:
  assumes "handle_migrate_state E st rq log = (MigrateError code msg (Some label), log')"
  shows "label = ''failed''"
  using assms
  by (auto simp: handle_migrate_state_def Let_def drive_migration_def run_ceremony_def split: sum.splits prod.splits if_splits option.splits)

section \<open>A concrete node\<close>

definition demo_lib :: xrpl_lib where
  "demo_lib = sample_lib\<lparr>hex_dec := (\<lambda>s. Some (replicate (if length s = 64 then 32 else length s) 0))\<rparr>"

definition demo_reply :: json where
  "demo_reply = JObj [(''status'', JStr ''ok''), (''target_info_hex'', JStr (replicate 512 CHR ''0'')),
     (''peer_pk_compressed_hex'', JStr (replicate 33 CHR ''0'')), (''la_report_of_new_hex'', JStr (replicate 432 CHR ''0'')),
     (''ciphertext_hex'', JStr (replicate 44 CHR ''0'')), (''ephemeral_pk_hex'', JStr (replicate 33 CHR ''0'')),
     (''tag_hex'', JStr (replicate 16 CHR ''0'')), (''la_report_old_hex'', JStr (replicate 432 CHR ''0'')),
     (''completion_la_report_hex'', JStr (replicate 432 CHR ''0''))]"

definition demo_log_text :: "pa_effect \<Rightarrow> string" where
  "demo_log_text e = (case e of Systemctl v u \<Rightarrow> if v = ''start'' then ''migration manifest verified'' else [] | _ \<Rightarrow> [])"

definition demo_env :: "unit pa_env" where
  "demo_env = \<lparr>pe_lib = demo_lib, pe_post = (\<lambda>_ _ _. Body True demo_reply),
     pe_relay = (\<lambda>_ _ _. (True, [(0, Response '''' '''' (Some ''12345678'') (Some (replicate 33 CHR ''0'')) None)])),
     pe_nonce = (\<lambda>_. replicate 32 7), pe_systemctl = (\<lambda>_ _ _. True),
     pe_dir = (\<lambda>_ _. Some [(''a.account'', True), (''s0_perp_meta.sealed'', True)]),
     pe_read = (\<lambda>log _. Some (concat (map demo_log_text log))),
     pe_remove = (\<lambda>_ _. True), pe_version = (\<lambda>_ _. [(0, Some (JObj [(''mrenclave'', JStr ''m'')]))]),
     pe_url_port = (\<lambda>b. Some (Some (if b = ''new'' then 9089 else 9088))),
     pe_config = (\<lambda>_ path. Some (JObj [(''port'', JNum (if path = ''/home/azureuser/perp/config.json'' then 9088 else 9089))])),
     pe_client = True\<rparr>"

definition demo_admin :: migrate_admin where
  "demo_admin = \<lparr>default_old_api_base = ''old'', default_new_api_base = ''new'', own_enclave_base = ''old''\<rparr>"

definition demo_request :: "bool \<Rightarrow> migrate_state_request" where
  "demo_request dry = \<lparr>rq_expected_mrenclave_new = replicate 64 CHR ''a'', rq_old_api_base = None, rq_new_api_base = None,
     rq_delegation_timeout_secs = None, rq_dry_run = Some dry\<rparr>"

definition replied :: "string \<Rightarrow> migrate_reply \<times> pa_log \<Rightarrow> bool" where
  "replied st out = (case fst out of MigrateReply resp \<Rightarrow> mr_status resp = st | _ \<Rightarrow> False)"

lemmas demo_defs = demo_env_def demo_lib_def path_a_call_def Let_def decode_response_def envelope_of_def opt_i32_member_def
  opt_str_member_def demo_reply_def check_status_def hex_member_def require_field_def decode_hex_field_def ensure_len_def

text \<open>What the demonstration enclaves answer, whatever they are asked.\<close>

lemma demo_answers:
  "fst (http_get_target_info demo_env b log) = Ok (replicate 512 0)"
  "fst (http_generate_keypair demo_env b m n t log) = Ok (replicate 33 0, replicate 432 0)"
  "fst (http_export_state demo_env b t l m n pk d dr log) = Ok \<lparr>ex_ciphertext = replicate 44 0,
     ex_ephemeral_pk = replicate 33 0, ex_tag = replicate 16 0, ex_la_report_old = replicate 432 0\<rparr>"
  "fst (http_import_state demo_env b t l n ct pk tg log) = Ok (replicate 432 0)"
  "fst (http_verify_import_confirmation demo_env b c bh n mh log) = Ok ()"
  by (simp_all add: http_get_target_info_def http_generate_keypair_def http_export_state_def http_import_state_def
      http_verify_import_confirmation_def demo_defs)

lemma demo_collect: "fst (delegation_collect demo_env DELEGATION_TIMEOUT m n log) =
    Ok (build_delegation_bundle [(replicate 33 0, [0, 0, 0, 0, 0, 0, 0, 0])])"
  by (simp add: delegation_collect_def demo_env_def demo_lib_def Let_def parse_delegation_response_def push_entry_def DELEGATION_TIMEOUT_def)

lemma and_then_go: "fst (f s) = Inr v \<Longrightarrow> and_then f g s = g v (snd (f s))"
  by (cases "f s") (auto simp: and_then_def)

lemma fst_steps: "fst (calling f s) = fst (f (fst s))" "fst (enter ph s) = Ok ()" "fst (pure r s) = r"
  by (auto simp: calling_def enter_def pure_def split: prod.splits)

lemma demo_ports: "migration_ports demo_env ''old'' ''new'' ''old'' = Inr (9088, 9089)"
  by (simp add: migration_ports_def port_of_base_def demo_env_def check_migration_ports_def)

lemma demo_slots: "\<exists>old new. migration_slots demo_env log 9088 9089 = Inr (old, new)"
  by (simp add: migration_slots_def resolve_slot_with_def SLOTS_def demo_env_def port_from_config_json_def)

lemma demo_run:
  assumes "expected_mrenclave_new p = replicate 64 CHR ''a''"
  obtains x l ph where "run_ceremony (pe_lib demo_env) (pe_nonce demo_env)
     (composed_enclave_api (http_enclave_api demo_env) (delegation_collect demo_env DELEGATION_TIMEOUT)) p (log, Idle) = (Inr x, l, ph)"
proof -
  let ?run = "run_inner (pe_lib demo_env) (pe_nonce demo_env)
     (composed_enclave_api (http_enclave_api demo_env) (delegation_collect demo_env DELEGATION_TIMEOUT)) p (log, Idle)"
  have dec: "decode_hex_32 (pe_lib demo_env) (replicate 64 CHR ''a'') = Some (replicate 32 0)"
    by (simp add: decode_hex_32_def demo_env_def demo_lib_def)
  have "\<exists>x. fst ?run = Inr x"
    by (simp add: run_inner_def and_then_go fst_steps assms dec composed_enclave_api_def http_enclave_api_def demo_answers
        demo_collect vec_to_array_512_def vec_to_array_432_def vec_to_array_33_def Let_def)
  then obtain x l ph where "?run = (Inr x, l, ph)" by (metis prod.collapse)
  then show thesis using that by (simp add: run_ceremony_def)
qed

lemma demo_boot:
  "\<exists>l'. after_dry_run demo_env old new port l = ((''dry-run-ok'', Some \<lparr>sealed_files_before = 2, sealed_files_after = 2,
     came_back = True, mrenclave_after = Some ''m'', post_migration_marker = True, load_refusal = None,
     missing_from_new = [], extra_in_new = []\<rparr>, None, []), l')"
proof -
  have names: "file_names demo_env l d = [''a.account'', ''s0_perp_meta.sealed'']" for l d
    by (simp add: file_names_def demo_env_def) code_simp
  have marker: "str_contains ''migration manifest verified'' ''migration manifest verified''" by code_simp
  have quiet: "find (\<lambda>l. str_contains ''FATAL'' l \<or> str_contains ''perpLoadState failed'' l) (split_on (CHR 0x0A) ''migration manifest verified'') = None"
    by code_simp
  have ctl: "sudo_systemctl demo_env v u l = (Ok (), l @ [Systemctl v u])" for v u l by (simp add: sudo_systemctl_def demo_env_def)
  have printed: "pe_read demo_env l d = Some (concat (map demo_log_text l))" for l d by (simp add: demo_env_def)
  have ver: "curl_version_with_retry 60000 (pe_version demo_env l n) = Some ''m''" for l n by (simp add: demo_env_def json_index_def)
  have boot: "boot_new_on_migrated_state demo_env new port old l =
     (Ok \<lparr>sealed_files_before = 2, sealed_files_after = 2, came_back = True, mrenclave_after = Some ''m'', post_migration_marker = True,
        load_refusal = None, missing_from_new = [], extra_in_new = []\<rparr>,
      l @ [Systemctl ''stop'' (slot_unit new), Systemctl ''start'' (slot_unit new)])"
    by (simp add: boot_new_on_migrated_state_def Let_def and_then_def ctl names count_files_def ver printed demo_log_text_def marker quiet
        del: str_contains.simps split_on.simps find.simps)
  have rm: "fst (reset_new_side_after_dry_run demo_env new l) = Ok ()" for l
    by (simp add: reset_new_side_after_dry_run_def and_then_def ctl) (simp add: demo_env_def sudo_systemctl_def)
  show ?thesis using rm [of "l @ [Systemctl ''stop'' (slot_unit new), Systemctl ''start'' (slot_unit new)]"]
    by (auto simp: after_dry_run_def boot judge_boot_proof_def boot_followups_def split: prod.splits)
qed

lemma demo_outcome: "\<exists>resp log'. handle_migrate_state demo_env demo_admin (demo_request dry) [] = (MigrateReply resp, log')
    \<and> mr_status resp = (if dry then ''dry-run-ok'' else ''ok'')"
proof -
  let ?p = "\<lparr>expected_mrenclave_new = replicate 64 CHR ''a'', old_api_base = ''old'', new_api_base = ''new'', cp_dry_run = dry\<rparr>"
  have "expected_mrenclave_new ?p = replicate 64 CHR ''a''" by simp
  then obtain x l ph where run: "run_ceremony (pe_lib demo_env) (pe_nonce demo_env)
     (composed_enclave_api (http_enclave_api demo_env) (delegation_collect demo_env DELEGATION_TIMEOUT)) ?p ([], Idle) = (Inr x, l, ph)"
    by (rule demo_run)
  have client: "pe_client demo_env" by (simp add: demo_env_def)
  obtain old new where slots: "migration_slots demo_env [] 9088 9089 = Inr (old, new)" using demo_slots by blast
  obtain out l' where "after_dry_run demo_env old new 9089 l = ((''dry-run-ok'', out), l')"
    using demo_boot [of old new 9089 l] by blast
  then show ?thesis using run success_dry_run [OF run] client slots
    by (auto simp: handle_migrate_state_def Let_def demo_admin_def demo_request_def demo_ports drive_migration_def split: prod.splits)
qed
theorem rehearsal_reversible_witness:
  "\<exists>log' new_slot. log' = snd (handle_migrate_state demo_env demo_admin (demo_request True) [])
     \<and> (log' = [] \<or> resolve_slot_with 9089 (pe_config demo_env []) = Ok new_slot \<and> extends_reversibly new_slot [] log')"
proof -
  obtain resp log' where h: "handle_migrate_state demo_env demo_admin (demo_request True) [] = (MigrateReply resp, log')"
    using demo_outcome by blast
  have rq: "rq_dry_run (demo_request True) = Some True" by (simp add: demo_request_def)
  show ?thesis using rehearsal_reversible [OF rq h] h by (auto simp: demo_request_def demo_admin_def port_of_base_def demo_env_def)
qed


theorem rehearsal_pass_booted_witness:
  "\<exists>resp p. fst (handle_migrate_state demo_env demo_admin (demo_request True) []) = MigrateReply resp
     \<and> mr_boot_proof resp = Some p \<and> 1 < sealed_files_before p \<and> came_back p"
proof -
  obtain resp log' where h: "handle_migrate_state demo_env demo_admin (demo_request True) [] = (MigrateReply resp, log')"
    "mr_status resp = ''dry-run-ok''" using demo_outcome [of True] by auto
  show ?thesis using rehearsal_pass_booted [OF h] h(1) by auto
qed

theorem failed_phase_lost_witness:
  "fst (handle_migrate_state demo_env demo_admin ((demo_request False)\<lparr>rq_expected_mrenclave_new := ''x''\<rparr>) [])
     = MigrateError 400 ''expected_mrenclave_new not 64-char hex'' (Some ''failed'')"
proof -
  have "\<exists>label log'. handle_migrate_state demo_env demo_admin ((demo_request False)\<lparr>rq_expected_mrenclave_new := ''x''\<rparr>) []
      = (MigrateError 400 ''expected_mrenclave_new not 64-char hex'' (Some label), log')"
    by (simp add: handle_migrate_state_def Let_def demo_admin_def demo_request_def demo_ports drive_migration_def run_ceremony_def
        run_inner_def and_then_def enter_def pure_def decode_hex_32_def) (simp add: demo_env_def)
  then show ?thesis using failed_phase_lost by fastforce
qed

end
