(* ===== verification/Spec2Isabelle.thy ===== *)
theory Spec2Isabelle
  imports OrderBook_Props OrderBook_Life Election TxShamap Replay_Props SpvProof_Props Deposit_Props SignerList_Props ReservesBaseline_Props Auth_Props Frost_Serial DkgNet Bootstrap_Props PathA_Props
begin

text \<open>
  A verification development for the orchestrator of a perpetual-futures exchange on the XRP
  ledger (\<^verbatim>\<open>orchestrator/src\<close>). Users' orders reach a sequencer that matches them in a limit order
  book, settles every fill in an SGX enclave that holds the balances, and publishes each batch
  to validators, which check it and replay it in their own enclaves. Deposits and withdrawals
  are payments on the ledger: the orchestrator carries proofs of them to the enclave, which
  re-verifies every byte.

  \<^bold>\<open>Parts, theories and sources.\<close>

  \<^item> \<open>Prelude\<close>, \<open>Bytes\<close>, \<open>Json\<close>: machine integers with the wrap-around of the release build, results,
    the ordered map of the standard library with its laws as the locale \<open>ordered_map\<close>, byte
    encodings, JSON values with the accessors the sources use.
  \<^item> \<open>Fp8\<close> (\<^verbatim>\<open>types.rs\<close>): the fixed-point format at \<open>i64\<close> width, printer and parser.
  \<^item> \<open>RateLimit\<close> (\<^verbatim>\<open>rate_limit.rs\<close>): the sliding-window limiter.
  \<^item> \<open>OrderBook\<close> (\<^verbatim>\<open>orderbook.rs\<close>): every operation of the book; \<open>OrderBook_Match\<close> and \<open>OrderBook_Sweep\<close>
    refine the matching loops to one sweep over the crossing orders in price-time order,
    \<open>OrderBook_Inv\<close> carries the book invariant, \<open>OrderBook_Props\<close>, \<open>OrderBook_Cancel\<close> and
    \<open>OrderBook_Life\<close> hold the properties of submitting, cancelling, and of a whole book life
    with reload after a failover.
  \<^item> \<open>Election\<close> (\<^verbatim>\<open>election.rs\<close>, \<^verbatim>\<open>leader_gate.rs\<close>): the handlers of one node, a cluster over a lossy
    network as a step relation, and the gate a validator applies to the publisher of a batch.
  \<^item> \<open>Trading\<close>, \<open>Trading_Margin\<close> (\<^verbatim>\<open>trading.rs\<close>, the enclave calls of \<^verbatim>\<open>perp_client.rs\<close>): admission, margin
    reservation, matching, settlement and publication of one order.
  \<^item> \<open>Replay\<close>, \<open>Replay_Props\<close> (\<^verbatim>\<open>main.rs\<close>, \<^verbatim>\<open>p2p.rs\<close>, \<^verbatim>\<open>auth.rs\<close>, \<^verbatim>\<open>attested_clock.rs\<close>, \<^verbatim>\<open>db.rs\<close>): the validator's loop
    with every gate, and the composition of publication and replay.
  \<^item> \<open>TxShamap\<close> (\<^verbatim>\<open>tx_shamap.rs\<close>): the transaction tree of a ledger, inclusion paths and their check.
  \<^item> \<open>SpvProof\<close>, \<open>SpvProof_Props\<close> (\<^verbatim>\<open>spv_proof.rs\<close>): ledger header, wire nodes, account-state tree,
    validations and transport blobs; the locale \<open>codec\<close> is the contract of a self-delimiting
    encoding.
  \<^item> \<open>Deposit\<close>, \<open>Deposit_Props\<close> (\<^verbatim>\<open>deposit_spv.rs\<close>): the validation buffer, the deposit proof and the ledger
    scanner.
  \<^item> \<open>Withdrawal\<close>, \<open>Withdrawal_Props\<close> (\<^verbatim>\<open>withdrawal_reconcile.rs\<close>): the durable journal (the locale
    \<open>keyed_store\<close> is its contract), the verdict on one withdrawal, and the sweep.

  \<^bold>\<open>Parameters.\<close> Code outside the repository is an argument: the enclave as a function of its own
  state, the SHA-512 function (only the length of its digest is assumed), signatures, base58,
  hex and the JSON parser, the XRPL node and the clock. Log lines, metrics, sleeping and task
  scheduling are left out; a panic of a task is an explicit outcome.

  \<^bold>\<open>Bounds.\<close> Integers are kept at their width with the wrap-around written out (\<open>wrap_i64\<close>, \<open>u64_add\<close>,
  \<open>mod\<close>). Every loop of the model is a terminating function; no fuel is used.
\<close>

end
